(* ===== verification/Prelude.thy ===== *)
theory Prelude
  imports Complex_Main "HOL-Library.Char_ord" "HOL-Library.List_Lexorder"
begin

text \<open>
  Shared vocabulary of the development: Go's \<open>float64\<close> with its NaN and infinities, Go's
  \<open>time.Time\<close> and \<open>time.Duration\<close>, byte strings, the symbolic texts that stand for
  \<open>fmt.Sprintf\<close> results, and the list, map and loop lemmas the components share.

  \<^bold>\<open>Floating point.\<close> A \<open>float64\<close> is a finite real number, one of the two infinities or NaN.
  Comparisons and arithmetic treat NaN and the infinities as IEEE 754 does (a comparison with
  NaN is false, \<open>0/0\<close> is NaN, \<open>x/0\<close> is an infinity). Arithmetic on finite values is exact:
  rounding, overflow of a finite result to infinity and the sign of zero are not modelled.

  \<^bold>\<open>Time.\<close> An instant is the number of nanoseconds since Go's zero time, so \<open>IsZero\<close> is
  equality with 0; a duration is a number of nanoseconds; \<open>Sub\<close> saturates at 64 bits.
\<close>

named_theorems f64_simps \<open>evaluation of float64 arithmetic\<close>
named_theorems go_defs \<open>unfolding rules of small Go helpers\<close>

section \<open>float64\<close>

datatype f64 = Fin real | PInf | NInf | NaN

fun isNaN :: "f64 \<Rightarrow> bool" where
  "isNaN NaN = True"
| "isNaN _ = False"

fun isInf :: "f64 \<Rightarrow> bool" where
  "isInf PInf = True"
| "isInf NInf = True"
| "isInf _ = False"

fun is_fin :: "f64 \<Rightarrow> bool" where
  "is_fin (Fin _) = True"
| "is_fin _ = False"

fun real_of :: "f64 \<Rightarrow> real" where
  "real_of (Fin x) = x"
| "real_of _ = 0"

fun fadd :: "f64 \<Rightarrow> f64 \<Rightarrow> f64" where
  "fadd (Fin x) (Fin y) = Fin (x + y)"
| "fadd NaN _ = NaN"
| "fadd _ NaN = NaN"
| "fadd PInf NInf = NaN"
| "fadd NInf PInf = NaN"
| "fadd PInf _ = PInf"
| "fadd _ PInf = PInf"
| "fadd NInf _ = NInf"
| "fadd _ NInf = NInf"

fun fneg :: "f64 \<Rightarrow> f64" where
  "fneg (Fin x) = Fin (- x)"
| "fneg PInf = NInf"
| "fneg NInf = PInf"
| "fneg NaN = NaN"

definition finf :: "real \<Rightarrow> f64" where
  "finf s = (if s > 0 then PInf else if s < 0 then NInf else NaN)"

fun fsgn :: "f64 \<Rightarrow> real" where
  "fsgn (Fin x) = sgn x"
| "fsgn PInf = 1"
| "fsgn NInf = -1"
| "fsgn NaN = 0"

fun fmul :: "f64 \<Rightarrow> f64 \<Rightarrow> f64" where
  "fmul (Fin x) (Fin y) = Fin (x * y)"
| "fmul NaN _ = NaN"
| "fmul _ NaN = NaN"
| "fmul a b = finf (fsgn a * fsgn b)"

fun fdiv :: "f64 \<Rightarrow> f64 \<Rightarrow> f64" where
  "fdiv (Fin x) (Fin y) = (if y = 0 then finf x else Fin (x / y))"
| "fdiv NaN _ = NaN"
| "fdiv _ NaN = NaN"
| "fdiv (Fin _) _ = Fin 0"
| "fdiv a (Fin y) = (if y < 0 then fneg a else a)"
| "fdiv _ _ = NaN"

fun fless :: "f64 \<Rightarrow> f64 \<Rightarrow> bool" where
  "fless (Fin x) (Fin y) = (x < y)"
| "fless NaN _ = False"
| "fless _ NaN = False"
| "fless NInf NInf = False"
| "fless NInf _ = True"
| "fless PInf _ = False"
| "fless _ PInf = True"
| "fless _ _ = False"

text \<open>Go's \<open>==\<close> on \<open>float64\<close>: NaN differs from everything, itself included.\<close>

definition feq :: "f64 \<Rightarrow> f64 \<Rightarrow> bool" where
  "feq a b \<longleftrightarrow> a \<noteq> NaN \<and> a = b"

instantiation f64 :: "{zero, one, plus, minus, uminus, times, inverse, ord}"
begin

definition zero_f64 :: f64 where "zero_f64 = Fin 0"
definition one_f64 :: f64 where "one_f64 = Fin 1"
definition plus_f64 :: "f64 \<Rightarrow> f64 \<Rightarrow> f64" where "plus_f64 = fadd"
definition uminus_f64 :: "f64 \<Rightarrow> f64" where "uminus_f64 = fneg"
definition minus_f64 :: "f64 \<Rightarrow> f64 \<Rightarrow> f64" where "minus_f64 a b = fadd a (fneg b)"
definition times_f64 :: "f64 \<Rightarrow> f64 \<Rightarrow> f64" where "times_f64 = fmul"
definition divide_f64 :: "f64 \<Rightarrow> f64 \<Rightarrow> f64" where "divide_f64 = fdiv"
definition inverse_f64 :: "f64 \<Rightarrow> f64" where "inverse_f64 = fdiv (Fin 1)"
definition less_f64 :: "f64 \<Rightarrow> f64 \<Rightarrow> bool" where "less_f64 = fless"
definition less_eq_f64 :: "f64 \<Rightarrow> f64 \<Rightarrow> bool" where
  "less_eq_f64 a b \<longleftrightarrow> fless a b \<or> feq a b"

instance ..

end

lemma fadd_assoc: "fadd (fadd a b) c = fadd a (fadd b c)"
  by (cases a; cases b; cases c) simp_all

instance f64 :: semigroup_add
  by standard (simp add: plus_f64_def fadd_assoc)

instance f64 :: numeral ..

instance f64 :: power ..

lemma f64_const [simp, f64_simps]:
  "(0 :: f64) = Fin 0" "(1 :: f64) = Fin 1"
  by (simp_all add: zero_f64_def one_f64_def)

lemma f64_fin_arith [simp, f64_simps]:
  "Fin x + Fin y = Fin (x + y)" "Fin x - Fin y = Fin (x - y)"
  "Fin x * Fin y = Fin (x * y)" "- Fin x = Fin (- x)"
  by (simp_all add: plus_f64_def minus_f64_def times_f64_def uminus_f64_def)

lemma f64_fin_power [simp, f64_simps]: "Fin x ^ n = Fin (x ^ n)"
  by (induction n) simp_all

lemma f64_fin_div: "Fin x / Fin y = (if y = 0 then finf x else Fin (x / y))"
  by (simp add: divide_f64_def)

lemma f64_fin_div_nonzero [simp, f64_simps]: "y \<noteq> 0 \<Longrightarrow> Fin x / Fin y = Fin (x / y)"
  by (simp add: f64_fin_div)

lemma f64_fin_less [simp, f64_simps]: "(Fin x < Fin y) = (x < y)" "(Fin x \<le> Fin y) = (x \<le> y)"
  by (auto simp: less_f64_def less_eq_f64_def feq_def)

lemma feq_Fin [simp, f64_simps]: "feq (Fin x) (Fin y) = (x = y)"
  by (simp add: feq_def)

lemma f64_numeral [simp, f64_simps]: "(numeral k :: f64) = Fin (numeral k)"
proof (induction k)
  case One
  show ?case by (simp only: numeral_One one_f64_def)
next
  case (Bit0 k)
  show ?case by (simp only: numeral_Bit0 Bit0 f64_fin_arith)
next
  case (Bit1 k)
  show ?case by (simp only: numeral_Bit1 Bit1 f64_fin_arith one_f64_def)
qed

lemma f64_NaN_less [simp, f64_simps]:
  "(NaN < a) = False" "(a < NaN) = False" "(NaN \<le> a) = False" "(a \<le> NaN) = False"
  by (cases a; simp add: less_f64_def less_eq_f64_def feq_def)+

lemma f64_inf_less [simp, f64_simps]:
  "(NInf < Fin x) = True" "(Fin x < NInf) = False" "(Fin x < PInf) = True" "(PInf < Fin x) = False"
  "(NInf < NInf) = False" "(PInf < PInf) = False" "(NInf < PInf) = True" "(PInf < NInf) = False"
  "(NInf \<le> Fin x) = True" "(Fin x \<le> NInf) = False" "(Fin x \<le> PInf) = True" "(PInf \<le> Fin x) = False"
  "(NInf \<le> NInf) = True" "(PInf \<le> PInf) = True" "(NInf \<le> PInf) = True" "(PInf \<le> NInf) = False"
  by (auto simp: less_f64_def less_eq_f64_def feq_def)

lemma f64_NaN_arith [simp, f64_simps]:
  "NaN + a = NaN" "a + NaN = NaN" "NaN - a = NaN" "a - NaN = NaN"
  "NaN * a = NaN" "a * NaN = NaN" "NaN / a = NaN" "a / NaN = NaN" "- NaN = NaN"
  by (cases a; simp add: plus_f64_def minus_f64_def times_f64_def divide_f64_def uminus_f64_def)+

lemma is_fin_iff: "is_fin a \<longleftrightarrow> (\<exists>x. a = Fin x)"
  by (cases a) auto

lemma is_fin_not_special: "is_fin a \<longleftrightarrow> \<not> isNaN a \<and> \<not> isInf a"
  by (cases a) auto

lemma is_fin_arith [intro]:
  "is_fin a \<Longrightarrow> is_fin b \<Longrightarrow> is_fin (a + b)" "is_fin a \<Longrightarrow> is_fin b \<Longrightarrow> is_fin (a - b)"
  "is_fin a \<Longrightarrow> is_fin b \<Longrightarrow> is_fin (a * b)"
  by (auto simp: is_fin_iff)

lemma f64_less_imp_le: "(a :: f64) < b \<Longrightarrow> a \<le> b"
  by (simp add: less_f64_def less_eq_f64_def)

lemma f64_not_less: "a \<noteq> NaN \<Longrightarrow> b \<noteq> NaN \<Longrightarrow> \<not> a < b \<longleftrightarrow> b \<le> a"
  by (cases a; cases b) auto

lemma f64_below_iff: "t \<noteq> NaN \<Longrightarrow> a = NaN \<or> a < t \<longleftrightarrow> \<not> t \<le> a"
  by (cases a; cases t) auto

lemma f64_le_trans: "(a :: f64) \<le> b \<Longrightarrow> b \<le> c \<Longrightarrow> a \<le> c"
  by (cases a; cases b; cases c) auto

lemma f64_le_less_trans: "(a :: f64) \<le> b \<Longrightarrow> b < c \<Longrightarrow> a < c"
  by (cases a; cases b; cases c) auto

lemma f64_less_le_trans: "(a :: f64) < b \<Longrightarrow> b \<le> c \<Longrightarrow> a < c"
  by (cases a; cases b; cases c) auto

lemma f64_less_trans: "(a :: f64) < b \<Longrightarrow> b < c \<Longrightarrow> a < c"
  by (cases a; cases b; cases c) auto

lemma f64_less_irrefl [simp]: "\<not> (a :: f64) < a"
  by (cases a) auto

lemma f64_le_refl: "a \<noteq> NaN \<Longrightarrow> a \<le> a"
  by (cases a) auto

subsection \<open>The functions of package math the program uses\<close>

definition f_of_int :: "int \<Rightarrow> f64" where
  "f_of_int i = Fin (of_int i)"

lemma f_of_int_arith [simp, f64_simps]: "f_of_int i = Fin (of_int i)"
  by (simp add: f_of_int_def)

fun fabs :: "f64 \<Rightarrow> f64" where
  "fabs (Fin x) = Fin \<bar>x\<bar>"
| "fabs NaN = NaN"
| "fabs _ = PInf"

fun fexp :: "f64 \<Rightarrow> f64" where
  "fexp (Fin x) = Fin (exp x)"
| "fexp PInf = PInf"
| "fexp NInf = Fin 0"
| "fexp NaN = NaN"

fun flog2 :: "f64 \<Rightarrow> f64" where
  "flog2 (Fin x) = (if x > 0 then Fin (log 2 x) else if x = 0 then NInf else NaN)"
| "flog2 PInf = PInf"
| "flog2 _ = NaN"

fun fpow :: "f64 \<Rightarrow> f64 \<Rightarrow> f64" where
  "fpow x (Fin y) =
     (if y = 0 \<or> x = Fin 1 then Fin 1 else
      case x of
        Fin a \<Rightarrow>
          if a > 0 then Fin (a powr y)
          else if a = 0 then (if y < 0 then PInf else Fin 0)
          else if of_int \<lfloor>y\<rfloor> = y then Fin (a powi \<lfloor>y\<rfloor>) else NaN
      | PInf \<Rightarrow> (if y < 0 then Fin 0 else PInf)
      | NInf \<Rightarrow> (if y < 0 then Fin 0 else if of_int \<lfloor>y\<rfloor> = y \<and> odd \<lfloor>y\<rfloor> then NInf else PInf)
      | NaN \<Rightarrow> NaN)"
| "fpow x NaN = (if x = Fin 1 then Fin 1 else NaN)"
| "fpow x PInf =
     (if fabs x = Fin 1 then Fin 1 else if isNaN x then NaN
      else if fabs x < Fin 1 then Fin 0 else PInf)"
| "fpow x NInf =
     (if fabs x = Fin 1 then Fin 1 else if isNaN x then NaN
      else if fabs x < Fin 1 then PInf else Fin 0)"

text \<open>\<open>math.Min\<close> and \<open>math.Max\<close>: an infinity of the right sign wins over NaN.\<close>

definition fmin :: "f64 \<Rightarrow> f64 \<Rightarrow> f64" where
  "fmin a b = (if a = NInf \<or> b = NInf then NInf else if isNaN a \<or> isNaN b then NaN
               else if a < b then a else b)"

definition fmax :: "f64 \<Rightarrow> f64 \<Rightarrow> f64" where
  "fmax a b = (if a = PInf \<or> b = PInf then PInf else if isNaN a \<or> isNaN b then NaN
               else if a > b then a else b)"

text \<open>The built-in \<open>min\<close> and \<open>max\<close> on \<open>float64\<close>: NaN wins.\<close>

definition bmin :: "f64 \<Rightarrow> f64 \<Rightarrow> f64" where
  "bmin a b = (if isNaN a \<or> isNaN b then NaN else if a < b then a else b)"

definition bmax :: "f64 \<Rightarrow> f64 \<Rightarrow> f64" where
  "bmax a b = (if isNaN a \<or> isNaN b then NaN else if a > b then a else b)"

text \<open>\<open>math.Round\<close> rounds half away from zero.\<close>

definition round_half_away :: "real \<Rightarrow> real" where
  "round_half_away x = (if x < 0 then - of_int \<lfloor>- x + 1/2\<rfloor> else of_int \<lfloor>x + 1/2\<rfloor>)"

fun fround :: "f64 \<Rightarrow> f64" where
  "fround (Fin x) = Fin (round_half_away x)"
| "fround a = a"

text \<open>
  The conversion \<open>int(x)\<close> truncates towards zero. On NaN and the infinities Go leaves the
  result to the implementation; the amd64 value is used.
\<close>

fun f_to_int :: "f64 \<Rightarrow> int" where
  "f_to_int (Fin x) = (if x < 0 then - \<lfloor>- x\<rfloor> else \<lfloor>x\<rfloor>)"
| "f_to_int _ = - (2 ^ 63)"

lemma fmin_fin [simp]: "fmin (Fin x) (Fin y) = Fin (min x y)"
  by (simp add: fmin_def)

lemma fmax_fin [simp]: "fmax (Fin x) (Fin y) = Fin (max x y)"
  by (simp add: fmax_def)

lemma bmin_fin [simp]: "bmin (Fin x) (Fin y) = Fin (min x y)"
  by (simp add: bmin_def)

lemma bmax_fin [simp]: "bmax (Fin x) (Fin y) = Fin (max x y)"
  by (simp add: bmax_def)

lemma fpow_pos [simp]: "a > 0 \<Longrightarrow> fpow (Fin a) (Fin y) = Fin (a powr y)"
  by simp

declare fpow.simps [simp del]

lemma isNaN_iff [simp]: "isNaN a \<longleftrightarrow> a = NaN"
  by (cases a) auto

lemma isInf_iff: "isInf a \<longleftrightarrow> a = PInf \<or> a = NInf"
  by (cases a) auto

text \<open>The unit interval, the range every probability of the learner model must stay in.\<close>

definition unit_f64 :: "f64 \<Rightarrow> bool" where
  "unit_f64 a \<longleftrightarrow> Fin 0 \<le> a \<and> a \<le> Fin 1"

lemma unit_f64_Fin [simp]: "unit_f64 (Fin x) \<longleftrightarrow> 0 \<le> x \<and> x \<le> 1"
  by (simp add: unit_f64_def)

lemma unit_f64_NaN [simp]: "\<not> unit_f64 NaN" "\<not> unit_f64 PInf" "\<not> unit_f64 NInf"
  by (simp_all add: unit_f64_def)

lemma unit_f64E:
  assumes "unit_f64 a"
  obtains x where "a = Fin x" "0 \<le> x" "x \<le> 1"
  using assms by (cases a) auto

section \<open>Time\<close>

type_synonym time = int
type_synonym duration = int

definition isZero :: "time \<Rightarrow> bool" where
  "isZero t \<longleftrightarrow> t = 0"

definition int64_max :: int where "int64_max = 2 ^ 63 - 1"
definition int64_min :: int where "int64_min = - (2 ^ 63)"

text \<open>\<open>t.Sub(u)\<close> saturates at the range of a 64-bit duration.\<close>

definition t_sub :: "time \<Rightarrow> time \<Rightarrow> duration" where
  "t_sub t u = max int64_min (min int64_max (t - u))"

definition second :: duration where "second = 10 ^ 9"
definition minute :: duration where "minute = 60 * second"
definition hour :: duration where "hour = 60 * minute"
definition day :: duration where "day = 24 * hour"

definition seconds_of :: "duration \<Rightarrow> f64" where
  "seconds_of d = Fin (of_int d / 10 ^ 9)"

definition hours_of :: "duration \<Rightarrow> f64" where
  "hours_of d = Fin (of_int d / (3600 * 10 ^ 9))"

lemmas time_defs = second_def minute_def hour_def day_def int64_max_def int64_min_def

lemma t_sub_exact: "\<bar>t - u\<bar> \<le> int64_max \<Longrightarrow> t_sub t u = t - u"
  by (auto simp: t_sub_def int64_max_def int64_min_def)

lemma t_sub_mono: "t \<le> t' \<Longrightarrow> t_sub t u \<le> t_sub t' u"
  by (auto simp: t_sub_def)

lemma t_sub_nonneg: "u \<le> t \<Longrightarrow> 0 \<le> t_sub t u"
  by (auto simp: t_sub_def int64_max_def int64_min_def)

section \<open>Byte strings\<close>

text \<open>
  A Go string is a byte string, UTF-8 by convention. White space is what \<open>unicode.IsSpace\<close> accepts:
  six ASCII bytes, U+0085, U+00A0, U+1680, U+2000 to U+200A, U+2028, U+2029, U+202F, U+205F and U+3000.
  Its encodings start with a byte that no other encoding contains past its first byte, so the functions
  of package \<open>strings\<close> that decode runes can be written on bytes: \<open>space_len\<close> is the length of the white
  space that begins a string, \<open>space_end\<close> of the one that ends it, 0 when there is none.
\<close>

definition space1 :: "char \<Rightarrow> bool" where
  "space1 a \<longleftrightarrow> (of_char a :: nat) \<in> {9, 10, 11, 12, 13, 32}"

definition space2 :: "char \<Rightarrow> char \<Rightarrow> bool" where
  "space2 a b \<longleftrightarrow> of_char a = (0xC2 :: nat) \<and> (of_char b :: nat) \<in> {0x85, 0xA0}"

definition space3 :: "char \<Rightarrow> char \<Rightarrow> char \<Rightarrow> bool" where
  "space3 a b c \<longleftrightarrow>
     (let a = of_char a :: nat; b = of_char b :: nat; c = of_char c :: nat in
      a = 0xE1 \<and> b = 0x9A \<and> c = 0x80 \<or>
      a = 0xE2 \<and> b = 0x80 \<and> (0x80 \<le> c \<and> c \<le> 0x8A \<or> c \<in> {0xA8, 0xA9, 0xAF}) \<or>
      a = 0xE2 \<and> b = 0x81 \<and> c = 0x9F \<or>
      a = 0xE3 \<and> b = 0x80 \<and> c = 0x80)"

fun space_len :: "string \<Rightarrow> nat" where
  "space_len [] = 0"
| "space_len [a] = (if space1 a then 1 else 0)"
| "space_len [a, b] = (if space1 a then 1 else if space2 a b then 2 else 0)"
| "space_len (a # b # c # s) = (if space1 a then 1 else if space2 a b then 2 else if space3 a b c then 3 else 0)"

fun space_end_rev :: "string \<Rightarrow> nat" where
  "space_end_rev [] = 0"
| "space_end_rev [c] = (if space1 c then 1 else 0)"
| "space_end_rev [c, b] = (if space1 c then 1 else if space2 b c then 2 else 0)"
| "space_end_rev (c # b # a # s) = (if space1 c then 1 else if space2 b c then 2 else if space3 a b c then 3 else 0)"

lemma space_len_le: "space_len s \<le> length s"
  by (cases s rule: space_len.cases) auto

lemma space_end_le: "space_end_rev s \<le> length s"
  by (cases s rule: space_end_rev.cases) auto

lemma space_len_prefix: "space_len (u @ v) = 0 \<Longrightarrow> space_len u = 0"
  by (cases u rule: space_len.cases; cases v rule: space_len.cases) (auto split: if_splits)

text \<open>\<open>strings.TrimSpace\<close>.\<close>

function trim_left :: "string \<Rightarrow> string" where
  "trim_left s = (if space_len s = 0 then s else trim_left (drop (space_len s) s))"
  by pat_completeness auto
termination
proof (relation "measure length", goal_cases)
  case 1
  show ?case by simp
next
  case (2 s)
  then show ?case using space_len_le[of s] by simp
qed

function trim_rev :: "string \<Rightarrow> string" where
  "trim_rev s = (if space_end_rev s = 0 then s else trim_rev (drop (space_end_rev s) s))"
  by pat_completeness auto
termination
proof (relation "measure length", goal_cases)
  case 1
  show ?case by simp
next
  case (2 s)
  then show ?case using space_end_le[of s] by simp
qed

declare trim_left.simps [simp del] trim_rev.simps [simp del]

definition trim_space :: "string \<Rightarrow> string" where
  "trim_space s = rev (trim_rev (rev (trim_left s)))"

lemma trim_left_stops [simp]: "space_len (trim_left s) = 0"
  by (induction s rule: trim_left.induct) (subst trim_left.simps, simp)

lemma trim_rev_stops [simp]: "space_end_rev (trim_rev s) = 0"
  by (induction s rule: trim_rev.induct) (subst trim_rev.simps, simp)

lemma trim_rev_suffix: "\<exists>v. s = v @ trim_rev s"
proof (induction s rule: trim_rev.induct)
  case (1 s)
  show ?case
  proof (cases "space_end_rev s = 0")
    case True
    then show ?thesis by (simp add: trim_rev.simps[of s])
  next
    case False
    with 1 obtain v where "drop (space_end_rev s) s = v @ trim_rev (drop (space_end_rev s) s)" by blast
    then have "s = (take (space_end_rev s) s @ v) @ trim_rev (drop (space_end_rev s) s)"
      by (metis append.assoc append_take_drop_id)
    moreover have "trim_rev s = trim_rev (drop (space_end_rev s) s)" using False by (subst trim_rev.simps) simp
    ultimately show ?thesis by metis
  qed
qed

lemma trim_space_Nil [simp]: "trim_space [] = []"
  by (simp add: trim_space_def trim_left.simps[of "[]"] trim_rev.simps[of "[]"])

lemma trim_space_starts [simp]: "space_len (trim_space s) = 0"
proof -
  obtain v where "rev (trim_left s) = v @ trim_rev (rev (trim_left s))" using trim_rev_suffix by blast
  then have "trim_left s = trim_space s @ rev v" unfolding trim_space_def by (metis rev_append rev_rev_ident)
  then show ?thesis using trim_left_stops[of s] space_len_prefix by metis
qed

lemma trim_space_idem [simp]: "trim_space (trim_space s) = trim_space s"
proof -
  have "trim_left (trim_space s) = trim_space s" by (subst trim_left.simps) simp
  then have "trim_space (trim_space s) = rev (trim_rev (rev (trim_space s)))" by (simp add: trim_space_def)
  also have "trim_rev (rev (trim_space s)) = rev (trim_space s)"
    unfolding trim_space_def by (subst trim_rev.simps) simp
  finally show ?thesis by simp
qed

text \<open>
  \<open>strings.ToLower\<close>, up to letters outside ASCII: the only letters with a lower case in ASCII are those of
  ASCII, the dotted capital I (U+0130) and the Kelvin sign (U+212A), so a lowered text that consists of
  ASCII letters is exact; other letters are left as they are.
\<close>

definition to_lower_char :: "char \<Rightarrow> char" where
  "to_lower_char c = (if 65 \<le> (of_char c :: nat) \<and> (of_char c :: nat) \<le> 90
                      then char_of (of_char c + 32 :: nat) else c)"

function to_lower :: "string \<Rightarrow> string" where
  "to_lower s =
     (if s = [] then []
      else if map of_char (take 2 s) = [0xC4, 0xB0 :: nat] then CHR ''i'' # to_lower (drop 2 s)
      else if map of_char (take 3 s) = [0xE2, 0x84, 0xAA :: nat] then CHR ''k'' # to_lower (drop 3 s)
      else to_lower_char (hd s) # to_lower (tl s))"
  by pat_completeness auto
termination
  by (relation "measure length") auto

declare to_lower.simps [simp del]

text \<open>\<open>strings.Fields\<close>: the maximal runs without white space.\<close>

fun span_word :: "string \<Rightarrow> string \<times> string" where
  "span_word [] = ([], [])"
| "span_word (c # s) = (if space_len (c # s) \<noteq> 0 then ([], c # s) else let (w, r) = span_word s in (c # w, r))"

lemma span_word_length: "length (snd (span_word s)) \<le> length s"
  by (induction s) (auto simp: split_beta Let_def)

lemma trim_left_length: "length (trim_left s) \<le> length s"
proof (induction s rule: trim_left.induct)
  case (1 s)
  show ?case
  proof (cases "space_len s = 0")
    case True
    then show ?thesis by (simp add: trim_left.simps[of s])
  next
    case False
    have "trim_left s = trim_left (drop (space_len s) s)" using False by (subst trim_left.simps) simp
    then show ?thesis using 1[OF False] by simp
  qed
qed

function strings_Fields :: "string \<Rightarrow> string list" where
  "strings_Fields s =
     (let t = trim_left s in
      if t = [] then [] else fst (span_word t) # strings_Fields (snd (span_word t)))"
  by pat_completeness auto
termination
proof (relation "measure length", goal_cases)
  case 1
  show ?case by simp
next
  case (2 s t)
  then obtain c r where t: "t = c # r" by (metis neq_Nil_conv)
  have "space_len (c # r) = 0" using 2(1) t trim_left_stops[of s] by simp
  then have "length (snd (span_word t)) < length t" using span_word_length[of r] by (simp add: t split_beta Let_def)
  moreover have "length t \<le> length s" using 2(1) trim_left_length by simp
  ultimately show ?case by simp
qed

declare strings_Fields.simps [simp del]

text \<open>A word has no white space in it; words joined by blanks are read back.\<close>

definition word_ok :: "string \<Rightarrow> bool" where
  "word_ok w \<longleftrightarrow> w \<noteq> [] \<and> span_word w = (w, [])"

lemma space_len_blank: "space_len (c # w) = 0 \<Longrightarrow> space_len (c # w @ CHR '' '' # r) = 0"
  by (cases w rule: space_len.cases; cases r rule: space_len.cases) (auto simp: space2_def space3_def split: if_splits)

lemma span_word_blank: "span_word w = (w, []) \<Longrightarrow> span_word (w @ CHR '' '' # r) = (w, CHR '' '' # r)"
proof (induction w)
  case Nil
  then show ?case by (cases r rule: space_len.cases) (auto simp: space1_def)
next
  case (Cons c w)
  then have c: "space_len (c # w) = 0" and w: "span_word w = (w, [])"
    by (auto simp: split_beta Let_def prod_eq_iff split: if_splits)
  then show ?case using Cons.IH[OF w] space_len_blank[OF c] by simp
qed

lemma word_ok_starts: "word_ok w \<Longrightarrow> space_len w = 0"
  by (cases w) (auto simp: word_ok_def split: if_splits)

lemma strings_Fields_Nil [simp]: "strings_Fields [] = []"
  by (simp add: strings_Fields.simps[of "[]"] trim_left.simps[of "[]"])

lemma strings_Fields_word: "word_ok w \<Longrightarrow> strings_Fields w = [w]"
proof -
  assume w: "word_ok w"
  then have "trim_left w = w" by (simp add: trim_left.simps[of w] word_ok_starts)
  moreover have "w \<noteq> []" "span_word w = (w, [])" using w by (auto simp: word_ok_def)
  ultimately show ?thesis by (simp add: strings_Fields.simps[of w])
qed

lemma strings_Fields_blank: "strings_Fields (CHR '' '' # s) = strings_Fields s"
proof -
  have "space_len (CHR '' '' # s) = 1" by (cases s rule: space_len.cases) (auto simp: space1_def)
  then have "trim_left (CHR '' '' # s) = trim_left s" by (subst trim_left.simps) simp
  then show ?thesis by (simp add: strings_Fields.simps[of "CHR '' '' # s"] strings_Fields.simps[of s])
qed

lemma strings_Fields_cons: "word_ok w \<Longrightarrow> strings_Fields (w @ CHR '' '' # s) = w # strings_Fields s"
proof -
  assume w: "word_ok w"
  then obtain c r where c: "w = c # r" by (auto simp: word_ok_def neq_Nil_conv)
  have "space_len (w @ CHR '' '' # s) = 0"
    using space_len_blank[of c r s] word_ok_starts[OF w] unfolding c append_Cons by simp
  then have "trim_left (w @ CHR '' '' # s) = w @ CHR '' '' # s" by (subst trim_left.simps) simp
  moreover have "w \<noteq> []" "span_word w = (w, [])" using w by (auto simp: word_ok_def)
  ultimately show ?thesis by (simp add: strings_Fields.simps[of "w @ CHR '' '' # s"] span_word_blank strings_Fields_blank)
qed

fun join :: "string \<Rightarrow> string list \<Rightarrow> string" where
  "join sep [] = []"
| "join sep [x] = x"
| "join sep (x # xs) = x @ sep @ join sep xs"

lemma strings_Fields_join: "\<forall>w \<in> set ws. word_ok w \<Longrightarrow> strings_Fields (join '' '' ws) = ws"
proof (induction "'' ''" ws rule: join.induct)
  case 1
  show ?case by simp
next
  case (2 x)
  then show ?case by (simp add: strings_Fields_word)
next
  case (3 x y xs)
  then show ?case using strings_Fields_cons[of x "join '' '' (y # xs)"] by simp
qed

section \<open>Texts\<close>

text \<open>
  The audit texts the program builds with \<open>fmt.Sprintf\<close> are kept symbolic: a list of literal
  pieces, quoted strings (\<open>%q\<close>), integers (\<open>%d\<close>) and floats with their precision (\<open>%.2f\<close>). Concatenation of
  texts is list append. Non-ASCII punctuation of the literals is transliterated.
\<close>

datatype tok = S string | Q string | D int | F nat f64

type_synonym message = "tok list"

section \<open>The strict-maximum loop\<close>

text \<open>
  The selectors scan a list and keep the first element whose score is strictly greater than
  the best so far, starting from the score \<open>-Inf\<close> (\<open>math.Inf(-1)\<close>).
\<close>

fun best_loop :: "('a \<Rightarrow> f64) \<Rightarrow> 'a list \<Rightarrow> 'a option \<times> f64 \<Rightarrow> 'a option \<times> f64" where
  "best_loop sc [] acc = acc"
| "best_loop sc (x # xs) (b, s) =
     best_loop sc xs (if sc x > s then (Some x, sc x) else (b, s))"

definition first_max :: "('a \<Rightarrow> f64) \<Rightarrow> 'a list \<Rightarrow> 'a \<Rightarrow> bool" where
  "first_max sc xs x \<longleftrightarrow>
     (\<exists>ys zs. xs = ys @ x # zs \<and> (\<forall>y \<in> set ys. sc y < sc x) \<and> (\<forall>z \<in> set zs. sc z \<le> sc x))"

lemma first_max_in: "first_max sc xs x \<Longrightarrow> x \<in> set xs"
  by (auto simp: first_max_def)

lemma first_max_ge:
  assumes "first_max sc xs x" and "y \<in> set xs" and "sc y \<noteq> NaN"
  shows "sc y \<le> sc x"
proof -
  obtain ys zs where d: "xs = ys @ x # zs" "\<forall>y \<in> set ys. sc y < sc x" "\<forall>z \<in> set zs. sc z \<le> sc x"
    using assms(1) by (auto simp: first_max_def)
  from d(1) assms(2) consider "y \<in> set ys" | "y = x" | "y \<in> set zs" by auto
  then show ?thesis
  proof cases
    case 1
    with d(2) show ?thesis by (blast intro: f64_less_imp_le)
  next
    case 2
    with assms(3) show ?thesis by (simp add: f64_le_refl)
  next
    case 3
    with d(3) show ?thesis by blast
  qed
qed

lemma best_loop_some:
  assumes "best_loop sc xs (Some b, sc b) = (r, s)"
    and "\<forall>x \<in> set xs. sc x \<noteq> NaN" and "sc b \<noteq> NaN"
  shows "\<exists>x. r = Some x \<and> s = sc x \<and> first_max sc (b # xs) x"
  using assms
proof (induction xs arbitrary: b)
  case Nil
  then show ?case by (auto simp: first_max_def intro!: exI[of _ "[]"])
next
  case (Cons y ys)
  show ?case
  proof (cases "sc b < sc y")
    case True
    with Cons obtain x where x: "r = Some x" "s = sc x" "first_max sc (y # ys) x" by auto
    then obtain us zs where "y # ys = us @ x # zs" "\<forall>u \<in> set us. sc u < sc x"
      "\<forall>z \<in> set zs. sc z \<le> sc x" by (auto simp: first_max_def)
    moreover have "sc y \<le> sc x"
      using x(3) Cons.prems(2) by (auto intro: first_max_ge)
    with True have "sc b < sc x" by (rule f64_less_le_trans)
    ultimately have "first_max sc (b # y # ys) x"
      unfolding first_max_def by (intro exI[of _ "b # us"] exI[of _ zs]) auto
    with x show ?thesis by auto
  next
    case False
    with Cons obtain x where x: "r = Some x" "s = sc x" "first_max sc (b # ys) x" by auto
    have yb: "sc y \<le> sc b" using False Cons.prems by (simp add: f64_not_less)
    from x(3) obtain us zs where d: "b # ys = us @ x # zs" "\<forall>u \<in> set us. sc u < sc x"
      "\<forall>z \<in> set zs. sc z \<le> sc x" by (auto simp: first_max_def)
    have "first_max sc (b # y # ys) x"
    proof (cases us)
      case Nil
      with d yb show ?thesis
        unfolding first_max_def by (intro exI[of _ "[]"] exI[of _ "y # zs"]) auto
    next
      case (Cons u us')
      with d yb have "sc y < sc x" by (auto intro: f64_le_less_trans)
      with d Cons show ?thesis
        unfolding first_max_def by (intro exI[of _ "b # y # us'"] exI[of _ zs]) auto
    qed
    with x show ?thesis by auto
  qed
qed

lemma best_loop_first_max:
  assumes "best_loop sc xs (None, f) = (r, s)" and "xs \<noteq> []"
    and "\<forall>x \<in> set xs. f < sc x"
  shows "\<exists>x. r = Some x \<and> s = sc x \<and> first_max sc xs x"
proof -
  obtain y ys where xs: "xs = y # ys" using assms(2) by (cases xs) auto
  have "\<forall>x \<in> set xs. sc x \<noteq> NaN" using assms(3) by auto
  with assms xs show ?thesis using best_loop_some[of sc ys y r s] by auto
qed

text \<open>In a list sorted by a key, the first maximum has the least key among the maxima.\<close>

lemma first_max_least_key:
  fixes key :: "'a \<Rightarrow> 'b :: linorder"
  assumes "first_max sc xs x" and "sorted (map key xs)" and "y \<in> set xs" and "sc y = sc x"
  shows "key x \<le> key y"
proof -
  obtain ys zs where d: "xs = ys @ x # zs" "\<forall>y \<in> set ys. sc y < sc x"
    using assms(1) by (auto simp: first_max_def)
  have "y \<notin> set ys" using d(2) assms(4) by auto
  with d(1) assms(2,3) show ?thesis by (auto simp: sorted_append)
qed

lemma best_loop_none: "best_loop sc xs (None, NInf) = (None, s) \<Longrightarrow> \<forall>x \<in> set xs. \<not> NInf < sc x"
proof -
  have *: "best_loop sc xs (Some b, t) \<noteq> (None, s)" for b t xs
    by (induction xs arbitrary: b t) auto
  show "best_loop sc xs (None, NInf) = (None, s) \<Longrightarrow> \<forall>x \<in> set xs. \<not> NInf < sc x"
    by (induction xs) (auto simp: * split: if_splits)
qed

lemma best_loop_in: "best_loop sc xs (b, s) = (Some r, t) \<Longrightarrow> b = Some r \<or> r \<in> set xs"
  by (induction xs arbitrary: b s) (auto split: if_splits)

lemma length_filter_mono: "(\<And>x. x \<in> set xs \<Longrightarrow> P x \<Longrightarrow> R x) \<Longrightarrow> length (filter P xs) \<le> length (filter R xs)"
  by (induction xs) (auto intro: le_SucI)

section \<open>Slices of pointers\<close>

text \<open>The rows of a \<open>[]*T\<close> that are not nil, in order.\<close>

fun somes :: "'a option list \<Rightarrow> 'a list" where
  "somes [] = []"
| "somes (None # xs) = somes xs"
| "somes (Some x # xs) = x # somes xs"

lemma set_somes: "x \<in> set (somes xs) \<longleftrightarrow> Some x \<in> set xs"
  by (induction xs rule: somes.induct) auto

lemma somes_map_Some [simp]: "somes (map Some xs) = xs"
  by (induction xs) auto

section \<open>Association of a map with a list of rows\<close>

text \<open>
  \<open>m := map[string]*T{}; for _, x := range xs { m[key(x)] = x }\<close>: a later row with the same
  key replaces an earlier one.
\<close>

definition index_by :: "('a \<Rightarrow> 'k) \<Rightarrow> 'a list \<Rightarrow> 'k \<Rightarrow> 'a option" where
  "index_by key xs = fold (\<lambda>x m. m(key x \<mapsto> x)) xs Map.empty"

lemma fold_index_by_some:
  "fold (\<lambda>x m. m(key x \<mapsto> x)) xs m k = Some x \<Longrightarrow> m k = Some x \<or> x \<in> set xs \<and> key x = k"
proof (induction xs arbitrary: m)
  case Nil
  then show ?case by simp
next
  case (Cons y ys)
  from Cons.IH[of "m(key y \<mapsto> y)"] Cons.prems show ?case by (auto split: if_splits)
qed

lemma index_by_SomeD: "index_by key xs k = Some x \<Longrightarrow> x \<in> set xs \<and> key x = k"
  by (auto simp: index_by_def dest: fold_index_by_some)

lemma dom_fold_index_by: "dom (fold (\<lambda>x m. m(key x \<mapsto> x)) xs m) = dom m \<union> key ` set xs"
  by (induction xs arbitrary: m) auto

lemma dom_index_by: "dom (index_by key xs) = key ` set xs"
  by (simp add: index_by_def dom_fold_index_by)

lemma index_by_None_iff: "index_by key xs k = None \<longleftrightarrow> (\<forall>x \<in> set xs. key x \<noteq> k)"
proof -
  have "index_by key xs k = None \<longleftrightarrow> k \<notin> key ` set xs"
    by (simp flip: dom_index_by[of key xs] add: domIff)
  then show ?thesis by auto
qed

section \<open>Errors as values\<close>

text \<open>
  \<open>if err != nil { return err }\<close>: a failing step ends the computation with its error. The
  collection \<open>succeeds\<close> says when a checked computation succeeds.
\<close>

named_theorems succeeds \<open>when a checked computation succeeds\<close>

definition sbind :: "'e + 'a \<Rightarrow> ('a \<Rightarrow> 'e + 'b) \<Rightarrow> 'e + 'b" where
  "sbind m f = (case m of Inl e \<Rightarrow> Inl e | Inr x \<Rightarrow> f x)"

definition ensure :: "bool \<Rightarrow> 'e \<Rightarrow> 'e + unit" where
  "ensure b e = (if b then Inr () else Inl e)"

lemma sbind_simps [simp]: "sbind (Inl e) f = Inl e" "sbind (Inr x) f = f x"
  by (simp_all add: sbind_def)

lemma sbind_Inr_iff [succeeds]: "sbind m f = Inr y \<longleftrightarrow> (\<exists>x. m = Inr x \<and> f x = Inr y)"
  by (cases m) auto

lemma sbind_Inl_iff: "sbind m f = Inl e \<longleftrightarrow> m = Inl e \<or> (\<exists>x. m = Inr x \<and> f x = Inl e)"
  by (cases m) auto

lemma sbind_cong [fundef_cong]: "m = m' \<Longrightarrow> (\<And>x. m' = Inr x \<Longrightarrow> f x = g x) \<Longrightarrow> sbind m f = sbind m' g"
  by (cases m') auto

lemma ensure_Inr_iff [succeeds]: "ensure b e = Inr u \<longleftrightarrow> b"
  by (simp add: ensure_def)

lemma ensure_Inl_iff: "ensure b e = Inl e' \<longleftrightarrow> \<not> b \<and> e' = e"
  by (auto simp: ensure_def)

lemma if_Inl_Inr_iff [succeeds]: "(if b then Inl e else m) = Inr y \<longleftrightarrow> \<not> b \<and> m = Inr y"
  by simp

text \<open>A loop that checks each element in turn and stops at the first error.\<close>

fun check_all :: "('a \<Rightarrow> 'e + 'b) \<Rightarrow> 'a list \<Rightarrow> 'e + 'b list" where
  "check_all f [] = Inr []"
| "check_all f (x # xs) = sbind (f x) (\<lambda>y. sbind (check_all f xs) (\<lambda>ys. Inr (y # ys)))"

lemma check_all_Inr_iff [succeeds]: "check_all f xs = Inr ys \<longleftrightarrow> map f xs = map Inr ys"
  by (induction xs arbitrary: ys) (auto simp: succeeds Cons_eq_map_conv)

lemma check_all_map_Inr: "(\<And>x. x \<in> set xs \<Longrightarrow> f (g x) = Inr x) \<Longrightarrow> check_all f (map g xs) = Inr xs"
  by (induction xs) auto

lemma check_all_cong [fundef_cong]: "xs = ys \<Longrightarrow> (\<And>x. x \<in> set ys \<Longrightarrow> f x = g x) \<Longrightarrow> check_all f xs = check_all g ys"
proof -
  show "xs = ys \<Longrightarrow> (\<And>x. x \<in> set ys \<Longrightarrow> f x = g x) \<Longrightarrow> check_all f xs = check_all g ys"
    by (induction ys arbitrary: xs) simp_all
qed

end
