(* ===== verification/Bkt.thy ===== *)
theory Bkt
  imports Prelude
begin

text \<open>
  Bayesian Knowledge Tracing: \<open>algorithms/bkt.go\<close>, \<open>algorithms/thresholds.go\<close>,
  \<open>algorithms/bkt_info_gain.go\<close> and \<open>algorithms/individual_bkt.go\<close>. The operations are
  functions on the record \<open>BKTState\<close>; the environment variable \<open>REGULATION_THRESHOLD\<close> is an
  argument of the accessors that read it. The interface shared by the update rules is the
  locale \<open>bkt_rule\<close>, interpreted on each of them.
\<close>

section \<open>Thresholds\<close>

definition RetentionAlertWarningThreshold :: f64 where
  "RetentionAlertWarningThreshold = 0.40"

definition RetentionAlertCriticalThreshold :: f64 where
  "RetentionAlertCriticalThreshold = 0.30"

definition RetentionRecallRoutingThreshold :: f64 where
  "RetentionRecallRoutingThreshold = 0.50"

definition isUnifiedThreshold :: "string \<Rightarrow> bool" where
  "isUnifiedThreshold env \<longleftrightarrow> env \<noteq> ''off''"

definition MasteryBKT :: f64 where
  "MasteryBKT = 0.85"

definition MasteryKST :: "string \<Rightarrow> f64" where
  "MasteryKST env = (if isUnifiedThreshold env then 0.85 else 0.70)"

definition MasteryMid :: "string \<Rightarrow> f64" where
  "MasteryMid env = (if isUnifiedThreshold env then 0.85 else 0.80)"

lemmas threshold_defs =
  RetentionAlertWarningThreshold_def RetentionAlertCriticalThreshold_def
  RetentionRecallRoutingThreshold_def MasteryBKT_def MasteryKST_def MasteryMid_def

section \<open>State and update\<close>

record BKTState =
  PMastery :: f64
  PLearn :: f64
  PForget :: f64
  PSlip :: f64
  PGuess :: f64

definition bktEpsilon :: f64 where
  "bktEpsilon = Fin (1 / 10 ^ 9)"

definition clamp :: "f64 \<Rightarrow> f64 \<Rightarrow> f64 \<Rightarrow> f64" where
  "clamp v lo hi = (if v < lo then lo else if v > hi then hi else v)"

definition BKTObserve :: "BKTState \<Rightarrow> bool \<Rightarrow> BKTState" where
  "BKTObserve state correct =
     (let pMasteryGivenObs =
        (if correct then
           (let pCorrectMastery = 1 - PSlip state;
                pCorrectNotMastery = PGuess state;
                pCorrect = pCorrectMastery * PMastery state + pCorrectNotMastery * (1 - PMastery state);
                pCorrect = (if pCorrect < bktEpsilon then bktEpsilon else pCorrect)
            in pCorrectMastery * PMastery state / pCorrect)
         else
           (let pIncorrectMastery = PSlip state;
                pIncorrectNotMastery = 1 - PGuess state;
                pIncorrect = pIncorrectMastery * PMastery state + pIncorrectNotMastery * (1 - PMastery state);
                pIncorrect = (if pIncorrect < bktEpsilon then bktEpsilon else pIncorrect)
            in pIncorrectMastery * PMastery state / pIncorrect))
      in state\<lparr>PMastery := clamp pMasteryGivenObs 0 1\<rparr>)"

definition BKTTransition :: "BKTState \<Rightarrow> BKTState" where
  "BKTTransition state =
     state\<lparr>PMastery := clamp (PMastery state * (1 - PForget state) + (1 - PMastery state) * PLearn state) 0 1\<rparr>"

definition BKTUpdate :: "BKTState \<Rightarrow> bool \<Rightarrow> BKTState" where
  "BKTUpdate state correct = BKTTransition (BKTObserve state correct)"

definition BKTUpdateHeuristicSlipByErrorType ::
    "BKTState \<Rightarrow> bool \<Rightarrow> string \<Rightarrow> BKTState \<times> f64 \<times> f64" where
  "BKTUpdateHeuristicSlipByErrorType state correct errorType =
     (if correct \<or> errorType = '''' then (BKTUpdate state correct, PSlip state, PGuess state)
      else
        let adjusted =
          (if errorType = ''SYNTAX_ERROR'' then state\<lparr>PSlip := clamp (PSlip state + 0.15) 0 0.5\<rparr>
           else if errorType = ''KNOWLEDGE_GAP'' then state\<lparr>PGuess := clamp (PGuess state - 0.10) 0.05 0.5\<rparr>
           else state)
        in (BKTUpdate adjusted correct, PSlip adjusted, PGuess adjusted))"

definition BKTIsMastered :: "BKTState \<Rightarrow> bool" where
  "BKTIsMastered state \<longleftrightarrow> PMastery state \<ge> MasteryBKT"

section \<open>Information gain\<close>

definition BinaryEntropy :: "f64 \<Rightarrow> f64" where
  "BinaryEntropy p =
     (if p \<le> 0 \<or> p \<ge> 1 then 0 else - p * flog2 p - (1 - p) * flog2 (1 - p))"

text \<open>The three probabilities \<open>BKTInfoGain\<close> reads from a concept state; \<open>nil\<close> is \<open>None\<close>.\<close>

definition BKTInfoGain :: "(f64 \<times> f64 \<times> f64) option \<Rightarrow> f64" where
  "BKTInfoGain cs =
     (case cs of None \<Rightarrow> 0
      | Some (pL, pS, pG) \<Rightarrow>
          if isNaN pL \<or> isNaN pS \<or> isNaN pG then 0
          else if pL \<le> 0 \<or> pL \<ge> 1 then 0
          else
            let pCorrect = pL * (1 - pS) + (1 - pL) * pG in
            if pCorrect \<le> 0 \<or> pCorrect \<ge> 1 then 0
            else
              let pLgivenCorrect = pL * (1 - pS) / pCorrect;
                  pLgivenIncorrect = pL * pS / (1 - pCorrect);
                  hPrior = BinaryEntropy pL;
                  hPostExpected = pCorrect * BinaryEntropy pLgivenCorrect
                                  + (1 - pCorrect) * BinaryEntropy pLgivenIncorrect;
                  ig = hPrior - hPostExpected
              in if ig < 0 then 0 else ig)"

section \<open>Individualised parameters\<close>

record IndividualBKTProfile =
  Observations :: int
  SuccessRate :: f64
  ErrorRate :: f64
  AvgConfidence :: f64
  HintsRate :: f64
  OverconfidenceRate :: f64
  Stability_rate :: f64
  AvgResponseTimeSecs :: f64

record IndividualBKTParameters =
  pPLearn :: f64
  pPForget :: f64
  pPSlip :: f64
  pPGuess :: f64

record IndividualBKTUpdateResult =
  State :: BKTState
  Params :: IndividualBKTParameters
  PosteriorMastery :: f64
  TransitionApplied :: bool

record individualBKTSignals =
  sig_success :: f64
  sig_error :: f64
  sig_confidence :: f64
  sig_hints :: f64
  sig_overconfidence :: f64
  sig_stability :: f64

definition isFinite :: "f64 \<Rightarrow> bool" where
  "isFinite v \<longleftrightarrow> \<not> isNaN v \<and> \<not> isInf v"

definition finiteClamp :: "f64 \<Rightarrow> f64 \<Rightarrow> f64 \<Rightarrow> f64" where
  "finiteClamp v lo hi = (if \<not> isFinite v then lo else clamp v lo hi)"

definition sanitizeBKTProbabilities :: "BKTState \<Rightarrow> BKTState" where
  "sanitizeBKTProbabilities state =
     \<lparr>PMastery = finiteClamp (PMastery state) 0 1,
      PLearn = finiteClamp (PLearn state) 0 1,
      PForget = finiteClamp (PForget state) 0 1,
      PSlip = finiteClamp (PSlip state) 0 1,
      PGuess = finiteClamp (PGuess state) 0 1\<rparr>"

definition individualBKTEvidenceWeight :: "IndividualBKTProfile \<Rightarrow> f64" where
  "individualBKTEvidenceWeight profile =
     (if Observations profile > 0
      then finiteClamp (f_of_int (Observations profile) / 20) 0 1
      else if \<not> feq (SuccessRate profile) 0 \<or> \<not> feq (ErrorRate profile) 0 \<or>
              \<not> feq (AvgConfidence profile) 0 \<or> \<not> feq (HintsRate profile) 0 \<or>
              \<not> feq (OverconfidenceRate profile) 0 \<or> \<not> feq (Stability_rate profile) 0 \<or>
              \<not> feq (AvgResponseTimeSecs profile) 0
      then 0.5
      else 0)"

definition sanitizeIndividualBKTSignals :: "IndividualBKTProfile \<Rightarrow> individualBKTSignals" where
  "sanitizeIndividualBKTSignals profile =
     (let success = finiteClamp (SuccessRate profile) 0 1;
          errorRate = finiteClamp (ErrorRate profile) 0 1;
          errorRate = (if Observations profile > 0 \<and> feq (ErrorRate profile) 0 then 1 - success else errorRate);
          confidence = finiteClamp (AvgConfidence profile) 0 1;
          confidence = (if \<not> isFinite (AvgConfidence profile) \<or> feq (AvgConfidence profile) 0 then 0.5 else confidence)
      in \<lparr>sig_success = success, sig_error = errorRate, sig_confidence = confidence,
          sig_hints = finiteClamp (HintsRate profile) 0 1,
          sig_overconfidence = finiteClamp (OverconfidenceRate profile) 0 1,
          sig_stability = finiteClamp (Stability_rate profile) 0 1\<rparr>)"

definition individualAdjust :: "BKTState \<Rightarrow> IndividualBKTProfile \<Rightarrow> BKTState" where
  "individualAdjust adjusted profile =
     (let weight = individualBKTEvidenceWeight profile in
      if weight > 0 then
        let signals = sanitizeIndividualBKTSignals profile;
            strongStable = sig_success signals * (0.75 + 0.25 * sig_confidence signals);
            overconfidence = fmax (sig_overconfidence signals)
              (clamp ((sig_confidence signals - 0.75) * 4) 0 1 * sig_error signals);
            learnDelta = weight * (0.06 * strongStable + 0.04 * sig_stability signals
              - 0.07 * sig_error signals - 0.05 * sig_hints signals - 0.06 * overconfidence);
            slipDelta = weight * (- 0.06 * strongStable - 0.05 * sig_stability signals
              + 0.06 * sig_error signals + 0.04 * sig_hints signals + 0.05 * overconfidence);
            guessDelta = weight * (- 0.04 * strongStable - 0.02 * sig_stability signals
              + 0.04 * sig_error signals + 0.06 * sig_hints signals + 0.05 * overconfidence)
        in adjusted\<lparr>PLearn := finiteClamp (PLearn adjusted + learnDelta) 0 1,
                    PSlip := finiteClamp (PSlip adjusted + slipDelta) 0 0.5,
                    PGuess := finiteClamp (PGuess adjusted + guessDelta) 0 0.5\<rparr>
      else adjusted)"

definition individualErrorAdjust :: "BKTState \<Rightarrow> f64 \<Rightarrow> bool \<Rightarrow> string \<Rightarrow> BKTState" where
  "individualErrorAdjust adjusted weight correct errorType =
     (if correct then adjusted
      else if errorType = ''SYNTAX_ERROR''
      then adjusted\<lparr>PSlip := finiteClamp (PSlip adjusted + 0.15) 0 0.5\<rparr>
      else if errorType = ''KNOWLEDGE_GAP''
      then adjusted\<lparr>PGuess := finiteClamp (PGuess adjusted - 0.10) 0.05 0.5,
                    PLearn := finiteClamp (PLearn adjusted - 0.03 * weight) 0 1\<rparr>
      else if errorType = ''LOGIC_ERROR''
      then adjusted\<lparr>PSlip := finiteClamp (PSlip adjusted + 0.03 * weight) 0 0.5\<rparr>
      else adjusted)"

definition BKTObserveIndividualized ::
    "BKTState \<Rightarrow> IndividualBKTProfile \<Rightarrow> bool \<Rightarrow> string \<Rightarrow> IndividualBKTUpdateResult" where
  "BKTObserveIndividualized state profile correct errorType =
     (let adjusted = sanitizeBKTProbabilities state;
          weight = individualBKTEvidenceWeight profile;
          adjusted = individualAdjust adjusted profile;
          adjusted = individualErrorAdjust adjusted weight correct errorType;
          nxt = sanitizeBKTProbabilities (BKTObserve adjusted correct)
      in \<lparr>State = nxt,
          Params = \<lparr>pPLearn = 0, pPForget = 0, pPSlip = PSlip adjusted, pPGuess = PGuess adjusted\<rparr>,
          PosteriorMastery = PMastery nxt,
          TransitionApplied = False\<rparr>)"

definition BKTUpdateIndividualized ::
    "BKTState \<Rightarrow> IndividualBKTProfile \<Rightarrow> bool \<Rightarrow> string \<Rightarrow> IndividualBKTUpdateResult" where
  "BKTUpdateIndividualized state profile correct errorType =
     (let result = BKTObserveIndividualized state profile correct errorType
      in result\<lparr>Params := (Params result)\<lparr>pPLearn := PLearn (State result), pPForget := PForget (State result)\<rparr>,
                State := BKTTransition (State result),
                TransitionApplied := True\<rparr>)"

section \<open>Range lemmas\<close>

definition bkt_fin :: "BKTState \<Rightarrow> bool" where
  "bkt_fin st \<longleftrightarrow> is_fin (PMastery st) \<and> is_fin (PLearn st) \<and> is_fin (PForget st) \<and>
     is_fin (PSlip st) \<and> is_fin (PGuess st)"

definition bkt_wf :: "BKTState \<Rightarrow> bool" where
  "bkt_wf st \<longleftrightarrow> unit_f64 (PMastery st) \<and> unit_f64 (PLearn st) \<and> unit_f64 (PForget st) \<and>
     unit_f64 (PSlip st) \<and> unit_f64 (PGuess st)"

lemma clamp_Fin [simp]: "clamp (Fin v) (Fin lo) (Fin hi) = Fin (if v < lo then lo else if v > hi then hi else v)"
  by (simp add: clamp_def)

lemma clamp_unit: "is_fin v \<Longrightarrow> unit_f64 (clamp v 0 1)"
  by (auto simp: is_fin_iff)

lemma clamp_id: "unit_f64 v \<Longrightarrow> clamp v 0 1 = v"
  by (auto elim!: unit_f64E)

lemma unit_is_fin: "unit_f64 v \<Longrightarrow> is_fin v"
  by (auto elim: unit_f64E)

lemma bkt_wf_fin: "bkt_wf st \<Longrightarrow> bkt_fin st"
  by (simp add: bkt_wf_def bkt_fin_def unit_is_fin)

lemma bkt_finE:
  assumes "bkt_fin st"
  obtains m l f s g where "PMastery st = Fin m" "PLearn st = Fin l" "PForget st = Fin f"
    "PSlip st = Fin s" "PGuess st = Fin g"
  using assms by (auto simp: bkt_fin_def is_fin_iff)

lemma bkt_wfE:
  assumes "bkt_wf st"
  obtains m l f s g where "PMastery st = Fin m" "PLearn st = Fin l" "PForget st = Fin f"
    "PSlip st = Fin s" "PGuess st = Fin g"
    "0 \<le> m" "m \<le> 1" "0 \<le> l" "l \<le> 1" "0 \<le> f" "f \<le> 1" "0 \<le> s" "s \<le> 1" "0 \<le> g" "g \<le> 1"
  using assms by (auto simp: bkt_wf_def elim!: unit_f64E)

text \<open>The exact marginal probability of an answer and the guarded Bayes quotient.\<close>

definition marginal :: "real \<Rightarrow> real \<Rightarrow> real \<Rightarrow> bool \<Rightarrow> real" where
  "marginal m s g correct = (if correct then (1 - s) * m + g * (1 - m) else s * m + (1 - g) * (1 - m))"

definition posterior :: "real \<Rightarrow> real \<Rightarrow> real \<Rightarrow> bool \<Rightarrow> real" where
  "posterior m s g correct =
     (if correct then 1 - s else s) * m / max (1 / 10 ^ 9) (marginal m s g correct)"

lemma BKTObserve_mastery:
  assumes "PMastery st = Fin m" "PSlip st = Fin s" "PGuess st = Fin g"
  shows "PMastery (BKTObserve st c) = clamp (Fin (posterior m s g c)) 0 1"
  using assms
  by (auto simp: BKTObserve_def Let_def bktEpsilon_def posterior_def marginal_def max_def not_less
      simp del: clamp_Fin)

lemma BKTObserve_keeps [simp]:
  "PLearn (BKTObserve st c) = PLearn st" "PForget (BKTObserve st c) = PForget st"
  "PSlip (BKTObserve st c) = PSlip st" "PGuess (BKTObserve st c) = PGuess st"
  by (simp_all add: BKTObserve_def Let_def)

lemma BKTTransition_keeps [simp]:
  "PLearn (BKTTransition st) = PLearn st" "PForget (BKTTransition st) = PForget st"
  "PSlip (BKTTransition st) = PSlip st" "PGuess (BKTTransition st) = PGuess st"
  by (simp_all add: BKTTransition_def)

lemma BKTUpdate_keeps [simp]:
  "PLearn (BKTUpdate st c) = PLearn st" "PForget (BKTUpdate st c) = PForget st"
  "PSlip (BKTUpdate st c) = PSlip st" "PGuess (BKTUpdate st c) = PGuess st"
  by (simp_all add: BKTUpdate_def)

lemma BKTObserve_mastery_unit: "bkt_fin st \<Longrightarrow> unit_f64 (PMastery (BKTObserve st c))"
  by (erule bkt_finE) (simp add: BKTObserve_mastery clamp_unit del: clamp_Fin f64_const)

lemma BKTTransition_mastery_unit: "bkt_fin st \<Longrightarrow> unit_f64 (PMastery (BKTTransition st))"
  by (erule bkt_finE) (simp add: BKTTransition_def)

lemma BKTObserve_fin: "bkt_fin st \<Longrightarrow> bkt_fin (BKTObserve st c)"
  using BKTObserve_mastery_unit[of st c] unit_is_fin by (auto simp: bkt_fin_def)

lemma BKTObserve_wf: "bkt_wf st \<Longrightarrow> bkt_wf (BKTObserve st c)"
  using BKTObserve_mastery_unit[OF bkt_wf_fin] by (auto simp: bkt_wf_def)

lemma BKTTransition_wf: "bkt_wf st \<Longrightarrow> bkt_wf (BKTTransition st)"
  using BKTTransition_mastery_unit[OF bkt_wf_fin] by (auto simp: bkt_wf_def)

lemma BKTUpdate_wf: "bkt_wf st \<Longrightarrow> bkt_wf (BKTUpdate st c)"
  by (simp add: BKTUpdate_def BKTObserve_wf BKTTransition_wf)

lemma BKTUpdate_mastery_unit: "bkt_fin st \<Longrightarrow> unit_f64 (PMastery (BKTUpdate st c))"
  by (simp add: BKTUpdate_def BKTObserve_fin BKTTransition_mastery_unit)

lemma finiteClamp_unit: "unit_f64 (finiteClamp v 0 1)"
  by (cases v) (auto simp: finiteClamp_def isFinite_def)

lemma finiteClamp_range:
  assumes "0 \<le> lo" "lo \<le> hi" "hi \<le> 1"
  shows "unit_f64 (finiteClamp v (Fin lo) (Fin hi))"
  using assms by (cases v) (auto simp: finiteClamp_def isFinite_def)

lemma finiteClamp_id: "unit_f64 v \<Longrightarrow> finiteClamp v 0 1 = v"
  by (auto simp: finiteClamp_def isFinite_def elim!: unit_f64E)

lemma sanitize_wf: "bkt_wf (sanitizeBKTProbabilities st)"
  using finiteClamp_unit by (simp add: bkt_wf_def sanitizeBKTProbabilities_def del: f64_const)

lemma sanitize_id: "bkt_wf st \<Longrightarrow> sanitizeBKTProbabilities st = st"
  by (simp add: bkt_wf_def sanitizeBKTProbabilities_def finiteClamp_id del: f64_const)

lemma finiteClamp_half: "unit_f64 (finiteClamp v 0 0.5)" "unit_f64 (finiteClamp v 0.05 0.5)"
  using finiteClamp_range[of 0 "1/2" v] finiteClamp_range[of "1/20" "1/2" v] by simp_all

lemma bkt_wf_upd:
  "bkt_wf st \<Longrightarrow> unit_f64 x \<Longrightarrow> bkt_wf (st\<lparr>PLearn := x\<rparr>)"
  "bkt_wf st \<Longrightarrow> unit_f64 x \<Longrightarrow> bkt_wf (st\<lparr>PSlip := x\<rparr>)"
  "bkt_wf st \<Longrightarrow> unit_f64 x \<Longrightarrow> bkt_wf (st\<lparr>PGuess := x\<rparr>)"
  by (simp_all add: bkt_wf_def)

lemma individualAdjust_wf: "bkt_wf st \<Longrightarrow> bkt_wf (individualAdjust st profile)"
  unfolding individualAdjust_def Let_def
  by (rule if_split[THEN iffD2])
    (intro conjI impI bkt_wf_upd finiteClamp_unit finiteClamp_half; assumption)

lemma individualErrorAdjust_wf: "bkt_wf st \<Longrightarrow> bkt_wf (individualErrorAdjust st w c e)"
  by (simp add: individualErrorAdjust_def bkt_wf_upd finiteClamp_unit finiteClamp_half
      del: f64_const f64_numeral f64_fin_div_nonzero f64_fin_power)

lemma BKTObserveIndividualized_wf: "bkt_wf (State (BKTObserveIndividualized st profile c e))"
  by (simp add: BKTObserveIndividualized_def Let_def sanitize_wf)

lemma BKTUpdateIndividualized_wf: "bkt_wf (State (BKTUpdateIndividualized st profile c e))"
  by (simp add: BKTUpdateIndividualized_def Let_def BKTObserveIndividualized_wf BKTTransition_wf)

lemma individual_params_unit:
  "unit_f64 (pPSlip (Params (BKTUpdateIndividualized st profile c e)))"
  "unit_f64 (pPGuess (Params (BKTUpdateIndividualized st profile c e)))"
  "unit_f64 (pPLearn (Params (BKTUpdateIndividualized st profile c e)))"
  "unit_f64 (pPForget (Params (BKTUpdateIndividualized st profile c e)))"
proof -
  have "bkt_wf (individualErrorAdjust (individualAdjust (sanitizeBKTProbabilities st) profile)
          (individualBKTEvidenceWeight profile) c e)"
    by (intro individualErrorAdjust_wf individualAdjust_wf sanitize_wf)
  then show "unit_f64 (pPSlip (Params (BKTUpdateIndividualized st profile c e)))"
    "unit_f64 (pPGuess (Params (BKTUpdateIndividualized st profile c e)))"
    by (simp_all add: BKTUpdateIndividualized_def BKTObserveIndividualized_def Let_def bkt_wf_def)
  show "unit_f64 (pPLearn (Params (BKTUpdateIndividualized st profile c e)))"
    "unit_f64 (pPForget (Params (BKTUpdateIndividualized st profile c e)))"
    using BKTObserveIndividualized_wf[of st profile c e]
    by (simp_all add: BKTUpdateIndividualized_def Let_def bkt_wf_def)
qed

section \<open>The interface of an update rule\<close>

text \<open>
  Every rule that moves a knowledge estimate takes an event (an answer, with whatever context
  the rule reads) and a state. The contract its callers rely on is that probabilities stay
  probabilities; a rule with fixed parameters also leaves the other four fields alone.
\<close>

locale bkt_rule =
  fixes upd :: "'e \<Rightarrow> BKTState \<Rightarrow> BKTState"
  assumes upd_wf: "bkt_wf st \<Longrightarrow> bkt_wf (upd e st)"
begin

lemma history_wf: "bkt_wf st \<Longrightarrow> bkt_wf (fold upd es st)"
  by (induction es arbitrary: st) (simp_all add: upd_wf)

lemma history_mastery_unit: "bkt_wf st \<Longrightarrow> unit_f64 (PMastery (fold upd es st))"
  using history_wf by (auto simp: bkt_wf_def)

end

definition bkt_params :: "BKTState \<Rightarrow> f64 \<times> f64 \<times> f64 \<times> f64" where
  "bkt_params st = (PLearn st, PForget st, PSlip st, PGuess st)"

locale bkt_fixed_rule = bkt_rule +
  assumes upd_params: "bkt_params (upd e st) = bkt_params st"
begin

lemma history_params: "bkt_params (fold upd es st) = bkt_params st"
  by (induction es arbitrary: st) (simp_all add: upd_params)

end

interpretation observe: bkt_fixed_rule "\<lambda>c st. BKTObserve st c"
  by unfold_locales (simp_all add: BKTObserve_wf bkt_params_def)

interpretation update: bkt_fixed_rule "\<lambda>c st. BKTUpdate st c"
  by unfold_locales (simp_all add: BKTUpdate_wf bkt_params_def)

lemma clamp_half_unit:
  "is_fin v \<Longrightarrow> unit_f64 (clamp v (Fin 0) (Fin (1/2)))" "is_fin v \<Longrightarrow> unit_f64 (clamp v (Fin (1/20)) (Fin (1/2)))"
  by (auto simp: is_fin_iff)

lemma heuristic_wf: "bkt_wf st \<Longrightarrow> bkt_wf (fst (BKTUpdateHeuristicSlipByErrorType st c e))"
proof -
  assume wf: "bkt_wf st"
  then have fin: "is_fin (PSlip st)" "is_fin (PGuess st)" by (simp_all add: bkt_wf_def unit_is_fin)
  have "bkt_wf (st\<lparr>PSlip := clamp (PSlip st + 0.15) 0 0.5\<rparr>)"
    using fin by (intro bkt_wf_upd wf) (simp, intro clamp_half_unit is_fin_arith; simp)
  moreover have "bkt_wf (st\<lparr>PGuess := clamp (PGuess st - 0.10) 0.05 0.5\<rparr>)"
    using fin by (intro bkt_wf_upd wf) (simp, intro clamp_half_unit is_fin_arith; simp)
  ultimately show ?thesis
    using wf unfolding BKTUpdateHeuristicSlipByErrorType_def Let_def by (auto intro!: BKTUpdate_wf)
qed

interpretation heuristic: bkt_rule "\<lambda>(c, e) st. fst (BKTUpdateHeuristicSlipByErrorType st c e)"
  by unfold_locales (auto simp: heuristic_wf split: prod.splits)

interpretation individual: bkt_rule "\<lambda>(p, c, e) st. State (BKTUpdateIndividualized st p c e)"
  by unfold_locales (auto simp: BKTUpdateIndividualized_wf split: prod.splits)

section \<open>Direction of the evidence\<close>

lemma posterior_correct_ge:
  assumes "0 \<le> m" "m \<le> 1" "g + s \<le> 1" "0 \<le> g" "1 / 10 ^ 9 \<le> marginal m s g True"
  shows "m \<le> posterior m s g True" "posterior m s g True \<le> 1"
proof -
  let ?M = "marginal m s g True"
  have M: "?M > 0" using assms(5) by (smt (verit) zero_less_divide_1_iff zero_less_power)
  have "g * (1 - m) \<le> (1 - s) * (1 - m)" using assms by (intro mult_right_mono) auto
  then have "?M \<le> 1 - s" by (simp add: marginal_def algebra_simps)
  then have "m * ?M \<le> (1 - s) * m" using assms(1) by (simp add: mult.commute mult_left_mono)
  then show "m \<le> posterior m s g True"
    using M assms(5) by (simp add: posterior_def max_def pos_le_divide_eq)
  have "0 \<le> g * (1 - m)" using assms by simp
  then have "(1 - s) * m \<le> ?M" by (simp add: marginal_def)
  then show "posterior m s g True \<le> 1"
    using M assms(5) by (simp add: posterior_def max_def pos_divide_le_eq)
qed

lemma posterior_incorrect_le:
  assumes "0 \<le> m" "m \<le> 1" "g + s \<le> 1" "0 \<le> s"
  shows "posterior m s g False \<le> m" "0 \<le> posterior m s g False"
proof -
  let ?N = "max (1 / 10 ^ 9) (marginal m s g False)"
  have N: "?N > 0" by (simp add: less_max_iff_disj)
  have "s * (1 - m) \<le> (1 - g) * (1 - m)" using assms by (intro mult_right_mono) auto
  then have "s \<le> marginal m s g False" by (simp add: marginal_def algebra_simps)
  then have "s * m \<le> m * ?N" using assms(1) by (simp add: mult.commute mult_left_mono le_max_iff_disj)
  then show "posterior m s g False \<le> m"
    using N by (simp add: posterior_def pos_divide_le_eq)
  show "0 \<le> posterior m s g False" using N assms by (simp add: posterior_def)
qed

section \<open>Entropy\<close>

lemma log2_le: "x > 0 \<Longrightarrow> log 2 x \<le> (x - 1) / ln 2"
  by (simp add: log_def divide_right_mono ln_le_minus_one)

text \<open>The entropy of a probability strictly between 0 and 1, as a real number.\<close>

definition entropy :: "real \<Rightarrow> real" where
  "entropy p = - p * log 2 p - (1 - p) * log 2 (1 - p)"

lemma BinaryEntropy_Fin: "BinaryEntropy (Fin p) = Fin (if 0 < p \<and> p < 1 then entropy p else 0)"
  by (auto simp: BinaryEntropy_def entropy_def)

lemma log2_inv_double: "q > 0 \<Longrightarrow> log 2 (1 / (2 * q)) = - 1 - log 2 q"
  by (simp add: log_divide log_mult)

lemma entropy_range:
  assumes "0 < p" "p < 1"
  shows "0 \<le> entropy p" "entropy p \<le> 1"
proof -
  have "log 2 p \<le> 0" "log 2 (1 - p) \<le> 0" using assms by auto
  then have "0 \<le> - p * log 2 p" "0 \<le> - ((1 - p) * log 2 (1 - p))"
    using assms by (simp_all add: mult_le_0_iff)
  then show "0 \<le> entropy p" by (simp add: entropy_def)
  have a: "p * log 2 (1 / (2 * p)) \<le> p * ((1 / (2 * p) - 1) / ln 2)"
    "(1 - p) * log 2 (1 / (2 * (1 - p))) \<le> (1 - p) * ((1 / (2 * (1 - p)) - 1) / ln 2)"
    using assms log2_le[of "1 / (2 * p)"] log2_le[of "1 / (2 * (1 - p))"]
    by (intro mult_left_mono; simp)+
  have b: "p * ((1 / (2 * p) - 1) / ln 2) + (1 - p) * ((1 / (2 * (1 - p)) - 1) / ln 2) = 0"
    using assms by (simp add: field_simps)
  have c: "log 2 (1 / (2 * p)) = - 1 - log 2 p" "log 2 (1 / (2 * (1 - p))) = - 1 - log 2 (1 - p)"
    using assms log2_inv_double[of p] log2_inv_double[of "1 - p"] by simp_all
  from a b have "p * log 2 (1 / (2 * p)) + (1 - p) * log 2 (1 / (2 * (1 - p))) \<le> 0" by linarith
  then have "p * (- 1 - log 2 p) + (1 - p) * (- 1 - log 2 (1 - p)) \<le> 0" by (simp only: c)
  then show "entropy p \<le> 1" by (simp add: entropy_def algebra_simps)
qed

lemma BinaryEntropy_unit: "unit_f64 (BinaryEntropy (Fin p))"
  using entropy_range[of p] by (simp add: BinaryEntropy_Fin)

lemma BinaryEntropy_FinE: obtains h where "BinaryEntropy (Fin p) = Fin h" "0 \<le> h" "h \<le> 1"
  using BinaryEntropy_unit[of p] by (auto elim!: unit_f64E)

text \<open>Entropy extended by 0 at the edges, as \<open>BinaryEntropy\<close> computes it on finite numbers.\<close>

definition entropy0 :: "real \<Rightarrow> real" where
  "entropy0 p = (if 0 < p \<and> p < 1 then entropy p else 0)"

lemma BinaryEntropy_Fin0: "BinaryEntropy (Fin p) = Fin (entropy0 p)"
  by (simp add: BinaryEntropy_Fin entropy0_def)

lemma entropy0_nonneg: "0 \<le> entropy0 p"
  using entropy_range[of p] by (simp add: entropy0_def)

lemma entropy0_cross:
  assumes "0 \<le> p" "p \<le> 1" "0 < q" "q < 1"
  shows "entropy0 p \<le> - p * log 2 q - (1 - p) * log 2 (1 - q)"
proof (cases "0 < p \<and> p < 1")
  case True
  have a: "p * log 2 (q / p) \<le> p * ((q / p - 1) / ln 2)"
    "(1 - p) * log 2 ((1 - q) / (1 - p)) \<le> (1 - p) * (((1 - q) / (1 - p) - 1) / ln 2)"
    using True assms log2_le[of "q / p"] log2_le[of "(1 - q) / (1 - p)"]
    by (intro mult_left_mono; simp)+
  have b: "p * ((q / p - 1) / ln 2) + (1 - p) * (((1 - q) / (1 - p) - 1) / ln 2) = 0"
    using True by (simp add: field_simps)
  have c: "log 2 (q / p) = log 2 q - log 2 p" "log 2 ((1 - q) / (1 - p)) = log 2 (1 - q) - log 2 (1 - p)"
    using True assms by (simp_all add: log_divide)
  from a b have "p * log 2 (q / p) + (1 - p) * log 2 ((1 - q) / (1 - p)) \<le> 0" by linarith
  then show ?thesis using True by (simp add: c entropy0_def entropy_def algebra_simps)
next
  case False
  have "log 2 q \<le> 0" "log 2 (1 - q) \<le> 0" using assms by auto
  then have "p * log 2 q \<le> 0" "(1 - p) * log 2 (1 - q) \<le> 0"
    using assms by (intro mult_nonneg_nonpos; simp)+
  then have "0 \<le> - p * log 2 q - (1 - p) * log 2 (1 - q)" by simp
  with False show ?thesis by (auto simp: entropy0_def)
qed

lemma entropy0_concave:
  assumes "0 \<le> w" "w \<le> 1" "0 \<le> a" "a \<le> 1" "0 \<le> b" "b \<le> 1" "q = w * a + (1 - w) * b" "0 < q" "q < 1"
  shows "w * entropy0 a + (1 - w) * entropy0 b \<le> entropy0 q"
proof -
  have "w * entropy0 a \<le> w * (- a * log 2 q - (1 - a) * log 2 (1 - q))"
    "(1 - w) * entropy0 b \<le> (1 - w) * (- b * log 2 q - (1 - b) * log 2 (1 - q))"
    using assms entropy0_cross[of a q] entropy0_cross[of b q] by (auto intro!: mult_left_mono)
  moreover have "w * (- a * log 2 q - (1 - a) * log 2 (1 - q)) + (1 - w) * (- b * log 2 q - (1 - b) * log 2 (1 - q))
      = - q * log 2 q - (1 - q) * log 2 (1 - q)"
    unfolding assms(7) by (simp add: algebra_simps)
  ultimately show ?thesis using assms(8,9) by (simp add: entropy0_def entropy_def)
qed

text \<open>The expected posterior entropy, on real numbers.\<close>

definition expected_posterior_entropy :: "real \<Rightarrow> real \<Rightarrow> real \<Rightarrow> real" where
  "expected_posterior_entropy l s g =
     (let c = l * (1 - s) + (1 - l) * g
      in c * entropy0 (l * (1 - s) / c) + (1 - c) * entropy0 (l * s / (1 - c)))"

lemma BKTInfoGain_Fin:
  assumes "0 < l" "l < 1" "0 < l * (1 - s) + (1 - l) * g" "l * (1 - s) + (1 - l) * g < 1"
  shows "BKTInfoGain (Some (Fin l, Fin s, Fin g)) = Fin (max 0 (entropy0 l - expected_posterior_entropy l s g))"
proof -
  define c where "c = l * (1 - s) + (1 - l) * g"
  have c: "0 < c" "c < 1" "Fin l * (1 - Fin s) + (1 - Fin l) * Fin g = Fin c" using assms by (simp_all add: c_def)
  have p: "Fin l * (1 - Fin s) / Fin c = Fin (l * (1 - s) / c)" "Fin l * Fin s / (1 - Fin c) = Fin (l * s / (1 - c))"
    using c by simp_all
  show ?thesis
    unfolding BKTInfoGain_def option.case prod.case Let_def c(3) p BinaryEntropy_Fin0
    using assms(1,2) c(1,2) by (auto simp: expected_posterior_entropy_def Let_def simp flip: c_def)
qed

lemma BKTInfoGain_degenerate:
  "\<not> (0 < l \<and> l < 1 \<and> 0 < l * (1 - s) + (1 - l) * g \<and> l * (1 - s) + (1 - l) * g < 1) \<Longrightarrow>
   BKTInfoGain (Some (Fin l, Fin s, Fin g)) = 0"
  by (auto simp: BKTInfoGain_def Let_def not_less)

lemma BKTInfoGain_range:
  assumes "\<not> isInf s" "\<not> isInf g"
  shows "unit_f64 (BKTInfoGain (Some (l, s, g)))"
proof (cases "is_fin l \<and> is_fin s \<and> is_fin g")
  case True
  then obtain l' s' g' where e: "l = Fin l'" "s = Fin s'" "g = Fin g'" by (auto simp: is_fin_iff)
  let ?c = "l' * (1 - s') + (1 - l') * g'"
  show ?thesis
  proof (cases "0 < l' \<and> l' < 1 \<and> 0 < ?c \<and> ?c < 1")
    case True
    then have "0 \<le> expected_posterior_entropy l' s' g'"
      using entropy0_nonneg by (auto simp: expected_posterior_entropy_def Let_def)
    moreover have "entropy0 l' \<le> 1" using True entropy_range[of l'] by (simp add: entropy0_def)
    ultimately show ?thesis using True by (simp add: e BKTInfoGain_Fin)
  qed (simp add: e BKTInfoGain_degenerate)
next
  case False
  with assms show ?thesis
    by (cases l; cases s; cases g) (auto simp: BKTInfoGain_def)
qed

section \<open>The empty profile\<close>

definition empty_profile :: IndividualBKTProfile where
  "empty_profile = \<lparr>Observations = 0, SuccessRate = 0, ErrorRate = 0, AvgConfidence = 0,
     HintsRate = 0, OverconfidenceRate = 0, Stability_rate = 0, AvgResponseTimeSecs = 0\<rparr>"

lemma empty_profile_weight: "individualBKTEvidenceWeight empty_profile = 0"
  by (simp add: individualBKTEvidenceWeight_def empty_profile_def)

lemma empty_profile_adjust: "individualAdjust st empty_profile = st"
  by (simp add: individualAdjust_def empty_profile_weight)

lemma finiteClamp_fin: "is_fin v \<Longrightarrow> finiteClamp v lo hi = clamp v lo hi"
  by (simp add: finiteClamp_def isFinite_def is_fin_not_special)

lemma individualized_State:
  "State (BKTUpdateIndividualized st p c e) =
     BKTTransition (sanitizeBKTProbabilities (BKTObserve
       (individualErrorAdjust (individualAdjust (sanitizeBKTProbabilities st) p)
         (individualBKTEvidenceWeight p) c e) c))"
  by (simp add: BKTUpdateIndividualized_def BKTObserveIndividualized_def Let_def)

lemma individualized_State_empty:
  assumes "bkt_wf st"
  shows "State (BKTUpdateIndividualized st empty_profile c e) = BKTUpdate (individualErrorAdjust st 0 c e) c"
  using assms
  by (simp add: individualized_State empty_profile_weight empty_profile_adjust sanitize_id
      BKTObserve_wf individualErrorAdjust_wf BKTUpdate_def del: f64_const)

lemma individualErrorAdjust_zero_weight:
  assumes "bkt_wf st"
  shows "individualErrorAdjust st 0 False ''SYNTAX_ERROR'' = st\<lparr>PSlip := clamp (PSlip st + 0.15) 0 0.5\<rparr>"
    and "individualErrorAdjust st 0 False ''KNOWLEDGE_GAP'' = st\<lparr>PGuess := clamp (PGuess st - 0.10) 0.05 0.5\<rparr>"
    and "PSlip st \<le> 0.5 \<Longrightarrow> individualErrorAdjust st 0 False ''LOGIC_ERROR'' = st"
    and "e \<notin> {''SYNTAX_ERROR'', ''KNOWLEDGE_GAP'', ''LOGIC_ERROR''} \<Longrightarrow> individualErrorAdjust st 0 False e = st"
    and "individualErrorAdjust st 0 True e = st"
  using assms
  by (auto simp: individualErrorAdjust_def finiteClamp_fin elim!: bkt_wfE)

section \<open>Properties\<close>

text \<open>Starting from probabilities, any history of answers processed by \<open>BKTUpdate\<close> leaves
  every field of the state a probability (never NaN, never outside [0,1]) and never changes the
  four parameters \<open>PLearn\<close>, \<open>PForget\<close>, \<open>PSlip\<close>, \<open>PGuess\<close>.\<close>

lemma BKT_history_stays_probability:
  assumes "bkt_wf st"
  shows "bkt_wf (fold (\<lambda>c s. BKTUpdate s c) answers st) \<and>
    bkt_params (fold (\<lambda>c s. BKTUpdate s c) answers st) = bkt_params st"
  using assms by (simp add: update.history_wf update.history_params)

text \<open>C31. Evidence moves the estimate the right way. When a learner who knows the concept answers
  correctly at least as often as one who guesses (\<open>PGuess + PSlip \<le> 1\<close>), a wrong answer never
  raises the estimate, and a correct answer never lowers it unless the model deemed a correct
  answer (nearly) impossible, the case the \<open>bktEpsilon\<close> guard handles.\<close>

theorem BKTObserve_direction:
  assumes "bkt_wf st" and "PGuess st + PSlip st \<le> 1"
  shows "PMastery (BKTObserve st False) \<le> PMastery st \<and>
    (bktEpsilon \<le> (1 - PSlip st) * PMastery st + PGuess st * (1 - PMastery st) \<longrightarrow>
         PMastery st \<le> PMastery (BKTObserve st True))"
proof -
  from assms(1) obtain m l f s g where st: "PMastery st = Fin m" "PSlip st = Fin s" "PGuess st = Fin g"
    and r: "0 \<le> m" "m \<le> 1" "0 \<le> s" "0 \<le> g" by (elim bkt_wfE) blast
  have gs: "g + s \<le> 1" using assms(2) st by simp
  have "PMastery (BKTObserve st False) \<le> PMastery st"
    using posterior_incorrect_le[OF r(1,2) gs r(3)] r by (simp add: BKTObserve_mastery[OF st] st)
  moreover have "PMastery st \<le> PMastery (BKTObserve st True)"
    if "bktEpsilon \<le> (1 - PSlip st) * PMastery st + PGuess st * (1 - PMastery st)"
  proof -
    from that have "1 / 10 ^ 9 \<le> marginal m s g True" by (simp add: st bktEpsilon_def marginal_def)
    from posterior_correct_ge[OF r(1,2) gs r(4) this] r
    show ?thesis by (simp add: BKTObserve_mastery[OF st] st)
  qed
  ultimately show ?thesis by blast
qed

theorem BKTObserve_direction_witness:
  "PMastery (BKTObserve \<lparr>PMastery = 0.1, PLearn = 0.15, PForget = 0.05, PSlip = 0.1, PGuess = 0.2\<rparr> False)
     \<le> PMastery \<lparr>PMastery = 0.1, PLearn = 0.15, PForget = 0.05, PSlip = 0.1, PGuess = 0.2\<rparr> \<and>
   PMastery \<lparr>PMastery = 0.1, PLearn = 0.15, PForget = 0.05, PSlip = 0.1, PGuess = 0.2\<rparr> \<le>
     PMastery (BKTObserve \<lparr>PMastery = 0.1, PLearn = 0.15, PForget = 0.05, PSlip = 0.1, PGuess = 0.2\<rparr> True)"
proof -
  let ?st = "\<lparr>PMastery = 0.1, PLearn = 0.15, PForget = 0.05, PSlip = 0.1, PGuess = 0.2\<rparr> :: BKTState"
  have h: "bkt_wf ?st" "PGuess ?st + PSlip ?st \<le> 1"
    "bktEpsilon \<le> (1 - PSlip ?st) * PMastery ?st + PGuess ?st * (1 - PMastery ?st)"
    by (simp_all add: bkt_wf_def bktEpsilon_def)
  from BKTObserve_direction[OF h(1,2)] h(3) show ?thesis by blast
qed

text \<open>The individualised update is total: whatever the incoming state, profile, answer and
  error label (NaN, infinite or out-of-range fields included), every probability of the returned
  state and every effective parameter it reports lies in [0,1].\<close>

lemma BKTUpdateIndividualized_total:
  "bkt_wf (State (BKTUpdateIndividualized st profile correct errorType)) \<and>
   unit_f64 (pPLearn (Params (BKTUpdateIndividualized st profile correct errorType))) \<and>
   unit_f64 (pPForget (Params (BKTUpdateIndividualized st profile correct errorType))) \<and>
   unit_f64 (pPSlip (Params (BKTUpdateIndividualized st profile correct errorType))) \<and>
   unit_f64 (pPGuess (Params (BKTUpdateIndividualized st profile correct errorType)))"
  by (simp add: BKTUpdateIndividualized_wf individual_params_unit)

text \<open>With an empty profile the individualised update is the error-type heuristic: for a state
  of probabilities whose slip is at most one half, both produce the same next state.\<close>

lemma BKTUpdateIndividualized_empty_profile:
  assumes "bkt_wf st" and "PSlip st \<le> 0.5"
  shows "State (BKTUpdateIndividualized st empty_profile correct errorType) =
         fst (BKTUpdateHeuristicSlipByErrorType st correct errorType)"
proof (cases "correct \<or> errorType = ''''")
  case True
  then show ?thesis
    using assms individualErrorAdjust_zero_weight(1,2,3)[OF assms(1)]
      individualErrorAdjust_zero_weight(4,5)[OF assms(1), of errorType]
    by (cases correct)
      (auto simp: individualized_State_empty BKTUpdateHeuristicSlipByErrorType_def simp del: f64_const)
next
  case False
  then show ?thesis
    using assms individualErrorAdjust_zero_weight(1,2,3)[OF assms(1)]
      individualErrorAdjust_zero_weight(4,5)[OF assms(1), of errorType]
    by (cases "errorType = ''LOGIC_ERROR''")
      (auto simp: individualized_State_empty BKTUpdateHeuristicSlipByErrorType_def Let_def
        simp del: f64_const f64_numeral f64_fin_div_nonzero f64_fin_power)
qed

text \<open>C32. For probabilities, the information gain is the entropy of the prior minus the expected
  entropy of the two posteriors: this difference is never negative, so the floor at 0 never changes
  it in exact arithmetic, and it is at most the prior entropy.\<close>

theorem BKTInfoGain_mutual_information:
  assumes "0 < l" "l < 1" "0 \<le> s" "s \<le> 1" "0 \<le> g" "g \<le> 1"
    and "0 < l * (1 - s) + (1 - l) * g" "l * (1 - s) + (1 - l) * g < 1"
  shows "BKTInfoGain (Some (Fin l, Fin s, Fin g)) = Fin (entropy0 l - expected_posterior_entropy l s g) \<and>
    0 \<le> entropy0 l - expected_posterior_entropy l s g \<and>
    BKTInfoGain (Some (Fin l, Fin s, Fin g)) \<le> BinaryEntropy (Fin l)"
proof -
  define c where "c = l * (1 - s) + (1 - l) * g"
  have c: "0 < c" "c < 1" using assms by (simp_all add: c_def)
  have nc: "l * s \<le> 1 - c"
  proof -
    have "1 - c - l * s = (1 - l) * (1 - g)" by (simp add: c_def algebra_simps)
    moreover have "0 \<le> (1 - l) * (1 - g)" using assms by simp
    ultimately show ?thesis by linarith
  qed
  have "l * (1 - s) \<le> c" using assms by (simp add: c_def)
  then have r: "0 \<le> l * (1 - s) / c" "l * (1 - s) / c \<le> 1" "0 \<le> l * s / (1 - c)" "l * s / (1 - c) \<le> 1"
    using assms c nc by (simp_all add: divide_le_eq)
  have "c * (l * (1 - s) / c) = l * (1 - s)" "(1 - c) * (l * s / (1 - c)) = l * s" using c by simp_all
  then have "l = c * (l * (1 - s) / c) + (1 - c) * (l * s / (1 - c))" by (simp only:) (simp add: algebra_simps)
  then have "expected_posterior_entropy l s g \<le> entropy0 l"
    using entropy0_concave[of c _ _ l, OF _ _ r] c assms(1,2)
    by (simp add: expected_posterior_entropy_def Let_def flip: c_def)
  moreover have "0 \<le> expected_posterior_entropy l s g"
    using c entropy0_nonneg by (auto simp: expected_posterior_entropy_def Let_def simp flip: c_def)
  ultimately show ?thesis using assms by (simp add: BKTInfoGain_Fin BinaryEntropy_Fin0)
qed

theorem BKTInfoGain_mutual_information_witness:
  "0 \<le> entropy0 (1/2) - expected_posterior_entropy (1/2) (1/10) (1/5)"
  using BKTInfoGain_mutual_information[of "1/2" "1/10" "1/5"] by simp

end
