(* ===== verification/Fsrs.thy ===== *)
theory Fsrs
  imports Bkt
begin

text \<open>
  The FSRS-5 memory model, \<open>algorithms/fsrs.go\<close>: retrievability, the difficulty and stability
  updates, the scheduling interval and \<open>ReviewCard\<close>, one function per function of the file.
  A \<open>Rating\<close> is an integer, as in the source (out-of-range values are clamped there); a card
  state read from storage may be an unknown string, \<open>CardOther\<close>.
\<close>

section \<open>Data\<close>

type_synonym Rating = int

definition Again :: Rating where "Again = 1"
definition Hard :: Rating where "Hard = 2"
definition Good :: Rating where "Good = 3"
definition Easy :: Rating where "Easy = 4"

lemmas rating_defs = Again_def Hard_def Good_def Easy_def

datatype CardState = New | Learning | Review | Relearning | CardOther string

definition FSRSDesiredRetention :: f64 where "FSRSDesiredRetention = 0.9"
definition fsrsDecay :: f64 where "fsrsDecay = -0.5"
definition fsrsFactor :: f64 where "fsrsFactor = 19.0 / 81.0"
definition fsrsMaximumInterval :: int where "fsrsMaximumInterval = 36500"
definition fsrsEpsilon :: f64 where "fsrsEpsilon = Fin (1 / 10 ^ 9)"

definition defaultWeights :: "f64 list" where
  "defaultWeights =
     [0.40255, 1.18385, 3.173, 15.69105,
      7.1949, 0.5345, 1.4604, 0.0046,
      1.54575, 0.1192, 1.01925, 1.9395,
      0.11, 0.29605, 2.2698, 0.2315,
      2.9898, 0.51655, 0.6621]"

record FSRSCard =
  fStability :: f64
  fDifficulty :: f64
  fElapsedDays :: int
  fScheduledDays :: int
  fReps :: int
  fLapses :: int
  fState :: CardState
  fLastReview :: time

definition NewFSRSCard :: FSRSCard where
  "NewFSRSCard = \<lparr>fStability = 0, fDifficulty = 0, fElapsedDays = 0, fScheduledDays = 0,
     fReps = 0, fLapses = 0, fState = New, fLastReview = 0\<rparr>"

section \<open>Operations\<close>

definition Retrievability :: "int \<Rightarrow> f64 \<Rightarrow> f64" where
  "Retrievability elapsedDays stability =
     (if stability \<le> 0 \<or> isNaN stability \<or> isInf stability then 0
      else
        let elapsedDays = (if elapsedDays < 0 then 0 else elapsedDays)
        in fpow (1 + fsrsFactor * f_of_int elapsedDays / stability) fsrsDecay)"

definition CurrentElapsedDays :: "time \<Rightarrow> time option \<Rightarrow> int" where
  "CurrentElapsedDays now lastReview =
     (case lastReview of
        None \<Rightarrow> 0
      | Some lr \<Rightarrow>
          if isZero lr \<or> \<not> now > lr then 0
          else
            let elapsedDays = f_to_int (hours_of (t_sub now lr) / 24)
            in if elapsedDays < 0 then 0 else elapsedDays)"

definition CurrentRetrievability :: "time \<Rightarrow> time option \<Rightarrow> f64 \<Rightarrow> f64" where
  "CurrentRetrievability now lastReview stability =
     Retrievability (CurrentElapsedDays now lastReview) stability"

definition clampRating :: "Rating \<Rightarrow> Rating" where
  "clampRating rating = (if rating < Again then Again else if rating > Easy then Easy else rating)"

definition InitialStability :: "Rating \<Rightarrow> f64" where
  "InitialStability rating = defaultWeights ! nat (clampRating rating - 1)"

definition InitialDifficulty :: "Rating \<Rightarrow> f64" where
  "InitialDifficulty rating =
     (let rating = clampRating rating;
          d = defaultWeights ! 4 - fexp (defaultWeights ! 5 * f_of_int (rating - 1)) + 1
      in clamp d 1 10)"

definition fsrsDifficulty :: "f64 \<Rightarrow> f64" where
  "fsrsDifficulty d = (if isNaN d \<or> isInf d then InitialDifficulty Good else clamp d 1 10)"

definition fsrsPositiveStability :: "f64 \<Rightarrow> f64 \<Rightarrow> f64" where
  "fsrsPositiveStability s fallback = (if s \<le> 0 \<or> isNaN s \<or> isInf s then fallback else s)"

definition fsrsRetrievability :: "f64 \<Rightarrow> f64" where
  "fsrsRetrievability r = (if isNaN r \<or> isInf r then 0 else clamp r 0 1)"

definition nextDifficulty :: "f64 \<Rightarrow> Rating \<Rightarrow> f64" where
  "nextDifficulty d rating =
     (let rating = clampRating rating;
          d = fsrsDifficulty d;
          delta = - (defaultWeights ! 6) * f_of_int (rating - 3);
          damped = d + delta * (10 - d) / 9;
          newD = defaultWeights ! 7 * InitialDifficulty Easy + (1 - defaultWeights ! 7) * damped
      in clamp newD 1 10)"

definition nextRecallStability :: "f64 \<Rightarrow> f64 \<Rightarrow> f64 \<Rightarrow> Rating \<Rightarrow> f64" where
  "nextRecallStability d s r rating =
     (let d = fsrsDifficulty d;
          s = fsrsPositiveStability s fsrsEpsilon;
          r = fsrsRetrievability r;
          modifier = (if clampRating rating = Hard then defaultWeights ! 15
                      else if clampRating rating = Easy then defaultWeights ! 16 else 1);
          nxt = s * (fexp (defaultWeights ! 8) * (11 - d) * fpow s (- (defaultWeights ! 9))
                     * (fexp (defaultWeights ! 10 * (1 - r)) - 1) * modifier + 1)
      in fsrsPositiveStability nxt s)"

definition nextForgetStability :: "f64 \<Rightarrow> f64 \<Rightarrow> f64 \<Rightarrow> f64" where
  "nextForgetStability d s r =
     (let d = fsrsDifficulty d;
          s = fsrsPositiveStability s fsrsEpsilon;
          r = fsrsRetrievability r;
          nxt = defaultWeights ! 11 * fpow d (- (defaultWeights ! 12))
                * (fpow (s + 1) (defaultWeights ! 13) - 1) * fexp (defaultWeights ! 14 * (1 - r))
      in fsrsPositiveStability nxt fsrsEpsilon)"

definition nextShortTermStability :: "f64 \<Rightarrow> Rating \<Rightarrow> f64" where
  "nextShortTermStability s rating =
     (let s = fsrsPositiveStability s fsrsEpsilon;
          rating = clampRating rating;
          nxt = s * fexp (defaultWeights ! 17 * (f_of_int (rating - 3) + defaultWeights ! 18))
      in fsrsPositiveStability nxt s)"

definition NextInterval :: "f64 \<Rightarrow> f64 \<Rightarrow> int" where
  "NextInterval stability desiredRetention =
     (let stability = fsrsPositiveStability stability fsrsEpsilon;
          desiredRetention =
            (if desiredRetention \<le> 0 \<or> desiredRetention > 1 \<or> isNaN desiredRetention \<or> isInf desiredRetention
             then FSRSDesiredRetention else desiredRetention);
          interval = stability * ((fpow desiredRetention (1.0 / fsrsDecay) - 1) / fsrsFactor)
      in if interval \<ge> f_of_int fsrsMaximumInterval then fsrsMaximumInterval
         else f_to_int (fmax 1 (fround interval)))"

text \<open>The stability a non-new card gets from a review: the switch inside \<open>ReviewCard\<close>.\<close>

definition reviewedStability :: "FSRSCard \<Rightarrow> Rating \<Rightarrow> int \<Rightarrow> time option \<Rightarrow> f64" where
  "reviewedStability crd rating elapsedDays lastReview =
     (let r = Retrievability elapsedDays (fStability crd) in
      if fStability crd \<le> 0 \<or> isNaN (fStability crd) \<or> isInf (fStability crd)
      then InitialStability rating
      else if elapsedDays = 0 \<and> lastReview \<noteq> None
      then nextShortTermStability (fStability crd) rating
      else if rating = Again
      then
        let maxAfterLapse = fStability crd / fexp (defaultWeights ! 17 * defaultWeights ! 18)
        in fmin maxAfterLapse (nextForgetStability (fDifficulty crd) (fStability crd) r)
      else nextRecallStability (fDifficulty crd) (fStability crd) r rating)"

definition ReviewCard :: "FSRSCard \<Rightarrow> Rating \<Rightarrow> time \<Rightarrow> FSRSCard" where
  "ReviewCard crd rating now =
     (let rating = clampRating rating;
          lastReview = (if \<not> isZero (fLastReview crd) then Some (fLastReview crd) else None);
          elapsedDays = CurrentElapsedDays now lastReview;
          newCard = crd\<lparr>fElapsedDays := elapsedDays, fLastReview := now, fReps := fReps crd + 1\<rparr>
      in case fState crd of
           New \<Rightarrow>
             let newCard = newCard\<lparr>fStability := InitialStability rating,
                                   fDifficulty := InitialDifficulty rating\<rparr>
             in if rating = Again then newCard\<lparr>fState := Learning, fScheduledDays := 0\<rparr>
                else newCard\<lparr>fState := Review,
                              fScheduledDays := NextInterval (fStability newCard) FSRSDesiredRetention\<rparr>
         | CardOther _ \<Rightarrow> newCard
         | _ \<Rightarrow>
             let newCard = newCard\<lparr>fDifficulty := nextDifficulty (fDifficulty crd) rating,
                                   fStability := reviewedStability crd rating elapsedDays lastReview\<rparr>
             in if rating = Again then
                  (if fState crd = Review
                   then newCard\<lparr>fLapses := fLapses newCard + 1, fState := Relearning, fScheduledDays := 0\<rparr>
                   else newCard\<lparr>fScheduledDays := 0\<rparr>)
                else newCard\<lparr>fState := Review,
                              fScheduledDays := NextInterval (fStability newCard) FSRSDesiredRetention\<rparr>)"

section \<open>Ranges\<close>

fun pos_fin :: "f64 \<Rightarrow> bool" where
  "pos_fin (Fin x) = (x > 0)"
| "pos_fin _ = False"

lemma pos_finE: assumes "pos_fin s" obtains x where "s = Fin x" "0 < x"
  using assms by (cases s) auto

definition difficulty_ok :: "f64 \<Rightarrow> bool" where
  "difficulty_ok d \<longleftrightarrow> Fin 1 \<le> d \<and> d \<le> Fin 10"

lemma difficulty_okE: assumes "difficulty_ok d" obtains x where "d = Fin x" "1 \<le> x" "x \<le> 10"
  using assms by (cases d) (auto simp: difficulty_ok_def)

lemma clamp_difficulty: "is_fin d \<Longrightarrow> difficulty_ok (clamp d 1 10)"
  by (auto simp: is_fin_iff difficulty_ok_def)

lemma weights_fin [simp]:
  "defaultWeights ! 0 = Fin 0.40255" "defaultWeights ! 1 = Fin 1.18385"
  "defaultWeights ! 2 = Fin 3.173" "defaultWeights ! 3 = Fin 15.69105"
  "defaultWeights ! 4 = Fin 7.1949" "defaultWeights ! 5 = Fin 0.5345"
  "defaultWeights ! 6 = Fin 1.4604" "defaultWeights ! 7 = Fin 0.0046"
  "defaultWeights ! 8 = Fin 1.54575" "defaultWeights ! 9 = Fin 0.1192"
  "defaultWeights ! 10 = Fin 1.01925" "defaultWeights ! 11 = Fin 1.9395"
  "defaultWeights ! 12 = Fin 0.11" "defaultWeights ! 13 = Fin 0.29605"
  "defaultWeights ! 14 = Fin 2.2698" "defaultWeights ! 15 = Fin 0.2315"
  "defaultWeights ! 16 = Fin 2.9898" "defaultWeights ! 17 = Fin 0.51655"
  "defaultWeights ! 18 = Fin 0.6621"
  by (simp_all add: defaultWeights_def)

lemma clampRating_range: "clampRating r \<in> {1, 2, 3, 4}"
  by (auto simp: clampRating_def rating_defs)

lemma clampRating_known [simp]: "clampRating Again = Again" "clampRating Good = Good"
  by (simp_all add: clampRating_def rating_defs)

lemma clampRating_idem [simp]: "clampRating (clampRating r) = clampRating r"
  by (auto simp: clampRating_def rating_defs)

lemma InitialStability_pos: "pos_fin (InitialStability r)"
proof -
  have "nat (clampRating r - 1) \<in> {0, 1, 2, 3}" using clampRating_range[of r] by auto
  then show ?thesis by (auto simp: InitialStability_def defaultWeights_def)
qed

lemma InitialDifficulty_ok: "difficulty_ok (InitialDifficulty r)"
  unfolding InitialDifficulty_def Let_def by (rule clamp_difficulty) simp

lemma fsrsDifficulty_ok: "difficulty_ok (fsrsDifficulty d)"
  by (cases d) (auto simp: fsrsDifficulty_def InitialDifficulty_ok intro!: clamp_difficulty simp del: f64_const f64_numeral clamp_Fin)

lemma nextDifficulty_ok: "difficulty_ok (nextDifficulty d r)"
proof -
  obtain x y where "fsrsDifficulty d = Fin x" "InitialDifficulty Easy = Fin y"
    using fsrsDifficulty_ok[of d] InitialDifficulty_ok[of Easy] by (auto elim!: difficulty_okE)
  then show ?thesis unfolding nextDifficulty_def Let_def by (intro clamp_difficulty) simp
qed

lemma fsrsRetrievability_unit: "unit_f64 (fsrsRetrievability r)"
  by (cases r) (auto simp: fsrsRetrievability_def)

lemma fsrsPositiveStability_pos: "pos_fin f \<Longrightarrow> pos_fin (fsrsPositiveStability s f)"
  by (cases s) (auto simp: fsrsPositiveStability_def)

lemma fsrsPositiveStability_id: "pos_fin s \<Longrightarrow> fsrsPositiveStability s f = s"
  by (cases s) (auto simp: fsrsPositiveStability_def)

lemma fsrsEpsilon_pos: "pos_fin fsrsEpsilon"
  by (simp add: fsrsEpsilon_def)

lemma valid_stability: "\<not> (s \<le> 0 \<or> isNaN s \<or> isInf s) \<longleftrightarrow> pos_fin s"
  by (cases s) auto

lemma pow_minus_half: "0 < x \<Longrightarrow> fpow (Fin x) fsrsDecay = Fin (x powr - (1/2))"
  by (simp add: fsrsDecay_def)

lemma Retrievability_pos:
  assumes "0 < x"
  shows "Retrievability n (Fin x) = Fin ((1 + 19/81 * of_int (max 0 n) / x) powr - (1/2))"
proof -
  have "0 < 1 + 19/81 * real_of_int (max 0 n) / x" using assms by (simp add: add_pos_nonneg)
  then have "fpow (Fin (1 + 19/81 * of_int (max 0 n) / x)) fsrsDecay =
      Fin ((1 + 19/81 * of_int (max 0 n) / x) powr - (1/2))"
    by (rule pow_minus_half)
  with assms show ?thesis
    by (auto simp: Retrievability_def fsrsFactor_def Let_def max_def)
qed

lemma Retrievability_invalid: "\<not> pos_fin s \<Longrightarrow> Retrievability n s = 0"
  by (cases s) (auto simp: Retrievability_def)

lemma Retrievability_unit: "unit_f64 (Retrievability n s)"
proof (cases "pos_fin s")
  case True
  then obtain x where x: "s = Fin x" "0 < x" by (rule pos_finE)
  have "1 \<le> 1 + 19/81 * real_of_int (max 0 n) / x" using x by simp
  then have "(1 + 19/81 * real_of_int (max 0 n) / x) powr - (1/2) \<le> 1 powr - (1/2)"
    by (intro powr_mono2') auto
  then show ?thesis using x by (simp add: Retrievability_pos)
qed (simp add: Retrievability_invalid)

lemma Retrievability_antimono:
  assumes "n \<le> m"
  shows "Retrievability m s \<le> Retrievability n s"
proof (cases "pos_fin s")
  case True
  then obtain x where x: "s = Fin x" "0 < x" by (rule pos_finE)
  have "19/81 * real_of_int (max 0 n) / x \<le> 19/81 * real_of_int (max 0 m) / x"
    using x assms by (intro divide_right_mono mult_left_mono) auto
  moreover have "0 < 1 + 19/81 * real_of_int (max 0 n) / x" using x by (simp add: add_pos_nonneg)
  ultimately show ?thesis using x by (simp add: Retrievability_pos powr_mono2')
qed (simp add: Retrievability_invalid)

lemma Retrievability_zero_days: "pos_fin s \<Longrightarrow> Retrievability 0 s = 1"
  by (elim pos_finE) (simp add: Retrievability_pos)

lemma next_stability_pos [simp]:
  "pos_fin (nextRecallStability d s r rating)" "pos_fin (nextForgetStability d s r)"
  "pos_fin (nextShortTermStability s rating)"
  unfolding nextRecallStability_def nextForgetStability_def nextShortTermStability_def Let_def
  by (intro fsrsPositiveStability_pos fsrsEpsilon_pos)+

lemma fmin_pos: "pos_fin a \<Longrightarrow> pos_fin b \<Longrightarrow> pos_fin (fmin a b)"
  by (auto elim!: pos_finE)

lemma reviewedStability_pos: "pos_fin (reviewedStability crd rating n lr)"
proof (cases "pos_fin (fStability crd)")
  case True
  then obtain x where x: "fStability crd = Fin x" "0 < x" by (rule pos_finE)
  then have "pos_fin (fStability crd / fexp (defaultWeights ! 17 * defaultWeights ! 18))" by simp
  then show ?thesis unfolding reviewedStability_def Let_def
    by (auto intro: fmin_pos InitialStability_pos simp del: weights_fin)
next
  case False
  then show ?thesis
    using valid_stability[of "fStability crd"] InitialStability_pos
    unfolding reviewedStability_def Let_def by auto
qed

subsection \<open>The interval\<close>

lemma capped_rounding:
  "(if Fin x \<ge> f_of_int fsrsMaximumInterval then fsrsMaximumInterval else f_to_int (fmax 1 (fround (Fin x))))
    = max 1 (min fsrsMaximumInterval \<lfloor>x + 1/2\<rfloor>)"
proof (cases "x < 36500")
  case True
  have ub: "\<lfloor>x + 1/2\<rfloor> \<le> 36500" using True by linarith
  have "f_to_int (fmax 1 (fround (Fin x))) = max 1 \<lfloor>x + 1/2\<rfloor>"
  proof (cases "x < 0")
    case True
    then have "round_half_away x \<le> 1" by (simp add: round_half_away_def) linarith
    moreover have "\<lfloor>x + 1/2\<rfloor> \<le> 0" using True by linarith
    ultimately show ?thesis by (simp add: max_absorb1)
  next
    case False
    then show ?thesis by (auto simp: round_half_away_def max_def)
  qed
  with True ub show ?thesis by (simp add: fsrsMaximumInterval_def)
next
  case False
  then have "36500 \<le> \<lfloor>x + 1/2\<rfloor>" by linarith
  with False show ?thesis by (simp add: fsrsMaximumInterval_def)
qed

definition retention_target :: "f64 \<Rightarrow> real" where
  "retention_target r = (case r of Fin x \<Rightarrow> if 0 < x \<and> x \<le> 1 then x else 9/10 | _ \<Rightarrow> 9/10)"

lemma retention_target_pos: "0 < retention_target r"
  by (simp add: retention_target_def split: f64.split)

lemma guarded_retention:
  "(if r \<le> 0 \<or> r > 1 \<or> isNaN r \<or> isInf r then FSRSDesiredRetention else r) = Fin (retention_target r)"
  by (cases r) (auto simp: retention_target_def FSRSDesiredRetention_def)

lemma NextInterval_closed:
  assumes "fsrsPositiveStability s fsrsEpsilon = Fin x"
  shows "NextInterval s r = max 1 (min fsrsMaximumInterval
    \<lfloor>x * ((retention_target r powr -2 - 1) / (19/81)) + 1/2\<rfloor>)"
proof -
  have "fpow (Fin (retention_target r)) (1.0 / fsrsDecay) = Fin (retention_target r powr -2)"
    using retention_target_pos[of r] by (simp add: fsrsDecay_def)
  then have "Fin x * ((fpow (Fin (retention_target r)) (1.0 / fsrsDecay) - 1) / fsrsFactor) =
      Fin (x * ((retention_target r powr -2 - 1) / (19/81)))"
    by (simp add: fsrsFactor_def)
  then show ?thesis
    unfolding NextInterval_def Let_def assms guarded_retention by (simp only: capped_rounding)
qed

lemma NextInterval_bounds: "1 \<le> NextInterval s r \<and> NextInterval s r \<le> fsrsMaximumInterval"
proof -
  obtain x where "fsrsPositiveStability s fsrsEpsilon = Fin x"
    using fsrsPositiveStability_pos[OF fsrsEpsilon_pos, of s] by (auto elim: pos_finE)
  from NextInterval_closed[OF this] show ?thesis by (simp add: fsrsMaximumInterval_def)
qed

lemma NextInterval_default:
  assumes "0 < x"
  shows "NextInterval (Fin x) FSRSDesiredRetention = max 1 (min fsrsMaximumInterval \<lfloor>x + 1/2\<rfloor>)"
proof -
  have "(9/10 :: real) powr -2 = 100/81" by (simp add: powr_minus powr_numeral power2_eq_square)
  then show ?thesis
    using NextInterval_closed[of "Fin x" x FSRSDesiredRetention] assms
    by (simp add: fsrsPositiveStability_def retention_target_def FSRSDesiredRetention_def)
qed

section \<open>The card invariant\<close>

text \<open>
  What every card that has been reviewed satisfies. A card still \<open>New\<close> carries no constraint:
  its first review overwrites stability and difficulty.
\<close>

definition card_known :: "FSRSCard \<Rightarrow> bool" where
  "card_known crd \<longleftrightarrow> fState crd \<in> {New, Learning, Review, Relearning}"

definition card_wf :: "FSRSCard \<Rightarrow> bool" where
  "card_wf crd \<longleftrightarrow>
     fState crd \<in> {Learning, Review, Relearning} \<and> pos_fin (fStability crd) \<and>
     difficulty_ok (fDifficulty crd) \<and> 0 \<le> fElapsedDays crd \<and>
     (if fState crd = Review then 1 \<le> fScheduledDays crd \<and> fScheduledDays crd \<le> fsrsMaximumInterval
      else fScheduledDays crd = 0)"

lemma CurrentElapsedDays_nonneg: "0 \<le> CurrentElapsedDays now lr"
  by (auto simp: CurrentElapsedDays_def Let_def split: option.split)

lemma elapsed_days_floor: "f_to_int (hours_of d / 24) = (if d < 0 then - (- d div day) else d div day)"
proof -
  have *: "\<lfloor>real_of_int d / real_of_int day\<rfloor> = d div day" for d
    by (simp add: floor_divide_of_int_eq)
  have **: "hours_of d / 24 = Fin (of_int d / of_int day)"
    by (simp add: hours_of_def time_defs)
  have "0 < day" by (simp add: time_defs)
  then show ?thesis
    using *[of d] *[of "- d"] unfolding ** by (simp add: divide_less_0_iff)
qed

lemma CurrentElapsedDays_eq:
  "CurrentElapsedDays now lr =
     (case lr of None \<Rightarrow> 0 | Some t \<Rightarrow> if t = 0 \<or> now \<le> t then 0 else t_sub now t div day)"
proof (cases lr)
  case None
  then show ?thesis by (simp add: CurrentElapsedDays_def)
next
  case (Some t)
  have nn: "0 \<le> t_sub now t" "0 \<le> t_sub now t div day" if "t < now"
    using that t_sub_nonneg[of t now] by (simp_all add: time_defs pos_imp_zdiv_nonneg_iff)
  show ?thesis
  proof (cases "t < now")
    case True
    with nn Some show ?thesis
      by (simp add: CurrentElapsedDays_def isZero_def elapsed_days_floor Let_def del: f64_numeral)
  next
    case False
    with Some show ?thesis by (simp add: CurrentElapsedDays_def)
  qed
qed

lemma ReviewCard_wf:
  assumes "card_known crd"
  shows "card_wf (ReviewCard crd rating now)"
  using assms NextInterval_bounds InitialStability_pos InitialDifficulty_ok nextDifficulty_ok
    reviewedStability_pos CurrentElapsedDays_nonneg
  by (cases "fState crd") (auto simp: card_known_def card_wf_def ReviewCard_def Let_def)

lemma ReviewCard_counters:
  assumes "card_known crd"
  shows "fReps (ReviewCard crd rating now) = fReps crd + 1"
    and "fLapses (ReviewCard crd rating now) =
           (if fState crd = Review \<and> clampRating rating = Again then fLapses crd + 1 else fLapses crd)"
    and "fLastReview (ReviewCard crd rating now) = now"
  using assms by (cases "fState crd"; auto simp: card_known_def ReviewCard_def Let_def)+

lemma ReviewCard_state:
  assumes "card_known crd"
  shows "fState (ReviewCard crd rating now) =
    (if clampRating rating = Again
     then (if fState crd = New then Learning else if fState crd = Review then Relearning else fState crd)
     else Review)"
  using assms by (cases "fState crd") (auto simp: card_known_def ReviewCard_def Let_def)

lemma card_wf_known: "card_wf crd \<Longrightarrow> card_known crd"
  by (auto simp: card_wf_def card_known_def)

definition review_history :: "(Rating \<times> time) list \<Rightarrow> FSRSCard \<Rightarrow> FSRSCard" where
  "review_history rs crd = fold (\<lambda>(rating, now) c. ReviewCard c rating now) rs crd"

lemma review_history_simps [simp]:
  "review_history [] crd = crd"
  "review_history ((rating, now) # rs) crd = review_history rs (ReviewCard crd rating now)"
  by (simp_all add: review_history_def)

lemma review_history_wf:
  assumes "card_known crd"
  shows "(rs \<noteq> [] \<longrightarrow> card_wf (review_history rs crd)) \<and>
    fReps (review_history rs crd) = fReps crd + int (length rs) \<and>
    fLapses crd \<le> fLapses (review_history rs crd) \<and>
    fLapses (review_history rs crd) \<le> fLapses crd + int (length rs)"
  using assms
proof (induction rs arbitrary: crd)
  case Nil
  then show ?case by simp
next
  case (Cons rv rs)
  obtain r t where rv: "rv = (r, t)" by (cases rv)
  have wf: "card_wf (ReviewCard crd r t)" using Cons.prems by (rule ReviewCard_wf)
  from Cons.IH[OF card_wf_known[OF wf]] wf show ?case
    using ReviewCard_counters[OF Cons.prems, of r t] by (cases rs) (auto simp: rv split: if_splits)
qed

section \<open>Growth and lapse\<close>

lemma nextRecallStability_ge:
  assumes "pos_fin s"
  shows "s \<le> nextRecallStability d s r rating"
proof -
  obtain x where x: "s = Fin x" "0 < x" using assms by (rule pos_finE)
  obtain y where y: "fsrsDifficulty d = Fin y" "1 \<le> y" "y \<le> 10"
    using fsrsDifficulty_ok by (rule difficulty_okE)
  obtain z where z: "fsrsRetrievability r = Fin z" "0 \<le> z" "z \<le> 1"
    using fsrsRetrievability_unit by (rule unit_f64E)
  define m where "m = (if clampRating rating = Hard then 0.2315
      else if clampRating rating = Easy then 2.9898 else 1 :: real)"
  have m: "(if clampRating rating = Hard then defaultWeights ! 15
      else if clampRating rating = Easy then defaultWeights ! 16 else 1) = Fin m" "0 \<le> m"
    by (simp_all add: m_def)
  let ?g = "exp 1.54575 * (11 - y) * x powr (- 0.1192) * (exp (1.01925 * (1 - z)) - 1) * m"
  have g: "0 \<le> ?g" using y z m by simp
  have "x * 1 \<le> x * (?g + 1)" using g x by (intro mult_left_mono) auto
  then have "s \<le> Fin (x * (?g + 1))" using x by simp
  moreover have "pos_fin (Fin (x * (?g + 1)))" using g x by (simp add: add_nonneg_pos)
  moreover have "nextRecallStability d s r rating = fsrsPositiveStability (Fin (x * (?g + 1))) s"
    unfolding nextRecallStability_def Let_def fsrsPositiveStability_id[OF assms] y(1) z(1) m(1)
    using x by simp
  ultimately show ?thesis by (simp add: fsrsPositiveStability_id)
qed

lemma reviewedStability_lapse:
  assumes "pos_fin (fStability crd)" and "0 < n" and "fStability crd = Fin x"
  shows "\<exists>y. reviewedStability crd Again n lr = Fin y \<and> 0 < y \<and> y \<le> x / exp (0.51655 * 0.6621)"
proof -
  obtain z where z: "nextForgetStability (fDifficulty crd) (fStability crd)
      (Retrievability n (fStability crd)) = Fin z" "0 < z"
    using next_stability_pos(2) by (rule pos_finE)
  have "reviewedStability crd Again n lr = Fin (min (x / exp (0.51655 * 0.6621)) z)"
    unfolding reviewedStability_def Let_def z(1) using assms by simp
  moreover have "0 < x" using assms by simp
  ultimately show ?thesis using z(2) by simp
qed

lemma nextShortTermStability_good:
  assumes "0 < y"
  shows "nextShortTermStability (Fin y) Good = Fin (y * exp (0.51655 * 0.6621))"
  using assms
  by (simp add: nextShortTermStability_def fsrsPositiveStability_def Let_def clampRating_def rating_defs not_le)

lemma ReviewCard_stability:
  assumes "fState crd \<in> {Learning, Review, Relearning}" and "fLastReview crd \<noteq> 0"
  shows "fStability (ReviewCard crd rating now) =
    reviewedStability crd (clampRating rating) (CurrentElapsedDays now (Some (fLastReview crd)))
      (Some (fLastReview crd))"
  using assms by (auto simp: ReviewCard_def Let_def isZero_def)

section \<open>Properties\<close>

text \<open>C35. Retrievability is a probability for every input (NaN, infinite, zero or negative
  stability and negative elapsed days included), is 1 on the day of the review for a card with a
  valid stability, and never increases as days pass.\<close>

theorem Retrievability_forgetting_curve:
  "unit_f64 (Retrievability n s) \<and>
   (pos_fin s \<longrightarrow> Retrievability 0 s = 1) \<and>
   (n \<le> m \<longrightarrow> Retrievability m s \<le> Retrievability n s)"
  using Retrievability_unit Retrievability_zero_days Retrievability_antimono by blast

theorem Retrievability_forgetting_curve_witness:
  "Retrievability 0 (Fin 2) = 1 \<and> Retrievability 9 (Fin 2) \<le> Retrievability 3 (Fin 2)"
  using Retrievability_forgetting_curve[of 3 "Fin 2" 9] by simp

text \<open>The scheduled interval is between one day and \<open>fsrsMaximumInterval\<close> for every
  stability and every desired retention (non-finite and out-of-range values included), and at the
  default retention it is the stability rounded to the nearest day within these bounds.\<close>

lemma NextInterval_spec:
  "1 \<le> NextInterval s r \<and> NextInterval s r \<le> fsrsMaximumInterval \<and>
   (0 < x \<longrightarrow> NextInterval (Fin x) FSRSDesiredRetention = max 1 (min fsrsMaximumInterval \<lfloor>x + 1/2\<rfloor>))"
  using NextInterval_bounds NextInterval_default by simp

text \<open>C33. Every history of reviews of a new card, at any instants (even out of order) and with any
  rating value, ends in a well-formed card: a known state other than New, a positive finite
  stability, a difficulty in [1,10], an interval of 1 to 36500 days exactly in state Review and 0
  otherwise; the repetition counter is the number of reviews and bounds the lapses.\<close>

theorem review_history_invariant:
  assumes "rs \<noteq> []"
  shows "card_wf (review_history rs NewFSRSCard) \<and>
    fReps (review_history rs NewFSRSCard) = int (length rs) \<and>
    0 \<le> fLapses (review_history rs NewFSRSCard) \<and>
    fLapses (review_history rs NewFSRSCard) \<le> fReps (review_history rs NewFSRSCard)"
  using review_history_wf[of NewFSRSCard rs] assms by (simp add: NewFSRSCard_def card_known_def)

theorem review_history_invariant_witness:
  "card_wf (review_history [(3, 5), (1, 4), (9, 10 ^ 15)] NewFSRSCard)"
  using review_history_invariant[of "[(3, 5), (1, 4), (9, 10 ^ 15)]"] by simp

text \<open>C34. A successful review on a later day never lowers the stability of a card, a lapse on a
  later day always lowers it, and a lapse followed by a Good answer on the same day does not bring
  the stability above what it was before the lapse.\<close>

theorem ReviewCard_growth_and_lapse:
  assumes "fState crd = Review" and "pos_fin (fStability crd)" and "fLastReview crd \<noteq> 0"
    and "0 < CurrentElapsedDays now (Some (fLastReview crd))" and "now \<noteq> 0"
  shows "(clampRating rating \<noteq> Again \<longrightarrow>
            fStability crd \<le> fStability (ReviewCard crd rating now)) \<and>
         fStability (ReviewCard crd Again now) < fStability crd \<and>
         (CurrentElapsedDays later (Some now) = 0 \<longrightarrow>
            fStability (ReviewCard (ReviewCard crd Again now) Good later) \<le> fStability crd)"
proof -
  obtain x where x: "fStability crd = Fin x" "0 < x" using assms(2) by (rule pos_finE)
  let ?n = "CurrentElapsedDays now (Some (fLastReview crd))"
  note eq = ReviewCard_stability[of crd, OF _ assms(3)]
  obtain y where y: "fStability (ReviewCard crd Again now) = Fin y" "0 < y" "y \<le> x / exp (0.51655 * 0.6621)"
    using reviewedStability_lapse[OF assms(2,4) x(1)] assms(1) by (auto simp: eq clampRating_def rating_defs)
  have "x / exp (0.51655 * 0.6621) < x" using x(2) by (simp add: divide_less_eq)
  with y(3) have lapse: "y < x" by linarith
  have ag: "fState (ReviewCard crd Again now) = Relearning" "fLastReview (ReviewCard crd Again now) = now"
    using assms(1) by (simp_all add: ReviewCard_def Let_def isZero_def clampRating_def rating_defs)
  have "fStability (ReviewCard (ReviewCard crd Again now) Good later) = Fin (y * exp (0.51655 * 0.6621))"
    if "CurrentElapsedDays later (Some now) = 0"
    using that ag y(1,2) assms(5) nextShortTermStability_good[OF y(2)]
    by (subst ReviewCard_stability)
      (simp_all add: reviewedStability_def Let_def)
  moreover have "y * exp (0.51655 * 0.6621) \<le> x" using y(3) by (simp add: le_divide_eq)
  moreover have "fStability crd \<le> fStability (ReviewCard crd rating now)" if "clampRating rating \<noteq> Again"
    using that assms x nextRecallStability_ge[OF assms(2)] by (simp add: eq reviewedStability_def Let_def)
  ultimately show ?thesis using x(1) y(1) lapse by simp
qed

theorem ReviewCard_growth_and_lapse_witness:
  "fStability (ReviewCard (ReviewCard
     \<lparr>fStability = 5, fDifficulty = 5, fElapsedDays = 0, fScheduledDays = 5, fReps = 1, fLapses = 0,
      fState = Review, fLastReview = 1\<rparr> Again (1 + 3 * day)) Good (2 + 3 * day)) \<le> 5"
proof -
  let ?c = "\<lparr>fStability = 5, fDifficulty = 5, fElapsedDays = 0, fScheduledDays = 5, fReps = 1, fLapses = 0,
      fState = Review, fLastReview = 1\<rparr> :: FSRSCard"
  have "fState ?c = Review" "pos_fin (fStability ?c)" "fLastReview ?c \<noteq> 0"
    "0 < CurrentElapsedDays (1 + 3 * day) (Some (fLastReview ?c))" "1 + 3 * day \<noteq> 0"
    "CurrentElapsedDays (2 + 3 * day) (Some (1 + 3 * day)) = 0"
    by (simp_all add: CurrentElapsedDays_eq t_sub_def time_defs)
  with ReviewCard_growth_and_lapse[of ?c "1 + 3 * day" Good "2 + 3 * day"] show ?thesis by simp
qed

end
