(* ===== verification/Kst.thy ===== *)
theory Kst
  imports Bkt
begin

text \<open>
  Knowledge-space routing (\<open>algorithms/kst.go\<close>) and the historical item-response API
  (\<open>algorithms/irt.go\<close>). A \<open>map[string]float64\<close> is a partial function; reading a missing key
  gives 0 as in Go. The Newton iteration of \<open>IRTUpdateThetaCumulative\<close> is a recursion on the
  number of iterations left, 8 at the call, as in the source's loop bound.
\<close>

section \<open>The frontier\<close>

record KSTGraph =
  kConcepts :: "string list"
  kPrerequisites :: "string \<rightharpoonup> string list"

text \<open>\<open>m[k]\<close> on maps of floats and of slices: the zero value when the key is absent.\<close>

definition map_f64 :: "('k \<rightharpoonup> f64) \<Rightarrow> 'k \<Rightarrow> f64" where
  "map_f64 m k = (case m k of Some v \<Rightarrow> v | None \<Rightarrow> 0)"

definition map_list :: "('k \<rightharpoonup> 'a list) \<Rightarrow> 'k \<Rightarrow> 'a list" where
  "map_list m k = (case m k of Some v \<Rightarrow> v | None \<Rightarrow> [])"

fun allMet_loop :: "(string \<rightharpoonup> f64) \<Rightarrow> f64 \<Rightarrow> string list \<Rightarrow> bool" where
  "allMet_loop mastery threshold [] = True"
| "allMet_loop mastery threshold (p # ps) =
     (if map_f64 mastery p < threshold then False else allMet_loop mastery threshold ps)"

fun frontier_loop :: "(string \<rightharpoonup> f64) \<Rightarrow> f64 \<Rightarrow> (string \<rightharpoonup> string list) \<Rightarrow> string list \<Rightarrow> string list" where
  "frontier_loop mastery threshold prereqs [] = []"
| "frontier_loop mastery threshold prereqs (c # cs) =
     (if map_f64 mastery c \<ge> threshold then frontier_loop mastery threshold prereqs cs
      else if allMet_loop mastery threshold (map_list prereqs c)
      then c # frontier_loop mastery threshold prereqs cs
      else frontier_loop mastery threshold prereqs cs)"

definition ComputeFrontier :: "string \<Rightarrow> KSTGraph \<Rightarrow> (string \<rightharpoonup> f64) \<Rightarrow> string list" where
  "ComputeFrontier env graph mastery =
     frontier_loop mastery (MasteryKST env) (kPrerequisites graph) (kConcepts graph)"

definition ConceptStatus :: "string \<Rightarrow> KSTGraph \<Rightarrow> (string \<rightharpoonup> f64) \<Rightarrow> string \<Rightarrow> string" where
  "ConceptStatus env graph mastery concept =
     (if map_f64 mastery concept \<ge> MasteryKST env then ''done''
      else if \<exists>p \<in> set (map_list (kPrerequisites graph) concept). map_f64 mastery p < MasteryKST env
      then ''locked'' else ''current'')"

section \<open>Item response theory\<close>

definition irtBasePriorPrecision :: f64 where "irtBasePriorPrecision = 1.0"
definition irtInformationPerObservation :: f64 where "irtInformationPerObservation = 0.25"
definition irtMaxNewtonStep :: f64 where "irtMaxNewtonStep = 1.0"

record IRTItem =
  iDifficulty :: f64
  iDiscrimination :: f64

definition IRTProbability :: "f64 \<Rightarrow> f64 \<Rightarrow> f64 \<Rightarrow> f64" where
  "IRTProbability theta difficulty discrimination =
     1.0 / (1.0 + fexp (- discrimination * (theta - difficulty)))"

definition isFiniteIRTItem :: "IRTItem \<Rightarrow> bool" where
  "isFiniteIRTItem item \<longleftrightarrow>
     \<not> isNaN (iDifficulty item) \<and> \<not> isInf (iDifficulty item) \<and>
     \<not> isNaN (iDiscrimination item) \<and> \<not> isInf (iDiscrimination item)"

text \<open>The inner loop: first and second derivative of the log-posterior at the estimate.\<close>

fun irt_derivatives :: "f64 \<Rightarrow> (IRTItem \<times> bool) list \<Rightarrow> f64 \<times> f64 \<Rightarrow> f64 \<times> f64" where
  "irt_derivatives estimate [] acc = acc"
| "irt_derivatives estimate ((item, resp) # rest) (dL, d2L) =
     (if \<not> isFiniteIRTItem item \<or> feq (iDiscrimination item) 0
      then irt_derivatives estimate rest (dL, d2L)
      else
        let p = IRTProbability estimate (iDifficulty item) (iDiscrimination item);
            x = (if resp then 1.0 else 0.0)
        in irt_derivatives estimate rest
             (dL + iDiscrimination item * (x - p),
              d2L - iDiscrimination item * iDiscrimination item * p * (1 - p)))"

fun irt_newton :: "nat \<Rightarrow> f64 \<Rightarrow> f64 \<Rightarrow> (IRTItem \<times> bool) list \<Rightarrow> f64 \<Rightarrow> f64" where
  "irt_newton 0 priorMean priorPrecision obs estimate = estimate"
| "irt_newton (Suc k) priorMean priorPrecision obs estimate =
     (let (dL, d2L) = irt_derivatives estimate obs
            (- priorPrecision * (estimate - priorMean), - priorPrecision)
      in if feq d2L 0 \<or> isNaN dL \<or> isNaN d2L then estimate
         else
           let step = clamp (dL / d2L) (- irtMaxNewtonStep) irtMaxNewtonStep;
               estimate' = clamp (estimate - step) (- 4) 4
           in if fabs step < 0.001 then estimate'
              else irt_newton k priorMean priorPrecision obs estimate')"

definition IRTUpdateThetaCumulative :: "f64 \<Rightarrow> int \<Rightarrow> IRTItem list \<Rightarrow> bool list \<Rightarrow> f64" where
  "IRTUpdateThetaCumulative theta priorObservations items responses =
     (if length items = 0 \<or> length items \<noteq> length responses then theta
      else
        let priorObservations = (if priorObservations < 0 then 0 else priorObservations);
            priorMean = clamp theta (- 4) 4;
            priorPrecision = irtBasePriorPrecision + irtInformationPerObservation * f_of_int priorObservations
        in clamp (irt_newton 8 priorMean priorPrecision (zip items responses) priorMean) (- 4) 4)"

definition IRTUpdateTheta :: "f64 \<Rightarrow> IRTItem list \<Rightarrow> bool list \<Rightarrow> f64" where
  "IRTUpdateTheta theta items responses = IRTUpdateThetaCumulative theta 0 items responses"

definition IRTIsInZPD :: "f64 \<Rightarrow> bool" where
  "IRTIsInZPD pCorrect \<longleftrightarrow> pCorrect \<ge> 0.55 \<and> pCorrect \<le> 0.80"

definition FSRSDifficultyToIRT :: "f64 \<Rightarrow> f64" where
  "FSRSDifficultyToIRT fsrsDifficulty =
     (let fsrsDifficulty = clamp fsrsDifficulty 1 10
      in (fsrsDifficulty - 1.0) * 2.0 / 3.0 - 3.0)"

section \<open>Lemmas\<close>

lemma allMet_loop_iff: "allMet_loop m t ps \<longleftrightarrow> (\<forall>p \<in> set ps. \<not> map_f64 m p < t)"
  by (induction ps) auto

lemma frontier_loop_filter:
  "frontier_loop m t pre cs =
     filter (\<lambda>c. \<not> map_f64 m c \<ge> t \<and> (\<forall>p \<in> set (map_list pre c). \<not> map_f64 m p < t)) cs"
  by (induction cs) (auto simp: allMet_loop_iff)

lemma MasteryKST_values: "MasteryKST env \<in> {0.85, 0.70}"
  by (simp add: MasteryKST_def)

lemma clamp_fin_range: "is_fin a \<Longrightarrow> lo \<le> hi \<Longrightarrow> \<exists>x. clamp a (Fin lo) (Fin hi) = Fin x \<and> lo \<le> x \<and> x \<le> hi"
  by (cases a) (auto simp: clamp_def)

lemma clamp_not_NaN_range: "a \<noteq> NaN \<Longrightarrow> lo \<le> hi \<Longrightarrow> \<exists>x. clamp a (Fin lo) (Fin hi) = Fin x \<and> lo \<le> x \<and> x \<le> hi"
  by (cases a) (auto simp: clamp_def)

text \<open>Correct answers to items of non-negative discrimination, and wrong ones.\<close>

definition all_answers :: "bool \<Rightarrow> (IRTItem \<times> bool) list \<Rightarrow> bool" where
  "all_answers b obs \<longleftrightarrow> (\<forall>(item, resp) \<in> set obs. resp = b \<and> \<not> iDiscrimination item < 0)"

lemma all_answers_simps [simp]:
  "all_answers b []"
  "all_answers b ((item, resp) # rest) \<longleftrightarrow> resp = b \<and> \<not> iDiscrimination item < 0 \<and> all_answers b rest"
  by (auto simp: all_answers_def)

lemma IRTProbability_unit:
  "\<exists>p. IRTProbability (Fin e) (Fin d) (Fin a) = Fin p \<and> 0 < p \<and> p < 1"
proof -
  have "0 < 1 + exp (- a * (e - d))" by (simp add: add_pos_pos)
  then show ?thesis by (auto simp: IRTProbability_def intro!: exI[of _ "1 / (1 + exp (- a * (e - d)))"])
qed

lemma irt_derivatives_fin:
  "\<exists>u' v'. irt_derivatives (Fin e) obs (Fin u, Fin v) = (Fin u', Fin v') \<and> v' \<le> v \<and>
     (all_answers True obs \<longrightarrow> u \<le> u') \<and> (all_answers False obs \<longrightarrow> u' \<le> u)"
proof (induction obs arbitrary: u v)
  case Nil
  then show ?case by simp
next
  case (Cons ob obs)
  obtain item resp where ob: "ob = (item, resp)" by (cases ob)
  show ?case
  proof (cases "\<not> isFiniteIRTItem item \<or> feq (iDiscrimination item) 0")
    case True
    then show ?thesis using Cons.IH[of u v] by (auto simp: ob)
  next
    case False
    then obtain d a where it: "iDifficulty item = Fin d" "iDiscrimination item = Fin a"
      by (cases "iDifficulty item"; cases "iDiscrimination item") (auto simp: isFiniteIRTItem_def)
    obtain p where p: "IRTProbability (Fin e) (Fin d) (Fin a) = Fin p" "0 < p" "p < 1"
      using IRTProbability_unit by blast
    let ?u = "u + a * ((if resp then 1 else 0) - p)" and ?v = "v - a * a * p * (1 - p)"
    obtain u' v' where IH: "irt_derivatives (Fin e) obs (Fin ?u, Fin ?v) = (Fin u', Fin v')" "v' \<le> ?v"
      "all_answers True obs \<longrightarrow> ?u \<le> u'" "all_answers False obs \<longrightarrow> u' \<le> ?u"
      using Cons.IH by blast
    have "irt_derivatives (Fin e) (ob # obs) (Fin u, Fin v) = (Fin u', Fin v')"
      using False IH(1) by (cases resp) (simp_all add: ob it p(1) Let_def)
    moreover have "v' \<le> v" using IH(2) p by (smt (verit) mult_nonneg_nonneg zero_le_square)
    moreover have "u \<le> u'" if "all_answers True (ob # obs)"
    proof -
      from that have "0 \<le> a * (1 - p)" using p by (simp add: ob it)
      with that IH(3) show ?thesis by (simp add: ob)
    qed
    moreover have "u' \<le> u" if "all_answers False (ob # obs)"
    proof -
      from that have "0 \<le> a * p" using p by (simp add: ob it)
      with that IH(4) show ?thesis by (simp add: ob)
    qed
    ultimately show ?thesis by blast
  qed
qed

lemma newton_step_side:
  fixes w :: real
  assumes "1 \<le> w" "v \<le> - w" "m \<le> e" "- w * (e - m) \<le> u"
  shows "u / v \<le> e - m"
proof -
  have "- v * (e - m) \<ge> w * (e - m)" using assms by (intro mult_right_mono) auto
  then have "v * (e - m) \<le> u" using assms by linarith
  moreover have "v < 0" using assms by linarith
  ultimately show ?thesis by (simp add: neg_divide_le_eq mult.commute)
qed

lemma newton_step_side':
  fixes w :: real
  assumes "1 \<le> w" "v \<le> - w" "e \<le> m" "u \<le> - w * (e - m)"
  shows "e - m \<le> u / v"
  using newton_step_side[of w v "- m" "- e" "- u"] assms by (simp add: algebra_simps)

lemma irt_newton_range:
  assumes "1 \<le> w" "- 4 \<le> m" "m \<le> 4" "- 4 \<le> e" "e \<le> 4"
  shows "\<exists>e'. irt_newton k (Fin m) (Fin w) obs (Fin e) = Fin e' \<and> - 4 \<le> e' \<and> e' \<le> 4 \<and>
    (all_answers True obs \<longrightarrow> m \<le> e \<longrightarrow> m \<le> e') \<and> (all_answers False obs \<longrightarrow> e \<le> m \<longrightarrow> e' \<le> m)"
  using assms(4,5)
proof (induction k arbitrary: e)
  case 0
  then show ?case by simp
next
  case (Suc k)
  obtain u v where d: "irt_derivatives (Fin e) obs (Fin (- w * (e - m)), Fin (- w)) = (Fin u, Fin v)"
    "v \<le> - w" "all_answers True obs \<longrightarrow> - w * (e - m) \<le> u" "all_answers False obs \<longrightarrow> u \<le> - w * (e - m)"
    using irt_derivatives_fin by blast
  have v0: "v \<noteq> 0" using d(2) assms(1) by linarith
  define st where "st = max (- 1) (min 1 (u / v))"
  define e1 where "e1 = max (- 4) (min 4 (e - st))"
  have step: "irt_newton (Suc k) (Fin m) (Fin w) obs (Fin e) =
      (if \<bar>st\<bar> < 0.001 then Fin e1 else irt_newton k (Fin m) (Fin w) obs (Fin e1))"
    using v0 d(1)
    by (simp add: irtMaxNewtonStep_def Let_def e1_def st_def)
  have up: "m \<le> e1" if "all_answers True obs" "m \<le> e"
    using newton_step_side[OF assms(1) d(2) that(2), of u] that d(3) assms(2,3)
    unfolding e1_def st_def by linarith
  have down: "e1 \<le> m" if "all_answers False obs" "e \<le> m"
    using newton_step_side'[OF assms(1) d(2) that(2), of u] that d(4) assms(2,3)
    unfolding e1_def st_def by linarith
  have r: "- 4 \<le> e1" "e1 \<le> 4" by (simp_all add: e1_def)
  from Suc.IH[OF r] up down r show ?case unfolding step by (auto split: if_splits)
qed

section \<open>Properties\<close>

text \<open>
  The frontier is exactly the sub-list, in graph order, of the concepts that are not yet
  mastered and whose prerequisites all reach the prerequisite threshold; with masteries that are
  not NaN these are exactly the concepts \<open>ConceptStatus\<close> reports as current, so every concept is
  done, locked or on the frontier and never two of them.\<close>

lemma ComputeFrontier_current:
  assumes "\<forall>c. map_f64 mastery c \<noteq> NaN"
  shows "ComputeFrontier env graph mastery =
           filter (\<lambda>c. ConceptStatus env graph mastery c = ''current'') (kConcepts graph) \<and>
         ComputeFrontier env graph mastery =
           filter (\<lambda>c. map_f64 mastery c < MasteryKST env \<and>
             (\<forall>p \<in> set (map_list (kPrerequisites graph) c). MasteryKST env \<le> map_f64 mastery p)) (kConcepts graph)"
proof -
  have nn: "MasteryKST env \<noteq> NaN" using MasteryKST_values[of env] by auto
  have le: "MasteryKST env \<le> map_f64 mastery c \<longleftrightarrow> \<not> map_f64 mastery c < MasteryKST env" for c
    using f64_not_less[OF assms[rule_format, of c] nn] by simp
  show ?thesis
    by (auto simp: ComputeFrontier_def ConceptStatus_def frontier_loop_filter le intro!: filter_cong)
qed

text \<open>For a prior ability that is not NaN, the regularised ability update ends (its loop runs at
  most eight times) in a finite ability of [-4,4] whatever the items (non-finite items are
  skipped); all-correct answers to items of non-negative discrimination never lower the clamped
  ability and all-wrong answers never raise it.\<close>

lemma IRTUpdateThetaCumulative_sound:
  assumes "theta \<noteq> NaN" and "items \<noteq> []" and "length items = length responses"
  shows "\<exists>x. IRTUpdateThetaCumulative theta n items responses = Fin x \<and> - 4 \<le> x \<and> x \<le> 4 \<and>
    (all_answers True (zip items responses) \<longrightarrow> clamp theta (- 4) 4 \<le> Fin x) \<and>
    (all_answers False (zip items responses) \<longrightarrow> Fin x \<le> clamp theta (- 4) 4)"
proof -
  obtain m where m: "clamp theta (- 4) 4 = Fin m" "- 4 \<le> m" "m \<le> 4"
    using clamp_not_NaN_range[OF assms(1), of "- 4" 4] by auto
  let ?w = "1 + 0.25 * real_of_int (if n < 0 then 0 else n)"
  have w: "1 \<le> ?w" by simp
  obtain e where e: "irt_newton 8 (Fin m) (Fin ?w) (zip items responses) (Fin m) = Fin e" "- 4 \<le> e" "e \<le> 4"
    "all_answers True (zip items responses) \<longrightarrow> m \<le> e" "all_answers False (zip items responses) \<longrightarrow> e \<le> m"
    using irt_newton_range[OF w m(2,3) m(2,3), of 8 "zip items responses"] by auto
  have pp: "irtBasePriorPrecision + irtInformationPerObservation * f_of_int (if n < 0 then 0 else n) = Fin ?w"
    by (simp add: irtBasePriorPrecision_def irtInformationPerObservation_def)
  have "IRTUpdateThetaCumulative theta n items responses = clamp (Fin e) (- 4) 4"
    unfolding IRTUpdateThetaCumulative_def Let_def pp m(1) e(1) using assms(2,3) by auto
  with m e show ?thesis by auto
qed

end
