(* ===== verification/Models.thy ===== *)
theory Models
  imports Fsrs Kst
begin

text \<open>
  The records and enumerations of package \<open>models\<close> that the regulation engine works on:
  phases, alerts, activities, concept states, interactions, the knowledge graph and the domain with
  its goal-relevance vector.

  A Go string enumeration is a datatype with one constructor per declared constant and a last
  constructor for any other string; the \<open>string_of\<close> functions give the constants' values. A
  \<open>map[string]float64\<close> that is iterated over is an association list with distinct keys, because
  Go's iteration order is unspecified and only its contents matter. \<open>encoding/json\<close> is an argument
  of the functions that decode a stored vector.
\<close>

section \<open>Enumerations\<close>

datatype Phase = PhaseInstruction | PhaseDiagnostic | PhaseMaintenance | PhaseOther string

fun string_of_phase :: "Phase \<Rightarrow> string" where
  "string_of_phase PhaseInstruction = ''INSTRUCTION''"
| "string_of_phase PhaseDiagnostic = ''DIAGNOSTIC''"
| "string_of_phase PhaseMaintenance = ''MAINTENANCE''"
| "string_of_phase (PhaseOther s) = s"

definition phase_of_string :: "string \<Rightarrow> Phase" where
  "phase_of_string s =
     (if s = ''INSTRUCTION'' then PhaseInstruction
      else if s = ''DIAGNOSTIC'' then PhaseDiagnostic
      else if s = ''MAINTENANCE'' then PhaseMaintenance
      else PhaseOther s)"

lemma string_of_phase_of_string [simp]: "string_of_phase (phase_of_string s) = s"
  by (simp add: phase_of_string_def)

definition known_phase :: "Phase \<Rightarrow> bool" where
  "known_phase p \<longleftrightarrow> p \<in> {PhaseInstruction, PhaseDiagnostic, PhaseMaintenance}"

lemma phase_of_string_of_phase: "known_phase p \<Longrightarrow> phase_of_string (string_of_phase p) = p"
  by (auto simp: known_phase_def phase_of_string_def)

datatype AlertType =
    AlertForgetting | AlertPlateau | AlertZPDDrift | AlertOverload | AlertMasteryReady
  | AlertDependencyIncreasing | AlertCalibrationDiverging | AlertAffectNegative
  | AlertTransferBlocked | AlertTypeOther string

datatype AlertUrgency = UrgencyCritical | UrgencyWarning | UrgencyInfo | UrgencyOther string

datatype ActivityType =
    ActivityRecall | ActivityNewConcept | ActivityMasteryChallenge | ActivityDebuggingCase
  | ActivityRest | ActivitySetupDomain | ActivityPractice | ActivityDebugMisconception
  | ActivityFeynmanPrompt | ActivityTransferProbe | ActivityDiagnosticAssessment
  | ActivityCloseSession | ActivityTypeOther string

fun string_of_activity :: "ActivityType \<Rightarrow> string" where
  "string_of_activity ActivityRecall = ''RECALL_EXERCISE''"
| "string_of_activity ActivityNewConcept = ''NEW_CONCEPT''"
| "string_of_activity ActivityMasteryChallenge = ''MASTERY_CHALLENGE''"
| "string_of_activity ActivityDebuggingCase = ''DEBUGGING_CASE''"
| "string_of_activity ActivityRest = ''REST''"
| "string_of_activity ActivitySetupDomain = ''SETUP_DOMAIN''"
| "string_of_activity ActivityPractice = ''PRACTICE''"
| "string_of_activity ActivityDebugMisconception = ''DEBUG_MISCONCEPTION''"
| "string_of_activity ActivityFeynmanPrompt = ''FEYNMAN_PROMPT''"
| "string_of_activity ActivityTransferProbe = ''TRANSFER_PROBE''"
| "string_of_activity ActivityDiagnosticAssessment = ''DIAGNOSTIC_ASSESSMENT''"
| "string_of_activity ActivityCloseSession = ''CLOSE_SESSION''"
| "string_of_activity (ActivityTypeOther s) = s"

section \<open>Records\<close>

record Alert =
  alDomainID :: string
  alType :: AlertType
  alConcept :: string
  alUrgency :: AlertUrgency
  alRetention :: f64
  alHoursUntilCritical :: f64
  alSessionsStalled :: int
  alErrorRate :: f64
  alRecommendedAction :: message

record Activity =
  acType :: ActivityType
  acConcept :: string
  acDifficultyTarget :: f64
  acFormat :: string
  acEstimatedMinutes :: int
  acRationale :: message
  acPromptForLLM :: message

record KnowledgeSpace =
  ksConcepts :: "string list"
  ksPrerequisites :: "string \<rightharpoonup> string list"

record ConceptState =
  csLearnerID :: string
  csDomainID :: string
  csConcept :: string
  csStability :: f64
  csDifficulty :: f64
  csElapsedDays :: int
  csScheduledDays :: int
  csReps :: int
  csLapses :: int
  csCardState :: CardState
  csLastReview :: "time option"
  csNextReview :: "time option"
  csPMastery :: f64
  csPLearn :: f64
  csPForget :: f64
  csPSlip :: f64
  csPGuess :: f64
  csTheta :: f64
  csUpdatedAt :: time

record BKTParams =
  rpPLearn :: f64
  rpPForget :: f64
  rpPSlip :: f64
  rpPGuess :: f64

record Interaction =
  inID :: int
  inLearnerID :: string
  inSessionID :: string
  inAssessmentAttemptID :: string
  inConcept :: string
  inActivityType :: string
  inSuccess :: bool
  inResponseTime :: int
  inConfidence :: f64
  inErrorType :: string
  inNotes :: string
  inHintsRequested :: int
  inSelfInitiated :: bool
  inCalibrationID :: string
  inIsProactiveReview :: bool
  inMisconceptionType :: string
  inMisconceptionDetail :: string
  inDomainID :: string
  inBKTSlip :: "f64 option"
  inBKTGuess :: "f64 option"
  inRubricJSON :: string
  inRubricScoreJSON :: string
  inCreatedAt :: time

record TransferRecord =
  trLearnerID :: string
  trDomainID :: string
  trAssessmentAttemptID :: string
  trConceptID :: string
  trContextType :: string
  trScore :: f64
  trSessionID :: string
  trCreatedAt :: time

datatype AssessmentAttemptStatus =
    AssessmentAttemptPrepared | AssessmentAttemptSubmitted | AssessmentAttemptEvaluated
  | AssessmentAttemptCancelled | AssessmentAttemptOther string

datatype EvaluationMethod =
    EvaluationMethodHostLLM | EvaluationMethodExternal | EvaluationMethodHumanReview
  | EvaluationMethodDeterministic | EvaluationMethodOther string

definition LearningEventProtocol :: string where
  "LearningEventProtocol = ''response-feedback-v1''"

record AssessmentAttempt =
  aaID :: string
  aaLearnerID :: string
  aaDomainID :: string
  aaConceptID :: string
  aaSessionID :: string
  aaActivityID :: string
  aaActivityVersion :: int
  aaDecisionID :: string
  aaCurriculumVersion :: int
  aaCurriculumInvalidatedVersion :: int
  aaCurriculumConceptJSON :: string
  aaOutcomeIDsJSON :: string
  aaActivityType :: string
  aaObservable :: string
  aaTaskText :: string
  aaTaskContentHash :: string
  aaResponseText :: string
  aaResponseContentHash :: string
  aaRubricJSON :: string
  aaPassingScore :: f64
  aaStatus :: AssessmentAttemptStatus
  aaRubricScoreJSON :: string
  aaScore :: f64
  aaPassed :: bool
  aaEvaluatorID :: string
  aaEvaluationMethod :: EvaluationMethod
  aaEvaluationProvenanceJSON :: string
  aaTrustedEvaluation :: bool
  aaEventProtocol :: string
  aaPriorExposureAt :: "time option"
  aaCreatedAt :: time
  aaSubmittedAt :: "time option"
  aaEvaluatedAt :: "time option"
  aaCancelledAt :: "time option"

record AffectState =
  afEnergy :: int
  afSubjectConfidence :: int
  afSatisfaction :: int
  afPerceivedDifficulty :: int
  afNextSessionIntent :: int
  afAutonomyScore :: f64
  afCreatedAt :: time

record GoalRelevance =
  grForGraphVersion :: int
  grRelevance :: "(string \<times> f64) list"
  grSetAt :: time

record Domain =
  dID :: string
  dLearnerID :: string
  dName :: string
  dPersonalGoal :: string
  dGraph :: KnowledgeSpace
  dArchived :: bool
  dHighStakes :: bool
  dGraphVersion :: int
  dGoalRelevanceJSON :: string
  dGoalRelevanceVersion :: int
  dPhase :: Phase
  dPhaseChangedAt :: time
  dPhaseEntryEntropy :: f64
  dCreatedAt :: time
  dDeletedAt :: "time option"

section \<open>Operations\<close>

definition BKTReferenceParams :: BKTParams where
  "BKTReferenceParams = \<lparr>rpPLearn = 0.15, rpPForget = 0.05, rpPSlip = 0.1, rpPGuess = 0.2\<rparr>"

definition NewConceptStateInDomain :: "string \<Rightarrow> string \<Rightarrow> string \<Rightarrow> ConceptState" where
  "NewConceptStateInDomain learnerID domainID concept =
     \<lparr>csLearnerID = learnerID, csDomainID = domainID, csConcept = concept, csStability = 1.0, csDifficulty = 0.3,
      csElapsedDays = 0, csScheduledDays = 0, csReps = 0, csLapses = 0, csCardState = New,
      csLastReview = None, csNextReview = None, csPMastery = 0.1,
      csPLearn = rpPLearn BKTReferenceParams, csPForget = rpPForget BKTReferenceParams,
      csPSlip = rpPSlip BKTReferenceParams, csPGuess = rpPGuess BKTReferenceParams,
      csTheta = 0.0, csUpdatedAt = 0\<rparr>"

text \<open>The information gain of \<open>algorithms/bkt_info_gain.go\<close>, on the concept state it takes.\<close>

definition info_gain :: "ConceptState option \<Rightarrow> f64" where
  "info_gain cs = BKTInfoGain (map_option (\<lambda>c. (csPMastery c, csPSlip c, csPGuess c)) cs)"

definition ParseGoalRelevance :: "(string \<Rightarrow> GoalRelevance option) \<Rightarrow> Domain \<Rightarrow> GoalRelevance option" where
  "ParseGoalRelevance unmarshal d =
     (if dGoalRelevanceJSON d = '''' then None else unmarshal (dGoalRelevanceJSON d))"

definition IsGoalRelevanceStale :: "(string \<Rightarrow> GoalRelevance option) \<Rightarrow> Domain \<Rightarrow> bool" where
  "IsGoalRelevanceStale unmarshal d =
     (case ParseGoalRelevance unmarshal d of
        None \<Rightarrow> dGraphVersion d > 0
      | Some gr \<Rightarrow> grForGraphVersion gr < dGraphVersion d)"

definition defaultUncoveredRelevanceFloor :: f64 where
  "defaultUncoveredRelevanceFloor = 0.1"

definition DefaultUncoveredRelevance :: "(string \<times> f64) list \<Rightarrow> f64" where
  "DefaultUncoveredRelevance relevance =
     (if length relevance = 0 then 1.0
      else
        let mean = fold (\<lambda>(c, weight) sum. sum + weight) relevance 0 / f_of_int (int (length relevance))
        in if mean < defaultUncoveredRelevanceFloor then defaultUncoveredRelevanceFloor
           else if mean > 1 then 1 else mean)"

definition EffectiveGoalRelevance ::
    "(string \<Rightarrow> GoalRelevance option) \<Rightarrow> Domain \<Rightarrow> (string \<rightharpoonup> f64) option" where
  "EffectiveGoalRelevance unmarshal d =
     (case ParseGoalRelevance unmarshal d of
        None \<Rightarrow> None
      | Some gr \<Rightarrow>
          let effective = map_of (grRelevance gr) in
          if \<not> IsGoalRelevanceStale unmarshal d then Some effective
          else
            let fallback = DefaultUncoveredRelevance (grRelevance gr) in
            Some (fold (\<lambda>concept m. if m concept = None then m(concept \<mapsto> fallback) else m)
                   (ksConcepts (dGraph d)) effective))"

definition UncoveredConcepts :: "(string \<Rightarrow> GoalRelevance option) \<Rightarrow> Domain \<Rightarrow> string list" where
  "UncoveredConcepts unmarshal d =
     (let covered = (case ParseGoalRelevance unmarshal d of
                       Some gr \<Rightarrow> set (map fst (grRelevance gr)) | None \<Rightarrow> {})
      in filter (\<lambda>c. c \<notin> covered) (ksConcepts (dGraph d)))"

section \<open>Lemmas\<close>

lemma NewConceptStateInDomain_concept [simp]: "csConcept (NewConceptStateInDomain l d c) = c"
  by (simp add: NewConceptStateInDomain_def)

lemma fold_default_lookup:
  "fold (\<lambda>c m. if m c = None then m(c \<mapsto> v) else m) cs m k =
     (case m k of Some w \<Rightarrow> Some w | None \<Rightarrow> if k \<in> set cs then Some v else None)"
  by (induction cs arbitrary: m) (auto split: option.splits)

lemma EffectiveGoalRelevance_lookup:
  assumes "ParseGoalRelevance unmarshal d = Some gr"
  shows "\<exists>eff. EffectiveGoalRelevance unmarshal d = Some eff \<and>
    (\<forall>c. eff c = (case map_of (grRelevance gr) c of
        Some w \<Rightarrow> Some w
      | None \<Rightarrow> if grForGraphVersion gr < dGraphVersion d \<and> c \<in> set (ksConcepts (dGraph d))
                then Some (DefaultUncoveredRelevance (grRelevance gr)) else None))"
  using assms
  by (auto simp: EffectiveGoalRelevance_def IsGoalRelevanceStale_def Let_def fold_default_lookup
      split: option.split)

lemma UncoveredConcepts_iff:
  assumes "ParseGoalRelevance unmarshal d = Some gr"
  shows "c \<in> set (UncoveredConcepts unmarshal d) \<longleftrightarrow>
    c \<in> set (ksConcepts (dGraph d)) \<and> map_of (grRelevance gr) c = None"
  using assms by (auto simp: UncoveredConcepts_def map_of_eq_None_iff)

lemma fold_sum_fin:
  "\<forall>(c, w) \<in> set rs. is_fin w \<Longrightarrow> \<exists>s. fold (\<lambda>(c, w) sum. sum + w) rs (Fin a) = Fin s"
proof (induction rs arbitrary: a)
  case Nil
  then show ?case by simp
next
  case (Cons r rs)
  obtain c w where r: "r = (c, w)" by (cases r)
  from Cons.prems obtain x where "w = Fin x" by (auto simp: r is_fin_iff)
  with Cons.IH[of "a + x"] Cons.prems show ?case by (auto simp: r)
qed

lemma DefaultUncoveredRelevance_bounds:
  assumes "\<forall>(c, w) \<in> set rs. is_fin w"
  shows "defaultUncoveredRelevanceFloor \<le> DefaultUncoveredRelevance rs \<and> DefaultUncoveredRelevance rs \<le> 1"
proof (cases rs)
  case Nil
  then show ?thesis by (simp add: DefaultUncoveredRelevance_def defaultUncoveredRelevanceFloor_def)
next
  case (Cons r rs')
  obtain s where "fold (\<lambda>(c, w) sum. sum + w) rs (Fin 0) = Fin s" using fold_sum_fin[OF assms] by blast
  with Cons show ?thesis
    by (auto simp: DefaultUncoveredRelevance_def defaultUncoveredRelevanceFloor_def Let_def)
qed

section \<open>Properties\<close>

text \<open>
  The routing vector keeps every stored weight; when the vector is older than the graph, the
  concepts it gives a default weight to are exactly the uncovered concepts of the graph, and that
  weight is in [0.1, 1] when the stored weights are finite, so a newly added concept is always
  visible to routing; when the vector is current an omitted concept stays absent.\<close>

lemma EffectiveGoalRelevance_covers:
  assumes "ParseGoalRelevance unmarshal d = Some gr" and "\<forall>(c, w) \<in> set (grRelevance gr). is_fin w"
  shows "\<exists>eff. EffectiveGoalRelevance unmarshal d = Some eff \<and>
    (\<forall>c w. map_of (grRelevance gr) c = Some w \<longrightarrow> eff c = Some w) \<and>
    (IsGoalRelevanceStale unmarshal d \<longrightarrow>
       (\<forall>c \<in> set (UncoveredConcepts unmarshal d). \<exists>w. eff c = Some w \<and> 0.1 \<le> w \<and> w \<le> 1)) \<and>
    (\<not> IsGoalRelevanceStale unmarshal d \<longrightarrow> eff = map_of (grRelevance gr))"
proof -
  obtain eff where eff: "EffectiveGoalRelevance unmarshal d = Some eff"
    and lk: "\<And>c. eff c = (case map_of (grRelevance gr) c of
        Some w \<Rightarrow> Some w
      | None \<Rightarrow> if grForGraphVersion gr < dGraphVersion d \<and> c \<in> set (ksConcepts (dGraph d))
                then Some (DefaultUncoveredRelevance (grRelevance gr)) else None)"
    using EffectiveGoalRelevance_lookup[OF assms(1)] by blast
  have stale: "IsGoalRelevanceStale unmarshal d \<longleftrightarrow> grForGraphVersion gr < dGraphVersion d"
    by (simp add: IsGoalRelevanceStale_def assms(1))
  have cur: "eff = map_of (grRelevance gr)" if "\<not> grForGraphVersion gr < dGraphVersion d"
    using that lk by (auto split: option.splits)
  show ?thesis
    using eff lk cur DefaultUncoveredRelevance_bounds[OF assms(2)]
    by (auto simp: stale UncoveredConcepts_iff[OF assms(1)] defaultUncoveredRelevanceFloor_def)
qed

end
