(* ===== verification/Phase.thy ===== *)
theory Phase
  imports Models
begin

text \<open>
  The phase controller: \<open>engine/phase_config.go\<close> and \<open>engine/phase_fsm.go\<close>. \<open>EvaluatePhase\<close> is
  the pure transition function; the step relation \<open>phase_step\<close> at the end of the theory is the
  state machine it induces over sequences of observations.
\<close>

section \<open>Configuration\<close>

definition DefaultAntiRepeatWindow :: int where
  "DefaultAntiRepeatWindow = 3"

record PhaseConfig =
  cfgDeltaHThreshold :: f64
  cfgNDiagnosticMax :: int
  cfgRetentionRecallThreshold :: f64
  cfgGoalRelevantCutoff :: f64
  cfgAntiRepeatWindow :: int
  cfgMasteryExitThreshold :: f64

definition DefaultMasteryExitThreshold :: f64 where
  "DefaultMasteryExitThreshold = 0.70"

definition EffectiveMasteryExitThreshold :: "PhaseConfig \<Rightarrow> f64" where
  "EffectiveMasteryExitThreshold cfg =
     (if cfgMasteryExitThreshold cfg > 0 then cfgMasteryExitThreshold cfg else MasteryBKT)"

definition NewDefaultPhaseConfig :: PhaseConfig where
  "NewDefaultPhaseConfig =
     \<lparr>cfgDeltaHThreshold = 0.2, cfgNDiagnosticMax = 8,
      cfgRetentionRecallThreshold = RetentionRecallRoutingThreshold, cfgGoalRelevantCutoff = 0.0,
      cfgAntiRepeatWindow = DefaultAntiRepeatWindow,
      cfgMasteryExitThreshold = DefaultMasteryExitThreshold\<rparr>"

section \<open>The transition function\<close>

record PhaseObservables =
  obMeanEntropy :: f64
  obPhaseEntryEntropy :: f64
  obDiagnosticItemsCount :: int
  obDiagnosticCoverageTarget :: int
  obEstimatedGoalRelevant :: int
  obTotalGoalRelevant :: int
  obBelowExitGoalRelevant :: int
  obGoalRelevantBelowRetention :: bool

record PhaseEvaluation =
  peFrom :: Phase
  peTo :: Phase
  peTransitioned :: bool
  peRationale :: message

definition evaluate_diagnostic :: "PhaseObservables \<Rightarrow> PhaseConfig \<Rightarrow> PhaseEvaluation" where
  "evaluate_diagnostic obs cfg =
     (let hasSnapshot = obPhaseEntryEntropy obs > 0 \<and> \<not> isNaN (obPhaseEntryEntropy obs);
          entropyDelta = obPhaseEntryEntropy obs - obMeanEntropy obs;
          entropyExit = (hasSnapshot \<and> entropyDelta \<ge> cfgDeltaHThreshold cfg);
          coverageTarget = (if obDiagnosticCoverageTarget obs \<le> 0 then cfgNDiagnosticMax cfg
                            else obDiagnosticCoverageTarget obs);
          coverageReached = (coverageTarget > 0 \<and> obDiagnosticItemsCount obs \<ge> coverageTarget)
      in if entropyExit \<and> coverageReached then
           \<lparr>peFrom = PhaseDiagnostic, peTo = PhaseInstruction, peTransitioned = True,
            peRationale = [S ''DIAGNOSTIC->INSTRUCTION: qualified concept coverage reached ('',
              D (obDiagnosticItemsCount obs), S ''/'', D coverageTarget,
              S '') and entropy reduction reached ('', F 3 entropyDelta, S '' >= '',
              F 3 (cfgDeltaHThreshold cfg), S '' bits)'']\<rparr>
         else if coverageReached then
           \<lparr>peFrom = PhaseDiagnostic, peTo = PhaseInstruction, peTransitioned = True,
            peRationale = [S ''DIAGNOSTIC->INSTRUCTION: qualified concept coverage reached ('',
              D (obDiagnosticItemsCount obs), S ''/'', D coverageTarget, S '' distinct concepts)'']\<rparr>
         else
           \<lparr>peFrom = PhaseDiagnostic, peTo = PhaseDiagnostic, peTransitioned = False,
            peRationale = [S ''DIAGNOSTIC: delta='', F 3 entropyDelta, S '' bits (threshold '',
              F 3 (cfgDeltaHThreshold cfg), S ''), qualified coverage='',
              D (obDiagnosticItemsCount obs), S ''/'', D coverageTarget, S '' concepts - stay'']\<rparr>)"

fun EvaluatePhase :: "Phase \<Rightarrow> PhaseObservables \<Rightarrow> PhaseConfig \<Rightarrow> PhaseEvaluation" where
  "EvaluatePhase PhaseDiagnostic obs cfg = evaluate_diagnostic obs cfg"
| "EvaluatePhase PhaseInstruction obs cfg =
     (if obTotalGoalRelevant obs > 0 \<and> obEstimatedGoalRelevant obs = obTotalGoalRelevant obs then
        \<lparr>peFrom = PhaseInstruction, peTo = PhaseMaintenance, peTransitioned = True,
         peRationale = [S ''INSTRUCTION->MAINTENANCE: '', D (obEstimatedGoalRelevant obs), S ''/'',
           D (obTotalGoalRelevant obs), S '' goal-relevant concepts estimated above routing threshold'']\<rparr>
      else
        \<lparr>peFrom = PhaseInstruction, peTo = PhaseInstruction, peTransitioned = False,
         peRationale = [S ''INSTRUCTION: '', D (obEstimatedGoalRelevant obs), S ''/'',
           D (obTotalGoalRelevant obs),
           S '' goal-relevant concepts estimated above routing threshold - stay'']\<rparr>)"
| "EvaluatePhase PhaseMaintenance obs cfg =
     (if obTotalGoalRelevant obs > 0 \<and> obBelowExitGoalRelevant obs > 0 then
        \<lparr>peFrom = PhaseMaintenance, peTo = PhaseInstruction, peTransitioned = True,
         peRationale = [S ''MAINTENANCE->INSTRUCTION: '', D (obBelowExitGoalRelevant obs),
           S '' goal-relevant concept(s) estimated below the exit threshold '',
           F 2 (EffectiveMasteryExitThreshold cfg)]\<rparr>
      else
        \<lparr>peFrom = PhaseMaintenance, peTo = PhaseMaintenance, peTransitioned = False,
         peRationale = [S ''MAINTENANCE: '', D (obEstimatedGoalRelevant obs), S ''/'',
           D (obTotalGoalRelevant obs),
           S '' goal-relevant concepts above routing threshold, none below exit threshold '',
           F 2 (EffectiveMasteryExitThreshold cfg),
           S '' (hysteresis); recall needs are selected within this phase'']\<rparr>)"
| "EvaluatePhase (PhaseOther s) obs cfg =
     \<lparr>peFrom = PhaseOther s, peTo = PhaseOther s, peTransitioned = False,
      peRationale = [S ''unrecognised phase '', Q s, S '' - no transition'']\<rparr>"

text \<open>The mean over the graph: \<open>n\<close> counts every concept, a missing or NaN estimate as probability 0.\<close>

fun entropy_sum :: "(string \<rightharpoonup> ConceptState) \<Rightarrow> string list \<Rightarrow> f64 \<times> int \<Rightarrow> f64 \<times> int" where
  "entropy_sum states [] acc = acc"
| "entropy_sum states (c # cs) (h, n) =
     (let p = (case states c of
                 Some st \<Rightarrow> if \<not> isNaN (csPMastery st) then csPMastery st else 0
               | None \<Rightarrow> 0)
      in entropy_sum states cs (h + BinaryEntropy p, n + 1))"

definition MeanBinaryEntropyOverGraph :: "KnowledgeSpace \<Rightarrow> (string \<rightharpoonup> ConceptState) \<Rightarrow> f64" where
  "MeanBinaryEntropyOverGraph graph states =
     (if length (ksConcepts graph) = 0 then 0
      else case entropy_sum states (ksConcepts graph) (0, 0) of
             (h, n) \<Rightarrow> if n = 0 then 0 else h / f_of_int n)"

section \<open>The state machine\<close>

text \<open>One step of the machine: some snapshot of observables makes the function transition.\<close>

inductive phase_step :: "PhaseConfig \<Rightarrow> Phase \<Rightarrow> Phase \<Rightarrow> bool" for cfg where
  fire: "peTransitioned (EvaluatePhase p obs cfg) \<Longrightarrow> phase_step cfg p (peTo (EvaluatePhase p obs cfg))"

inductive_cases phase_stepE: "phase_step cfg p q"

definition coverage_reached :: "PhaseObservables \<Rightarrow> PhaseConfig \<Rightarrow> bool" where
  "coverage_reached obs cfg \<longleftrightarrow>
     (let target = (if obDiagnosticCoverageTarget obs \<le> 0 then cfgNDiagnosticMax cfg
                    else obDiagnosticCoverageTarget obs)
      in 0 < target \<and> target \<le> obDiagnosticItemsCount obs)"

lemma evaluate_diagnostic_spec:
  "peTransitioned (evaluate_diagnostic obs cfg) = coverage_reached obs cfg"
  "peTo (evaluate_diagnostic obs cfg) = (if coverage_reached obs cfg then PhaseInstruction else PhaseDiagnostic)"
  "peFrom (evaluate_diagnostic obs cfg) = PhaseDiagnostic"
  by (auto simp: evaluate_diagnostic_def coverage_reached_def Let_def)

lemma EvaluatePhase_from: "peFrom (EvaluatePhase p obs cfg) = p"
  by (cases p) (simp_all add: evaluate_diagnostic_spec)

lemma EvaluatePhase_stay: "\<not> peTransitioned (EvaluatePhase p obs cfg) \<longleftrightarrow> peTo (EvaluatePhase p obs cfg) = p"
  by (cases p) (auto simp: evaluate_diagnostic_spec)

definition phase_edges :: "(Phase \<times> Phase) set" where
  "phase_edges = {(PhaseDiagnostic, PhaseInstruction), (PhaseInstruction, PhaseMaintenance),
                  (PhaseMaintenance, PhaseInstruction)}"

lemma phase_step_edge: "phase_step cfg p q \<Longrightarrow> (p, q) \<in> phase_edges"
  by (erule phase_stepE; cases p) (auto simp: evaluate_diagnostic_spec phase_edges_def split: if_splits)

definition firing_observables :: PhaseObservables where
  "firing_observables = \<lparr>obMeanEntropy = 0, obPhaseEntryEntropy = 0, obDiagnosticItemsCount = 1,
     obDiagnosticCoverageTarget = 1, obEstimatedGoalRelevant = 1, obTotalGoalRelevant = 1,
     obBelowExitGoalRelevant = 1, obGoalRelevantBelowRetention = False\<rparr>"

lemma phase_edge_step: "(p, q) \<in> phase_edges \<Longrightarrow> phase_step cfg p q"
  using phase_step.fire[of p firing_observables cfg]
  by (auto simp: phase_edges_def evaluate_diagnostic_spec coverage_reached_def firing_observables_def)

lemma phase_run_known:
  "(phase_step cfg)\<^sup>*\<^sup>* p q \<Longrightarrow> known_phase p \<Longrightarrow> known_phase q"
  by (induction rule: rtranclp_induct)
    (auto dest!: phase_step_edge simp: phase_edges_def known_phase_def)

lemma phase_run_never_diagnostic:
  "(phase_step cfg)\<^sup>+\<^sup>+ p q \<Longrightarrow> q \<noteq> PhaseDiagnostic"
  by (induction rule: tranclp_induct) (auto dest!: phase_step_edge simp: phase_edges_def)

section \<open>Mean entropy\<close>

lemma BinaryEntropy_total: "p \<noteq> NaN \<Longrightarrow> unit_f64 (BinaryEntropy p)"
  by (cases p) (auto simp: BinaryEntropy_Fin entropy_range BinaryEntropy_def[of PInf] BinaryEntropy_def[of NInf])

lemma entropy_sum_range:
  "\<exists>t. entropy_sum states cs (Fin s, n) = (Fin (s + t), n + int (length cs)) \<and> 0 \<le> t \<and> t \<le> real (length cs)"
proof (induction cs arbitrary: s n)
  case Nil
  then show ?case by simp
next
  case (Cons c cs)
  define p where "p = (case states c of
      Some st \<Rightarrow> if \<not> isNaN (csPMastery st) then csPMastery st else 0 | None \<Rightarrow> 0)"
  have "p \<noteq> NaN" by (simp add: p_def split: option.split)
  then obtain h where h: "BinaryEntropy p = Fin h" "0 \<le> h" "h \<le> 1"
    using BinaryEntropy_total by (blast elim: unit_f64E)
  obtain t where t: "entropy_sum states cs (Fin (s + h), n + 1) = (Fin (s + h + t), n + 1 + int (length cs))"
    "0 \<le> t" "t \<le> real (length cs)" using Cons.IH by blast
  have "entropy_sum states (c # cs) (Fin s, n) = entropy_sum states cs (Fin (s + h), n + 1)"
    by (simp add: h(1) flip: p_def del: isNaN_iff f64_const)
  with t h show ?case by (auto intro!: exI[of _ "h + t"])
qed

lemma MeanBinaryEntropy_range: "unit_f64 (MeanBinaryEntropyOverGraph graph states)"
proof (cases "ksConcepts graph = []")
  case False
  obtain t where t: "entropy_sum states (ksConcepts graph) (Fin 0, 0) = (Fin t, int (length (ksConcepts graph)))"
    "0 \<le> t" "t \<le> real (length (ksConcepts graph))"
    using entropy_sum_range[of states "ksConcepts graph" 0 0] by auto
  with False show ?thesis by (simp add: MeanBinaryEntropyOverGraph_def divide_le_eq)
qed (simp add: MeanBinaryEntropyOverGraph_def)

section \<open>Properties\<close>

text \<open>C24. The phase machine has exactly three edges, DIAGNOSTIC to INSTRUCTION and back and forth
  between INSTRUCTION and MAINTENANCE, for every configuration: each is taken on some observation
  and no other is taken on any; so a domain that has left DIAGNOSTIC never re-enters it, and a
  recognised phase never becomes an unrecognised one.\<close>

theorem phase_machine:
  "(phase_step cfg p q \<longleftrightarrow> (p, q) \<in> phase_edges) \<and>
   ((phase_step cfg)\<^sup>+\<^sup>+ p q \<longrightarrow> q \<noteq> PhaseDiagnostic) \<and>
   ((phase_step cfg)\<^sup>*\<^sup>* p q \<longrightarrow> known_phase p \<longrightarrow> known_phase q)"
  using phase_step_edge phase_edge_step phase_run_never_diagnostic phase_run_known by blast

theorem phase_machine_witness:
  "phase_step NewDefaultPhaseConfig PhaseDiagnostic PhaseInstruction \<and>
   (PhaseMaintenance \<noteq> PhaseDiagnostic \<and> known_phase PhaseMaintenance)"
proof -
  let ?s = "phase_step NewDefaultPhaseConfig"
  have e: "?s PhaseDiagnostic PhaseInstruction" "?s PhaseInstruction PhaseMaintenance"
    using phase_machine[of NewDefaultPhaseConfig] by (auto simp: phase_edges_def)
  then have "?s\<^sup>*\<^sup>* PhaseDiagnostic PhaseMaintenance" "?s\<^sup>+\<^sup>+ PhaseDiagnostic PhaseMaintenance" by auto
  with e phase_machine[of NewDefaultPhaseConfig PhaseDiagnostic PhaseMaintenance]
  show ?thesis by (simp add: known_phase_def)
qed

text \<open>DIAGNOSTIC is left exactly when the qualified concept coverage reaches its target; the
  entropy snapshot, the current entropy and the entropy threshold (NaN included) never decide it.\<close>

lemma diagnostic_exit_is_coverage:
  "peTransitioned (EvaluatePhase PhaseDiagnostic obs cfg) = coverage_reached obs cfg \<and>
   peTo (EvaluatePhase PhaseDiagnostic obs cfg) =
     peTo (EvaluatePhase PhaseDiagnostic
       (obs\<lparr>obMeanEntropy := h, obPhaseEntryEntropy := h'\<rparr>) (cfg\<lparr>cfgDeltaHThreshold := d\<rparr>))"
  by (simp add: evaluate_diagnostic_spec coverage_reached_def)

text \<open>
  The mean binary entropy is a number of [0,1] for every graph and every map of concept
  states, NaN and infinite mastery estimates included.\<close>

lemma MeanBinaryEntropyOverGraph_unit:
  "unit_f64 (MeanBinaryEntropyOverGraph graph states)"
  by (rule MeanBinaryEntropy_range)

end
