(* ===== verification/Gate.thy ===== *)
theory Gate
  imports Phase "HOL-Library.Sublist"
begin

text \<open>
  The gate controller, \<open>engine/gate.go\<close>: \<open>ApplyGate\<close> filters the candidate concepts, restricts the
  actions of concepts with an active misconception and short-circuits the pipeline on OVERLOAD.
  A \<open>map[string]bool\<close> is a predicate; log calls are left out.
\<close>

section \<open>Data\<close>

datatype gate_error = ErrGateUnknownPhase string | ErrInvalidGateResult nat

record GateInput =
  giPhase :: Phase
  giConcepts :: "string list"
  giStates :: "string \<rightharpoonup> ConceptState"
  giGraph :: KnowledgeSpace
  giActiveMisconceptions :: "string \<Rightarrow> bool"
  giRecentConcepts :: "string list"
  giAlerts :: "Alert list"
  giAntiRepeatWindow :: int

record EscapeAction =
  eaType :: ActivityType
  eaFormat :: string
  eaRationale :: message

record GateResult =
  gEscapeAction :: "EscapeAction option"
  gNoCandidate :: bool
  gAllowedConcepts :: "string list"
  gActionRestriction :: "string \<rightharpoonup> ActivityType list"
  gRationale :: message

definition gate_modes :: "GateResult \<Rightarrow> nat" where
  "gate_modes g =
     (if gEscapeAction g \<noteq> None then 1 else 0) + (if gNoCandidate g then 1 else 0)
     + (if length (gAllowedConcepts g) > 0 then 1 else 0)"

definition GateResult_Validate :: "GateResult \<Rightarrow> gate_error option" where
  "GateResult_Validate g =
     (if gate_modes g \<noteq> 1 then Some (ErrInvalidGateResult (gate_modes g)) else None)"

definition newEscapeResult :: "EscapeAction \<Rightarrow> message \<Rightarrow> GateResult" where
  "newEscapeResult action rationale =
     \<lparr>gEscapeAction = Some action, gNoCandidate = False, gAllowedConcepts = [],
      gActionRestriction = Map.empty, gRationale = rationale\<rparr>"

definition newNoCandidateResult :: "message \<Rightarrow> GateResult" where
  "newNoCandidateResult rationale =
     \<lparr>gEscapeAction = None, gNoCandidate = True, gAllowedConcepts = [],
      gActionRestriction = Map.empty, gRationale = rationale\<rparr>"

definition newAllowResult ::
    "string list \<Rightarrow> (string \<rightharpoonup> ActivityType list) \<Rightarrow> message \<Rightarrow> GateResult" where
  "newAllowResult concepts restrictions rationale =
     \<lparr>gEscapeAction = None, gNoCandidate = False, gAllowedConcepts = concepts,
      gActionRestriction = restrictions, gRationale = rationale\<rparr>"

section \<open>Operations\<close>

fun prereqs_loop :: "(string \<rightharpoonup> ConceptState) \<Rightarrow> f64 \<Rightarrow> string list \<Rightarrow> bool" where
  "prereqs_loop states kstThreshold [] = True"
| "prereqs_loop states kstThreshold (prereq # rest) =
     (case states prereq of
        None \<Rightarrow> False
      | Some cs \<Rightarrow>
          if isNaN (csPMastery cs) \<or> csPMastery cs < kstThreshold then False
          else prereqs_loop states kstThreshold rest)"

definition prereqsSatisfied ::
    "string \<Rightarrow> KnowledgeSpace \<Rightarrow> (string \<rightharpoonup> ConceptState) \<Rightarrow> f64 \<Rightarrow> bool" where
  "prereqsSatisfied concept graph states kstThreshold =
     prereqs_loop states kstThreshold (map_list (ksPrerequisites graph) concept)"

definition missingPrereqs ::
    "string \<Rightarrow> KnowledgeSpace \<Rightarrow> (string \<rightharpoonup> ConceptState) \<Rightarrow> f64 \<Rightarrow> string list" where
  "missingPrereqs concept graph states kstThreshold =
     sort (filter (\<lambda>prereq.
       case states prereq of
         None \<Rightarrow> True
       | Some cs \<Rightarrow> isNaN (csPMastery cs) \<or> csPMastery cs < kstThreshold)
       (map_list (ksPrerequisites graph) concept))"

definition alertConceptSet :: "Alert list \<Rightarrow> AlertType \<Rightarrow> string set" where
  "alertConceptSet alerts t = set (map alConcept (filter (\<lambda>a. alType a = t) alerts))"

text \<open>Rule 2: the concepts whose prerequisites hold; DIAGNOSTIC bypasses the filter.\<close>

definition gate_prereqOK :: "string \<Rightarrow> GateInput \<Rightarrow> string \<Rightarrow> bool" where
  "gate_prereqOK env inp c \<longleftrightarrow>
     giPhase inp = PhaseDiagnostic \<or> prereqsSatisfied c (giGraph inp) (giStates inp) (MasteryKST env)"

definition gate_afterPrereq :: "string \<Rightarrow> GateInput \<Rightarrow> string list" where
  "gate_afterPrereq env inp = filter (gate_prereqOK env inp) (giConcepts inp)"

text \<open>Rule 4: the effective anti-repetition window and the recent concepts it excludes.\<close>

definition gate_window :: "GateInput \<Rightarrow> int" where
  "gate_window inp = min (max 0 (giAntiRepeatWindow inp)) (max 0 (int (length (giConcepts inp)) - 1))"

definition gate_recentSet :: "GateInput \<Rightarrow> string set" where
  "gate_recentSet inp =
     (if gate_window inp > 0 \<and> length (giRecentConcepts inp) > 0
      then set (take (nat (min (gate_window inp) (int (length (giRecentConcepts inp))))) (giRecentConcepts inp))
      else {})"

definition gate_antiRep :: "GateInput \<Rightarrow> string list \<Rightarrow> string list" where
  "gate_antiRep inp afterPrereq =
     filter (\<lambda>c. c \<notin> gate_recentSet inp \<or> c \<in> alertConceptSet (giAlerts inp) AlertForgetting
                  \<or> giActiveMisconceptions inp c) afterPrereq"

text \<open>Rule 5: the concepts with a critical FORGETTING alert.\<close>

definition gate_criticalSet :: "GateInput \<Rightarrow> string set" where
  "gate_criticalSet inp =
     set (map alConcept (filter (\<lambda>a. alType a = AlertForgetting \<and> alUrgency a = UrgencyCritical) (giAlerts inp)))"

text \<open>Rule 1: concepts of the final pool with an active misconception.\<close>

definition gate_restrictions :: "GateInput \<Rightarrow> string list \<Rightarrow> string \<rightharpoonup> ActivityType list" where
  "gate_restrictions inp final =
     fold (\<lambda>c m. if giActiveMisconceptions inp c then m(c \<mapsto> [ActivityDebugMisconception]) else m)
       final Map.empty"

definition ApplyGate :: "string \<Rightarrow> GateInput \<Rightarrow> gate_error + GateResult" where
  "ApplyGate env inp =
     (if giPhase inp \<notin> {PhaseInstruction, PhaseDiagnostic, PhaseMaintenance}
      then Inl (ErrGateUnknownPhase (string_of_phase (giPhase inp)))
      else if \<exists>a \<in> set (giAlerts inp). alType a = AlertOverload then
        Inr (newEscapeResult
          \<lparr>eaType = ActivityCloseSession, eaFormat = ''session_overload'',
           eaRationale = [S ''session >= 45 min (OVERLOAD)'']\<rparr>
          [S ''OVERLOAD escape : close session''])
      else
        let afterPrereq = gate_afterPrereq env inp;
            n = gate_window inp;
            kept = gate_antiRep inp afterPrereq;
            antiRepeatRelaxed = (length kept = 0 \<and> length afterPrereq > 0);
            finalCandidates = (if antiRepeatRelaxed then afterPrereq else kept)
        in if length finalCandidates = 0
           then Inr (newNoCandidateResult [S ''no candidate satisfies prerequisites''])
           else
             let restricted = filter (\<lambda>c. c \<in> gate_criticalSet inp) finalCandidates;
                 fired = (gate_criticalSet inp \<noteq> {} \<and> length restricted > 0);
                 finalCandidates = (if fired then restricted else finalCandidates);
                 restrictions = gate_restrictions inp finalCandidates;
                 rationale =
                   [D (int (length finalCandidates)),
                    S '' candidats apres prereq+anti-rep (window effective='', D n, S '') ; '',
                    D (int (card (dom restrictions))), S '' sous restriction misconception'']
                   @ (if fired then [S '' ; pool restreint aux concepts FORGETTING-Critical (issue #16)''] else [])
                   @ (if antiRepeatRelaxed
                      then [S '' ; anti-repetition relaxed: every prerequisite-eligible concept was recent''] else [])
             in Inr (newAllowResult finalCandidates restrictions rationale))"

section \<open>Lemmas\<close>

lemma prereqsSatisfied_iff:
  assumes "t \<noteq> NaN"
  shows "prereqsSatisfied c graph states t \<longleftrightarrow>
    (\<forall>p \<in> set (map_list (ksPrerequisites graph) c). \<exists>cs. states p = Some cs \<and> t \<le> csPMastery cs)"
proof -
  have "prereqs_loop states t ps \<longleftrightarrow> (\<forall>p \<in> set ps. \<exists>cs. states p = Some cs \<and> t \<le> csPMastery cs)" for ps
  proof (induction ps)
    case Nil
    then show ?case by simp
  next
    case (Cons p ps)
    then show ?case using f64_below_iff[OF assms] by (cases "states p") auto
  qed
  then show ?thesis by (simp add: prereqsSatisfied_def)
qed

lemma missingPrereqs_empty_iff:
  "missingPrereqs c graph states t = [] \<longleftrightarrow> prereqsSatisfied c graph states t"
proof -
  have "filter (\<lambda>p. case states p of None \<Rightarrow> True | Some cs \<Rightarrow> isNaN (csPMastery cs) \<or> csPMastery cs < t) ps = []
    \<longleftrightarrow> prereqs_loop states t ps" for ps
    by (induction ps) (auto split: option.split)
  moreover have "sort xs = [] \<longleftrightarrow> xs = []" for xs :: "string list"
    by (metis length_0_conv length_sort)
  ultimately show ?thesis by (simp add: missingPrereqs_def prereqsSatisfied_def)
qed

lemma gate_restrictions_lookup:
  "gate_restrictions inp final c =
     (if c \<in> set final \<and> giActiveMisconceptions inp c then Some [ActivityDebugMisconception] else None)"
proof -
  have "fold (\<lambda>c m. if giActiveMisconceptions inp c then m(c \<mapsto> [ActivityDebugMisconception]) else m) final m c =
    (if c \<in> set final \<and> giActiveMisconceptions inp c then Some [ActivityDebugMisconception] else m c)" for m
    by (induction final arbitrary: m) auto
  then show ?thesis by (simp add: gate_restrictions_def)
qed

lemma card_recent_window: "card (gate_recentSet inp) \<le> nat (gate_window inp)"
proof -
  have "card (set (take k xs)) \<le> k" for k and xs :: "string list"
    by (rule le_trans[OF card_length]) simp
  from this[of "nat (min (gate_window inp) (int (length (giRecentConcepts inp))))" "giRecentConcepts inp"]
  show ?thesis by (auto simp: gate_recentSet_def)
qed

text \<open>The candidates after anti-repetition with its fallback, and the pool after rule 5.\<close>

definition gate_survivors :: "string \<Rightarrow> GateInput \<Rightarrow> string list" where
  "gate_survivors env inp =
     (if gate_antiRep inp (gate_afterPrereq env inp) = [] then gate_afterPrereq env inp
      else gate_antiRep inp (gate_afterPrereq env inp))"

definition gate_pool :: "string \<Rightarrow> GateInput \<Rightarrow> string list" where
  "gate_pool env inp =
     (if filter (\<lambda>c. c \<in> gate_criticalSet inp) (gate_survivors env inp) = [] then gate_survivors env inp
      else filter (\<lambda>c. c \<in> gate_criticalSet inp) (gate_survivors env inp))"

definition gate_overload :: "GateInput \<Rightarrow> bool" where
  "gate_overload inp \<longleftrightarrow> (\<exists>a \<in> set (giAlerts inp). alType a = AlertOverload)"

lemma ApplyGate_unknown:
  "\<not> known_phase (giPhase inp) \<Longrightarrow> ApplyGate env inp = Inl (ErrGateUnknownPhase (string_of_phase (giPhase inp)))"
  by (auto simp: ApplyGate_def known_phase_def)

lemma ApplyGate_overload:
  assumes "known_phase (giPhase inp)" and "gate_overload inp"
  shows "\<exists>r a. ApplyGate env inp = Inr r \<and> gEscapeAction r = Some a \<and> eaType a = ActivityCloseSession \<and>
    \<not> gNoCandidate r \<and> gAllowedConcepts r = [] \<and> gActionRestriction r = Map.empty"
  using assms by (auto simp: ApplyGate_def known_phase_def gate_overload_def newEscapeResult_def)

lemma survivors_empty_iff: "gate_survivors env inp = [] \<longleftrightarrow> gate_afterPrereq env inp = []"
  by (auto simp: gate_survivors_def gate_antiRep_def)

lemma pool_empty_iff: "gate_pool env inp = [] \<longleftrightarrow> gate_afterPrereq env inp = []"
  using survivors_empty_iff[of env inp] by (cases "gate_survivors env inp = []") (auto simp: gate_pool_def)

lemma ApplyGate_pool:
  assumes "known_phase (giPhase inp)" and "\<not> gate_overload inp"
  shows "\<exists>r. ApplyGate env inp = Inr r \<and> gEscapeAction r = None \<and>
    gAllowedConcepts r = gate_pool env inp \<and> gNoCandidate r = (gate_afterPrereq env inp = []) \<and>
    gActionRestriction r = gate_restrictions inp (gate_pool env inp)"
proof (cases "gate_afterPrereq env inp = []")
  case True
  then have p: "gate_pool env inp = []" "gate_antiRep inp [] = []" "gate_restrictions inp [] = Map.empty"
    by (auto simp: pool_empty_iff gate_antiRep_def gate_restrictions_def)
  have "ApplyGate env inp = Inr (newNoCandidateResult [S ''no candidate satisfies prerequisites''])"
    using assms True p(2) by (auto simp: ApplyGate_def known_phase_def gate_overload_def Let_def)
  with True p show ?thesis by (simp add: newNoCandidateResult_def)
next
  case False
  let ?kept = "gate_antiRep inp (gate_afterPrereq env inp)"
  let ?sv = "if length ?kept = 0 \<and> length (gate_afterPrereq env inp) > 0 then gate_afterPrereq env inp else ?kept"
  let ?rs = "filter (\<lambda>c. c \<in> gate_criticalSet inp) ?sv"
  let ?fc = "if gate_criticalSet inp \<noteq> {} \<and> length ?rs > 0 then ?rs else ?sv"
  have sv: "?sv = gate_survivors env inp" using False by (simp add: gate_survivors_def)
  then have fc: "?fc = gate_pool env inp"
    by (cases "?rs = []") (auto simp: gate_pool_def filter_empty_conv)
  have ne: "length ?sv \<noteq> 0" using False sv by (simp add: survivors_empty_iff)
  have "\<exists>msg. ApplyGate env inp = Inr (newAllowResult ?fc (gate_restrictions inp ?fc) msg)"
    using assms ne unfolding ApplyGate_def known_phase_def gate_overload_def Let_def
    by (simp only: if_False if_True not_True_eq_False simp_thms) blast
  with False fc show ?thesis by (auto simp: newAllowResult_def)
qed

lemma gate_pool_subset: "set (gate_pool env inp) \<subseteq> set (gate_afterPrereq env inp)"
  by (auto simp: gate_pool_def gate_survivors_def gate_antiRep_def)

lemma gate_pool_subseq: "subseq (gate_pool env inp) (giConcepts inp)"
proof -
  have "subseq (filter P xs) ys" if "subseq xs ys" for P and xs ys :: "string list"
    using subseq_filter_left[of P xs] that by (rule subseq_order.order_trans)
  then show ?thesis
    by (auto simp: gate_pool_def gate_survivors_def gate_antiRep_def gate_afterPrereq_def
        intro: subseq_filter_left)
qed

lemma gate_pool_antirep:
  assumes "\<exists>c \<in> set (gate_afterPrereq env inp). c \<notin> gate_recentSet inp"
    and "c \<in> set (gate_pool env inp)"
  shows "c \<notin> gate_recentSet inp \<or> c \<in> alertConceptSet (giAlerts inp) AlertForgetting \<or> giActiveMisconceptions inp c"
proof -
  from assms(1) have "gate_antiRep inp (gate_afterPrereq env inp) \<noteq> []"
    by (auto simp: gate_antiRep_def filter_empty_conv)
  with assms(2) show ?thesis
    by (auto simp: gate_pool_def gate_survivors_def gate_antiRep_def split: if_splits)
qed

lemma criticalSet_forgetting: "gate_criticalSet inp \<subseteq> alertConceptSet (giAlerts inp) AlertForgetting"
  by (auto simp: gate_criticalSet_def alertConceptSet_def)

lemma gate_pool_critical:
  assumes "c \<in> set (gate_afterPrereq env inp)" and "c \<in> gate_criticalSet inp"
  shows "set (gate_pool env inp) = set (gate_afterPrereq env inp) \<inter> gate_criticalSet inp"
proof -
  have kept: "c' \<in> set (gate_antiRep inp (gate_afterPrereq env inp))"
    if "c' \<in> set (gate_afterPrereq env inp)" "c' \<in> gate_criticalSet inp" for c'
    using that criticalSet_forgetting[of inp] by (auto simp: gate_antiRep_def)
  then have "gate_antiRep inp (gate_afterPrereq env inp) \<noteq> []" using assms by force
  then have sv: "gate_survivors env inp = gate_antiRep inp (gate_afterPrereq env inp)"
    by (simp add: gate_survivors_def)
  then have "filter (\<lambda>c. c \<in> gate_criticalSet inp) (gate_survivors env inp) \<noteq> []"
    using kept[OF assms] assms(2) by (auto simp: filter_empty_conv)
  then show ?thesis using kept by (auto simp: gate_pool_def sv) (auto simp: gate_antiRep_def)
qed

section \<open>Properties\<close>

text \<open>C25. The gate always answers: it fails exactly on an unrecognised phase, and otherwise returns a
  result in exactly one of its three modes (so \<open>Validate\<close> accepts it). The escape mode is taken
  exactly on an OVERLOAD alert, with CLOSE_SESSION and nothing allowed, and NoCandidate exactly when
  no candidate has its prerequisites satisfied: the anti-repetition and priority rules never empty
  the pool.\<close>

theorem ApplyGate_modes:
  "(if \<not> known_phase (giPhase inp) then ApplyGate env inp = Inl (ErrGateUnknownPhase (string_of_phase (giPhase inp)))
    else \<exists>r. ApplyGate env inp = Inr r \<and> GateResult_Validate r = None \<and>
      (gEscapeAction r \<noteq> None) = gate_overload inp \<and>
      (\<forall>a. gEscapeAction r = Some a \<longrightarrow> eaType a = ActivityCloseSession) \<and>
      gNoCandidate r = (\<not> gate_overload inp \<and> (\<forall>c \<in> set (giConcepts inp). \<not> gate_prereqOK env inp c)))"
proof (cases "known_phase (giPhase inp)")
  case known: True
  show ?thesis
  proof (cases "gate_overload inp")
    case True
    from ApplyGate_overload[OF known True, of env] known True show ?thesis
      by (auto simp: GateResult_Validate_def gate_modes_def)
  next
    case False
    then obtain r where r: "ApplyGate env inp = Inr r" "gEscapeAction r = None"
      "gAllowedConcepts r = gate_pool env inp" "gNoCandidate r = (gate_afterPrereq env inp = [])"
      using ApplyGate_pool[OF known False, of env] by blast
    have e: "(gate_afterPrereq env inp = []) = (\<forall>c \<in> set (giConcepts inp). \<not> gate_prereqOK env inp c)"
      by (simp add: gate_afterPrereq_def filter_empty_conv)
    have "GateResult_Validate r = None"
      using r pool_empty_iff[of env inp] by (auto simp: GateResult_Validate_def gate_modes_def)
    with known False r e show ?thesis by auto
  qed
qed (simp add: ApplyGate_unknown)

theorem ApplyGate_modes_witness:
  "\<exists>r. ApplyGate '''' \<lparr>giPhase = PhaseInstruction, giConcepts = [''a'', ''b''], giStates = Map.empty,
      giGraph = \<lparr>ksConcepts = [''a'', ''b''], ksPrerequisites = [''a'' \<mapsto> [''b''], ''b'' \<mapsto> [''a'']]\<rparr>,
      giActiveMisconceptions = (\<lambda>_. False), giRecentConcepts = [''a''], giAlerts = [],
      giAntiRepeatWindow = 3\<rparr> = Inr r \<and> GateResult_Validate r = None \<and> gNoCandidate r"
proof -
  define inp :: GateInput where "inp = \<lparr>giPhase = PhaseInstruction, giConcepts = [''a'', ''b''],
      giStates = Map.empty,
      giGraph = \<lparr>ksConcepts = [''a'', ''b''], ksPrerequisites = [''a'' \<mapsto> [''b''], ''b'' \<mapsto> [''a'']]\<rparr>,
      giActiveMisconceptions = (\<lambda>_. False), giRecentConcepts = [''a''], giAlerts = [],
      giAntiRepeatWindow = 3\<rparr>"
  have "known_phase (giPhase inp)" "\<not> gate_overload inp"
    "\<forall>c \<in> set (giConcepts inp). \<not> gate_prereqOK '''' inp c"
    by (simp_all add: inp_def known_phase_def gate_overload_def gate_prereqOK_def prereqsSatisfied_def map_list_def)
  with ApplyGate_modes[where inp = inp and env = "''''"] show ?thesis by (auto simp: inp_def)
qed

text \<open>C26. What the gate lets through is a sub-sequence of the candidates, in the same order. Outside
  DIAGNOSTIC every allowed concept has each of its prerequisites practised and estimated at or above
  the prerequisite threshold, misconception or not; a concept is locked to DEBUG_MISCONCEPTION
  exactly when it is allowed and has an active misconception; when one eligible concept is not
  recent, recent concepts come back only for forgetting or a misconception; and when an eligible
  concept has a critical forgetting alert, exactly the eligible critical ones are allowed.\<close>

theorem ApplyGate_allowed_sound:
  assumes "ApplyGate env inp = Inr r" and "gEscapeAction r = None"
  shows "subseq (gAllowedConcepts r) (giConcepts inp) \<and>
    (giPhase inp \<noteq> PhaseDiagnostic \<longrightarrow> (\<forall>c \<in> set (gAllowedConcepts r).
       \<forall>p \<in> set (map_list (ksPrerequisites (giGraph inp)) c).
         \<exists>cs. giStates inp p = Some cs \<and> MasteryKST env \<le> csPMastery cs)) \<and>
    (\<forall>c. gActionRestriction r c =
       (if c \<in> set (gAllowedConcepts r) \<and> giActiveMisconceptions inp c
        then Some [ActivityDebugMisconception] else None)) \<and>
    ((\<exists>c \<in> set (gate_afterPrereq env inp). c \<notin> gate_recentSet inp) \<longrightarrow>
       (\<forall>c \<in> set (gAllowedConcepts r) \<inter> gate_recentSet inp.
          c \<in> alertConceptSet (giAlerts inp) AlertForgetting \<or> giActiveMisconceptions inp c)) \<and>
    (set (gate_afterPrereq env inp) \<inter> gate_criticalSet inp \<noteq> {} \<longrightarrow>
       set (gAllowedConcepts r) = set (gate_afterPrereq env inp) \<inter> gate_criticalSet inp)"
proof -
  have known: "known_phase (giPhase inp)" using assms(1) ApplyGate_unknown[of inp env] by fastforce
  have no: "\<not> gate_overload inp" using assms ApplyGate_overload[OF known, of env] by fastforce
  have al: "gAllowedConcepts r = gate_pool env inp"
    and re: "gActionRestriction r = gate_restrictions inp (gate_pool env inp)"
    using assms(1) ApplyGate_pool[OF known no, of env] by auto
  have nn: "MasteryKST env \<noteq> NaN" using MasteryKST_values[of env] by auto
  have pre: "\<forall>p \<in> set (map_list (ksPrerequisites (giGraph inp)) c).
      \<exists>cs. giStates inp p = Some cs \<and> MasteryKST env \<le> csPMastery cs"
    if "giPhase inp \<noteq> PhaseDiagnostic" "c \<in> set (gate_pool env inp)" for c
    using that gate_pool_subset[of env inp]
    by (auto simp: gate_afterPrereq_def gate_prereqOK_def prereqsSatisfied_iff[OF nn])
  show ?thesis
    unfolding al re
    using gate_pool_subseq[of env inp] pre gate_restrictions_lookup[of inp "gate_pool env inp"]
      gate_pool_antirep[of env inp] gate_pool_critical[of _ env inp]
    by blast
qed

theorem ApplyGate_allowed_sound_witness:
  "\<exists>r. ApplyGate '''' \<lparr>giPhase = PhaseInstruction, giConcepts = [''a'', ''b''], giStates = Map.empty,
      giGraph = \<lparr>ksConcepts = [''a'', ''b''], ksPrerequisites = [''b'' \<mapsto> [''a'']]\<rparr>,
      giActiveMisconceptions = (\<lambda>_. True), giRecentConcepts = [], giAlerts = [],
      giAntiRepeatWindow = 3\<rparr> = Inr r \<and> subseq (gAllowedConcepts r) [''a'', ''b''] \<and>
      ''b'' \<notin> set (gAllowedConcepts r)"
proof -
  define inp :: GateInput where "inp = \<lparr>giPhase = PhaseInstruction, giConcepts = [''a'', ''b''],
      giStates = Map.empty, giGraph = \<lparr>ksConcepts = [''a'', ''b''], ksPrerequisites = [''b'' \<mapsto> [''a'']]\<rparr>,
      giActiveMisconceptions = (\<lambda>_. True), giRecentConcepts = [], giAlerts = [],
      giAntiRepeatWindow = 3\<rparr>"
  have k: "known_phase (giPhase inp)" "\<not> gate_overload inp"
    by (simp_all add: inp_def known_phase_def gate_overload_def)
  obtain r where r: "ApplyGate '''' inp = Inr r" "gEscapeAction r = None"
    using ApplyGate_pool[OF k, of "''''"] by blast
  note s = ApplyGate_allowed_sound[OF r]
  have "''b'' \<notin> set (gAllowedConcepts r)"
  proof
    assume "''b'' \<in> set (gAllowedConcepts r)"
    with s have "\<forall>p \<in> set (map_list (ksPrerequisites (giGraph inp)) ''b'').
        \<exists>cs. giStates inp p = Some cs \<and> MasteryKST '''' \<le> csPMastery cs"
      by (auto simp: inp_def)
    then show False by (simp add: inp_def map_list_def)
  qed
  with r(1) s show ?thesis by (auto simp: inp_def)
qed

end
