(* ===== verification/Concept_Selector.thy ===== *)
theory Concept_Selector
  imports Gate
begin

text \<open>
  The concept selector, \<open>engine/concept_selector.go\<close>: the INSTRUCTION fringe, the MAINTENANCE and
  DIAGNOSTIC pools and the review ranking, each a strict-maximum scan over a list sorted by concept
  name (\<open>sort.Slice\<close> is taken stable). A Go string variable that starts empty and holds the best
  concept so far is the option of \<open>best_loop\<close>, with \<open>''\<close> for \<open>None\<close>.

  The locale \<open>argmax_selector\<close> states what the pipeline relies on (the chosen concept is a member
  of the eligible pool of maximal score, and NoFringe means an empty pool); it is interpreted on
  each of the selectors.
\<close>

section \<open>Data\<close>

datatype selector_error = ErrUnknownPhase string

record Selection =
  sConcept :: string
  sScore :: f64
  sNoFringe :: bool
  sPhase :: Phase
  sRationale :: message

record SelectionContext =
  scMaintenanceMasteryFloor :: f64
  scDiagnosedConcepts :: "string \<Rightarrow> bool"

definition maintenanceFloor :: "SelectionContext \<Rightarrow> f64" where
  "maintenanceFloor c =
     (if scMaintenanceMasteryFloor c > 0 then scMaintenanceMasteryFloor c else MasteryBKT)"

record fringeItem =
  fiConcept :: string
  fiMastery :: f64

section \<open>Operations\<close>

fun fringe_prereqs :: "(string \<rightharpoonup> ConceptState) \<Rightarrow> f64 \<Rightarrow> string list \<Rightarrow> bool" where
  "fringe_prereqs stateByConcept kstThreshold [] = True"
| "fringe_prereqs stateByConcept kstThreshold (prereq # rest) =
     (case stateByConcept prereq of
        Some cs \<Rightarrow>
          if isNaN (csPMastery cs) then False
          else if csPMastery cs < kstThreshold then False
          else fringe_prereqs stateByConcept kstThreshold rest
      | None \<Rightarrow>
          if 0.0 < kstThreshold then False
          else fringe_prereqs stateByConcept kstThreshold rest)"

fun fringe_loop ::
    "(string \<rightharpoonup> ConceptState) \<Rightarrow> f64 \<Rightarrow> f64 \<Rightarrow> (string \<rightharpoonup> string list) \<Rightarrow> string list \<Rightarrow> fringeItem list" where
  "fringe_loop stateByConcept bktThreshold kstThreshold prereqs [] = []"
| "fringe_loop stateByConcept bktThreshold kstThreshold prereqs (concept # rest) =
     (let continue = fringe_loop stateByConcept bktThreshold kstThreshold prereqs rest;
          mastery = (case stateByConcept concept of Some cs \<Rightarrow> csPMastery cs | None \<Rightarrow> 0.0)
      in if stateByConcept concept \<noteq> None \<and> isNaN mastery then continue
         else if mastery \<ge> bktThreshold then continue
         else if \<not> fringe_prereqs stateByConcept kstThreshold (map_list prereqs concept) then continue
         else \<lparr>fiConcept = concept, fiMastery = mastery\<rparr> # continue)"

definition externalFringe :: "string \<Rightarrow> ConceptState option list \<Rightarrow> KnowledgeSpace \<Rightarrow> fringeItem list" where
  "externalFringe env states graph =
     sort_key fiConcept
       (fringe_loop (index_by csConcept (somes states)) MasteryBKT (MasteryKST env)
         (ksPrerequisites graph) (ksConcepts graph))"

definition resolveRelevance :: "(string \<rightharpoonup> f64) option \<Rightarrow> string \<Rightarrow> f64 \<times> bool" where
  "resolveRelevance gr concept =
     (case gr of
        None \<Rightarrow> (1.0, True)
      | Some m \<Rightarrow> (case m concept of None \<Rightarrow> (0, False) | Some v \<Rightarrow> (v, True)))"

definition instruction_score :: "(string \<rightharpoonup> f64) option \<Rightarrow> fringeItem \<Rightarrow> f64" where
  "instruction_score gr item = fst (resolveRelevance gr (fiConcept item)) * (1 - fiMastery item)"

definition no_fringe :: "Phase \<Rightarrow> string \<Rightarrow> Selection" where
  "no_fringe phase rationale =
     \<lparr>sConcept = '''', sScore = 0, sNoFringe = True, sPhase = phase, sRationale = [S rationale]\<rparr>"

definition selectInstruction ::
    "string \<Rightarrow> ConceptState option list \<Rightarrow> KnowledgeSpace \<Rightarrow> (string \<rightharpoonup> f64) option \<Rightarrow> Selection" where
  "selectInstruction env states graph goalRelevance =
     (let fringe = externalFringe env states graph in
      if length fringe = 0
      then no_fringe PhaseInstruction
        ''outer fringe empty: every estimate is above threshold or prerequisites are missing''
      else
        let eligible = filter (\<lambda>item. snd (resolveRelevance goalRelevance (fiConcept item))) fringe;
            (best, bestScore) = best_loop (instruction_score goalRelevance) eligible (None, NInf);
            bestRel = (case best of Some item \<Rightarrow> fst (resolveRelevance goalRelevance (fiConcept item)) | None \<Rightarrow> 0.0);
            bestMastery = (case best of Some item \<Rightarrow> fiMastery item | None \<Rightarrow> 0.0)
        in if length eligible = 0
           then no_fringe PhaseInstruction
             ''fringe non-empty but no concept covered by goal_relevance - call set_goal_relevance''
           else
             \<lparr>sConcept = (case best of Some item \<Rightarrow> fiConcept item | None \<Rightarrow> ''''),
              sScore = bestScore, sNoFringe = False, sPhase = PhaseInstruction,
              sRationale = [S ''argmax(rel='', F 2 bestRel, S '' x (1-model estimate)='',
                F 2 (1 - bestMastery), S '') across '', D (int (length eligible)),
                S '' eligible candidates'']\<rparr>)"

text \<open>An empty graph means that no domain filter applies.\<close>

definition in_domain :: "KnowledgeSpace \<Rightarrow> ConceptState \<Rightarrow> bool" where
  "in_domain graph cs \<longleftrightarrow> length (ksConcepts graph) > 0 \<longrightarrow> csConcept cs \<in> set (ksConcepts graph)"

definition maintenance_urgency :: "time \<Rightarrow> ConceptState \<Rightarrow> f64" where
  "maintenance_urgency now cs =
     (if csCardState cs = New then 0
      else 1 - CurrentRetrievability now (csLastReview cs) (csStability cs))"

definition maintenance_score :: "time \<Rightarrow> (string \<rightharpoonup> f64) option \<Rightarrow> ConceptState \<Rightarrow> f64" where
  "maintenance_score now gr cs = maintenance_urgency now cs * fst (resolveRelevance gr (csConcept cs))"

definition maintenance_pool :: "ConceptState option list \<Rightarrow> KnowledgeSpace \<Rightarrow> f64 \<Rightarrow> ConceptState list" where
  "maintenance_pool states graph masteryFloor =
     filter (\<lambda>cs. \<not> isNaN (csPMastery cs) \<and> \<not> csPMastery cs < masteryFloor \<and> in_domain graph cs) (somes states)"

definition selectMaintenance ::
    "ConceptState option list \<Rightarrow> KnowledgeSpace \<Rightarrow> (string \<rightharpoonup> f64) option \<Rightarrow> time \<Rightarrow> f64 \<Rightarrow> Selection" where
  "selectMaintenance states graph goalRelevance now masteryFloor =
     (let highEstimate = maintenance_pool states graph masteryFloor in
      if length highEstimate = 0
      then no_fringe PhaseMaintenance
        ''no concept estimate above routing threshold: MAINTENANCE not applicable''
      else
        let eligible = filter (\<lambda>cs. snd (resolveRelevance goalRelevance (csConcept cs)))
                         (sort_key csConcept highEstimate);
            (best, bestScore) = best_loop (maintenance_score now goalRelevance) eligible (None, NInf);
            bestUrgency = (case best of Some cs \<Rightarrow> maintenance_urgency now cs | None \<Rightarrow> 0.0);
            bestRel = (case best of Some cs \<Rightarrow> fst (resolveRelevance goalRelevance (csConcept cs)) | None \<Rightarrow> 0.0)
        in if length eligible = 0
           then no_fringe PhaseMaintenance
             ''high-estimate concepts exist but none are covered by goal_relevance - call set_goal_relevance''
           else
             \<lparr>sConcept = (case best of Some cs \<Rightarrow> csConcept cs | None \<Rightarrow> ''''),
              sScore = bestScore, sNoFringe = False, sPhase = PhaseMaintenance,
              sRationale = [S ''argmax((1-retention)='', F 2 bestUrgency, S '' x rel='', F 2 bestRel,
                S '') sur '', D (int (length eligible)), S '' candidats'']\<rparr>)"

definition diagnostic_pool :: "ConceptState option list \<Rightarrow> KnowledgeSpace \<Rightarrow> ConceptState list" where
  "diagnostic_pool states graph =
     filter (\<lambda>cs. \<not> isNaN (csPMastery cs) \<and> \<not> (csPMastery cs \<le> 0.05 \<or> csPMastery cs \<ge> 0.95)
                   \<and> in_domain graph cs) (somes states)"

definition diagnostic_score :: "ConceptState \<Rightarrow> f64" where
  "diagnostic_score cs = info_gain (Some cs)"

definition selectDiagnostic ::
    "ConceptState option list \<Rightarrow> KnowledgeSpace \<Rightarrow> (string \<Rightarrow> bool) \<Rightarrow> Selection" where
  "selectDiagnostic states graph diagnosed =
     (let candidates = diagnostic_pool states graph in
      if length candidates = 0
      then no_fringe PhaseDiagnostic ''tous concepts satures : aucune observation informative''
      else
        let candidates = sort_key csConcept candidates;
            untested = filter (\<lambda>cs. \<not> diagnosed (csConcept cs)) candidates;
            (best, bestScore) = best_loop diagnostic_score untested (None, NInf);
            bestConcept = (case best of Some cs \<Rightarrow> csConcept cs | None \<Rightarrow> '''')
        in if bestConcept \<noteq> '''' then
             \<lparr>sConcept = bestConcept, sScore = bestScore, sNoFringe = False, sPhase = PhaseDiagnostic,
              sRationale = [S ''max info-gain='', F 3 bestScore, S '' sur '', D (int (length untested)),
                S '' candidats non encore diagnostiques ('', D (int (length candidates)), S '' non satures)'']\<rparr>
           else
             let (best, bestScore) = best_loop diagnostic_score candidates (best, bestScore) in
             \<lparr>sConcept = (case best of Some cs \<Rightarrow> csConcept cs | None \<Rightarrow> ''''),
              sScore = bestScore, sNoFringe = False, sPhase = PhaseDiagnostic,
              sRationale = [S ''max info-gain='', F 3 bestScore, S '' sur '', D (int (length candidates)),
                S '' candidats non satures (tous deja diagnostiques)'']\<rparr>)"

fun SelectConceptAtWithContext ::
    "string \<Rightarrow> Phase \<Rightarrow> ConceptState option list \<Rightarrow> KnowledgeSpace \<Rightarrow> (string \<rightharpoonup> f64) option \<Rightarrow> time
     \<Rightarrow> SelectionContext \<Rightarrow> selector_error + Selection" where
  "SelectConceptAtWithContext env PhaseInstruction states graph gr now sctx =
     Inr (selectInstruction env states graph gr)"
| "SelectConceptAtWithContext env PhaseMaintenance states graph gr now sctx =
     Inr (selectMaintenance states graph gr now (maintenanceFloor sctx))"
| "SelectConceptAtWithContext env PhaseDiagnostic states graph gr now sctx =
     Inr (selectDiagnostic states graph (scDiagnosedConcepts sctx))"
| "SelectConceptAtWithContext env (PhaseOther s) states graph gr now sctx = Inl (ErrUnknownPhase s)"

definition SelectConceptAt ::
    "string \<Rightarrow> Phase \<Rightarrow> ConceptState option list \<Rightarrow> KnowledgeSpace \<Rightarrow> (string \<rightharpoonup> f64) option \<Rightarrow> time
     \<Rightarrow> selector_error + Selection" where
  "SelectConceptAt env phase states graph gr now =
     SelectConceptAtWithContext env phase states graph gr now
       \<lparr>scMaintenanceMasteryFloor = 0, scDiagnosedConcepts = (\<lambda>_. False)\<rparr>"

definition reviewableConcept :: "ConceptState option \<Rightarrow> int \<Rightarrow> bool" where
  "reviewableConcept cs interactionCount =
     (if interactionCount > 0 then True
      else case cs of None \<Rightarrow> False | Some c \<Rightarrow> csReps c > 0 \<or> csCardState c \<noteq> New)"

definition reviewRetentionAt :: "ConceptState option \<Rightarrow> time \<Rightarrow> f64" where
  "reviewRetentionAt cs now =
     (case cs of
        None \<Rightarrow> 0.70
      | Some c \<Rightarrow> if csCardState c = New then 0.70
                  else CurrentRetrievability now (csLastReview c) (csStability c))"

definition interaction_count :: "Interaction option list \<Rightarrow> string \<Rightarrow> int" where
  "interaction_count interactions concept =
     int (length (filter (\<lambda>i. inConcept i = concept) (somes interactions)))"

definition review_score ::
    "(string \<rightharpoonup> ConceptState) \<Rightarrow> Interaction option list \<Rightarrow> (string \<Rightarrow> bool) \<Rightarrow> time \<Rightarrow> string \<Rightarrow> f64" where
  "review_score states interactions activeMisc now concept =
     (let score = 1 - reviewRetentionAt (states concept) now;
          score = (if activeMisc concept then score + 2 else score);
          score = (case states concept of
                     Some cs \<Rightarrow> if csPMastery cs < MasteryBKT then score + 0.15 else score
                   | None \<Rightarrow> score)
      in if interaction_count interactions concept > 0 then score + 0.05 else score)"

definition SelectReviewConceptAt ::
    "string list \<Rightarrow> (string \<rightharpoonup> ConceptState) \<Rightarrow> Interaction option list \<Rightarrow> (string \<Rightarrow> bool) \<Rightarrow> time \<Rightarrow> Selection" where
  "SelectReviewConceptAt allowed states interactions activeMisc now =
     (case best_loop (review_score states interactions activeMisc now)
             (filter (\<lambda>c. reviewableConcept (states c) (interaction_count interactions c)) allowed)
             (None, - 1.0) of
        (None, _) \<Rightarrow> \<lparr>sConcept = '''', sScore = 0, sNoFringe = True, sPhase = PhaseMaintenance, sRationale = []\<rparr>
      | (Some concept, score) \<Rightarrow>
          \<lparr>sConcept = concept, sScore = score, sNoFringe = False, sPhase = PhaseMaintenance,
           sRationale = [S ''[intent=review] selected prior concept '', Q concept, S '' with retention '',
             F 2 (reviewRetentionAt (states concept) now)]\<rparr>)"

definition RecallEligible :: "ConceptState option \<Rightarrow> bool" where
  "RecallEligible cs =
     (case cs of
        None \<Rightarrow> False
      | Some c \<Rightarrow>
          (case csLastReview c of
             None \<Rightarrow> False
           | Some t \<Rightarrow> \<not> isZero t \<and> csCardState c \<in> {Review, Relearning}))"

section \<open>The selector contract\<close>

locale argmax_selector =
  fixes ok :: "'i \<Rightarrow> bool"
    and pool :: "'i \<Rightarrow> 'a list"
    and score :: "'i \<Rightarrow> 'a \<Rightarrow> f64"
    and nm :: "'a \<Rightarrow> string"
    and base :: f64
    and sel :: "'i \<Rightarrow> Selection"
  assumes score_above: "ok i \<Longrightarrow> x \<in> set (pool i) \<Longrightarrow> base < score i x"
    and sel_empty: "ok i \<Longrightarrow> pool i = [] \<Longrightarrow> sNoFringe (sel i)"
    and sel_best: "ok i \<Longrightarrow> best_loop (score i) (pool i) (None, base) = (Some x, s) \<Longrightarrow>
      sConcept (sel i) = nm x \<and> sScore (sel i) = s \<and> \<not> sNoFringe (sel i)"
begin

lemma chosen:
  assumes "ok i" and "pool i \<noteq> []"
  shows "\<exists>x. first_max (score i) (pool i) x \<and> sConcept (sel i) = nm x \<and> sScore (sel i) = score i x \<and>
    \<not> sNoFringe (sel i)"
proof -
  obtain r s where b: "best_loop (score i) (pool i) (None, base) = (r, s)" by fastforce
  from best_loop_first_max[OF b assms(2)] score_above[OF assms(1)]
  obtain x where x: "r = Some x" "s = score i x" "first_max (score i) (pool i) x" by blast
  with sel_best[OF assms(1)] b show ?thesis by blast
qed

lemma no_fringe_iff: "ok i \<Longrightarrow> sNoFringe (sel i) \<longleftrightarrow> pool i = []"
  using chosen sel_empty by blast

lemma chosen_in_pool: "ok i \<Longrightarrow> \<not> sNoFringe (sel i) \<Longrightarrow> sConcept (sel i) \<in> nm ` set (pool i)"
proof -
  assume a: "ok i" "\<not> sNoFringe (sel i)"
  then have "pool i \<noteq> []" using sel_empty by blast
  with chosen[OF a(1)] obtain x where "first_max (score i) (pool i) x" "sConcept (sel i) = nm x" by blast
  then show "sConcept (sel i) \<in> nm ` set (pool i)" using first_max_in by fastforce
qed

lemma score_maximal:
  assumes "ok i" and "y \<in> set (pool i)"
  shows "score i y \<le> sScore (sel i)"
proof -
  from assms(2) have "pool i \<noteq> []" by auto
  with chosen[OF assms(1)] obtain x where x: "first_max (score i) (pool i) x" "sScore (sel i) = score i x" by blast
  have "score i y \<noteq> NaN" using score_above[OF assms] by auto
  with first_max_ge[OF x(1) assms(2)] x(2) show ?thesis by simp
qed

end

locale sorted_selector = argmax_selector +
  assumes pool_sorted: "ok i \<Longrightarrow> sorted (map nm (pool i))"
begin

lemma tie_break:
  assumes "ok i" and "y \<in> set (pool i)" and "score i y = sScore (sel i)"
  shows "sConcept (sel i) \<le> nm y"
proof -
  from assms(2) have "pool i \<noteq> []" by auto
  with chosen[OF assms(1)] obtain x where
    x: "first_max (score i) (pool i) x" "sConcept (sel i) = nm x" "sScore (sel i) = score i x" by blast
  show ?thesis using first_max_least_key[OF x(1) pool_sorted[OF assms(1)] assms(2)] assms(3) x by simp
qed

end

subsection \<open>Instruction\<close>

type_synonym instruction_input = "string \<times> ConceptState option list \<times> KnowledgeSpace \<times> (string \<rightharpoonup> f64) option"

definition finite_relevance :: "(string \<rightharpoonup> f64) option \<Rightarrow> bool" where
  "finite_relevance gr \<longleftrightarrow> (\<forall>m \<in> set_option gr. \<forall>v \<in> ran m. is_fin v)"

definition plain_estimates :: "ConceptState option list \<Rightarrow> bool" where
  "plain_estimates states \<longleftrightarrow> (\<forall>cs. Some cs \<in> set states \<longrightarrow> \<not> isInf (csPMastery cs))"

fun instruction_ok :: "instruction_input \<Rightarrow> bool" where
  "instruction_ok (env, states, graph, gr) \<longleftrightarrow> finite_relevance gr \<and> plain_estimates states"

fun instruction_eligible :: "instruction_input \<Rightarrow> fringeItem list" where
  "instruction_eligible (env, states, graph, gr) =
     filter (\<lambda>item. snd (resolveRelevance gr (fiConcept item))) (externalFringe env states graph)"

lemma resolveRelevance_fin:
  "finite_relevance gr \<Longrightarrow> is_fin (fst (resolveRelevance gr c))"
  by (auto simp: finite_relevance_def resolveRelevance_def ran_def split: option.splits)

lemma fin_above_NInf: "is_fin x \<Longrightarrow> NInf < x"
  by (auto simp: is_fin_iff)

lemma fringe_loop_mem:
  "item \<in> set (fringe_loop st b k pre cs) \<longleftrightarrow>
     fiConcept item \<in> set cs \<and>
     item = \<lparr>fiConcept = fiConcept item,
       fiMastery = (case st (fiConcept item) of Some c \<Rightarrow> csPMastery c | None \<Rightarrow> 0.0)\<rparr> \<and>
     \<not> (st (fiConcept item) \<noteq> None \<and> fiMastery item = NaN) \<and> \<not> b \<le> fiMastery item \<and>
     fringe_prereqs st k (map_list pre (fiConcept item))"
proof (induction cs)
  case Nil
  then show ?case by simp
next
  case (Cons c cs)
  then show ?case by (cases item) (auto simp: Let_def split: option.splits)
qed

lemma externalFringe_fin:
  assumes "plain_estimates states" and "item \<in> set (externalFringe env states graph)"
  shows "is_fin (fiMastery item)"
proof -
  let ?st = "index_by csConcept (somes states)"
  from assms(2) have "item \<in> set (fringe_loop ?st MasteryBKT (MasteryKST env) (ksPrerequisites graph) (ksConcepts graph))"
    by (simp add: externalFringe_def)
  then have m: "fiMastery item = (case ?st (fiConcept item) of Some c \<Rightarrow> csPMastery c | None \<Rightarrow> 0.0)"
    "?st (fiConcept item) \<noteq> None \<longrightarrow> fiMastery item \<noteq> NaN"
    by (auto simp: fringe_loop_mem dest: arg_cong[of _ _ fiMastery])
  show ?thesis
  proof (cases "?st (fiConcept item)")
    case (Some c)
    then have "Some c \<in> set states" by (auto dest!: index_by_SomeD simp: set_somes)
    with assms(1) Some m show ?thesis by (auto simp: plain_estimates_def is_fin_not_special)
  qed (use m in simp)
qed

lemma sorted_filter_key: "sorted (map f xs) \<Longrightarrow> sorted (map f (filter P xs))"
  by (rule sorted_filter)

fun select_instruction_of :: "instruction_input \<Rightarrow> Selection" where
  "select_instruction_of (env, states, graph, gr) = selectInstruction env states graph gr"

interpretation instruction: sorted_selector instruction_ok instruction_eligible
  "\<lambda>(env, states, graph, gr). instruction_score gr" fiConcept NInf select_instruction_of
proof (unfold_locales, goal_cases)
  case (1 i x)
  then show ?case
    by (cases i) (auto simp: instruction_score_def is_fin_iff
        dest!: externalFringe_fin resolveRelevance_fin[of _ "fiConcept x"])
next
  case (2 i)
  then show ?case by (cases i) (auto simp: selectInstruction_def no_fringe_def Let_def split: prod.splits)
next
  case (3 i x s)
  then show ?case by (cases i) (auto simp: selectInstruction_def Let_def split: prod.splits)
next
  case (4 i)
  then show ?case by (cases i) (auto simp: externalFringe_def intro!: sorted_filter_key)
qed

subsection \<open>Maintenance\<close>

type_synonym maintenance_input =
  "ConceptState option list \<times> KnowledgeSpace \<times> (string \<rightharpoonup> f64) option \<times> time \<times> f64"

fun maintenance_ok :: "maintenance_input \<Rightarrow> bool" where
  "maintenance_ok (states, graph, gr, now, fl) \<longleftrightarrow> finite_relevance gr"

fun maintenance_eligible :: "maintenance_input \<Rightarrow> ConceptState list" where
  "maintenance_eligible (states, graph, gr, now, fl) =
     filter (\<lambda>cs. snd (resolveRelevance gr (csConcept cs))) (sort_key csConcept (maintenance_pool states graph fl))"

fun select_maintenance_of :: "maintenance_input \<Rightarrow> Selection" where
  "select_maintenance_of (states, graph, gr, now, fl) = selectMaintenance states graph gr now fl"

lemma CurrentRetrievability_unit: "unit_f64 (CurrentRetrievability now lr s)"
  by (simp add: CurrentRetrievability_def Retrievability_unit)

lemma maintenance_urgency_unit: "unit_f64 (maintenance_urgency now cs)"
  using CurrentRetrievability_unit[of now "csLastReview cs" "csStability cs"]
  by (auto simp: maintenance_urgency_def elim!: unit_f64E)

interpretation maintenance: sorted_selector maintenance_ok maintenance_eligible
  "\<lambda>(states, graph, gr, now, fl). maintenance_score now gr" csConcept NInf select_maintenance_of
proof (unfold_locales, goal_cases)
  case (1 i x)
  obtain states graph gr now fl where i: "i = (states, graph, gr, now, fl)" by (cases i)
  obtain u where "maintenance_urgency now x = Fin u" using maintenance_urgency_unit by (rule unit_f64E)
  moreover obtain r where "fst (resolveRelevance gr (csConcept x)) = Fin r"
    using 1 resolveRelevance_fin[of gr "csConcept x"] by (auto simp: i is_fin_iff)
  ultimately show ?case by (simp add: i maintenance_score_def)
next
  case (2 i)
  then show ?case by (cases i) (auto simp: selectMaintenance_def no_fringe_def Let_def split: prod.splits)
next
  case (3 i x s)
  then show ?case by (cases i) (auto simp: selectMaintenance_def Let_def split: prod.splits)
next
  case (4 i)
  then show ?case by (cases i) (auto intro!: sorted_filter_key)
qed

subsection \<open>Diagnostic\<close>

type_synonym diagnostic_input = "ConceptState option list \<times> KnowledgeSpace \<times> (string \<Rightarrow> bool)"

text \<open>Named concepts with finite slip and guess, as every stored state has.\<close>

fun diagnostic_ok :: "diagnostic_input \<Rightarrow> bool" where
  "diagnostic_ok (states, graph, diagnosed) \<longleftrightarrow>
     (\<forall>cs. Some cs \<in> set states \<longrightarrow> csConcept cs \<noteq> '''' \<and> \<not> isInf (csPSlip cs) \<and> \<not> isInf (csPGuess cs))"

text \<open>The concepts not yet diagnosed, or all the candidates when every one has been.\<close>

fun diagnostic_eligible :: "diagnostic_input \<Rightarrow> ConceptState list" where
  "diagnostic_eligible (states, graph, diagnosed) =
     (let cand = sort_key csConcept (diagnostic_pool states graph);
          untested = filter (\<lambda>cs. \<not> diagnosed (csConcept cs)) cand
      in if untested = [] then cand else untested)"

fun select_diagnostic_of :: "diagnostic_input \<Rightarrow> Selection" where
  "select_diagnostic_of (states, graph, diagnosed) = selectDiagnostic states graph diagnosed"

lemma diagnostic_score_unit:
  "\<not> isInf (csPSlip cs) \<Longrightarrow> \<not> isInf (csPGuess cs) \<Longrightarrow> unit_f64 (diagnostic_score cs)"
  by (simp add: diagnostic_score_def info_gain_def BKTInfoGain_range)

lemma diagnostic_eligible_state:
  "x \<in> set (diagnostic_eligible (states, graph, d)) \<Longrightarrow> Some x \<in> set states"
  by (auto simp: Let_def diagnostic_pool_def set_somes split: if_splits)

lemma diagnostic_above:
  assumes "diagnostic_ok (states, graph, d)" and "x \<in> set (diagnostic_pool states graph)"
  shows "NInf < diagnostic_score x" "csConcept x \<noteq> ''''"
proof -
  have "Some x \<in> set states" using assms(2) by (simp add: diagnostic_pool_def set_somes)
  with assms(1) have "unit_f64 (diagnostic_score x)" "csConcept x \<noteq> ''''"
    by (auto intro: diagnostic_score_unit)
  then show "NInf < diagnostic_score x" "csConcept x \<noteq> ''''" by (auto elim: unit_f64E)
qed

lemma selectDiagnostic_best:
  assumes "diagnostic_ok (states, graph, d)"
    and "best_loop diagnostic_score (diagnostic_eligible (states, graph, d)) (None, NInf) = (Some x, s)"
  shows "sConcept (selectDiagnostic states graph d) = csConcept x \<and>
    sScore (selectDiagnostic states graph d) = s \<and> \<not> sNoFringe (selectDiagnostic states graph d)"
proof -
  let ?cand = "sort_key csConcept (diagnostic_pool states graph)"
  let ?un = "filter (\<lambda>cs. \<not> d (csConcept cs)) ?cand"
  have ne: "diagnostic_pool states graph \<noteq> []" using assms(2) by (cases "diagnostic_pool states graph") (auto simp: Let_def)
  show ?thesis
  proof (cases "?un = []")
    case True
    then have b: "best_loop diagnostic_score ?cand (None, NInf) = (Some x, s)" "best_loop diagnostic_score ?un (None, NInf) = (None, NInf)"
      using assms(2) by (simp_all add: Let_def)
    then show ?thesis using ne by (simp add: selectDiagnostic_def Let_def)
  next
    case False
    then have b: "best_loop diagnostic_score ?un (None, NInf) = (Some x, s)" using assms(2) by (simp add: Let_def)
    then have "x \<in> set ?un" using best_loop_in by fastforce
    then have "csConcept x \<noteq> ''''" using diagnostic_above(2)[OF assms(1)] by auto
    then show ?thesis using ne b by (simp add: selectDiagnostic_def Let_def)
  qed
qed

interpretation diagnostic: sorted_selector diagnostic_ok diagnostic_eligible
  "\<lambda>_. diagnostic_score" csConcept NInf select_diagnostic_of
proof (unfold_locales, goal_cases)
  case (1 i x)
  obtain states graph d where i: "i = (states, graph, d)" by (cases i)
  from 1 have "x \<in> set (diagnostic_pool states graph)" by (auto simp: i Let_def split: if_splits)
  with 1 diagnostic_above(1) show ?case by (auto simp: i)
next
  case (2 i)
  obtain states graph d where i: "i = (states, graph, d)" by (cases i)
  from 2 have "diagnostic_pool states graph = []"
    by (auto simp: i Let_def filter_empty_conv simp flip: set_empty split: if_splits)
  then show ?case by (simp add: i selectDiagnostic_def no_fringe_def)
next
  case (3 i x s)
  then show ?case using selectDiagnostic_best by (cases i) auto
next
  case (4 i)
  then show ?case by (cases i) (auto simp: Let_def intro!: sorted_filter_key)
qed

subsection \<open>Review\<close>

type_synonym review_input =
  "string list \<times> (string \<rightharpoonup> ConceptState) \<times> Interaction option list \<times> (string \<Rightarrow> bool) \<times> time"

fun review_eligible :: "review_input \<Rightarrow> string list" where
  "review_eligible (allowed, states, interactions, misc, now) =
     filter (\<lambda>c. reviewableConcept (states c) (interaction_count interactions c)) allowed"

fun select_review_of :: "review_input \<Rightarrow> Selection" where
  "select_review_of (allowed, states, interactions, misc, now) =
     SelectReviewConceptAt allowed states interactions misc now"

lemma reviewRetention_unit: "unit_f64 (reviewRetentionAt cs now)"
  by (auto simp: reviewRetentionAt_def CurrentRetrievability_unit split: option.split)

lemma review_score_nonneg: "Fin 0 \<le> review_score states is misc now c"
proof -
  obtain r where "reviewRetentionAt (states c) now = Fin r" "0 \<le> r" "r \<le> 1"
    using reviewRetention_unit by (rule unit_f64E)
  then show ?thesis by (auto simp: review_score_def Let_def split: option.split)
qed

interpretation review: argmax_selector "\<lambda>_. True" review_eligible
  "\<lambda>(allowed, states, interactions, misc, now). review_score states interactions misc now" "\<lambda>c. c" "- 1"
  select_review_of
proof (unfold_locales, goal_cases)
  case (1 i x)
  have "(- 1 :: f64) < Fin 0" by simp
  then show ?case using f64_less_le_trans review_score_nonneg by (cases i) fastforce
next
  case (2 i)
  then show ?case by (cases i) (simp add: SelectReviewConceptAt_def)
next
  case (3 i x s)
  then show ?case by (cases i) (simp add: SelectReviewConceptAt_def)
qed

section \<open>What the pools contain\<close>

lemma MasteryKST_bounds: "MasteryKST env = Fin (17/20) \<or> MasteryKST env = Fin (7/10)"
  using MasteryKST_values[of env] by simp

lemma fringe_prereqs_iff:
  "fringe_prereqs st (MasteryKST env) ps \<longleftrightarrow>
     (\<forall>p \<in> set ps. \<exists>cs. st p = Some cs \<and> MasteryKST env \<le> csPMastery cs)"
proof -
  have nn: "MasteryKST env \<noteq> NaN" and pos: "0.0 < MasteryKST env" using MasteryKST_bounds[of env] by auto
  show ?thesis
  proof (induction ps)
    case (Cons p ps)
    then show ?case
      using f64_below_iff[OF nn] pos by (cases "st p") (simp_all del: f64_const f64_numeral, blast)
  qed simp
qed

text \<open>The gate's prerequisite filter and the fringe's agree at the prerequisite threshold.\<close>

lemma fringe_prereqs_gate:
  "fringe_prereqs st (MasteryKST env) (map_list (ksPrerequisites graph) c) =
     prereqsSatisfied c graph st (MasteryKST env)"
proof -
  have "MasteryKST env \<noteq> NaN" using MasteryKST_bounds[of env] by auto
  then show ?thesis by (simp add: fringe_prereqs_iff prereqsSatisfied_iff)
qed

definition estimate :: "ConceptState option list \<Rightarrow> string \<Rightarrow> f64" where
  "estimate states c = (case index_by csConcept (somes states) c of Some cs \<Rightarrow> csPMastery cs | None \<Rightarrow> 0)"

definition learnable :: "string \<Rightarrow> ConceptState option list \<Rightarrow> KnowledgeSpace \<Rightarrow> string \<Rightarrow> bool" where
  "learnable env states graph c \<longleftrightarrow>
     c \<in> set (ksConcepts graph) \<and> estimate states c < MasteryBKT \<and>
     prereqsSatisfied c graph (index_by csConcept (somes states)) (MasteryKST env)"

lemma externalFringe_mem:
  "item \<in> set (externalFringe env states graph) \<longleftrightarrow>
     learnable env states graph (fiConcept item) \<and> fiMastery item = estimate states (fiConcept item)"
proof -
  have nn: "MasteryBKT \<noteq> NaN" by (simp add: MasteryBKT_def)
  have lt: "a \<noteq> NaN \<and> \<not> MasteryBKT \<le> a \<longleftrightarrow> a < MasteryBKT" for a
    using nn by (cases a) (auto simp: MasteryBKT_def)
  show ?thesis
    unfolding externalFringe_def set_sort fringe_loop_mem fringe_prereqs_gate learnable_def estimate_def
    by (cases item; cases "index_by csConcept (somes states) (fiConcept item)")
      (auto simp flip: lt)
qed

definition covered :: "(string \<rightharpoonup> f64) option \<Rightarrow> string \<Rightarrow> bool" where
  "covered gr c \<longleftrightarrow> (case gr of None \<Rightarrow> True | Some m \<Rightarrow> c \<in> dom m)"

lemma covered_resolve: "snd (resolveRelevance gr c) = covered gr c"
  by (auto simp: covered_def resolveRelevance_def split: option.splits)

section \<open>Properties\<close>

text \<open>C27. With finite relevance weights and finite mastery estimates, INSTRUCTION selection reports an
  empty fringe exactly when no concept is both learnable (in the graph, estimated below the mastery
  threshold, prerequisites at the prerequisite threshold) and covered by the relevance vector;
  otherwise it returns such a concept, its score is relevance times one minus the estimate and
  maximal among them, and ties go to the alphabetically first concept.\<close>

theorem selectInstruction_correct:
  assumes "finite_relevance gr" and "plain_estimates states"
  shows "let sel = selectInstruction env states graph gr;
             good = (\<lambda>c. learnable env states graph c \<and> covered gr c);
             score = (\<lambda>c. fst (resolveRelevance gr c) * (1 - estimate states c))
         in (sNoFringe sel \<longleftrightarrow> (\<forall>c. \<not> good c)) \<and>
            (\<not> sNoFringe sel \<longrightarrow> good (sConcept sel) \<and> sScore sel = score (sConcept sel) \<and>
               (\<forall>c. good c \<longrightarrow> score c \<le> sScore sel \<and> (score c = sScore sel \<longrightarrow> sConcept sel \<le> c)))"
proof -
  let ?i = "(env, states, graph, gr)" and ?sel = "selectInstruction env states graph gr"
  have ok: "instruction_ok ?i" using assms by simp
  have mem: "it \<in> set (instruction_eligible ?i) \<longleftrightarrow>
      learnable env states graph (fiConcept it) \<and> fiMastery it = estimate states (fiConcept it) \<and> covered gr (fiConcept it)"
    for it by (auto simp: externalFringe_mem covered_resolve)
  let ?item = "\<lambda>c. \<lparr>fiConcept = c, fiMastery = estimate states c\<rparr>"
  have good: "?item c \<in> set (instruction_eligible ?i)" if "learnable env states graph c \<and> covered gr c" for c
    using that by (simp only: mem) simp
  have nf: "sNoFringe ?sel \<longleftrightarrow> (\<forall>c. \<not> (learnable env states graph c \<and> covered gr c))"
  proof -
    have "instruction_eligible ?i = [] \<longleftrightarrow> (\<forall>c. \<not> (learnable env states graph c \<and> covered gr c))"
    proof (cases "instruction_eligible ?i")
      case Nil
      with good show ?thesis by (simp only: list.set) blast
    next
      case (Cons it rest)
      then have "it \<in> set (instruction_eligible ?i)" by simp
      with mem Cons show ?thesis by (simp only: list.distinct) blast
    qed
    with instruction.no_fringe_iff[OF ok] show ?thesis by simp
  qed
  have ch: "(learnable env states graph (sConcept ?sel) \<and> covered gr (sConcept ?sel)) \<and>
      sScore ?sel = fst (resolveRelevance gr (sConcept ?sel)) * (1 - estimate states (sConcept ?sel))"
    if "\<not> sNoFringe ?sel"
  proof -
    have "instruction_eligible ?i \<noteq> []" using that instruction.no_fringe_iff[OF ok] by simp
    from instruction.chosen[OF ok this] obtain it where
      it: "first_max (instruction_score gr) (instruction_eligible ?i) it" "sConcept ?sel = fiConcept it"
        "sScore ?sel = instruction_score gr it" by auto
    from first_max_in[OF it(1)] mem it(2,3) show ?thesis by (simp add: instruction_score_def)
  qed
  have mx: "fst (resolveRelevance gr c) * (1 - estimate states c) \<le> sScore ?sel \<and>
      (fst (resolveRelevance gr c) * (1 - estimate states c) = sScore ?sel \<longrightarrow> sConcept ?sel \<le> c)"
    if "learnable env states graph c \<and> covered gr c" for c
    using instruction.score_maximal[OF ok good[OF that]] instruction.tie_break[OF ok good[OF that]]
    by (simp add: instruction_score_def)
  show ?thesis unfolding Let_def using nf ch mx by blast
qed

text \<open>DIAGNOSTIC selection covers the curriculum, for states whose concepts have names and whose
  slip and guess parameters are not infinite (so that every information gain is a number): it reports
  no fringe exactly when every concept of the domain is saturated. Otherwise it selects among the
  unsaturated concepts that have not been diagnosed, and only when there is none of those among all
  unsaturated ones; its score is the information gain of the selected concept and maximal among
  these candidates, and ties go to the alphabetically first concept.\<close>

lemma selectDiagnostic_covers:
  assumes "\<forall>cs. Some cs \<in> set states \<longrightarrow> csConcept cs \<noteq> '''' \<and> \<not> isInf (csPSlip cs) \<and> \<not> isInf (csPGuess cs)"
  shows "let sel = selectDiagnostic states graph diagnosed;
             pool = diagnostic_pool states graph;
             untested = filter (\<lambda>cs. \<not> diagnosed (csConcept cs)) pool;
             candidates = (if untested \<noteq> [] then untested else pool)
         in (sNoFringe sel \<longleftrightarrow> pool = []) \<and>
            (pool \<noteq> [] \<longrightarrow>
               (\<exists>cs \<in> set candidates. sConcept sel = csConcept cs \<and> sScore sel = info_gain (Some cs)) \<and>
               (\<forall>cs \<in> set candidates. info_gain (Some cs) \<le> sScore sel \<and>
                  (info_gain (Some cs) = sScore sel \<longrightarrow> sConcept sel \<le> csConcept cs)))"
proof -
  let ?i = "(states, graph, diagnosed)" and ?sel = "selectDiagnostic states graph diagnosed"
  let ?pool = "diagnostic_pool states graph"
  let ?un = "filter (\<lambda>cs. \<not> diagnosed (csConcept cs)) ?pool"
  let ?cand = "if ?un \<noteq> [] then ?un else ?pool"
  have ok: "diagnostic_ok ?i" using assms by simp
  have el: "set (diagnostic_eligible ?i) = set ?cand"
    by (auto simp: Let_def filter_empty_conv)
  have nf: "sNoFringe ?sel \<longleftrightarrow> ?pool = []"
    using diagnostic.no_fringe_iff[OF ok] el by (auto simp: Let_def simp flip: set_empty split: if_splits)
  have "\<exists>cs \<in> set ?cand. sConcept ?sel = csConcept cs \<and> sScore ?sel = info_gain (Some cs)" if "?pool \<noteq> []"
  proof -
    have "diagnostic_eligible ?i \<noteq> []" using that nf diagnostic.no_fringe_iff[OF ok] by simp
    from diagnostic.chosen[OF ok this] obtain cs where cs: "first_max diagnostic_score (diagnostic_eligible ?i) cs"
      "sConcept ?sel = csConcept cs" "sScore ?sel = diagnostic_score cs" by auto
    with first_max_in[OF cs(1)] show ?thesis unfolding el by (auto simp: diagnostic_score_def)
  qed
  moreover have "info_gain (Some cs) \<le> sScore ?sel \<and> (info_gain (Some cs) = sScore ?sel \<longrightarrow> sConcept ?sel \<le> csConcept cs)"
    if "cs \<in> set ?cand" for cs
    using that diagnostic.score_maximal[OF ok, of cs] diagnostic.tie_break[OF ok, of cs]
    unfolding el by (simp add: diagnostic_score_def)
  ultimately show ?thesis using nf unfolding Let_def by blast
qed

theorem selectInstruction_correct_witness:
  "let sel = selectInstruction '''' [Some (NewConceptStateInDomain ''l'' ''d'' ''a'')]
     \<lparr>ksConcepts = [''b'', ''a''], ksPrerequisites = [''b'' \<mapsto> [''a'']]\<rparr> None
   in \<not> sNoFringe sel \<and> sConcept sel = ''a''"
proof -
  let ?st = "[Some (NewConceptStateInDomain ''l'' ''d'' ''a'')]"
  let ?g = "\<lparr>ksConcepts = [''b'', ''a''], ksPrerequisites = [''b'' \<mapsto> [''a'']]\<rparr>"
  have h: "finite_relevance None" "plain_estimates ?st"
    by (simp_all add: finite_relevance_def plain_estimates_def NewConceptStateInDomain_def)
  have la: "learnable '''' ?st ?g ''a''" and lb: "learnable '''' ?st ?g c \<longrightarrow> c = ''a''" for c
    by (auto simp: learnable_def estimate_def index_by_def NewConceptStateInDomain_def MasteryBKT_def
        prereqsSatisfied_def map_list_def MasteryKST_def isUnifiedThreshold_def)
  from selectInstruction_correct[OF h, of "''''" ?g] la lb show ?thesis
    by (simp add: Let_def covered_def) blast
qed

text \<open>
  With finite relevance weights, MAINTENANCE selection never leaves the domain and never
  proposes a concept below the floor: it reports no fringe exactly when no state of the domain at or
  above the floor is covered by the relevance vector, and otherwise returns such a concept of
  maximal (1 - retention) x relevance, ties going to the alphabetically first concept.\<close>

lemma selectMaintenance_correct:
  assumes "finite_relevance gr" and "fl \<noteq> NaN"
  shows "let sel = selectMaintenance states graph gr now fl;
             good = (\<lambda>cs. Some cs \<in> set states \<and> fl \<le> csPMastery cs \<and> in_domain graph cs \<and> covered gr (csConcept cs))
         in (sNoFringe sel \<longleftrightarrow> (\<forall>cs. \<not> good cs)) \<and>
            (\<not> sNoFringe sel \<longrightarrow>
               (\<exists>cs. good cs \<and> sConcept sel = csConcept cs \<and> sScore sel = maintenance_score now gr cs) \<and>
               (\<forall>cs. good cs \<longrightarrow> maintenance_score now gr cs \<le> sScore sel \<and>
                  (maintenance_score now gr cs = sScore sel \<longrightarrow> sConcept sel \<le> csConcept cs)))"
proof -
  let ?i = "(states, graph, gr, now, fl)" and ?sel = "selectMaintenance states graph gr now fl"
  define good where "good cs \<longleftrightarrow> Some cs \<in> set states \<and> fl \<le> csPMastery cs \<and> in_domain graph cs \<and> covered gr (csConcept cs)" for cs
  have ok: "maintenance_ok ?i" using assms by simp
  have mem: "cs \<in> set (maintenance_eligible ?i) \<longleftrightarrow> good cs" for cs
    using f64_below_iff[OF assms(2), of "csPMastery cs"]
    by (auto simp: maintenance_pool_def covered_resolve set_somes good_def)
  have nf: "sNoFringe ?sel \<longleftrightarrow> (\<forall>cs. \<not> good cs)"
    using maintenance.no_fringe_iff[OF ok] mem by (metis select_maintenance_of.simps list.set_intros(1) neq_Nil_conv empty_iff list.set(1))
  have ch: "\<exists>cs. good cs \<and> sConcept ?sel = csConcept cs \<and> sScore ?sel = maintenance_score now gr cs"
    if "\<not> sNoFringe ?sel"
  proof -
    have "maintenance_eligible ?i \<noteq> []" using that maintenance.no_fringe_iff[OF ok] by simp
    from maintenance.chosen[OF ok this] first_max_in mem show ?thesis by fastforce
  qed
  have mx: "maintenance_score now gr cs \<le> sScore ?sel \<and>
      (maintenance_score now gr cs = sScore ?sel \<longrightarrow> sConcept ?sel \<le> csConcept cs)" if "good cs" for cs
    using that maintenance.score_maximal[OF ok] maintenance.tie_break[OF ok] by (simp add: mem[symmetric])
  show ?thesis unfolding Let_def good_def[symmetric] using nf ch mx by blast
qed

text \<open>Review selection only proposes allowed concepts the learner has already met, reports no
  fringe exactly when there is none, and a concept with an active misconception always goes before
  one without, whatever the retentions.\<close>

lemma SelectReviewConceptAt_correct:
  "let sel = SelectReviewConceptAt allowed states interactions misc now;
       good = (\<lambda>c. c \<in> set allowed \<and> reviewableConcept (states c) (interaction_count interactions c))
   in (sNoFringe sel \<longleftrightarrow> (\<forall>c. \<not> good c)) \<and>
      (\<not> sNoFringe sel \<longrightarrow> good (sConcept sel)) \<and>
      ((\<exists>c. good c \<and> misc c) \<longrightarrow> misc (sConcept sel))"
proof -
  let ?i = "(allowed, states, interactions, misc, now)"
  let ?sel = "SelectReviewConceptAt allowed states interactions misc now"
  define good where "good c \<longleftrightarrow> c \<in> set allowed \<and> reviewableConcept (states c) (interaction_count interactions c)" for c
  have mem: "c \<in> set (review_eligible ?i) \<longleftrightarrow> good c" for c by (auto simp: good_def)
  have nf: "sNoFringe ?sel \<longleftrightarrow> (\<forall>c. \<not> good c)"
    using review.no_fringe_iff[of ?i] mem by (auto simp: filter_empty_conv good_def)
  have ch: "good (sConcept ?sel) \<and> sScore ?sel = review_score states interactions misc now (sConcept ?sel)"
    if "\<not> sNoFringe ?sel"
  proof -
    have "review_eligible ?i \<noteq> []" using that review.no_fringe_iff[of ?i] by simp
    from review.chosen[OF TrueI this] obtain c where
      "first_max (review_score states interactions misc now) (review_eligible ?i) c" "sConcept ?sel = c"
      "sScore ?sel = review_score states interactions misc now c" by auto
    with first_max_in mem show ?thesis by metis
  qed
  have sc: "(misc c \<longrightarrow> Fin 2 \<le> review_score states interactions misc now c) \<and>
      (\<not> misc c \<longrightarrow> review_score states interactions misc now c < Fin 2)" for c
  proof -
    obtain r where "reviewRetentionAt (states c) now = Fin r" "0 \<le> r" "r \<le> 1"
      using reviewRetention_unit by (rule unit_f64E)
    then show ?thesis by (auto simp: review_score_def Let_def split: option.split)
  qed
  have "misc (sConcept ?sel)" if "good c" "misc c" for c
  proof (rule ccontr)
    assume "\<not> misc (sConcept ?sel)"
    then have lt: "review_score states interactions misc now (sConcept ?sel) < Fin 2" using sc by blast
    have "review_score states interactions misc now c \<le> sScore ?sel"
      using review.score_maximal[where i = ?i and y = c] that(1) mem by simp
    with sc that(2) have "Fin 2 \<le> sScore ?sel" by (blast intro: f64_le_trans)
    moreover have "\<not> sNoFringe ?sel" using nf that(1) by blast
    ultimately show False using ch lt f64_le_less_trans by fastforce
  qed
  then show ?thesis unfolding Let_def good_def[symmetric] using nf ch by blast
qed

end
