(* ===== verification/Action_Selector.thy ===== *)
theory Action_Selector
  imports Concept_Selector
begin

text \<open>
  The action selector, \<open>engine/action_selector.go\<close>, the review constraint of
  \<open>engine/concept_selector.go\<close>, the history the selector reads, \<open>getActionHistoryForConcept\<close> of
  \<open>db/phase.go\<close>, and the stand-alone fade controller, \<open>engine/fade_controller.go\<close>.
  The NaN counter and the log calls are left out; of a misconception group only its type is read.
\<close>

section \<open>Data\<close>

record Action =
  atType :: ActivityType
  atDifficultyTarget :: f64
  atFormat :: string
  atEstimatedMinutes :: int
  atRationale :: message

record ActionHistory =
  hInteractionsAboveBKT :: int
  hMasteryChallengeCount :: int
  hFeynmanCount :: int
  hTransferCount :: int

record MisconceptionGroup =
  mgConcept :: string
  mgMisconceptionType :: string

definition PracticeDifficultyTarget :: f64 where "PracticeDifficultyTarget = 0.55"
definition HighMasteryStabilityWindow :: int where "HighMasteryStabilityWindow = 3"

section \<open>Operations\<close>

definition clampActionDifficulty :: "f64 \<Rightarrow> f64" where
  "clampActionDifficulty d = (if d < 0.30 then 0.30 else if d > 0.85 then 0.85 else d)"

definition restFallback :: "string \<Rightarrow> Action" where
  "restFallback rationale =
     \<lparr>atType = ActivityRest, atDifficultyTarget = 0, atFormat = ''concept_state_corrupted'',
      atEstimatedMinutes = 0, atRationale = [S rationale]\<rparr>"

definition selectHighMasteryAction :: "ActionHistory \<Rightarrow> Action" where
  "selectHighMasteryAction history =
     (if hMasteryChallengeCount history = 0 then
        \<lparr>atType = ActivityMasteryChallenge, atDifficultyTarget = 0.75,
         atFormat = ''integrated_performance_task'', atEstimatedMinutes = 45,
         atRationale = [S ''stable high model estimate: first mastery challenge'']\<rparr>
      else if hFeynmanCount history < hMasteryChallengeCount history then
        \<lparr>atType = ActivityFeynmanPrompt, atDifficultyTarget = 0.50,
         atFormat = ''feynman_explanation'', atEstimatedMinutes = 15,
         atRationale = [S ''deep-evidence probe after high estimate via Feynman'']\<rparr>
      else if hTransferCount history < hFeynmanCount history then
        \<lparr>atType = ActivityTransferProbe, atDifficultyTarget = 0.65,
         atFormat = ''transfer_novel_context'', atEstimatedMinutes = 20,
         atRationale = [S ''transfert hors contexte initial'']\<rparr>
      else
        \<lparr>atType = ActivityMasteryChallenge, atDifficultyTarget = 0.75,
         atFormat = ''integrated_performance_task'', atEstimatedMinutes = 45,
         atRationale = [S ''stable high model estimate: new challenge cycle'']\<rparr>)"

text \<open>Rule 4 of the cascade: the brackets of the model estimate.\<close>

definition select_by_estimate :: "f64 \<Rightarrow> ActionHistory \<Rightarrow> Action" where
  "select_by_estimate p history =
     (if p < 0.30 then
        \<lparr>atType = ActivityNewConcept, atDifficultyTarget = 0.55, atFormat = ''introduction'',
         atEstimatedMinutes = 15,
         atRationale = [S ''introduction : model estimate '', F 2 p, S '' < 0.30'']\<rparr>
      else if p < 0.70 then
        \<lparr>atType = ActivityPractice, atDifficultyTarget = 0.55, atFormat = ''practice_standard'',
         atEstimatedMinutes = 10, atRationale = [S ''practice standard : model estimate '', F 2 p]\<rparr>
      else if p < MasteryBKT then
        \<lparr>atType = ActivityPractice, atDifficultyTarget = PracticeDifficultyTarget,
         atFormat = ''practice_zpd'', atEstimatedMinutes = 12,
         atRationale = [S ''practice heuristic: model estimate '', F 2 p, S '', generation difficulty '',
           F 2 PracticeDifficultyTarget, S ''; no calibrated success probability'']\<rparr>
      else if hInteractionsAboveBKT history < HighMasteryStabilityWindow then
        \<lparr>atType = ActivityPractice, atDifficultyTarget = PracticeDifficultyTarget,
         atFormat = ''practice_zpd'', atEstimatedMinutes = 12,
         atRationale = [S ''model estimate '', F 2 p, S '' >= threshold but stability insufficient ('',
           D (hInteractionsAboveBKT history), S ''/'', D HighMasteryStabilityWindow,
           S ''); heuristic generation difficulty '', F 2 PracticeDifficultyTarget]\<rparr>
      else selectHighMasteryAction history)"

definition SelectActionAt ::
    "ConceptState option \<Rightarrow> MisconceptionGroup option \<Rightarrow> ActionHistory \<Rightarrow> time \<Rightarrow> Action" where
  "SelectActionAt cs mc history now =
     (case cs of
        None \<Rightarrow> restFallback ''concept_state nil - fallback REST''
      | Some cs \<Rightarrow>
          if isNaN (csPMastery cs) \<or> isInf (csPMastery cs)
          then restFallback ''concept_state corrupted (NaN) - fallback REST''
          else case mc of
            Some g \<Rightarrow>
              \<lparr>atType = ActivityDebugMisconception, atDifficultyTarget = 0.55,
               atFormat = ''misconception_targeted'', atEstimatedMinutes = 12,
               atRationale = [S ''misconception active : '', S (mgMisconceptionType g)]\<rparr>
          | None \<Rightarrow>
              let retention = CurrentRetrievability now (csLastReview cs) (csStability cs) in
              if csCardState cs \<noteq> New \<and> retention < RetentionRecallRoutingThreshold then
                \<lparr>atType = ActivityRecall, atDifficultyTarget = 0.65, atFormat = ''cold_retrieval'',
                 atEstimatedMinutes = 8,
                 atRationale = [S ''retention FSRS basse ('', F 0 (retention * 100), S ''%)'']\<rparr>
              else select_by_estimate (csPMastery cs) history)"

definition SelectActionForPhaseAt ::
    "Phase \<Rightarrow> ConceptState option \<Rightarrow> MisconceptionGroup option \<Rightarrow> ActionHistory \<Rightarrow> time \<Rightarrow> Action" where
  "SelectActionForPhaseAt phase cs mc history now =
     (if phase = PhaseDiagnostic then
        \<lparr>atType = ActivityDiagnosticAssessment, atDifficultyTarget = 0.50, atFormat = ''cold_assessment'',
         atEstimatedMinutes = 8,
         atRationale = [S ''diagnostic froid : mesurer avant toute explication ou aide'']\<rparr>
      else SelectActionAt cs mc history now)"

definition constrainReviewAction :: "Action \<Rightarrow> ConceptState option \<Rightarrow> time \<Rightarrow> Action" where
  "constrainReviewAction action cs now =
     (if atType action \<in> {ActivityRecall, ActivityPractice, ActivityDebugMisconception}
      then action\<lparr>atRationale := S ''review intent constraint : '' # atRationale action\<rparr>
      else if reviewRetentionAt cs now < RetentionRecallRoutingThreshold then
        \<lparr>atType = ActivityRecall, atDifficultyTarget = 0.60, atFormat = ''review_retrieval'',
         atEstimatedMinutes = 8,
         atRationale = [S ''review intent constraint : retrieval before new or mastery activity'']\<rparr>
      else
        \<lparr>atType = ActivityPractice, atDifficultyTarget = clampActionDifficulty (atDifficultyTarget action),
         atFormat = ''review_practice'', atEstimatedMinutes = 10,
         atRationale = [S ''review intent constraint : practice on prior material'']\<rparr>)"

subsection \<open>Fade controller\<close>

datatype AutonomyTrend = AutonomyTrendImproving | AutonomyTrendStable | AutonomyTrendDeclining | AutonomyTrendOther string
datatype HintLevel = HintLevelFull | HintLevelPartial | HintLevelNone
datatype WebhookFrequency = WebhookFrequencyDaily | WebhookFrequencyWeekly | WebhookFrequencyOff
datatype ZPDAggressiveness = ZPDAggressivenessGentle | ZPDAggressivenessNormal | ZPDAggressivenessPush
datatype fadeTier = tierLow | tierMid | tierHigh

record FadeParams =
  fpHintLevel :: HintLevel
  fpWebhookFrequency :: WebhookFrequency
  fpZPDAggressiveness :: ZPDAggressiveness
  fpProactiveReviewEnabled :: bool

definition tierFromScore :: "f64 \<Rightarrow> fadeTier" where
  "tierFromScore score = (if score < 0.3 then tierLow else if score \<ge> 0.7 then tierHigh else tierMid)"

fun tier_succ :: "fadeTier \<Rightarrow> fadeTier" where
  "tier_succ tierLow = tierMid" | "tier_succ _ = tierHigh"

fun tier_pred :: "fadeTier \<Rightarrow> fadeTier" where
  "tier_pred tierHigh = tierMid" | "tier_pred _ = tierLow"

fun applyTrend :: "fadeTier \<Rightarrow> AutonomyTrend \<Rightarrow> fadeTier" where
  "applyTrend base AutonomyTrendImproving = (if base = tierHigh then tierHigh else tier_succ base)"
| "applyTrend base AutonomyTrendDeclining = (if base = tierLow then tierLow else tier_pred base)"
| "applyTrend base _ = base"

fun paramsForTier :: "fadeTier \<Rightarrow> FadeParams" where
  "paramsForTier tierLow =
     \<lparr>fpHintLevel = HintLevelFull, fpWebhookFrequency = WebhookFrequencyDaily,
      fpZPDAggressiveness = ZPDAggressivenessGentle, fpProactiveReviewEnabled = True\<rparr>"
| "paramsForTier tierHigh =
     \<lparr>fpHintLevel = HintLevelNone, fpWebhookFrequency = WebhookFrequencyOff,
      fpZPDAggressiveness = ZPDAggressivenessPush, fpProactiveReviewEnabled = False\<rparr>"
| "paramsForTier tierMid =
     \<lparr>fpHintLevel = HintLevelPartial, fpWebhookFrequency = WebhookFrequencyWeekly,
      fpZPDAggressiveness = ZPDAggressivenessNormal, fpProactiveReviewEnabled = True\<rparr>"

definition Decide :: "f64 \<Rightarrow> AutonomyTrend \<Rightarrow> FadeParams" where
  "Decide score trend = paramsForTier (applyTrend (tierFromScore score) trend)"

section \<open>The stored history\<close>

text \<open>
  \<open>getActionHistoryForConcept\<close> of \<open>db/phase.go\<close>: the newest rows of the concept, at most
  \<open>recentLimit\<close> of them, are counted by kind, and the successes are counted until the first failure.
  The rows are those of \<open>currentInteractionsSQL\<close>, and rows of the same time come newest first in the
  order they were stored.
\<close>

definition empty_history :: ActionHistory where
  "empty_history = \<lparr>hInteractionsAboveBKT = 0, hMasteryChallengeCount = 0, hFeynmanCount = 0, hTransferCount = 0\<rparr>"

definition count_kind :: "string \<Rightarrow> ActionHistory \<Rightarrow> ActionHistory" where
  "count_kind actType h =
     (if actType = string_of_activity ActivityMasteryChallenge then h\<lparr>hMasteryChallengeCount := hMasteryChallengeCount h + 1\<rparr>
      else if actType = string_of_activity ActivityFeynmanPrompt then h\<lparr>hFeynmanCount := hFeynmanCount h + 1\<rparr>
      else if actType = string_of_activity ActivityTransferProbe then h\<lparr>hTransferCount := hTransferCount h + 1\<rparr>
      else h)"

fun history_loop :: "bool \<Rightarrow> ActionHistory \<Rightarrow> Interaction list \<Rightarrow> ActionHistory" where
  "history_loop streakLive h [] = h"
| "history_loop streakLive h (i # is) =
     (let h = count_kind (inActivityType i) h in
      if streakLive \<and> inSuccess i then history_loop True (h\<lparr>hInteractionsAboveBKT := hInteractionsAboveBKT h + 1\<rparr>) is
      else history_loop False h is)"

definition of_concept :: "string \<Rightarrow> string \<Rightarrow> string \<Rightarrow> bool \<Rightarrow> Interaction \<Rightarrow> bool" where
  "of_concept learnerID domainID concept exactDomain i \<longleftrightarrow>
     inLearnerID i = learnerID \<and> inConcept i = concept \<and> (exactDomain \<longrightarrow> inDomainID i = domainID)"

definition getActionHistoryForConcept ::
    "Interaction list \<Rightarrow> string \<Rightarrow> string \<Rightarrow> string \<Rightarrow> int \<Rightarrow> bool \<Rightarrow> ActionHistory" where
  "getActionHistoryForConcept rows learnerID domainID concept recentLimit exactDomain =
     (let recentLimit = (if recentLimit \<le> 0 then 50 else recentLimit);
          selected = filter (of_concept learnerID domainID concept exactDomain) rows
      in history_loop True empty_history (take (nat recentLimit) (rev (sort_key inCreatedAt selected))))"

text \<open>How many rows of one kind a list has.\<close>

definition kind_count :: "ActivityType \<Rightarrow> Interaction list \<Rightarrow> int" where
  "kind_count t rows = int (length (filter (\<lambda>i. inActivityType i = string_of_activity t) rows))"

lemma kind_count_simps [simp]:
  "kind_count t [] = 0"
  "kind_count t (i # xs) = (if inActivityType i = string_of_activity t then 1 else 0) + kind_count t xs"
  "kind_count t (xs @ ys) = kind_count t xs + kind_count t ys"
  by (simp_all add: kind_count_def)

lemma kind_count_nonneg [simp]: "0 \<le> kind_count t xs"
  by (simp add: kind_count_def)

lemma kind_count_rev [simp]: "kind_count t (rev xs) = kind_count t xs"
  by (simp add: kind_count_def flip: rev_filter)

lemma kind_count_sort [simp]: "kind_count t (sort_key f xs) = kind_count t xs"
  by (simp add: kind_count_def filter_sort)

lemma history_loop_counts:
  "hMasteryChallengeCount (history_loop live h xs) = hMasteryChallengeCount h + kind_count ActivityMasteryChallenge xs"
  "hFeynmanCount (history_loop live h xs) = hFeynmanCount h + kind_count ActivityFeynmanPrompt xs"
  "hTransferCount (history_loop live h xs) = hTransferCount h + kind_count ActivityTransferProbe xs"
  by (induction xs arbitrary: live h) (auto simp: count_kind_def Let_def)

text \<open>While the concept has at most as many rows as the window, all of them are counted.\<close>

lemma history_counts_all:
  fixes rows learnerID domainID concept
  defines "h \<equiv> getActionHistoryForConcept rows learnerID domainID concept 50 True"
    and "mine \<equiv> filter (of_concept learnerID domainID concept True) rows"
  assumes "length mine \<le> 50"
  shows "hMasteryChallengeCount h = kind_count ActivityMasteryChallenge mine"
    and "hFeynmanCount h = kind_count ActivityFeynmanPrompt mine"
    and "hTransferCount h = kind_count ActivityTransferProbe mine"
  using assms(3) unfolding h_def mine_def
  by (simp_all add: getActionHistoryForConcept_def history_loop_counts empty_history_def)

section \<open>The rotation\<close>

text \<open>
  A run of the rotation: the selector reads the stored history and the activity it emits is recorded
  for the concept. Rows of other concepts, learners or domains and of other kinds of activity may be
  recorded in between.
\<close>

abbreviation rotation_kinds :: "ActivityType list" where
  "rotation_kinds \<equiv> [ActivityMasteryChallenge, ActivityFeynmanPrompt, ActivityTransferProbe]"

inductive rotation_run :: "string \<Rightarrow> string \<Rightarrow> string \<Rightarrow> Interaction list \<Rightarrow> ActivityType list \<Rightarrow> Interaction list \<Rightarrow> bool"
  for learnerID domainID concept rows where
  start: "rotation_run learnerID domainID concept rows [] rows"
| emit: "rotation_run learnerID domainID concept rows ts rows' \<Longrightarrow>
    t = atType (selectHighMasteryAction (getActionHistoryForConcept rows' learnerID domainID concept 50 True)) \<Longrightarrow>
    of_concept learnerID domainID concept True i \<Longrightarrow> inActivityType i = string_of_activity t \<Longrightarrow>
    rotation_run learnerID domainID concept rows (ts @ [t]) (rows' @ [i])"
| other: "rotation_run learnerID domainID concept rows ts rows' \<Longrightarrow>
    \<not> of_concept learnerID domainID concept True i \<or> inActivityType i \<notin> string_of_activity ` set rotation_kinds \<Longrightarrow>
    rotation_run learnerID domainID concept rows ts (rows' @ [i])"

lemma mod3_cases:
  fixes n :: nat
  obtains q where "n = 3 * q" | q where "n = 3 * q + 1" | q where "n = 3 * q + 2"
proof -
  have "n = 3 * (n div 3) + n mod 3" "n mod 3 < 3" by simp_all
  then consider "n = 3 * (n div 3)" | "n = 3 * (n div 3) + 1" | "n = 3 * (n div 3) + 2" by linarith
  then show thesis by cases (use that in blast)+
qed

lemma thirds:
  fixes q :: nat
  shows "Suc (3 * q) div 3 = q" "Suc (Suc (3 * q)) div 3 = q" "Suc (3 * q) mod 3 = 1" "Suc (Suc (3 * q)) mod 3 = 2"
  by presburger+

lemma cycle_step:
  fixes n :: nat
  assumes "hMasteryChallengeCount h = k + int ((n + 2) div 3)" "hFeynmanCount h = k + int ((n + 1) div 3)"
    "hTransferCount h = k + int (n div 3)" "0 \<le> k"
  shows "atType (selectHighMasteryAction h) = rotation_kinds ! (n mod 3)"
  using mod3_cases[of n] by cases (use assms in \<open>auto simp: selectHighMasteryAction_def thirds\<close>)

lemma rotation_invariant:
  assumes "rotation_run learnerID domainID concept rows ts rows'"
    and start: "\<forall>t \<in> set rotation_kinds. kind_count t (filter (of_concept learnerID domainID concept True) rows) = k"
    and "length (filter (of_concept learnerID domainID concept True) rows') \<le> 50"
  shows "ts = map (\<lambda>n. rotation_kinds ! (n mod 3)) [0..<length ts] \<and>
    (let mine = filter (of_concept learnerID domainID concept True) rows' in
       kind_count ActivityMasteryChallenge mine = k + int ((length ts + 2) div 3) \<and>
       kind_count ActivityFeynmanPrompt mine = k + int ((length ts + 1) div 3) \<and>
       kind_count ActivityTransferProbe mine = k + int (length ts div 3))"
  using assms(1,3)
proof (induction rule: rotation_run.induct)
  case start
  show ?case using assms(2) by simp
next
  case (emit ts rows' t i)
  let ?mine = "filter (of_concept learnerID domainID concept True) rows'"
  have fits: "length ?mine \<le> 50" using emit.prems emit.hyps(3) by simp
  have k: "0 \<le> k" using start kind_count_nonneg by auto
  note ih = emit.IH[OF fits, unfolded Let_def]
  have t: "t = rotation_kinds ! (length ts mod 3)"
    unfolding emit.hyps(2) using ih k history_counts_all[OF fits] by (intro cycle_step[of _ k]) auto
  show ?case using mod3_cases[of "length ts"] by cases (use ih t emit.hyps(3,4) in \<open>auto simp: Let_def thirds\<close>)
next
  case (other ts rows' i)
  then show ?case by (auto simp: Let_def split: if_splits)
qed

section \<open>Properties\<close>

text \<open>C28. The high-mastery rotation reads the newest 50 stored rows of a concept. As long as the
  concept has at most 50 rows in its domain, and the three kinds were recorded equally often at the
  start, a run that records each emitted activity emits exactly the cycle mastery challenge, Feynman
  explanation, transfer probe, whatever rows of other concepts, learners, domains or kinds are
  recorded in between: the rotation neither stalls nor skips a kind.\<close>

theorem high_mastery_rotation:
  assumes "rotation_run learnerID domainID concept rows ts rows'"
    and "\<forall>t \<in> set rotation_kinds. kind_count t (filter (of_concept learnerID domainID concept True) rows) = k"
    and "length (filter (of_concept learnerID domainID concept True) rows') \<le> 50"
  shows "ts = map (\<lambda>n. rotation_kinds ! (n mod 3)) [0..<length ts]"
  using rotation_invariant[OF assms] by blast

definition rotation_row :: "ActivityType \<Rightarrow> time \<Rightarrow> Interaction" where
  "rotation_row t created =
     \<lparr>inID = 0, inLearnerID = ''l'', inSessionID = '''', inAssessmentAttemptID = '''', inConcept = ''c'',
      inActivityType = string_of_activity t, inSuccess = True, inResponseTime = 0, inConfidence = 0, inErrorType = '''',
      inNotes = '''', inHintsRequested = 0, inSelfInitiated = False, inCalibrationID = '''', inIsProactiveReview = False,
      inMisconceptionType = '''', inMisconceptionDetail = '''', inDomainID = ''d'', inBKTSlip = None, inBKTGuess = None,
      inRubricJSON = '''', inRubricScoreJSON = '''', inCreatedAt = created\<rparr>"

lemma rotation_row_simps [simp]:
  "of_concept ''l'' ''d'' ''c'' True (rotation_row t created)" "inActivityType (rotation_row t created) = string_of_activity t"
  by (simp_all add: rotation_row_def of_concept_def)

theorem high_mastery_rotation_witness:
  "\<exists>ts rows'. rotation_run ''l'' ''d'' ''c'' [rotation_row ActivityPractice 1] ts rows' \<and> length ts = 2 \<and>
     ts = [ActivityMasteryChallenge, ActivityFeynmanPrompt]"
proof -
  let ?h = "\<lambda>rows. atType (selectHighMasteryAction (getActionHistoryForConcept rows ''l'' ''d'' ''c'' 50 True))"
  let ?r = "[rotation_row ActivityPractice 1]"
  obtain a b where a: "a = ?h ?r" and b: "b = ?h (?r @ [rotation_row a 2])" by blast
  have run: "rotation_run ''l'' ''d'' ''c'' ?r (([] @ [a]) @ [b]) ((?r @ [rotation_row a 2]) @ [rotation_row b 3])"
    by (rule rotation_run.emit[OF rotation_run.emit[OF rotation_run.start a] b]) simp_all
  have "([] @ [a]) @ [b] = map (\<lambda>n. rotation_kinds ! (n mod 3)) [0..<length (([] @ [a]) @ [b])]"
    by (rule high_mastery_rotation[OF run, of 0]) simp_all
  then have "[a, b] = [ActivityMasteryChallenge, ActivityFeynmanPrompt]" by (simp add: upt_rec)
  with run show ?thesis by (intro exI[of _ "[a, b]"] exI[of _ "(?r @ [rotation_row a 2]) @ [rotation_row b 3]"]) simp
qed

text \<open>
  Beyond the window the cycle is not kept: once older rows leave the newest 50, the counts of the
  kinds no longer follow one another and a challenge is emitted twice in a row.
\<close>

definition rotation_next :: "Interaction list \<Rightarrow> ActivityType" where
  "rotation_next rows = atType (selectHighMasteryAction (getActionHistoryForConcept rows ''l'' ''d'' ''c'' 50 True))"

definition full_window :: "Interaction list" where
  "full_window = map (\<lambda>n. rotation_row (rotation_kinds ! (n mod 3)) (int n)) [0..<48] @
     [rotation_row ActivityPractice 48, rotation_row ActivityPractice 49]"

lemma rotation_slips_beyond_window:
  "rotation_next full_window = ActivityMasteryChallenge \<and>
   rotation_next (full_window @ [rotation_row ActivityMasteryChallenge 50]) = ActivityMasteryChallenge"
  by code_simp

text \<open>
  The cascade of \<open>SelectActionAt\<close>: REST exactly for a missing or non-finite estimate;
  otherwise an active misconception always gives DEBUG_MISCONCEPTION, whatever the retention;
  without one, a reviewed card below the routing retention gives RECALL; and a mastery challenge,
  Feynman prompt or transfer probe is only ever chosen for an estimate at or above the mastery
  threshold that has been stable for the required window.\<close>

lemma SelectActionAt_cascade:
  "(atType (SelectActionAt cs mc h now) = ActivityRest \<longleftrightarrow> (\<forall>c. cs = Some c \<longrightarrow> \<not> is_fin (csPMastery c))) \<and>
   (cs = Some c \<longrightarrow> is_fin (csPMastery c) \<longrightarrow>
      (mc \<noteq> None \<longrightarrow> atType (SelectActionAt cs mc h now) = ActivityDebugMisconception) \<and>
      (mc = None \<longrightarrow> csCardState c \<noteq> New \<longrightarrow>
         CurrentRetrievability now (csLastReview c) (csStability c) < RetentionRecallRoutingThreshold \<longrightarrow>
         atType (SelectActionAt cs mc h now) = ActivityRecall) \<and>
      (atType (SelectActionAt cs mc h now)
         \<in> {ActivityMasteryChallenge, ActivityFeynmanPrompt, ActivityTransferProbe} \<longrightarrow>
         MasteryBKT \<le> csPMastery c \<and> HighMasteryStabilityWindow \<le> hInteractionsAboveBKT h))"
proof -
  have high: "atType (selectHighMasteryAction h) \<noteq> ActivityRest" by (simp add: selectHighMasteryAction_def)
  have by_est: "atType (select_by_estimate p h) \<noteq> ActivityRest" for p
    using high by (simp add: select_by_estimate_def)
  have stable: "MasteryBKT \<le> p \<and> HighMasteryStabilityWindow \<le> hInteractionsAboveBKT h"
    if "is_fin p" "atType (select_by_estimate p h) \<in> {ActivityMasteryChallenge, ActivityFeynmanPrompt, ActivityTransferProbe}" for p
    using that by (auto simp: select_by_estimate_def is_fin_iff MasteryBKT_def not_less split: if_splits)
  show ?thesis
    using by_est stable
    by (cases cs; cases mc)
      (auto simp: SelectActionAt_def restFallback_def is_fin_not_special Let_def split: if_splits)
qed

end
