(* ===== verification/Evidence.thy ===== *)
theory Evidence
  imports Concept_Selector
begin

text \<open>
  Evidence about one concept: \<open>engine/evidence.go\<close> (the evidence profile and its quality grade)
  and \<open>engine/uncertainty.go\<close> (how much trust the mastery estimate deserves). Sets of strings
  collected in a map and read back sorted are \<open>sort (remdups _)\<close>; the reason texts are symbolic.
\<close>

section \<open>Evidence profile\<close>

definition DefaultEvidenceRecentWindow :: duration where
  "DefaultEvidenceRecentWindow = 14 * 24 * hour"

record EvidenceProfile =
  epLearnerID :: string
  epConcept :: string
  epCount :: int
  epRecentCount :: int
  epActivityTypeDiversity :: int
  epHasRecall :: bool
  epHasPractice :: bool
  epHasFeynman :: bool
  epHasTransfer :: bool
  epHasMastery :: bool
  epSuccessfulTypes :: "string list"
  epFailureTypes :: "string list"
  epRubricPresentCount :: int
  epRubricPresenceRatio :: f64

datatype EvidenceQuality = EvidenceQualityWeak | EvidenceQualityModerate | EvidenceQualityStrong

record EvidenceQualityAssessment =
  eqQuality :: EvidenceQuality
  eqReasons :: "message list"

definition evidenceKind :: "string \<Rightarrow> string" where
  "evidenceKind activityType =
     (let t = trim_space activityType in
      if t = string_of_activity ActivityRecall \<or> t = ''RECALL'' then ''recall''
      else if t = string_of_activity ActivityPractice then ''practice''
      else if t = string_of_activity ActivityFeynmanPrompt then ''feynman''
      else if t = string_of_activity ActivityTransferProbe then ''transfer''
      else if t = string_of_activity ActivityMasteryChallenge then ''mastery''
      else '''')"

definition hasRubricEvidence :: "Interaction \<Rightarrow> bool" where
  "hasRubricEvidence i \<longleftrightarrow> trim_space (inRubricJSON i) \<noteq> '''' \<or> trim_space (inRubricScoreJSON i) \<noteq> ''''"

definition sortedKeys :: "string list \<Rightarrow> string list" where
  "sortedKeys values = sort (remdups values)"

text \<open>The interactions of the loop: not nil, of this learner and concept.\<close>

definition evidence_rows :: "string \<Rightarrow> string \<Rightarrow> Interaction option list \<Rightarrow> Interaction list" where
  "evidence_rows learnerID concept interactions =
     filter (\<lambda>i. inLearnerID i = learnerID \<and> inConcept i = concept) (somes interactions)"

definition BuildEvidenceProfileWithWindow ::
    "string \<Rightarrow> string \<Rightarrow> Interaction option list \<Rightarrow> time \<Rightarrow> duration \<Rightarrow> EvidenceProfile" where
  "BuildEvidenceProfileWithWindow learnerID concept interactions now recentWindow =
     (let rows = evidence_rows learnerID concept interactions;
          countRecency = (\<not> isZero now \<and> recentWindow > 0);
          cutoff = now - recentWindow;
          typed = filter (\<lambda>i. trim_space (inActivityType i) \<noteq> '''') rows;
          kinds = map (\<lambda>i. evidenceKind (trim_space (inActivityType i))) typed;
          type_of = (\<lambda>i. trim_space (inActivityType i));
          count = int (length rows);
          rubricCount = int (length (filter hasRubricEvidence rows))
      in \<lparr>epLearnerID = learnerID, epConcept = concept, epCount = count,
          epRecentCount = int (length (filter
            (\<lambda>i. countRecency \<and> \<not> isZero (inCreatedAt i) \<and> \<not> inCreatedAt i < cutoff) rows)),
          epActivityTypeDiversity = int (length (remdups (map type_of typed))),
          epHasRecall = (''recall'' \<in> set kinds), epHasPractice = (''practice'' \<in> set kinds),
          epHasFeynman = (''feynman'' \<in> set kinds), epHasTransfer = (''transfer'' \<in> set kinds),
          epHasMastery = (''mastery'' \<in> set kinds),
          epSuccessfulTypes = sortedKeys (map type_of (filter inSuccess typed)),
          epFailureTypes = sortedKeys (map type_of (filter (\<lambda>i. \<not> inSuccess i) typed)),
          epRubricPresentCount = rubricCount,
          epRubricPresenceRatio = (if count > 0 then f_of_int rubricCount / f_of_int count else 0)\<rparr>)"

definition BuildEvidenceProfile ::
    "string \<Rightarrow> string \<Rightarrow> Interaction option list \<Rightarrow> time \<Rightarrow> EvidenceProfile" where
  "BuildEvidenceProfile learnerID concept interactions now =
     BuildEvidenceProfileWithWindow learnerID concept interactions now DefaultEvidenceRecentWindow"

definition successfulEvidenceKinds :: "EvidenceProfile \<Rightarrow> string set" where
  "successfulEvidenceKinds profile =
     {k. k \<in> set (map evidenceKind (epSuccessfulTypes profile)) \<and> k \<noteq> ''''}"

definition appendMissingStrongReasons :: "EvidenceProfile \<Rightarrow> string set \<Rightarrow> message list" where
  "appendMissingStrongReasons profile kinds =
     (if epCount profile < 5 then [[S ''strong evidence needs at least 5 interactions'']] else [])
     @ (if epRecentCount profile < 2 then [[S ''strong evidence needs at least 2 recent interactions'']] else [])
     @ (if length (epSuccessfulTypes profile) < 3
        then [[S ''strong evidence needs at least 3 successful activity types'']] else [])
     @ (if ''mastery'' \<notin> kinds then [[S ''strong evidence needs a successful mastery challenge'']] else [])
     @ (if ''feynman'' \<notin> kinds \<and> ''transfer'' \<notin> kinds
        then [[S ''strong evidence needs successful feynman or transfer evidence'']] else [])"

definition appendMissingModerateReasons :: "EvidenceProfile \<Rightarrow> message list" where
  "appendMissingModerateReasons profile =
     (if epCount profile < 3 then [[S ''moderate evidence needs at least 3 interactions'']] else [])
     @ (if epRecentCount profile < 1 then [[S ''moderate evidence needs at least 1 recent interaction'']] else [])
     @ (if length (epSuccessfulTypes profile) < 2
        then [[S ''moderate evidence needs at least 2 successful activity types'']] else [])"

definition evidenceQualityReasons :: "EvidenceProfile \<Rightarrow> EvidenceQuality \<Rightarrow> string set \<Rightarrow> message list" where
  "evidenceQualityReasons profile quality kinds =
     [[D (epCount profile), S '' total interactions, '', D (epRecentCount profile), S '' recent''],
      [D (epActivityTypeDiversity profile), S '' distinct activity types, '',
       D (int (length (epSuccessfulTypes profile))), S '' successful activity types'']]
     @ (if epRubricPresentCount profile > 0 then
          [[S ''rubric evidence present on '', D (epRubricPresentCount profile), S ''/'',
            D (epCount profile), S '' interactions ('', F 0 (epRubricPresenceRatio profile * 100), S ''%)'']]
        else if epCount profile > 0 then [[S ''no rubric evidence present'']] else [])
     @ (if length (epFailureTypes profile) > 0
        then [[S ''failures observed in: '', S (join '', '' (epFailureTypes profile))]] else [])
     @ (case quality of
          EvidenceQualityStrong \<Rightarrow> [[S ''successful mastery evidence plus successful feynman or transfer evidence'']]
        | EvidenceQualityModerate \<Rightarrow> appendMissingStrongReasons profile kinds
        | EvidenceQualityWeak \<Rightarrow> appendMissingModerateReasons profile)"

definition MasteryEvidenceQuality :: "EvidenceProfile \<Rightarrow> EvidenceQualityAssessment" where
  "MasteryEvidenceQuality profile =
     (let kinds = successfulEvidenceKinds profile;
          successfulDiversity = length (epSuccessfulTypes profile);
          hasMasterySuccess = (''mastery'' \<in> kinds);
          hasDeepSuccess = (''feynman'' \<in> kinds \<or> ''transfer'' \<in> kinds);
          quality =
            (if epCount profile \<ge> 5 \<and> epRecentCount profile \<ge> 2 \<and> successfulDiversity \<ge> 3
                \<and> hasMasterySuccess \<and> hasDeepSuccess
             then EvidenceQualityStrong
             else if epCount profile \<ge> 3 \<and> epRecentCount profile \<ge> 1 \<and> successfulDiversity \<ge> 2
             then EvidenceQualityModerate
             else EvidenceQualityWeak)
      in \<lparr>eqQuality = quality, eqReasons = evidenceQualityReasons profile quality kinds\<rparr>)"

section \<open>Uncertainty\<close>

datatype MasteryConfidenceLabel = MasteryConfidenceLow | MasteryConfidenceMedium | MasteryConfidenceHigh

datatype MasteryUncertaintyReason =
    UncertaintyReasonFewObservations | UncertaintyReasonStaleEvidence
  | UncertaintyReasonHighErrorRate | UncertaintyReasonModelNearThreshold
  | UncertaintyReasonLowDiversity

record MasteryUncertainty =
  muUncertaintyScore :: f64
  muConfidenceLabel :: MasteryConfidenceLabel
  muReasons :: "MasteryUncertaintyReason list"

record MasteryEvidenceProfile =
  mpNow :: time
  mpMinObservations :: int
  mpStaleAfter :: duration
  mpRecentErrorWindow :: duration
  mpRecentErrorSampleSize :: int
  mpHighErrorRateMinObservations :: int
  mpHighErrorRateThreshold :: f64
  mpThresholdMargin :: f64
  mpMinDiversity :: int

definition clamp01 :: "f64 \<Rightarrow> f64" where
  "clamp01 v = (if isNaN v \<or> v < 0 then 0 else if v > 1 then 1 else v)"

definition masteryConfidenceLabel :: "f64 \<Rightarrow> MasteryConfidenceLabel" where
  "masteryConfidenceLabel score =
     (if score \<ge> 0.60 then MasteryConfidenceLow
      else if score \<ge> 0.33 then MasteryConfidenceMedium else MasteryConfidenceHigh)"

definition defaultMasteryEvidenceProfile :: MasteryEvidenceProfile where
  "defaultMasteryEvidenceProfile =
     \<lparr>mpNow = 0, mpMinObservations = 3, mpStaleAfter = 21 * 24 * hour, mpRecentErrorWindow = 7 * 24 * hour,
      mpRecentErrorSampleSize = 5, mpHighErrorRateMinObservations = 3, mpHighErrorRateThreshold = 0.50,
      mpThresholdMargin = 0.05, mpMinDiversity = 2\<rparr>"

definition applyOverride :: "MasteryEvidenceProfile \<Rightarrow> MasteryEvidenceProfile \<Rightarrow> MasteryEvidenceProfile" where
  "applyOverride ov p =
     \<lparr>mpNow = (if \<not> isZero (mpNow ov) then mpNow ov else mpNow p),
      mpMinObservations = (if mpMinObservations ov > 0 then mpMinObservations ov else mpMinObservations p),
      mpStaleAfter = (if mpStaleAfter ov > 0 then mpStaleAfter ov else mpStaleAfter p),
      mpRecentErrorWindow = (if mpRecentErrorWindow ov > 0 then mpRecentErrorWindow ov else mpRecentErrorWindow p),
      mpRecentErrorSampleSize =
        (if mpRecentErrorSampleSize ov > 0 then mpRecentErrorSampleSize ov else mpRecentErrorSampleSize p),
      mpHighErrorRateMinObservations =
        (if mpHighErrorRateMinObservations ov > 0 then mpHighErrorRateMinObservations ov
         else mpHighErrorRateMinObservations p),
      mpHighErrorRateThreshold =
        (if mpHighErrorRateThreshold ov > 0 then mpHighErrorRateThreshold ov else mpHighErrorRateThreshold p),
      mpThresholdMargin = (if mpThresholdMargin ov > 0 then mpThresholdMargin ov else mpThresholdMargin p),
      mpMinDiversity = (if mpMinDiversity ov > 0 then mpMinDiversity ov else mpMinDiversity p)\<rparr>"

definition normalizeMasteryEvidenceProfile :: "MasteryEvidenceProfile list \<Rightarrow> MasteryEvidenceProfile" where
  "normalizeMasteryEvidenceProfile profiles = fold applyOverride profiles defaultMasteryEvidenceProfile"

definition relevantMasteryInteractions ::
    "ConceptState option \<Rightarrow> Interaction option list \<Rightarrow> Interaction list" where
  "relevantMasteryInteractions cs interactions =
     (let concept = (case cs of Some c \<Rightarrow> csConcept c | None \<Rightarrow> '''')
      in sort_key (\<lambda>i. - inCreatedAt i)
           (filter (\<lambda>i. \<not> (concept \<noteq> '''' \<and> inConcept i \<noteq> concept)) (somes interactions)))"

definition latestMasteryEvidenceAt :: "ConceptState option \<Rightarrow> Interaction list \<Rightarrow> time" where
  "latestMasteryEvidenceAt cs interactions =
     (let latest = 0;
          latest = (case cs of
              None \<Rightarrow> latest
            | Some c \<Rightarrow>
                let latest = (case csLastReview c of
                    Some t \<Rightarrow> if t > latest then t else latest | None \<Rightarrow> latest)
                in if csUpdatedAt c > latest then csUpdatedAt c else latest)
      in fold (\<lambda>i latest. if inCreatedAt i > latest then inCreatedAt i else latest) interactions latest)"

definition isMasteryEvidenceStale ::
    "ConceptState option \<Rightarrow> Interaction list \<Rightarrow> MasteryEvidenceProfile \<Rightarrow> bool" where
  "isMasteryEvidenceStale cs interactions profile =
     (let latest = latestMasteryEvidenceAt cs interactions in
      if isZero (mpNow profile) \<or> isZero latest \<or> latest > mpNow profile then False
      else t_sub (mpNow profile) latest > mpStaleAfter profile)"

definition failure_ratio :: "Interaction list \<Rightarrow> f64 \<times> int" where
  "failure_ratio rows =
     (let total = int (length rows); failures = int (length (filter (\<lambda>i. \<not> inSuccess i) rows))
      in if total = 0 then (0, 0) else (f_of_int failures / f_of_int total, total))"

definition recentMasteryErrorRate :: "Interaction list \<Rightarrow> MasteryEvidenceProfile \<Rightarrow> f64 \<times> int" where
  "recentMasteryErrorRate interactions profile =
     (if \<not> isZero (mpNow profile) then
        let cutoff = mpNow profile - mpRecentErrorWindow profile in
        failure_ratio (filter (\<lambda>i. \<not> (isZero (inCreatedAt i) \<or> inCreatedAt i < cutoff)) interactions)
      else
        let limit = (if int (length interactions) < mpRecentErrorSampleSize profile
                     then int (length interactions) else mpRecentErrorSampleSize profile)
        in failure_ratio (take (nat limit) interactions))"

definition isMasteryNearThreshold :: "ConceptState option \<Rightarrow> f64 \<Rightarrow> bool" where
  "isMasteryNearThreshold cs margin =
     (case cs of
        None \<Rightarrow> False
      | Some c \<Rightarrow>
          if margin \<le> 0 \<or> isNaN (csPMastery c) \<or> isInf (csPMastery c) then False
          else fabs (csPMastery c - MasteryBKT) \<le> margin)"

definition masteryEvidenceDiversity :: "Interaction list \<Rightarrow> int" where
  "masteryEvidenceDiversity interactions = int (length (remdups (map inActivityType interactions)))"

text \<open>Each signal of \<open>ComputeMasteryUncertainty\<close>: its reason and what it adds to the score.\<close>

type_synonym signals = "(MasteryUncertaintyReason \<times> f64) list"

definition observation_count :: "ConceptState option \<Rightarrow> Interaction list \<Rightarrow> int" where
  "observation_count cs relevant =
     (case cs of
        Some c \<Rightarrow> if csReps c > int (length relevant) then csReps c else int (length relevant)
      | None \<Rightarrow> int (length relevant))"

definition few_signal :: "int \<Rightarrow> MasteryEvidenceProfile \<Rightarrow> signals" where
  "few_signal observationCount profile =
     (if observationCount < mpMinObservations profile then
        let missingRatio = f_of_int (mpMinObservations profile - observationCount)
                           / f_of_int (mpMinObservations profile)
        in [(UncertaintyReasonFewObservations, 0.45 + 0.25 * missingRatio)] else [])"

definition stale_signal :: "ConceptState option \<Rightarrow> Interaction list \<Rightarrow> MasteryEvidenceProfile \<Rightarrow> signals" where
  "stale_signal cs relevant profile =
     (if isMasteryEvidenceStale cs relevant profile then [(UncertaintyReasonStaleEvidence, 0.30)] else [])"

definition error_signal :: "Interaction list \<Rightarrow> MasteryEvidenceProfile \<Rightarrow> signals" where
  "error_signal relevant profile =
     (let (errorRate, count) = recentMasteryErrorRate relevant profile in
      if count \<ge> mpHighErrorRateMinObservations profile \<and> errorRate \<ge> mpHighErrorRateThreshold profile
      then [(UncertaintyReasonHighErrorRate, 0.20 + 0.30 * errorRate)] else [])"

definition near_signal :: "ConceptState option \<Rightarrow> MasteryEvidenceProfile \<Rightarrow> signals" where
  "near_signal cs profile =
     (case cs of
        None \<Rightarrow> []
      | Some c \<Rightarrow>
          if isMasteryNearThreshold cs (mpThresholdMargin profile) then
            let distance = fabs (csPMastery c - MasteryBKT);
                closeness = 1 - distance / mpThresholdMargin profile
            in [(UncertaintyReasonModelNearThreshold, 0.20 + 0.20 * clamp01 closeness)]
          else [])"

definition diversity_signal :: "int \<Rightarrow> Interaction list \<Rightarrow> MasteryEvidenceProfile \<Rightarrow> signals" where
  "diversity_signal observationCount relevant profile =
     (if observationCount \<ge> mpMinObservations profile \<and> length relevant > 0
         \<and> masteryEvidenceDiversity relevant < mpMinDiversity profile
      then [(UncertaintyReasonLowDiversity, 0.20)] else [])"

definition uncertainty_signals ::
    "ConceptState option \<Rightarrow> Interaction list \<Rightarrow> MasteryEvidenceProfile \<Rightarrow> signals" where
  "uncertainty_signals cs relevant profile =
     few_signal (observation_count cs relevant) profile @ stale_signal cs relevant profile
     @ error_signal relevant profile @ near_signal cs profile
     @ diversity_signal (observation_count cs relevant) relevant profile"

definition ComputeMasteryUncertainty ::
    "ConceptState option \<Rightarrow> Interaction option list \<Rightarrow> MasteryEvidenceProfile list \<Rightarrow> MasteryUncertainty" where
  "ComputeMasteryUncertainty cs interactions profiles =
     (let profile = normalizeMasteryEvidenceProfile profiles;
          relevant = relevantMasteryInteractions cs interactions;
          signals = uncertainty_signals cs relevant profile;
          score = clamp01 (fold (\<lambda>(r, w) score. score + w) signals 0.0)
      in \<lparr>muUncertaintyScore = score, muConfidenceLabel = masteryConfidenceLabel score,
          muReasons = map fst signals\<rparr>)"

section \<open>Lemmas\<close>

lemma evidenceKind_trim [simp]: "evidenceKind (trim_space t) = evidenceKind t"
  by (simp add: evidenceKind_def)

lemma set_sortedKeys [simp]: "set (sortedKeys xs) = set xs" "distinct (sortedKeys xs)" "sorted (sortedKeys xs)"
  by (simp_all add: sortedKeys_def)

lemma length_sortedKeys [simp]: "length (sortedKeys xs) = length (remdups xs)"
  by (simp add: sortedKeys_def)

lemma successful_kind_row:
  assumes "k \<in> successfulEvidenceKinds (BuildEvidenceProfileWithWindow l c ints now w)"
  shows "\<exists>i \<in> set (evidence_rows l c ints). inSuccess i \<and> evidenceKind (inActivityType i) = k"
  using assms
  by (auto simp: successfulEvidenceKinds_def BuildEvidenceProfileWithWindow_def Let_def)

lemma clamp01_unit [simp]: "unit_f64 (clamp01 v)"
  by (cases v) (auto simp: clamp01_def)

lemma clamp01_id: "unit_f64 v \<Longrightarrow> clamp01 v = v"
  by (auto simp: clamp01_def elim!: unit_f64E)

lemma fold_positive_signals:
  assumes "\<forall>(r, w) \<in> set sigs. Fin 0 \<le> w" and "Fin a \<le> s"
  shows "Fin a \<le> fold (\<lambda>(r, w) score. score + w) sigs s"
  using assms
proof (induction sigs arbitrary: s)
  case Nil
  then show ?case by simp
next
  case (Cons x sigs)
  obtain r w where x: "x = (r, w)" by (cases x)
  have "Fin 0 \<le> w" using Cons.prems(1) by (simp add: x)
  then have "Fin a \<le> s + w" using Cons.prems(2)
    by (cases s; cases w) (auto simp: plus_f64_def)
  with Cons show ?case by (simp add: x)
qed

lemma failure_ratio_unit: "unit_f64 (fst (failure_ratio rows))"
proof (cases rows)
  case (Cons r rs)
  have "real (length (filter (\<lambda>i. \<not> inSuccess i) rows)) \<le> real (length rows)" by simp
  then show ?thesis using Cons by (auto simp: failure_ratio_def Let_def divide_le_eq)
qed (simp add: failure_ratio_def)

lemma errorRate_nonneg: "Fin 0 \<le> fst (recentMasteryErrorRate rows p)"
  using failure_ratio_unit by (auto simp: recentMasteryErrorRate_def Let_def unit_f64_def)

definition signal_of :: "MasteryUncertaintyReason \<Rightarrow> signals \<Rightarrow> bool" where
  "signal_of r sigs \<longleftrightarrow> sigs = [] \<or> (\<exists>w. sigs = [(r, w)] \<and> Fin 0 \<le> w)"

lemma signal_of_intros [intro]:
  "signal_of r []" "Fin 0 \<le> w \<Longrightarrow> signal_of r [(r, w)]"
  by (auto simp: signal_of_def)

lemma signal_shapes:
  "0 < mpMinObservations p \<Longrightarrow> signal_of UncertaintyReasonFewObservations (few_signal k p)"
  "signal_of UncertaintyReasonStaleEvidence (stale_signal cs rows p)"
  "signal_of UncertaintyReasonHighErrorRate (error_signal rows p)"
  "signal_of UncertaintyReasonModelNearThreshold (near_signal cs p)"
  "signal_of UncertaintyReasonLowDiversity (diversity_signal k rows p)"
proof -
  show "0 < mpMinObservations p \<Longrightarrow> signal_of UncertaintyReasonFewObservations (few_signal k p)"
    by (auto simp: few_signal_def)
  show "signal_of UncertaintyReasonStaleEvidence (stale_signal cs rows p)" by (auto simp: stale_signal_def)
  show "signal_of UncertaintyReasonLowDiversity (diversity_signal k rows p)" by (auto simp: diversity_signal_def)
  obtain e n where en: "recentMasteryErrorRate rows p = (e, n)" by fastforce
  have "Fin 0 \<le> e" using errorRate_nonneg[of rows p] en by simp
  then have "Fin 0 \<le> 0.20 + 0.30 * e" by (cases e) (auto simp: times_f64_def finf_def plus_f64_def)
  then show "signal_of UncertaintyReasonHighErrorRate (error_signal rows p)"
    unfolding error_signal_def en Let_def prod.case by auto
  have "Fin 0 \<le> 0.20 + 0.20 * clamp01 v" for v
  proof -
    obtain u where "clamp01 v = Fin u" "0 \<le> u" using clamp01_unit by (rule unit_f64E)
    then show ?thesis by simp
  qed
  then show "signal_of UncertaintyReasonModelNearThreshold (near_signal cs p)"
    unfolding near_signal_def Let_def by (auto split: option.split)
qed

lemma uncertainty_signals_nonneg:
  assumes "0 < mpMinObservations p"
  shows "\<forall>(r, w) \<in> set (uncertainty_signals cs rows p). Fin 0 \<le> w"
  using signal_shapes(1)[OF assms, of "observation_count cs rows"] signal_shapes(2)[of cs rows p]
    signal_shapes(3)[of rows p] signal_shapes(4)[of cs p] signal_shapes(5)[of "observation_count cs rows" rows p]
  by (auto simp: uncertainty_signals_def signal_of_def)

lemma signal_distinct: "signal_of r sigs \<Longrightarrow> distinct (map fst sigs) \<and> fst ` set sigs \<subseteq> {r}"
  by (auto simp: signal_of_def)

lemma uncertainty_signals_distinct:
  assumes "0 < mpMinObservations p"
  shows "distinct (map fst (uncertainty_signals cs rows p))"
  using signal_shapes(1)[OF assms, of "observation_count cs rows"] signal_shapes(2)[of cs rows p]
    signal_shapes(3)[of rows p] signal_shapes(4)[of cs p] signal_shapes(5)[of "observation_count cs rows" rows p]
  by (auto simp: uncertainty_signals_def signal_of_def)

lemma normalize_positive: "0 < mpMinObservations (normalizeMasteryEvidenceProfile ps)"
proof -
  have "0 < mpMinObservations p \<Longrightarrow> 0 < mpMinObservations (fold applyOverride ps p)" for p
    by (induction ps arbitrary: p) (auto simp: applyOverride_def)
  then show ?thesis by (simp add: normalizeMasteryEvidenceProfile_def defaultMasteryEvidenceProfile_def)
qed

lemma few_observations_first:
  assumes "0 < mpMinObservations p"
    and "UncertaintyReasonFewObservations \<in> set (map fst (uncertainty_signals cs rows p))"
  shows "\<exists>w sigs. uncertainty_signals cs rows p = (UncertaintyReasonFewObservations, w) # sigs \<and> Fin (9/20) \<le> w"
proof -
  have "UncertaintyReasonFewObservations \<in> fst ` set (few_signal (observation_count cs rows) p)"
    using assms(2) signal_shapes(2-5)[THEN signal_distinct, THEN conjunct2]
    unfolding uncertainty_signals_def by (fastforce dest!: subsetD)
  then obtain w where "few_signal (observation_count cs rows) p = [(UncertaintyReasonFewObservations, w)]" "Fin (9/20) \<le> w"
    using assms(1) by (auto simp: few_signal_def split: if_splits)
  then show ?thesis by (simp add: uncertainty_signals_def)
qed

lemma label_not_high:
  assumes "Fin (9/20) \<le> v"
  shows "masteryConfidenceLabel (clamp01 v) \<noteq> MasteryConfidenceHigh"
  using assms by (cases v) (auto simp: clamp01_def masteryConfidenceLabel_def)

section \<open>Properties\<close>

text \<open>Strong mastery evidence is always backed by rows of this learner on this concept: at least
  five interactions, at least two of them inside the 14-day window, one successful mastery challenge
  and one successful Feynman or transfer activity, over at least three successful activity types.\<close>

lemma strong_evidence_is_backed:
  assumes "eqQuality (MasteryEvidenceQuality (BuildEvidenceProfile l c ints now)) = EvidenceQualityStrong"
  shows "let rows = evidence_rows l c ints in
    5 \<le> length rows \<and>
    2 \<le> length (filter (\<lambda>i. inCreatedAt i \<noteq> 0 \<and> now - DefaultEvidenceRecentWindow \<le> inCreatedAt i) rows) \<and>
    (\<exists>i \<in> set rows. inSuccess i \<and> evidenceKind (inActivityType i) = ''mastery'') \<and>
    (\<exists>i \<in> set rows. inSuccess i \<and> evidenceKind (inActivityType i) \<in> {''feynman'', ''transfer''}) \<and>
    3 \<le> card (trim_space ` inActivityType ` {i \<in> set rows. inSuccess i})"
proof -
  let ?rows = "evidence_rows l c ints"
  let ?p = "BuildEvidenceProfileWithWindow l c ints now DefaultEvidenceRecentWindow"
  have q: "epCount ?p \<ge> 5" "epRecentCount ?p \<ge> 2" "3 \<le> length (epSuccessfulTypes ?p)"
    "''mastery'' \<in> successfulEvidenceKinds ?p"
    "''feynman'' \<in> successfulEvidenceKinds ?p \<or> ''transfer'' \<in> successfulEvidenceKinds ?p"
    using assms by (auto simp: MasteryEvidenceQuality_def BuildEvidenceProfile_def Let_def split: if_splits)
  have "length (filter (\<lambda>i. (now \<noteq> 0 \<and> DefaultEvidenceRecentWindow > 0) \<and> inCreatedAt i \<noteq> 0 \<and>
      \<not> inCreatedAt i < now - DefaultEvidenceRecentWindow) ?rows)
    \<le> length (filter (\<lambda>i. inCreatedAt i \<noteq> 0 \<and> now - DefaultEvidenceRecentWindow \<le> inCreatedAt i) ?rows)"
    by (rule length_filter_mono) auto
  then have recent: "2 \<le> length (filter (\<lambda>i. inCreatedAt i \<noteq> 0 \<and> now - DefaultEvidenceRecentWindow \<le> inCreatedAt i) ?rows)"
    using q(2) by (simp add: BuildEvidenceProfileWithWindow_def Let_def isZero_def)
  have "length (epSuccessfulTypes ?p) = card (set (epSuccessfulTypes ?p))"
    by (rule distinct_card[symmetric]) (simp add: BuildEvidenceProfileWithWindow_def Let_def)
  also have "\<dots> \<le> card (trim_space ` inActivityType ` {i \<in> set ?rows. inSuccess i})"
    by (rule card_mono) (auto simp: BuildEvidenceProfileWithWindow_def Let_def)
  finally show ?thesis
    using q recent successful_kind_row[OF q(4)] successful_kind_row[of "''feynman''" l c ints now DefaultEvidenceRecentWindow]
      successful_kind_row[of "''transfer''" l c ints now DefaultEvidenceRecentWindow]
    by (auto simp: Let_def BuildEvidenceProfileWithWindow_def[of l c ints now])
qed

definition example_interaction :: "string \<Rightarrow> time \<Rightarrow> Interaction" where
  "example_interaction activity t =
     \<lparr>inID = 0, inLearnerID = ''l'', inSessionID = '''', inAssessmentAttemptID = '''', inConcept = ''c'',
      inActivityType = activity, inSuccess = True, inResponseTime = 0, inConfidence = 0, inErrorType = '''',
      inNotes = '''', inHintsRequested = 0, inSelfInitiated = False, inCalibrationID = '''',
      inIsProactiveReview = False, inMisconceptionType = '''', inMisconceptionDetail = '''', inDomainID = '''',
      inBKTSlip = None, inBKTGuess = None, inRubricJSON = '''', inRubricScoreJSON = '''', inCreatedAt = t\<rparr>"

text \<open>The uncertainty score is in [0,1] for every state, history and tuning profile, its label is
  the band of the score, no reason is reported twice, and an estimate with fewer observations than
  required is never labelled high confidence.\<close>

lemma ComputeMasteryUncertainty_sound:
  "let u = ComputeMasteryUncertainty cs ints ps in
   unit_f64 (muUncertaintyScore u) \<and> muConfidenceLabel u = masteryConfidenceLabel (muUncertaintyScore u) \<and>
   distinct (muReasons u) \<and>
   (UncertaintyReasonFewObservations \<in> set (muReasons u) \<longrightarrow> muConfidenceLabel u \<noteq> MasteryConfidenceHigh)"
proof -
  let ?p = "normalizeMasteryEvidenceProfile ps" and ?rows = "relevantMasteryInteractions cs ints"
  let ?sig = "uncertainty_signals cs ?rows ?p"
  have d: "distinct (map fst ?sig)" by (rule uncertainty_signals_distinct[OF normalize_positive])
  have "masteryConfidenceLabel (clamp01 (fold (\<lambda>(r, w) score. score + w) ?sig 0.0)) \<noteq> MasteryConfidenceHigh"
    if few: "UncertaintyReasonFewObservations \<in> set (map fst ?sig)"
  proof -
    obtain w sigs where w: "?sig = (UncertaintyReasonFewObservations, w) # sigs" "Fin (9/20) \<le> w"
      using few_observations_first[OF normalize_positive few] by blast
    have nn: "\<forall>(r, w) \<in> set sigs. Fin 0 \<le> w"
      using uncertainty_signals_nonneg[OF normalize_positive, of cs ?rows ps] by (simp add: w(1))
    have "Fin (9/20) \<le> 0.0 + w" using w(2) by (cases w) (simp_all add: plus_f64_def)
    from fold_positive_signals[OF nn this] show ?thesis
      unfolding w(1) by (intro label_not_high) simp
  qed
  with d show ?thesis by (auto simp: ComputeMasteryUncertainty_def Let_def)
qed

end
