(* ===== verification/Transfer_Model.thy ===== *)
theory Transfer_Model
  imports Evidence "HOL-Library.Multiset"
begin

text \<open>
  The transfer model, \<open>engine/transfer_model.go\<close>: five canonical dimensions, one bucket of scores
  per dimension, the aggregate profile with its readiness label, and the trusted profile with its
  blocking failures. Go's map of buckets over the canonical dimensions is a function; its map of
  the latest observation per dimension is a partial function iterated in the canonical order (the
  counters and the maximum it accumulates do not depend on the order).
\<close>

section \<open>Data\<close>

datatype TransferDimension =
    TransferDimensionNear | TransferDimensionFar | TransferDimensionDebugging
  | TransferDimensionTeaching | TransferDimensionCreative

datatype TransferReadinessLabel =
    TransferReadinessUnobserved | TransferReadinessBlocked | TransferReadinessNarrow
  | TransferReadinessDeveloping | TransferReadinessReady | TransferReadinessRobust

datatype TransferEvidenceTrust = TransferEvidenceUnverified | TransferEvidenceTrusted

definition TransferFailureThreshold :: f64 where "TransferFailureThreshold = 0.50"
definition TransferPassingThreshold :: f64 where "TransferPassingThreshold = 0.60"
definition TransferReadyScoreThreshold :: f64 where "TransferReadyScoreThreshold = 0.65"
definition TransferRobustScoreThreshold :: f64 where "TransferRobustScoreThreshold = 0.80"
definition TransferBlockingFailureWindow :: duration where "TransferBlockingFailureWindow = 30 * 24 * hour"

definition canonicalTransferDimensions :: "TransferDimension list" where
  "canonicalTransferDimensions =
     [TransferDimensionNear, TransferDimensionFar, TransferDimensionDebugging,
      TransferDimensionTeaching, TransferDimensionCreative]"

record TransferDimensionSummary =
  tsDimension :: TransferDimension
  tsAttempts :: int
  tsAverageScore :: f64
  tsBestScore :: f64
  tsCovered :: bool
  tsPassing :: bool
  tsFailureCount :: int

record TransferProfile =
  tpConcept :: string
  tpGlobalScore :: f64
  tpObservedScore :: f64
  tpCoverage :: f64
  tpPassingCoverage :: f64
  tpFailureRate :: f64
  tpAttempts :: int
  tpFailureCount :: int
  tpBlockingFailures :: int
  tpLatestFailureAt :: "time option"
  tpUnknownCount :: int
  tpCoveredDimensions :: "TransferDimension list"
  tpMissingDimensions :: "TransferDimension list"
  tpWeakestDimensions :: "TransferDimension list"
  tpReadinessLabel :: TransferReadinessLabel
  tpEvidenceTrust :: TransferEvidenceTrust
  tpDimensionSummaries :: "TransferDimensionSummary list"

record transferDimensionBucket =
  tbAttempts :: int
  tbSum :: f64
  tbBest :: f64
  tbFailureCount :: int

section \<open>Operations\<close>

definition NormalizeTransferDimension :: "string \<Rightarrow> TransferDimension option" where
  "NormalizeTransferDimension contextType =
     (let t = to_lower (trim_space contextType) in
      if t = ''near'' then Some TransferDimensionNear
      else if t = ''far'' \<or> t = ''real_world'' \<or> t = ''interview'' then Some TransferDimensionFar
      else if t = ''debugging'' then Some TransferDimensionDebugging
      else if t = ''teaching'' then Some TransferDimensionTeaching
      else if t = ''creative'' then Some TransferDimensionCreative
      else None)"

definition roundTransferScore :: "f64 \<Rightarrow> f64" where
  "roundTransferScore v = fround (v * 10000) / 10000"

definition clampTransferScore :: "f64 \<Rightarrow> f64" where
  "clampTransferScore v = (if isNaN v \<or> v < 0 then 0 else if v > 1 then 1 else v)"

definition transferReadinessLabel :: "int \<Rightarrow> f64 \<Rightarrow> f64 \<Rightarrow> f64 \<Rightarrow> f64 \<Rightarrow> TransferReadinessLabel" where
  "transferReadinessLabel attempts coverage passingCoverage observedScore minObservedScore =
     (if attempts = 0 then TransferReadinessUnobserved
      else if minObservedScore < TransferFailureThreshold \<or> observedScore < TransferFailureThreshold
      then TransferReadinessBlocked
      else if coverage < 0.40 then TransferReadinessNarrow
      else if passingCoverage \<ge> 0.80 \<and> observedScore \<ge> TransferRobustScoreThreshold then TransferReadinessRobust
      else if passingCoverage \<ge> 0.60 \<and> observedScore \<ge> TransferReadyScoreThreshold then TransferReadinessReady
      else TransferReadinessDeveloping)"

text \<open>The first loop: records of the concept fill the buckets; unknown contexts are counted apart.\<close>

definition empty_bucket :: transferDimensionBucket where
  "empty_bucket = \<lparr>tbAttempts = 0, tbSum = 0, tbBest = 0, tbFailureCount = 0\<rparr>"

definition bucket_add :: "f64 \<Rightarrow> transferDimensionBucket \<Rightarrow> transferDimensionBucket" where
  "bucket_add value b =
     \<lparr>tbAttempts = tbAttempts b + 1, tbSum = tbSum b + value,
      tbBest = (if tbAttempts b + 1 = 1 \<or> value > tbBest b then value else tbBest b),
      tbFailureCount = (if value < TransferFailureThreshold then tbFailureCount b + 1 else tbFailureCount b)\<rparr>"

definition concept_records :: "string \<Rightarrow> TransferRecord option list \<Rightarrow> TransferRecord list" where
  "concept_records concept scores =
     filter (\<lambda>r. \<not> (concept \<noteq> '''' \<and> trConceptID r \<noteq> concept)) (somes scores)"

definition transfer_buckets :: "TransferRecord list \<Rightarrow> TransferDimension \<Rightarrow> transferDimensionBucket" where
  "transfer_buckets records =
     fold (\<lambda>r bs. case NormalizeTransferDimension (trContextType r) of
               None \<Rightarrow> bs
             | Some d \<Rightarrow> bs(d := bucket_add (clampTransferScore (trScore r)) (bs d)))
       records (\<lambda>_. empty_bucket)"

definition dimension_summary ::
    "(TransferDimension \<Rightarrow> transferDimensionBucket) \<Rightarrow> TransferDimension \<Rightarrow> TransferDimensionSummary" where
  "dimension_summary buckets d =
     (let b = buckets d in
      if tbAttempts b > 0 then
        let average = roundTransferScore (tbSum b / f_of_int (tbAttempts b)) in
        \<lparr>tsDimension = d, tsAttempts = tbAttempts b, tsAverageScore = average,
         tsBestScore = roundTransferScore (tbBest b), tsCovered = True,
         tsPassing = (average \<ge> TransferPassingThreshold), tsFailureCount = tbFailureCount b\<rparr>
      else
        \<lparr>tsDimension = d, tsAttempts = tbAttempts b, tsAverageScore = 0, tsBestScore = 0,
         tsCovered = False, tsPassing = False, tsFailureCount = tbFailureCount b\<rparr>)"

text \<open>The weakest dimensions and the least average, over the covered summaries in order.\<close>

fun weakest_loop :: "TransferDimensionSummary list \<Rightarrow> f64 \<times> TransferDimension list \<Rightarrow> f64 \<times> TransferDimension list" where
  "weakest_loop [] acc = acc"
| "weakest_loop (s # rest) (m, ws) =
     weakest_loop rest
       (if tsAverageScore s < m then (tsAverageScore s, [tsDimension s])
        else if feq (tsAverageScore s) m then (m, ws @ [tsDimension s])
        else (m, ws))"

definition BuildTransferProfile :: "string \<Rightarrow> TransferRecord option list \<Rightarrow> TransferProfile" where
  "BuildTransferProfile concept scores =
     (let records = concept_records concept scores;
          known = filter (\<lambda>r. NormalizeTransferDimension (trContextType r) \<noteq> None) records;
          buckets = transfer_buckets records;
          attempts = int (length known);
          failureCount = int (length (filter (\<lambda>r. clampTransferScore (trScore r) < TransferFailureThreshold) known));
          summaries = map (dimension_summary buckets) canonicalTransferDimensions;
          covered = filter tsCovered summaries;
          totalObservedScore = fold (\<lambda>s t. t + tsAverageScore s) covered 0.0;
          coveredCount = int (length covered);
          passingCount = int (length (filter tsPassing covered));
          (minObservedScore, weakest) = weakest_loop covered (PInf, []);
          dimensionCount = f_of_int (int (length canonicalTransferDimensions));
          observedScore = (if coveredCount > 0 then roundTransferScore (totalObservedScore / f_of_int coveredCount) else 0);
          coverage = roundTransferScore (f_of_int coveredCount / dimensionCount);
          passingCoverage = roundTransferScore (f_of_int passingCount / dimensionCount)
      in \<lparr>tpConcept = concept,
          tpGlobalScore = roundTransferScore (totalObservedScore / dimensionCount),
          tpObservedScore = observedScore, tpCoverage = coverage, tpPassingCoverage = passingCoverage,
          tpFailureRate = (if attempts > 0 then roundTransferScore (f_of_int failureCount / f_of_int attempts) else 0),
          tpAttempts = attempts, tpFailureCount = failureCount, tpBlockingFailures = 0,
          tpLatestFailureAt = None, tpUnknownCount = int (length records) - attempts,
          tpCoveredDimensions = map tsDimension covered,
          tpMissingDimensions = map tsDimension (filter (\<lambda>s. \<not> tsCovered s) summaries),
          tpWeakestDimensions = weakest,
          tpReadinessLabel = transferReadinessLabel attempts coverage passingCoverage observedScore minObservedScore,
          tpEvidenceTrust = TransferEvidenceUnverified, tpDimensionSummaries = summaries\<rparr>)"

text \<open>The latest observation per dimension: a later record replaces an earlier one, a tie does not.\<close>

definition latest_observations :: "TransferRecord list \<Rightarrow> TransferDimension \<rightharpoonup> time \<times> f64" where
  "latest_observations records =
     fold (\<lambda>r m. case NormalizeTransferDimension (trContextType r) of
               None \<Rightarrow> m
             | Some d \<Rightarrow>
                 if (case m d of None \<Rightarrow> True | Some (t0, _) \<Rightarrow> trCreatedAt r > t0)
                 then m(d \<mapsto> (trCreatedAt r, clampTransferScore (trScore r))) else m)
       records Map.empty"

definition blocking_observation :: "time \<Rightarrow> time \<times> f64 \<Rightarrow> bool" where
  "blocking_observation now obs =
     (case obs of (t0, score) \<Rightarrow>
        \<not> score \<ge> TransferFailureThreshold \<and>
        \<not> (\<not> isZero now \<and> \<not> isZero t0 \<and> t_sub now t0 > TransferBlockingFailureWindow))"

definition BuildTrustedTransferProfileAt :: "string \<Rightarrow> TransferRecord option list \<Rightarrow> time \<Rightarrow> TransferProfile" where
  "BuildTrustedTransferProfileAt concept scores now =
     (let profile = (BuildTransferProfile concept scores)\<lparr>tpEvidenceTrust := TransferEvidenceTrusted\<rparr>;
          latest = latest_observations (concept_records concept scores);
          blocking = filter (\<lambda>obs. blocking_observation now obs)
                       (somes (map latest canonicalTransferDimensions));
          latestFailure = fold (\<lambda>(t0, _) m. if \<not> isZero t0 \<and> (case m of None \<Rightarrow> True | Some t \<Rightarrow> t0 > t)
                                               then Some t0 else m) blocking None;
          profile = profile\<lparr>tpBlockingFailures := int (length blocking), tpLatestFailureAt := latestFailure\<rparr>
      in if tpBlockingFailures profile > 0 then profile\<lparr>tpReadinessLabel := TransferReadinessBlocked\<rparr>
         else profile)"

definition BuildTrustedTransferProfile :: "string \<Rightarrow> TransferRecord option list \<Rightarrow> TransferProfile" where
  "BuildTrustedTransferProfile concept scores = BuildTrustedTransferProfileAt concept scores 0"

section \<open>Buckets\<close>

lemma clampTransferScore_unit: "unit_f64 (clampTransferScore v)"
  by (cases v) (auto simp: clampTransferScore_def)

lemma clampTransferScore_Fin: "clampTransferScore v = Fin (real_of (clampTransferScore v))"
  using clampTransferScore_unit[of v] by (auto elim: unit_f64E)

text \<open>The clamped scores of one dimension, as real numbers, in the order of the records.\<close>

definition dimension_scores :: "TransferRecord list \<Rightarrow> TransferDimension \<Rightarrow> real list" where
  "dimension_scores records d =
     map (\<lambda>r. real_of (clampTransferScore (trScore r)))
       (filter (\<lambda>r. NormalizeTransferDimension (trContextType r) = Some d) records)"

lemma dimension_scores_range: "x \<in> set (dimension_scores records d) \<Longrightarrow> 0 \<le> x \<and> x \<le> 1"
  using clampTransferScore_unit by (auto simp: dimension_scores_def elim!: unit_f64E) (metis clampTransferScore_unit unit_f64E real_of.simps(1))+

lemma transfer_buckets_fold:
  "transfer_buckets records d = fold (\<lambda>x. bucket_add (Fin x)) (dimension_scores records d) empty_bucket"
proof -
  let ?f = "\<lambda>r bs. case NormalizeTransferDimension (trContextType r) of
      None \<Rightarrow> bs | Some d \<Rightarrow> bs(d := bucket_add (clampTransferScore (trScore r)) (bs d))"
  have "fold ?f records bs d = fold (\<lambda>x. bucket_add (Fin x)) (dimension_scores records d) (bs d)" for bs
  proof (induction records arbitrary: bs)
    case (Cons r rs)
    show ?case
      using clampTransferScore_Fin[of "trScore r"]
      by (auto simp: Cons.IH dimension_scores_def split: option.split)
  qed (simp add: dimension_scores_def)
  then show ?thesis by (simp add: transfer_buckets_def)
qed

definition scores_bucket :: "real list \<Rightarrow> transferDimensionBucket" where
  "scores_bucket xs =
     \<lparr>tbAttempts = int (length xs), tbSum = Fin (sum_list xs),
      tbBest = Fin (if xs = [] then 0 else Max (set xs)),
      tbFailureCount = int (length (filter (\<lambda>x. x < 1/2) xs))\<rparr>"

lemma scores_bucket_snoc: "scores_bucket (xs @ [x]) = bucket_add (Fin x) (scores_bucket xs)"
proof (cases "xs = []")
  case False
  have "Max (insert x (set xs)) = max x (Max (set xs))" by (rule Max_insert) (use False in auto)
  moreover have "max x m = (if x > m then x else m)" for m :: real by auto
  ultimately have "Max (set (xs @ [x])) = (if x > Max (set xs) then x else Max (set xs))"
    by (simp del: Max_insert Max_less_iff)
  with False show ?thesis
    by (simp add: scores_bucket_def bucket_add_def TransferFailureThreshold_def del: set_append Max_less_iff)
qed (auto simp: scores_bucket_def bucket_add_def TransferFailureThreshold_def)

lemma fold_scores_bucket: "fold (\<lambda>x. bucket_add (Fin x)) xs empty_bucket = scores_bucket xs"
proof (induction xs rule: rev_induct)
  case Nil
  show ?case by (simp add: scores_bucket_def empty_bucket_def)
next
  case (snoc x xs)
  then show ?case by (simp add: scores_bucket_snoc)
qed

section \<open>Ranges and readiness\<close>

lemma roundTransferScore_Fin: "roundTransferScore (Fin x) = Fin (round_half_away (x * 10000) / 10000)"
  by (simp add: roundTransferScore_def)

lemma round_half_away_mono: "0 \<le> x \<Longrightarrow> x \<le> y \<Longrightarrow> round_half_away x \<le> round_half_away y"
  by (simp add: round_half_away_def floor_mono)

lemma round_half_away_int: "round_half_away (of_int n) = of_int n"
proof -
  have "\<lfloor>real_of_int n + 1/2\<rfloor> = n" "\<lfloor>- real_of_int n + 1/2\<rfloor> = - n" by linarith+
  then show ?thesis by (simp add: round_half_away_def)
qed

lemma roundTransferScore_unit:
  assumes "unit_f64 v"
  shows "unit_f64 (roundTransferScore v)"
proof -
  obtain x where x: "v = Fin x" "0 \<le> x" "x \<le> 1" using assms by (rule unit_f64E)
  have "round_half_away 0 \<le> round_half_away (x * 10000)" "round_half_away (x * 10000) \<le> round_half_away 10000"
    using x by (auto intro!: round_half_away_mono)
  moreover have "round_half_away 0 = 0" "round_half_away 10000 = 10000"
    using round_half_away_int[of 0] round_half_away_int[of 10000] by simp_all
  ultimately show ?thesis by (simp add: x(1) roundTransferScore_Fin)
qed

lemma roundTransferScore_fifths: "roundTransferScore (f_of_int n / f_of_int 5) = Fin (of_int n / 5)"
proof -
  have "round_half_away (real_of_int (n * 2000)) = of_int (n * 2000)" by (rule round_half_away_int)
  then show ?thesis by (simp add: roundTransferScore_Fin mult.commute)
qed

lemma sum_list_unit: "\<forall>x \<in> set xs. 0 \<le> x \<and> x \<le> (1 :: real) \<Longrightarrow> 0 \<le> sum_list xs \<and> sum_list xs \<le> real (length xs)"
  by (induction xs) auto

lemma dimension_summary_unit:
  "unit_f64 (tsAverageScore (dimension_summary (transfer_buckets records) d))"
proof -
  let ?xs = "dimension_scores records d"
  have "0 \<le> sum_list ?xs \<and> sum_list ?xs \<le> real (length ?xs)"
    using dimension_scores_range by (intro sum_list_unit) blast
  then have "?xs \<noteq> [] \<Longrightarrow> unit_f64 (Fin (sum_list ?xs) / Fin (real (length ?xs)))"
    by (simp add: divide_le_eq)
  then show ?thesis
    by (auto simp: dimension_summary_def transfer_buckets_fold fold_scores_bucket scores_bucket_def Let_def
        intro!: roundTransferScore_unit)
qed

lemma weakest_loop_min:
  assumes "\<forall>s \<in> set ss. is_fin (tsAverageScore s)" and "m \<noteq> NaN"
  shows "let r = fst (weakest_loop ss (m, ws)) in r \<noteq> NaN \<and> r \<le> m \<and> (\<forall>s \<in> set ss. r \<le> tsAverageScore s)"
  using assms
proof (induction ss arbitrary: m ws)
  case Nil
  then show ?case by (cases m) simp_all
next
  case (Cons s ss)
  obtain x where x: "tsAverageScore s = Fin x" using Cons.prems(1) by (auto simp: is_fin_iff)
  define m' where "m' = (if tsAverageScore s < m then tsAverageScore s else m)"
  define ws' where "ws' = (if tsAverageScore s < m then [tsDimension s]
    else if feq (tsAverageScore s) m then ws @ [tsDimension s] else ws)"
  have "weakest_loop (s # ss) (m, ws) = weakest_loop ss (m', ws')" by (simp add: m'_def ws'_def)
  moreover have "m' \<noteq> NaN" "m' \<le> m" "m' \<le> tsAverageScore s"
    using Cons.prems(2) x by (cases m; auto simp: m'_def)+
  ultimately show ?case
    using Cons.IH[of m' ws'] Cons.prems(1) by (auto simp: Let_def intro: f64_le_trans)
qed

text \<open>The summaries of a profile, in the canonical order.\<close>

definition profile_summaries :: "string \<Rightarrow> TransferRecord option list \<Rightarrow> TransferDimensionSummary list" where
  "profile_summaries c scores =
     map (dimension_summary (transfer_buckets (concept_records c scores))) canonicalTransferDimensions"

lemma BuildTransferProfile_label:
  "tpReadinessLabel (BuildTransferProfile c scores) =
     transferReadinessLabel
       (int (length (filter (\<lambda>r. NormalizeTransferDimension (trContextType r) \<noteq> None) (concept_records c scores))))
       (roundTransferScore (f_of_int (int (length (filter tsCovered (profile_summaries c scores)))) / f_of_int 5))
       (roundTransferScore (f_of_int (int (length (filter tsPassing (filter tsCovered (profile_summaries c scores))))) / f_of_int 5))
       (if 0 < int (length (filter tsCovered (profile_summaries c scores)))
        then roundTransferScore (fold (\<lambda>s t. t + tsAverageScore s) (filter tsCovered (profile_summaries c scores)) 0.0
               / f_of_int (int (length (filter tsCovered (profile_summaries c scores)))))
        else 0)
       (fst (weakest_loop (filter tsCovered (profile_summaries c scores)) (PInf, [])))"
proof -
  have dims: "int (length canonicalTransferDimensions) = 5" by (simp add: canonicalTransferDimensions_def)
  show ?thesis
    unfolding BuildTransferProfile_def Let_def dims profile_summaries_def
    by (simp only: prod.case_eq_if TransferProfile.simps)
qed

lemma readiness_ready:
  assumes "tpReadinessLabel (BuildTransferProfile c scores) \<in> {TransferReadinessReady, TransferReadinessRobust}"
  shows "3 \<le> length (filter tsPassing (profile_summaries c scores)) \<and>
    (\<forall>s \<in> set (profile_summaries c scores). tsCovered s \<longrightarrow> TransferFailureThreshold \<le> tsAverageScore s) \<and>
    TransferReadyScoreThreshold \<le> tpObservedScore (BuildTransferProfile c scores)"
proof -
  let ?ss = "profile_summaries c scores" and ?p = "BuildTransferProfile c scores"
  let ?cov = "filter tsCovered ?ss"
  have pass: "filter tsPassing ?cov = filter tsPassing ?ss"
    by (auto simp: profile_summaries_def dimension_summary_def Let_def intro!: filter_cong)
  obtain m ws where mw: "weakest_loop ?cov (PInf, []) = (m, ws)" by fastforce
  have fin: "\<forall>s \<in> set ?cov. is_fin (tsAverageScore s)"
    using dimension_summary_unit by (auto simp: profile_summaries_def elim!: unit_f64E) (metis dimension_summary_unit is_fin.simps(1) unit_f64E)
  have mn: "m \<noteq> NaN" "\<forall>s \<in> set ?cov. m \<le> tsAverageScore s"
    using weakest_loop_min[OF fin, of PInf "[]"] mw by (simp_all add: Let_def)
  have dims: "int (length canonicalTransferDimensions) = 5" by (simp add: canonicalTransferDimensions_def)
  have "tpPassingCoverage ?p = roundTransferScore (f_of_int (int (length (filter tsPassing ?cov))) / f_of_int 5)"
    unfolding BuildTransferProfile_def Let_def dims profile_summaries_def by (simp only: prod.case_eq_if TransferProfile.simps)
  then have pc: "tpPassingCoverage ?p = Fin (real (length (filter tsPassing ?ss)) / 5)"
    using roundTransferScore_fifths[of "int (length (filter tsPassing ?ss))"] pass by (simp only: of_int_of_nat_eq)
  have lab: "tpReadinessLabel ?p = transferReadinessLabel (tpAttempts ?p) (tpCoverage ?p) (tpPassingCoverage ?p) (tpObservedScore ?p) m"
    using mw by (simp add: BuildTransferProfile_def Let_def profile_summaries_def)
  have "\<not> m < TransferFailureThreshold" "0.60 \<le> tpPassingCoverage ?p" "TransferReadyScoreThreshold \<le> tpObservedScore ?p"
    using assms unfolding lab
    by (auto simp: transferReadinessLabel_def pc TransferReadyScoreThreshold_def TransferRobustScoreThreshold_def
        intro: f64_le_trans[of "Fin (13/20)" "Fin (4/5)"] split: if_splits)
  moreover from this(1) mn(1) have "TransferFailureThreshold \<le> m"
    by (cases m) (auto simp: TransferFailureThreshold_def)
  ultimately show ?thesis using mn(2) by (auto simp: pc intro: f64_le_trans)
qed

section \<open>The latest observation\<close>

definition in_dimension :: "TransferDimension \<Rightarrow> TransferRecord \<Rightarrow> bool" where
  "in_dimension d r \<longleftrightarrow> NormalizeTransferDimension (trContextType r) = Some d"

lemma latest_observations_snoc:
  "latest_observations (rs @ [r]) =
     (case NormalizeTransferDimension (trContextType r) of
        None \<Rightarrow> latest_observations rs
      | Some d \<Rightarrow>
          if (case latest_observations rs d of None \<Rightarrow> True | Some (t0, _) \<Rightarrow> trCreatedAt r > t0)
          then (latest_observations rs)(d \<mapsto> (trCreatedAt r, clampTransferScore (trScore r)))
          else latest_observations rs)"
  unfolding latest_observations_def by simp

lemma latest_observations_spec:
  "(case latest_observations rs d of
      None \<Rightarrow> \<forall>r \<in> set rs. \<not> in_dimension d r
    | Some (t0, v) \<Rightarrow>
        (\<exists>r \<in> set rs. in_dimension d r \<and> trCreatedAt r = t0 \<and> clampTransferScore (trScore r) = v) \<and>
        (\<forall>r \<in> set rs. in_dimension d r \<longrightarrow> trCreatedAt r \<le> t0))"
proof (induction rs rule: rev_induct)
  case Nil
  show ?case by (simp add: latest_observations_def)
next
  case (snoc r rs)
  then show ?case
    by (auto simp: latest_observations_snoc in_dimension_def split: option.splits if_splits)
qed

lemma set_canonical: "set canonicalTransferDimensions = UNIV"
proof -
  have "d \<in> set canonicalTransferDimensions" for d by (cases d) (simp_all add: canonicalTransferDimensions_def)
  then show ?thesis by blast
qed

lemma somes_canonical: "obs \<in> set (somes (map f canonicalTransferDimensions)) \<longleftrightarrow> (\<exists>d. f d = Some obs)"
  by (simp add: set_somes set_canonical image_iff eq_commute)

lemma blocking_iff:
  "0 < tpBlockingFailures (BuildTrustedTransferProfileAt c scores now) \<longleftrightarrow>
     (\<exists>d obs. latest_observations (concept_records c scores) d = Some obs \<and> blocking_observation now obs)"
proof -
  let ?b = "filter (\<lambda>obs. blocking_observation now obs)
    (somes (map (latest_observations (concept_records c scores)) canonicalTransferDimensions))"
  have "tpBlockingFailures (BuildTrustedTransferProfileAt c scores now) = int (length ?b)"
    by (simp add: BuildTrustedTransferProfileAt_def Let_def)
  moreover have "?b \<noteq> [] \<longleftrightarrow> (\<exists>d obs. latest_observations (concept_records c scores) d = Some obs \<and> blocking_observation now obs)"
    unfolding filter_empty_conv Ball_def somes_canonical by blast
  ultimately show ?thesis by simp
qed

section \<open>Properties\<close>

text \<open>A ready or robust transfer label is always broad and never hides a weak dimension: at least
  three of the five dimensions average at or above the passing score, no observed dimension averages
  below the failure score, and the observed mean reaches the ready score.\<close>

lemma transfer_ready_is_broad:
  assumes "tpReadinessLabel (BuildTransferProfile c scores) \<in> {TransferReadinessReady, TransferReadinessRobust}"
  shows "3 \<le> length (filter tsPassing (profile_summaries c scores)) \<and>
    (\<forall>s \<in> set (profile_summaries c scores). tsCovered s \<longrightarrow> TransferFailureThreshold \<le> tsAverageScore s) \<and>
    TransferReadyScoreThreshold \<le> tpObservedScore (BuildTransferProfile c scores)"
  using assms by (rule readiness_ready)

lemma example_dimensions:
  "NormalizeTransferDimension ''near'' = Some TransferDimensionNear"
  "NormalizeTransferDimension ''far'' = Some TransferDimensionFar"
  "NormalizeTransferDimension ''debugging'' = Some TransferDimensionDebugging"
  by code_simp+

text \<open>In the trusted profile a dimension blocks exactly when its latest observation is a failure
  inside the blocking window (or undated, or without a clock): every older failure of the dimension
  is forgiven by it, and one blocking dimension makes the label blocked whatever the averages.\<close>

lemma trusted_profile_blocking:
  "(0 < tpBlockingFailures (BuildTrustedTransferProfileAt c scores now) \<longleftrightarrow>
     (\<exists>d r. r \<in> set (concept_records c scores) \<and> in_dimension d r \<and>
        (\<forall>r' \<in> set (concept_records c scores). in_dimension d r' \<longrightarrow> trCreatedAt r' \<le> trCreatedAt r) \<and>
        latest_observations (concept_records c scores) d = Some (trCreatedAt r, clampTransferScore (trScore r)) \<and>
        clampTransferScore (trScore r) < TransferFailureThreshold \<and>
        (now = 0 \<or> trCreatedAt r = 0 \<or> t_sub now (trCreatedAt r) \<le> TransferBlockingFailureWindow))) \<and>
   (0 < tpBlockingFailures (BuildTrustedTransferProfileAt c scores now) \<longrightarrow>
      tpReadinessLabel (BuildTrustedTransferProfileAt c scores now) = TransferReadinessBlocked)"
proof -
  let ?rs = "concept_records c scores"
  have bl: "blocking_observation now (t, clampTransferScore v) \<longleftrightarrow>
      clampTransferScore v < TransferFailureThreshold \<and>
      (now = 0 \<or> t = 0 \<or> t_sub now t \<le> TransferBlockingFailureWindow)" for t v
    using clampTransferScore_unit[of v]
    by (auto simp: blocking_observation_def isZero_def TransferFailureThreshold_def not_less elim!: unit_f64E)
  have "(\<exists>d obs. latest_observations ?rs d = Some obs \<and> blocking_observation now obs) \<longleftrightarrow>
     (\<exists>d r. r \<in> set ?rs \<and> in_dimension d r \<and> (\<forall>r' \<in> set ?rs. in_dimension d r' \<longrightarrow> trCreatedAt r' \<le> trCreatedAt r) \<and>
        latest_observations ?rs d = Some (trCreatedAt r, clampTransferScore (trScore r)) \<and>
        blocking_observation now (trCreatedAt r, clampTransferScore (trScore r)))"
    (is "?L \<longleftrightarrow> ?R")
  proof
    assume ?L
    then obtain d t v where l: "latest_observations ?rs d = Some (t, v)" "blocking_observation now (t, v)" by auto
    with latest_observations_spec[of ?rs d] show ?R by (auto simp: Bex_def)
  qed blast
  moreover have "0 < tpBlockingFailures (BuildTrustedTransferProfileAt c scores now) \<longrightarrow>
      tpReadinessLabel (BuildTrustedTransferProfileAt c scores now) = TransferReadinessBlocked"
    by (auto simp: BuildTrustedTransferProfileAt_def Let_def)
  ultimately show ?thesis unfolding blocking_iff bl by blast
qed


end
