(* ===== verification/Json_Reader.thy ===== *)
theory Json_Reader
  imports Prelude
begin

text \<open>
  The strict JSON reader of \<open>assessment/json.go\<close>: \<open>readJSONValue\<close> rejects duplicate object keys
  and more than 32 levels of nesting, and \<open>parseRubricSchemaJSON\<close> accepts one value and nothing
  after it, in a text of valid UTF-8 within 16 KiB. The tokens that \<open>encoding/json\<close> produces for a
  text are the argument \<open>tokens\<close>; a decoded object is the list of its members in document order. Numbers are read as \<open>f64\<close>: one that does
  not fit is not finite. The theorems say that the reader accepts exactly the canonical tokens of
  the unambiguous values and that its fuel never runs out.
\<close>

section \<open>JSON\<close>

datatype json = JNull | JBool bool | JNum f64 | JStr string | JArr "json list" | JObj "(string \<times> json) list"

datatype token = TLBrace | TRBrace | TLBrack | TRBrack | TStr string | TNum f64 | TBool bool | TNull

datatype json_error = ErrNesting | ErrToken | ErrKeyNotString | ErrDuplicateKey string | ErrDelimiter | ErrSize | ErrFuel

text \<open>
  \<open>decoder.More()\<close>: another token that does not close. A missing token is the error of
  \<open>decoder.Token()\<close>. The reader is structural on a fuel of twice the number of tokens, which is
  enough (\<open>read_fuel\<close> below).
\<close>

fun json_more :: "token list \<Rightarrow> bool" where
  "json_more [] = False"
| "json_more (t # ts) = (t \<notin> {TRBrace, TRBrack})"

fun readJSONValue :: "nat \<Rightarrow> nat \<Rightarrow> token list \<Rightarrow> json_error + json \<times> token list"
  and read_members :: "nat \<Rightarrow> nat \<Rightarrow> (string \<times> json) list \<Rightarrow> token list \<Rightarrow> json_error + (string \<times> json) list \<times> token list"
  and read_elements :: "nat \<Rightarrow> nat \<Rightarrow> json list \<Rightarrow> token list \<Rightarrow> json_error + json list \<times> token list" where
  "readJSONValue 0 depth ts = Inl ErrFuel"
| "readJSONValue (Suc n) depth ts =
     (if depth > 32 then Inl ErrNesting
      else case ts of
        [] \<Rightarrow> Inl ErrToken
      | TNull # rest \<Rightarrow> Inr (JNull, rest)
      | TBool b # rest \<Rightarrow> Inr (JBool b, rest)
      | TNum x # rest \<Rightarrow> Inr (JNum x, rest)
      | TStr s # rest \<Rightarrow> Inr (JStr s, rest)
      | TLBrace # rest \<Rightarrow>
          (case read_members n depth [] rest of
             Inl e \<Rightarrow> Inl e
           | Inr (ms, TRBrace # rest') \<Rightarrow> Inr (JObj ms, rest')
           | Inr _ \<Rightarrow> Inl ErrToken)
      | TLBrack # rest \<Rightarrow>
          (case read_elements n depth [] rest of
             Inl e \<Rightarrow> Inl e
           | Inr (vs, TRBrack # rest') \<Rightarrow> Inr (JArr vs, rest')
           | Inr _ \<Rightarrow> Inl ErrToken)
      | _ \<Rightarrow> Inl ErrDelimiter)"
| "read_members 0 depth acc ts = Inl ErrFuel"
| "read_members (Suc n) depth acc ts =
     (if \<not> json_more ts then Inr (acc, ts)
      else case ts of
        TStr key # rest \<Rightarrow>
          if key \<in> fst ` set acc then Inl (ErrDuplicateKey key)
          else (case readJSONValue n (depth + 1) rest of
                  Inl e \<Rightarrow> Inl e
                | Inr (v, rest') \<Rightarrow> read_members n depth (acc @ [(key, v)]) rest')
      | _ \<Rightarrow> Inl ErrKeyNotString)"
| "read_elements 0 depth acc ts = Inl ErrFuel"
| "read_elements (Suc n) depth acc ts =
     (if \<not> json_more ts then Inr (acc, ts)
      else case readJSONValue n (depth + 1) ts of
             Inl e \<Rightarrow> Inl e
           | Inr (v, rest) \<Rightarrow> read_elements n depth (acc @ [v]) rest)"

subsection \<open>UTF-8\<close>

text \<open>
  The next rune of a UTF-8 byte sequence and the bytes after it; nothing when the sequence is empty
  or its first bytes are not the shortest encoding of a scalar value.
\<close>

definition continuation :: "nat \<Rightarrow> bool" where
  "continuation b \<longleftrightarrow> 0x80 \<le> b \<and> b \<le> 0xBF"

fun decode_rune :: "nat list \<Rightarrow> (nat \<times> nat list) option" where
  "decode_rune [] = None"
| "decode_rune (a # bs) =
     (if a < 0x80 then Some (a, bs)
      else if 0xC2 \<le> a \<and> a \<le> 0xDF then
        (case bs of
           b # rest \<Rightarrow> if continuation b then Some ((a - 0xC0) * 64 + (b - 0x80), rest) else None
         | _ \<Rightarrow> None)
      else if 0xE0 \<le> a \<and> a \<le> 0xEF then
        (case bs of
           b # c # rest \<Rightarrow>
             if (if a = 0xE0 then 0xA0 else 0x80) \<le> b \<and> b \<le> (if a = 0xED then 0x9F else 0xBF) \<and> continuation c
             then Some ((a - 0xE0) * 4096 + (b - 0x80) * 64 + (c - 0x80), rest) else None
         | _ \<Rightarrow> None)
      else if 0xF0 \<le> a \<and> a \<le> 0xF4 then
        (case bs of
           b # c # d # rest \<Rightarrow>
             if (if a = 0xF0 then 0x90 else 0x80) \<le> b \<and> b \<le> (if a = 0xF4 then 0x8F else 0xBF) \<and> continuation c \<and> continuation d
             then Some ((a - 0xF0) * 262144 + (b - 0x80) * 4096 + (c - 0x80) * 64 + (d - 0x80), rest) else None
         | _ \<Rightarrow> None)
      else None)"

lemma decode_rune_shorter: "decode_rune bs = Some (r, rest) \<Longrightarrow> length rest < length bs"
  by (cases bs) (auto split: if_splits list.splits)

text \<open>\<open>utf8.ValidString\<close>.\<close>

function valid_bytes :: "nat list \<Rightarrow> bool" where
  "valid_bytes bs = (case decode_rune bs of None \<Rightarrow> bs = [] | Some (r, rest) \<Rightarrow> valid_bytes rest)"
  by pat_completeness auto
termination by (relation "measure length") (auto dest: decode_rune_shorter)

declare valid_bytes.simps [simp del]

definition ValidString :: "string \<Rightarrow> bool" where
  "ValidString s = valid_bytes (map of_char s)"

text \<open>ASCII text is valid.\<close>

lemma valid_bytes_ascii: "(\<forall>b \<in> set bs. b < 128) \<Longrightarrow> valid_bytes bs"
  by (induction bs) (simp_all add: valid_bytes.simps)

subsection \<open>A whole document\<close>

definition MaxJSONBytes :: nat where
  "MaxJSONBytes = 16384"

text \<open>One value and nothing after it.\<close>

definition parseRubricSchemaJSON :: "(string \<Rightarrow> token list) \<Rightarrow> string \<Rightarrow> json_error + json" where
  "parseRubricSchemaJSON tokens raw =
     (if length raw > MaxJSONBytes \<or> \<not> ValidString raw then Inl ErrSize
      else case readJSONValue (2 * length (tokens raw) + 1) 0 (tokens raw) of
        Inl e \<Rightarrow> Inl e
      | Inr (v, []) \<Rightarrow> Inr v
      | Inr (v, _ # _) \<Rightarrow> Inl ErrToken)"

subsection \<open>Enough fuel, and what the reader accepts\<close>

lemma read_fuel:
  "(2 * length ts < n \<longrightarrow> readJSONValue n d ts \<noteq> Inl ErrFuel \<and>
     (\<forall>v rest. readJSONValue n d ts = Inr (v, rest) \<longrightarrow> length rest < length ts))"
  "(2 * length ts + 1 < n \<longrightarrow> read_members n d acc ts \<noteq> Inl ErrFuel \<and>
     (\<forall>ms rest. read_members n d acc ts = Inr (ms, rest) \<longrightarrow> length rest \<le> length ts))"
  "(2 * length ts + 1 < n \<longrightarrow> read_elements n d vs ts \<noteq> Inl ErrFuel \<and>
     (\<forall>ws rest. read_elements n d vs ts = Inr (ws, rest) \<longrightarrow> length rest \<le> length ts))"
proof (induction n d ts and n d acc ts and n d vs ts rule: readJSONValue_read_members_read_elements.induct)
  case (2 n depth ts)
  then show ?case
    by (auto split: list.splits token.splits sum.splits if_splits)
next
  case (4 n depth acc ts)
  then show ?case
    by (fastforce split: list.splits token.splits sum.splits if_splits)
next
  case (6 n depth acc ts)
  then show ?case
    by (fastforce split: list.splits token.splits sum.splits if_splits)
qed auto

text \<open>The canonical tokens of a value, its nesting depth, and unambiguity: no object repeats a key.\<close>

fun tokens_of :: "json \<Rightarrow> token list"
  and member_tokens :: "(string \<times> json) list \<Rightarrow> token list"
  and element_tokens :: "json list \<Rightarrow> token list" where
  "tokens_of JNull = [TNull]"
| "tokens_of (JBool b) = [TBool b]"
| "tokens_of (JNum x) = [TNum x]"
| "tokens_of (JStr s) = [TStr s]"
| "tokens_of (JArr vs) = TLBrack # element_tokens vs @ [TRBrack]"
| "tokens_of (JObj ms) = TLBrace # member_tokens ms @ [TRBrace]"
| "member_tokens [] = []"
| "member_tokens ((k, v) # ms) = TStr k # tokens_of v @ member_tokens ms"
| "element_tokens [] = []"
| "element_tokens (v # vs) = tokens_of v @ element_tokens vs"

fun json_ok :: "nat \<Rightarrow> json \<Rightarrow> bool"
  and members_ok :: "nat \<Rightarrow> (string \<times> json) list \<Rightarrow> bool"
  and elements_ok :: "nat \<Rightarrow> json list \<Rightarrow> bool" where
  "json_ok d (JArr vs) = (d \<le> 32 \<and> elements_ok (d + 1) vs)"
| "json_ok d (JObj ms) = (d \<le> 32 \<and> distinct (map fst ms) \<and> members_ok (d + 1) ms)"
| "json_ok d _ = (d \<le> 32)"
| "members_ok d [] = True"
| "members_ok d ((k, v) # ms) = (json_ok d v \<and> members_ok d ms)"
| "elements_ok d [] = True"
| "elements_ok d (v # vs) = (json_ok d v \<and> elements_ok d vs)"

lemma members_ok_append: "members_ok d (xs @ ys) \<longleftrightarrow> members_ok d xs \<and> members_ok d ys"
proof (induction xs)
  case (Cons m xs)
  then show ?case by (cases m) simp
qed simp

lemma elements_ok_append: "elements_ok d (xs @ ys) \<longleftrightarrow> elements_ok d xs \<and> elements_ok d ys"
  by (induction xs) auto

lemma tokens_of_more: "json_more (tokens_of v @ ts)"
  by (cases v) auto

lemma tokens_of_nonempty: "1 \<le> length (tokens_of v)"
  by (cases v) auto

lemma read_accepts:
  "readJSONValue n d ts = Inr (v, rest) \<Longrightarrow> json_ok d v"
  "read_members n d acc ts = Inr (ms, rest) \<Longrightarrow> distinct (map fst acc) \<Longrightarrow> members_ok (d + 1) acc \<Longrightarrow>
     distinct (map fst ms) \<and> members_ok (d + 1) ms"
  "read_elements n d vs ts = Inr (ws, rest) \<Longrightarrow> elements_ok (d + 1) vs \<Longrightarrow> elements_ok (d + 1) ws"
proof (induction n d ts and n d acc ts and n d vs ts
    arbitrary: v rest and ms rest and ws rest rule: readJSONValue_read_members_read_elements.induct)
  case (2 n depth ts)
  then show ?case by (fastforce split: list.splits token.splits sum.splits if_splits)
next
  case (4 n depth acc ts)
  from "4.prems"(1) show ?case
  proof (cases "json_more ts")
    case True
    with "4.prems"(1) obtain key rest1 where ts: "ts = TStr key # rest1" and key: "key \<notin> fst ` set acc"
      by (auto split: list.splits token.splits if_splits)
    with "4.prems"(1) True obtain v rest2 where v: "readJSONValue n (depth + 1) rest1 = Inr (v, rest2)"
      and ms: "read_members n depth (acc @ [(key, v)]) rest2 = Inr (ms, rest)"
      by (auto split: sum.splits)
    have "json_ok (depth + 1) v" using "4.IH"(1)[OF _ ts refl key v] True by simp
    with "4.IH"(2)[OF _ ts refl key v refl ms] True "4.prems"(2,3) key show ?thesis
      by (simp add: members_ok_append)
  qed (use "4.prems" in simp)
next
  case (6 n depth acc ts)
  then show ?case by (fastforce simp: elements_ok_append split: sum.splits if_splits)
qed auto

lemma read_tokens:
  "\<forall>n d rest. 2 * length (tokens_of v @ rest) < n \<longrightarrow> json_ok d v \<longrightarrow>
     readJSONValue n d (tokens_of v @ rest) = Inr (v, rest)"
  "\<forall>n d acc rest. 2 * length (member_tokens ms @ TRBrace # rest) + 1 < n \<longrightarrow> members_ok (d + 1) ms \<longrightarrow>
     distinct (map fst (acc @ ms)) \<longrightarrow>
     read_members n d acc (member_tokens ms @ TRBrace # rest) = Inr (acc @ ms, TRBrace # rest)"
  "\<forall>n d acc rest. 2 * length (element_tokens vs @ TRBrack # rest) + 1 < n \<longrightarrow> elements_ok (d + 1) vs \<longrightarrow>
     read_elements n d acc (element_tokens vs @ TRBrack # rest) = Inr (acc @ vs, TRBrack # rest)"
proof (induction v and ms and vs rule: tokens_of_member_tokens_element_tokens.induct)
  case (5 vs)
  show ?case
  proof (intro allI impI)
    fix n d rest
    assume n: "2 * length (tokens_of (JArr vs) @ rest) < n" and ok: "json_ok d (JArr vs)"
    then obtain m where m: "n = Suc m" by (cases n) auto
    with n have "2 * length (element_tokens vs @ TRBrack # rest) + 1 < m" by simp
    with 5 ok have "read_elements m d [] (element_tokens vs @ TRBrack # rest) = Inr (vs, TRBrack # rest)" by simp
    with ok show "readJSONValue n d (tokens_of (JArr vs) @ rest) = Inr (JArr vs, rest)" by (simp add: m)
  qed
next
  case (6 ms)
  show ?case
  proof (intro allI impI)
    fix n d rest
    assume n: "2 * length (tokens_of (JObj ms) @ rest) < n" and ok: "json_ok d (JObj ms)"
    then obtain m where m: "n = Suc m" by (cases n) auto
    with n have "2 * length (member_tokens ms @ TRBrace # rest) + 1 < m" by simp
    with 6 ok have "read_members m d [] (member_tokens ms @ TRBrace # rest) = Inr (ms, TRBrace # rest)" by simp
    with ok show "readJSONValue n d (tokens_of (JObj ms) @ rest) = Inr (JObj ms, rest)" by (simp add: m)
  qed
next
  case (8 k v ms)
  show ?case
  proof (intro allI impI)
    fix n d acc rest
    assume n: "2 * length (member_tokens ((k, v) # ms) @ TRBrace # rest) + 1 < n"
      and ok: "members_ok (d + 1) ((k, v) # ms)" and di: "distinct (map fst (acc @ (k, v) # ms))"
    then obtain m where m: "n = Suc m" by (cases n) auto
    have "readJSONValue m (d + 1) (tokens_of v @ member_tokens ms @ TRBrace # rest) = Inr (v, member_tokens ms @ TRBrace # rest)"
      using "8.IH"(1) n ok m by simp
    moreover have "2 * length (member_tokens ms @ TRBrace # rest) + 1 < m"
      using n tokens_of_nonempty[of v] unfolding m by (simp del: length_greater_0_conv One_nat_def)
    with "8.IH"(2) ok di have "read_members m d (acc @ [(k, v)]) (member_tokens ms @ TRBrace # rest) = Inr (acc @ (k, v) # ms, TRBrace # rest)"
      by simp
    ultimately show "read_members n d acc (member_tokens ((k, v) # ms) @ TRBrace # rest) = Inr (acc @ (k, v) # ms, TRBrace # rest)"
      using di by (auto simp: m)
  qed
next
  case (10 v vs)
  show ?case
  proof (intro allI impI)
    fix n d acc rest
    assume n: "2 * length (element_tokens (v # vs) @ TRBrack # rest) + 1 < n" and ok: "elements_ok (d + 1) (v # vs)"
    then obtain m where m: "n = Suc m" by (cases n) auto
    have "readJSONValue m (d + 1) (tokens_of v @ element_tokens vs @ TRBrack # rest) = Inr (v, element_tokens vs @ TRBrack # rest)"
      using "10.IH"(1) n ok m by simp
    moreover have "2 * length (element_tokens vs @ TRBrack # rest) + 1 < m"
      using n tokens_of_nonempty[of v] unfolding m by (simp del: length_greater_0_conv One_nat_def)
    with "10.IH"(2) ok have "read_elements m d (acc @ [v]) (element_tokens vs @ TRBrack # rest) = Inr (acc @ v # vs, TRBrack # rest)"
      by simp
    ultimately show "read_elements n d acc (element_tokens (v # vs) @ TRBrack # rest) = Inr (acc @ v # vs, TRBrack # rest)"
      using tokens_of_more by (simp add: m)
  qed
qed (auto elim!: less_natE)

lemma read_sound:
  "readJSONValue n d ts = Inr (v, rest) \<Longrightarrow> ts = tokens_of v @ rest"
  "read_members n d acc ts = Inr (ms, rest) \<Longrightarrow> \<exists>ms'. ms = acc @ ms' \<and> ts = member_tokens ms' @ rest"
  "read_elements n d vs ts = Inr (ws, rest) \<Longrightarrow> \<exists>ws'. ws = vs @ ws' \<and> ts = element_tokens ws' @ rest"
proof (induction n d ts and n d acc ts and n d vs ts
    arbitrary: v rest and ms rest and ws rest rule: readJSONValue_read_members_read_elements.induct)
  case (2 n depth ts)
  then show ?case by (fastforce split: list.splits token.splits sum.splits if_splits)
next
  case (4 n depth acc ts)
  from "4.prems"(1) show ?case
  proof (cases "json_more ts")
    case True
    with "4.prems"(1) obtain key rest1 where ts: "ts = TStr key # rest1" and key: "key \<notin> fst ` set acc"
      by (auto split: list.splits token.splits if_splits)
    with "4.prems"(1) True obtain v rest2 where v: "readJSONValue n (depth + 1) rest1 = Inr (v, rest2)"
      and ms: "read_members n depth (acc @ [(key, v)]) rest2 = Inr (ms, rest)"
      by (auto split: sum.splits)
    have "rest1 = tokens_of v @ rest2" using "4.IH"(1)[OF _ ts refl key v] True by simp
    moreover obtain ms' where "ms = (acc @ [(key, v)]) @ ms'" "rest2 = member_tokens ms' @ rest"
      using "4.IH"(2)[OF _ ts refl key v refl ms] True by auto
    ultimately show ?thesis by (intro exI[of _ "(key, v) # ms'"]) (simp add: ts)
  qed (use "4.prems" in simp)
next
  case (6 n depth acc ts)
  from "6.prems" show ?case
  proof (cases "json_more ts")
    case True
    with "6.prems" obtain v rest2 where v: "readJSONValue n (depth + 1) ts = Inr (v, rest2)"
      and ws: "read_elements n depth (acc @ [v]) rest2 = Inr (ws, rest)"
      by (auto split: sum.splits)
    have "ts = tokens_of v @ rest2" using "6.IH"(1)[OF _ v] True by simp
    moreover obtain ws' where "ws = (acc @ [v]) @ ws'" "rest2 = element_tokens ws' @ rest"
      using "6.IH"(2)[OF _ v refl ws] True by auto
    ultimately show ?thesis by (intro exI[of _ "v # ws'"]) simp
  qed (use "6.prems" in simp)
qed auto

text \<open>The acceptance of the reader, shared by the readers of rubrics and of scores.\<close>

definition text_ok :: "string \<Rightarrow> bool" where
  "text_ok raw \<longleftrightarrow> length raw \<le> MaxJSONBytes \<and> ValidString raw"

lemma parse_iff:
  "parseRubricSchemaJSON tokens raw = Inr v \<longleftrightarrow> text_ok raw \<and> json_ok 0 v \<and> tokens raw = tokens_of v"
proof
  let ?n = "2 * length (tokens raw) + 1"
  assume "parseRubricSchemaJSON tokens raw = Inr v"
  then have ok: "text_ok raw" and "readJSONValue ?n 0 (tokens raw) = Inr (v, [])"
    unfolding parseRubricSchemaJSON_def text_ok_def
    by (auto simp del: readJSONValue.simps split: if_splits sum.splits list.splits)
  with read_accepts(1)[of ?n 0 "tokens raw" v "[]"] read_sound(1)[of ?n 0 "tokens raw" v "[]"]
  show "text_ok raw \<and> json_ok 0 v \<and> tokens raw = tokens_of v" by (simp only: append_Nil2 simp_thms)
next
  assume ok: "text_ok raw \<and> json_ok 0 v \<and> tokens raw = tokens_of v"
  then have "readJSONValue (2 * length (tokens raw) + 1) 0 (tokens_of v @ []) = Inr (v, [])"
    by (intro read_tokens(1)[rule_format]) auto
  with ok show "parseRubricSchemaJSON tokens raw = Inr v"
    by (simp add: parseRubricSchemaJSON_def text_ok_def del: readJSONValue.simps)
qed


text \<open>C30. Termination of the strict reader: the fuel of twice the number of tokens plus one is never
  used up, so on every input the reader stops with a value or with one of the errors of the code.
\<close>

theorem json_reader_terminates: "parseRubricSchemaJSON tokens raw \<noteq> Inl ErrFuel"
  using read_fuel(1)[of "tokens raw" "2 * length (tokens raw) + 1" 0]
  unfolding parseRubricSchemaJSON_def
  by (auto simp del: readJSONValue.simps split: sum.splits list.splits)

end
