(* ===== verification/Rubric.thy ===== *)
theory Rubric
  imports Json_Reader
begin

text \<open>
  Rubric-bound assessments: \<open>ParseRubric\<close>, \<open>ValidateRubric\<close> and \<open>RubricMap\<close> of
  \<open>assessment/rubric.go\<close>, \<open>Evaluate\<close> and \<open>EvaluateJSON\<close> of \<open>assessment/score.go\<close>, and the
  validators of \<open>assessment/json.go\<close> they share. A \<open>map[string]any\<close> is the list of its members; where
  the code builds one, they are listed in key order. The exact decimal sums of \<open>math/big\<close> are sums of
  real numbers, and \<open>decimal\<close> panics on a value that is not finite. The decimal that \<open>strconv\<close>
  prints for a float, the float nearest to a rational, the Unicode letters and digits and the byte
  count of a marshalled document come from the argument \<open>lib\<close>; identifiers are decoded from UTF-8.
\<close>

section \<open>Data and errors\<close>

record AssessmentRubricAnchor =
  raScore :: f64
  raDescription :: string

record AssessmentRubricCriterion =
  rcID :: string
  rcDescription :: string
  rcMaxScore :: f64
  rcAnchors :: "AssessmentRubricAnchor list"

record AssessmentRubric =
  rbCriteria :: "AssessmentRubricCriterion list"
  rbPassingScore :: f64
  rbAnswerKey :: string

datatype rubric_error =
    ErrJSON json_error
  | NotCanonicalObject
  | UnsupportedField string
  | PassingScoreNotNumber
  | AnswerKeyEmpty
  | CriteriaNotArray
  | CriterionNotObject nat
  | MaxScoreNotNumber nat
  | AnchorsNotArray nat
  | AnchorNotObject nat nat
  | AnchorScoreNotNumber nat nat
  | MaxTotalContradicts
  | NoCriteria
  | CriterionIDInvalid nat
  | CriterionDescriptionEmpty nat
  | CriterionMaxScoreInvalid nat
  | AnchorScoreInvalid nat nat
  | AnchorDescriptionEmpty nat nat
  | PassingScoreInvalid
  | CanonicalTooLarge
  | ScoresNotObjects
  | ScoresShape
  | UnknownCriterion string
  | DuplicateCriterion string
  | ScoreOutOfRange string
  | EvidenceMissing string
  | MaxScoreContradicts string
  | ErrorTypeInvalid string
  | CriterionUncovered
  | AggregateNotFinite
  | AggregateContradicts string
  | SummaryEmpty
  | ConfidenceInvalid
  | Panic

type_synonym members = "(string \<times> json) list"

text \<open>
  What the package takes from the standard library: the tokens of a JSON text, whether \<open>json.Marshal\<close> of a document stays
  within \<open>MaxJSONBytes\<close>, the shortest decimal of a finite float (\<open>FormatFloat(v, 'g', -1, 64)\<close>), the
  float nearest to a rational (\<open>big.Rat.Float64\<close>, infinite on overflow) and the runes that
  \<open>unicode.IsLetter\<close> or \<open>unicode.IsDigit\<close> accepts.
\<close>

record RubricLib =
  lbTokens :: "string \<Rightarrow> token list"
  lbFits :: "json \<Rightarrow> bool"
  lbDecimal :: "real \<Rightarrow> real"
  lbFloat64 :: "real \<Rightarrow> f64"
  lbLetterOrDigit :: "nat \<Rightarrow> bool"

section \<open>Validators of json.go\<close>

definition rubricFinite :: "f64 \<Rightarrow> bool" where
  "rubricFinite v \<longleftrightarrow> \<not> isNaN v \<and> \<not> isInf v"

text \<open>The number, whether it was coerced, and whether it is valid.\<close>

definition rubricFiniteNumber :: "json option \<Rightarrow> f64 \<times> bool \<times> bool" where
  "rubricFiniteNumber v = (case v of Some (JNum n) \<Rightarrow> (n, False, rubricFinite n) | _ \<Rightarrow> (0, False, False))"

text \<open>The guard \<open>if !valid || coerced\<close> after a number is read.\<close>

definition finite_number :: "'e \<Rightarrow> json option \<Rightarrow> 'e + f64" where
  "finite_number e v = (case rubricFiniteNumber v of (n, coerced, valid) \<Rightarrow> if \<not> valid \<or> coerced then Inl e else Inr n)"

text \<open>
  The loop over the runes of an identifier. An invalid sequence makes the identifier invalid:
  \<open>range\<close> yields U+FFFD there, and \<open>utf8.ValidString\<close> rejects the whole string.
\<close>

function criterion_id_loop :: "'z RubricLib_scheme \<Rightarrow> bool \<Rightarrow> nat list \<Rightarrow> bool" where
  "criterion_id_loop lib hasAlphanumeric bs =
     (case decode_rune bs of
        None \<Rightarrow> bs = [] \<and> hasAlphanumeric
      | Some (r, rest) \<Rightarrow>
          if lbLetterOrDigit lib r then criterion_id_loop lib True rest
          else if r \<noteq> 0x5F \<and> r \<noteq> 0x2D then False
          else criterion_id_loop lib hasAlphanumeric rest)"
  by pat_completeness auto
termination by (relation "measure (\<lambda>(lib, a, bs). length bs)") (auto dest: decode_rune_shorter)

declare criterion_id_loop.simps [simp del]

definition validCriterionID :: "'z RubricLib_scheme \<Rightarrow> string \<Rightarrow> bool" where
  "validCriterionID lib s = criterion_id_loop lib False (map of_char s)"

definition sortedRubricKeys :: "members \<Rightarrow> string list" where
  "sortedRubricKeys obj = sort (map fst obj)"

definition rejectUnknownAssessmentRubricFields :: "members \<Rightarrow> string list \<Rightarrow> rubric_error + unit" where
  "rejectUnknownAssessmentRubricFields obj allowed =
     (case find (\<lambda>key. key \<notin> set allowed) (sortedRubricKeys obj) of
        Some key \<Rightarrow> Inl (UnsupportedField key)
      | None \<Rightarrow> Inr ())"

text \<open>\<open>decimal\<close> of \<open>score.go\<close> panics on a value that is not finite.\<close>

definition decimal :: "'z RubricLib_scheme \<Rightarrow> f64 \<Rightarrow> rubric_error + real" where
  "decimal lib v = (if rubricFinite v then Inr (lbDecimal lib (real_of v)) else Inl Panic)"

text \<open>\<open>v, _ := object[key].(string)\<close>: the empty string when the member is not a string.\<close>

definition string_member :: "members \<Rightarrow> string \<Rightarrow> string" where
  "string_member obj key = (case map_of obj key of Some (JStr s) \<Rightarrow> s | _ \<Rightarrow> [])"

section \<open>ValidateRubric\<close>

fun validate_anchors :: "nat \<Rightarrow> nat \<Rightarrow> f64 \<Rightarrow> f64 list \<Rightarrow> AssessmentRubricAnchor list \<Rightarrow> rubric_error + unit" where
  "validate_anchors i j maxScore anchorScores [] = Inr ()"
| "validate_anchors i j maxScore anchorScores (a # as) =
     (if \<not> rubricFinite (raScore a) \<or> raScore a < 0 \<or> raScore a > maxScore \<or> raScore a \<in> set anchorScores
      then Inl (AnchorScoreInvalid i j)
      else if trim_space (raDescription a) = [] then Inl (AnchorDescriptionEmpty i j)
      else validate_anchors i (j + 1) maxScore (raScore a # anchorScores) as)"

text \<open>The loop over the criteria: the identifiers seen so far and the running maximum.\<close>

fun validate_criteria :: "'z RubricLib_scheme \<Rightarrow> nat \<Rightarrow> string list \<Rightarrow> real \<Rightarrow> AssessmentRubricCriterion list \<Rightarrow> rubric_error + real" where
  "validate_criteria lib i seen maxTotal [] = Inr maxTotal"
| "validate_criteria lib i seen maxTotal (c # cs) =
     (if \<not> validCriterionID lib (rcID c) \<or> rcID c \<in> set seen then Inl (CriterionIDInvalid i)
      else if trim_space (rcDescription c) = [] then Inl (CriterionDescriptionEmpty i)
      else if \<not> rubricFinite (rcMaxScore c) \<or> rcMaxScore c \<le> 0 then Inl (CriterionMaxScoreInvalid i)
      else sbind (decimal lib (rcMaxScore c)) (\<lambda>m.
           sbind (validate_anchors i 0 (rcMaxScore c) [] (rcAnchors c)) (\<lambda>_.
           validate_criteria lib (i + 1) (rcID c # seen) (maxTotal + m) cs)))"

definition ValidateRubric :: "'z RubricLib_scheme \<Rightarrow> AssessmentRubric \<Rightarrow> rubric_error + unit" where
  "ValidateRubric lib rubric =
     (if rbCriteria rubric = [] then Inl NoCriteria
      else sbind (validate_criteria lib 0 [] 0 (rbCriteria rubric)) (\<lambda>maxTotal.
        if \<not> rubricFinite (lbFloat64 lib maxTotal) \<or> \<not> rubricFinite (rbPassingScore rubric) \<or> rbPassingScore rubric \<le> 0
        then Inl PassingScoreInvalid
        else sbind (decimal lib (rbPassingScore rubric)) (\<lambda>p.
          if p > maxTotal then Inl PassingScoreInvalid else Inr ())))"

section \<open>ParseRubric\<close>

definition parse_anchor :: "nat \<Rightarrow> nat \<times> json \<Rightarrow> rubric_error + AssessmentRubricAnchor" where
  "parse_anchor i = (\<lambda>(j, v). case v of
     JObj obj \<Rightarrow>
       sbind (rejectUnknownAssessmentRubricFields obj [''score'', ''description'']) (\<lambda>_.
       sbind (finite_number (AnchorScoreNotNumber i j) (map_of obj ''score'')) (\<lambda>score.
       Inr \<lparr>raScore = score, raDescription = string_member obj ''description''\<rparr>))
   | _ \<Rightarrow> Inl (AnchorNotObject i j))"

definition parse_criterion :: "nat \<times> json \<Rightarrow> rubric_error + AssessmentRubricCriterion" where
  "parse_criterion = (\<lambda>(i, v). case v of
     JObj obj \<Rightarrow>
       sbind (rejectUnknownAssessmentRubricFields obj [''id'', ''description'', ''max_score'', ''anchors'']) (\<lambda>_.
       sbind (finite_number (MaxScoreNotNumber i) (map_of obj ''max_score'')) (\<lambda>maxScore.
       sbind (case map_of obj ''anchors'' of
                None \<Rightarrow> Inr []
              | Some (JArr anchors) \<Rightarrow> check_all (parse_anchor i) (enumerate 0 anchors)
              | Some _ \<Rightarrow> Inl (AnchorsNotArray i)) (\<lambda>anchors.
       Inr \<lparr>rcID = string_member obj ''id'', rcDescription = string_member obj ''description'',
            rcMaxScore = maxScore, rcAnchors = anchors\<rparr>)))
   | _ \<Rightarrow> Inl (CriterionNotObject i))"

definition check_max_total :: "'z RubricLib_scheme \<Rightarrow> AssessmentRubricCriterion list \<Rightarrow> json option \<Rightarrow> rubric_error + unit" where
  "check_max_total lib criteria supplied =
     (case supplied of
        None \<Rightarrow> Inr ()
      | Some _ \<Rightarrow>
          sbind (check_all (\<lambda>c. decimal lib (rcMaxScore c)) criteria) (\<lambda>maxima.
          case rubricFiniteNumber supplied of (v, _, valid) \<Rightarrow>
            if \<not> valid \<or> \<not> feq v (lbFloat64 lib (sum_list maxima)) then Inl MaxTotalContradicts else Inr ()))"

definition anchor_map :: "AssessmentRubricAnchor \<Rightarrow> json" where
  "anchor_map a = JObj [(''description'', JStr (raDescription a)), (''score'', JNum (raScore a))]"

definition criterion_map :: "AssessmentRubricCriterion \<Rightarrow> json" where
  "criterion_map c =
     JObj ((if rcAnchors c \<noteq> [] then [(''anchors'', JArr (map anchor_map (rcAnchors c)))] else []) @
           [(''description'', JStr (rcDescription c)), (''id'', JStr (rcID c)), (''max_score'', JNum (rcMaxScore c))])"

definition RubricMap :: "AssessmentRubric \<Rightarrow> json" where
  "RubricMap rubric =
     JObj ((if rbAnswerKey rubric \<noteq> [] then [(''answer_key'', JStr (rbAnswerKey rubric))] else []) @
           [(''criteria'', JArr (map criterion_map (rbCriteria rubric))), (''passing_score'', JNum (rbPassingScore rubric))])"

definition rubric_of_object :: "'z RubricLib_scheme \<Rightarrow> members \<Rightarrow> rubric_error + AssessmentRubric" where
  "rubric_of_object lib obj =
     sbind (rejectUnknownAssessmentRubricFields obj [''criteria'', ''passing_score'', ''answer_key'', ''max_total'']) (\<lambda>_.
     sbind (finite_number PassingScoreNotNumber (map_of obj ''passing_score'')) (\<lambda>passing.
     sbind (case map_of obj ''answer_key'' of
              None \<Rightarrow> Inr []
            | Some (JStr answerKey) \<Rightarrow> (if trim_space answerKey = [] then Inl AnswerKeyEmpty else Inr answerKey)
            | Some _ \<Rightarrow> Inl AnswerKeyEmpty) (\<lambda>answerKey.
     sbind (case map_of obj ''criteria'' of
              Some (JArr criteria) \<Rightarrow> check_all parse_criterion (enumerate 0 criteria)
            | _ \<Rightarrow> Inl CriteriaNotArray) (\<lambda>criteria.
     sbind (check_max_total lib criteria (map_of obj ''max_total'')) (\<lambda>_.
     let rubric = \<lparr>rbCriteria = criteria, rbPassingScore = passing, rbAnswerKey = answerKey\<rparr> in
     sbind (ValidateRubric lib rubric) (\<lambda>_.
     if \<not> lbFits lib (RubricMap rubric) then Inl CanonicalTooLarge else Inr rubric))))))"

definition ParseRubric :: "'z RubricLib_scheme \<Rightarrow> string \<Rightarrow> rubric_error + AssessmentRubric" where
  "ParseRubric lib raw =
     (case parseRubricSchemaJSON (lbTokens lib) raw of
        Inl e \<Rightarrow> Inl (ErrJSON e)
      | Inr (JObj obj) \<Rightarrow> rubric_of_object lib obj
      | Inr _ \<Rightarrow> Inl NotCanonicalObject)"

section \<open>Evaluate\<close>

record AssessmentResult =
  arScore :: members
  arTotal :: f64
  arPassed :: bool

text \<open>An entry of a score keyed by criterion: a bare value is its score, and the key is its identifier.\<close>

definition keyed_item :: "string \<times> json \<Rightarrow> members" where
  "keyed_item = (\<lambda>(key, v).
     let item = (case v of JObj m \<Rightarrow> m | _ \<Rightarrow> [(''score'', v)]) in
     if ''id'' \<in> fst ` set item then item else item @ [(''id'', JStr key)])"

definition score_entries :: "members \<Rightarrow> rubric_error + members list" where
  "score_entries score =
     (case map_of score ''criteria_scores'' of
        Some (JArr vs) \<Rightarrow> check_all (\<lambda>v. case v of JObj m \<Rightarrow> Inr m | _ \<Rightarrow> Inl ScoresNotObjects) vs
      | Some (JObj m) \<Rightarrow> Inr (map keyed_item (sort_key fst m))
      | _ \<Rightarrow> Inl ScoresShape)"

text \<open>\<open>maxByID\<close>: a later criterion with the same identifier would replace an earlier one.\<close>

definition maxByID :: "AssessmentRubric \<Rightarrow> string \<Rightarrow> f64 option" where
  "maxByID rubric = map_of (rev (map (\<lambda>c. (rcID c, rcMaxScore c)) (rbCriteria rubric)))"

definition known_error_types :: "string list" where
  "known_error_types = ['''', ''SYNTAX_ERROR'', ''LOGIC_ERROR'', ''KNOWLEDGE_GAP'']"

definition item_max_score :: "string \<Rightarrow> f64 \<Rightarrow> members \<Rightarrow> rubric_error + members" where
  "item_max_score cid mx item =
     (case map_of item ''max_score'' of
        None \<Rightarrow> Inr []
      | supplied \<Rightarrow> (case rubricFiniteNumber supplied of (v, _, valid) \<Rightarrow>
          if \<not> valid \<or> \<not> feq v mx then Inl (MaxScoreContradicts cid) else Inr [(''max_score'', JNum v)]))"

definition item_error_type :: "string \<Rightarrow> members \<Rightarrow> rubric_error + members" where
  "item_error_type cid item =
     (case map_of item ''error_type'' of
        None \<Rightarrow> Inr []
      | Some (JStr e) \<Rightarrow> (if e \<in> set known_error_types then Inr [(''error_type'', JStr e)] else Inl (ErrorTypeInvalid cid))
      | Some _ \<Rightarrow> Inl (ErrorTypeInvalid cid))"

text \<open>One item: its identifier, score and maximum, and the normalized entry.\<close>

definition score_item :: "(string \<Rightarrow> f64 option) \<Rightarrow> string set \<Rightarrow> members \<Rightarrow> rubric_error + string \<times> f64 \<times> f64 \<times> json" where
  "score_item maxs seen item =
     sbind (rejectUnknownAssessmentRubricFields item [''id'', ''score'', ''evidence'', ''error_type'', ''max_score'']) (\<lambda>_.
     let cid = string_member item ''id'' in
     case maxs cid of
       None \<Rightarrow> Inl (UnknownCriterion cid)
     | Some mx \<Rightarrow>
         if cid \<in> seen then Inl (DuplicateCriterion cid)
         else (case rubricFiniteNumber (map_of item ''score'') of (v, _, valid) \<Rightarrow>
           if \<not> valid \<or> v < 0 \<or> v > mx then Inl (ScoreOutOfRange cid)
           else (let evidence = string_member item ''evidence'' in
             if trim_space evidence = [] then Inl (EvidenceMissing cid)
             else sbind (item_max_score cid mx item) (\<lambda>ms.
                  sbind (item_error_type cid item) (\<lambda>et.
                  Inr (cid, v, mx, JObj (et @ [(''evidence'', JStr evidence), (''id'', JStr cid)] @ ms @ [(''score'', JNum v)])))))))"

fun score_items :: "'z RubricLib_scheme \<Rightarrow> (string \<Rightarrow> f64 option) \<Rightarrow> members \<Rightarrow> real \<Rightarrow> real \<Rightarrow> members list \<Rightarrow> rubric_error + members \<times> real \<times> real" where
  "score_items lib maxs byID tot maximum [] = Inr (byID, tot, maximum)"
| "score_items lib maxs byID tot maximum (item # items) =
     sbind (score_item maxs (fst ` set byID) item) (\<lambda>(cid, v, mx, normalized).
     sbind (decimal lib v) (\<lambda>dv.
     sbind (decimal lib mx) (\<lambda>dm.
     score_items lib maxs (byID @ [(cid, normalized)]) (tot + dv) (maximum + dm) items)))"

definition check_aggregate :: "members \<Rightarrow> string \<times> f64 \<Rightarrow> rubric_error + unit" where
  "check_aggregate score = (\<lambda>(key, aggregate).
     case map_of score key of
       None \<Rightarrow> Inr ()
     | supplied \<Rightarrow> (case rubricFiniteNumber supplied of (v, _, valid) \<Rightarrow>
         if \<not> valid \<or> \<not> feq v aggregate then Inl (AggregateContradicts key) else Inr ()))"

definition score_summary :: "members \<Rightarrow> rubric_error + members" where
  "score_summary score =
     (case map_of score ''summary'' of
        None \<Rightarrow> Inr []
      | Some (JStr s) \<Rightarrow> (if trim_space s = [] then Inl SummaryEmpty else Inr [(''summary'', JStr s)])
      | Some _ \<Rightarrow> Inl SummaryEmpty)"

definition score_confidence :: "members \<Rightarrow> rubric_error + members" where
  "score_confidence score =
     (case map_of score ''confidence'' of
        None \<Rightarrow> Inr []
      | supplied \<Rightarrow> (case rubricFiniteNumber supplied of (v, _, valid) \<Rightarrow>
          if \<not> valid \<or> v < 0 \<or> v > 1 then Inl ConfidenceInvalid else Inr [(''confidence'', JNum v)]))"

definition canonical_scores :: "AssessmentRubric \<Rightarrow> members \<Rightarrow> json list" where
  "canonical_scores rubric byID =
     map (\<lambda>c. case map_of byID (rcID c) of Some j \<Rightarrow> j | None \<Rightarrow> JNull) (rbCriteria rubric)"

definition Evaluate :: "'z RubricLib_scheme \<Rightarrow> AssessmentRubric \<Rightarrow> members \<Rightarrow> rubric_error + AssessmentResult" where
  "Evaluate lib rubric score =
     sbind (ValidateRubric lib rubric) (\<lambda>_.
     sbind (rejectUnknownAssessmentRubricFields score [''criteria_scores'', ''total'', ''max_total'', ''summary'', ''confidence'']) (\<lambda>_.
     sbind (score_entries score) (\<lambda>items.
     sbind (score_items lib (maxByID rubric) [] 0 0 items) (\<lambda>(byID, tot, maximum).
     if length byID \<noteq> length (rbCriteria rubric) then Inl CriterionUncovered
     else
       let totalValue = lbFloat64 lib tot; maxValue = lbFloat64 lib maximum in
       if \<not> rubricFinite totalValue \<or> \<not> rubricFinite maxValue then Inl AggregateNotFinite
       else
         sbind (check_all (check_aggregate score) [(''total'', totalValue), (''max_total'', maxValue)]) (\<lambda>_.
         sbind (score_summary score) (\<lambda>summary.
         sbind (score_confidence score) (\<lambda>confidence.
         let out = confidence @ [(''criteria_scores'', JArr (canonical_scores rubric byID)), (''max_total'', JNum maxValue)] @
                   summary @ [(''total'', JNum totalValue)] in
         if \<not> lbFits lib (JObj out) then Inl CanonicalTooLarge
         else sbind (decimal lib (rbPassingScore rubric)) (\<lambda>p.
           Inr \<lparr>arScore = out, arTotal = totalValue, arPassed = (p \<le> tot)\<rparr>))))))))"

definition EvaluateJSON :: "'z RubricLib_scheme \<Rightarrow> AssessmentRubric \<Rightarrow> string \<Rightarrow> rubric_error + AssessmentResult" where
  "EvaluateJSON lib rubric raw =
     (case parseRubricSchemaJSON (lbTokens lib) raw of
        Inl e \<Rightarrow> Inl (ErrJSON e)
      | Inr (JObj score) \<Rightarrow> Evaluate lib rubric score
      | Inr _ \<Rightarrow> Inl NotCanonicalObject)"

section \<open>What validation guarantees\<close>

lemma rubricFinite_iff [simp]: "rubricFinite v \<longleftrightarrow> (\<exists>x. v = Fin x)"
  by (cases v) (auto simp: rubricFinite_def)

lemma rubricFiniteNumber_valid:
  "rubricFiniteNumber v = (n, c, True) \<Longrightarrow> \<exists>x. v = Some (JNum (Fin x)) \<and> n = Fin x \<and> \<not> c"
  by (auto simp: rubricFiniteNumber_def split: option.splits json.splits)

lemma finite_number_Inr_iff [succeeds]: "finite_number e v = Inr n \<longleftrightarrow> (\<exists>x. v = Some (JNum (Fin x)) \<and> n = Fin x)"
  by (auto simp: finite_number_def rubricFiniteNumber_def split: option.splits json.splits)

lemma decimal_Inr_iff [succeeds]: "decimal lib v = Inr d \<longleftrightarrow> (\<exists>x. v = Fin x \<and> d = lbDecimal lib x)"
  by (cases v) (auto simp: decimal_def)

lemma decimal_Fin [simp]: "decimal lib (Fin x) = Inr (lbDecimal lib x)"
  by (simp add: decimal_def)

lemma rejectUnknown_Inr_iff [succeeds]:
  "rejectUnknownAssessmentRubricFields obj allowed = Inr u \<longleftrightarrow> fst ` set obj \<subseteq> set allowed"
proof -
  have "find (\<lambda>key. key \<notin> set allowed) (sortedRubricKeys obj) = None \<longleftrightarrow> fst ` set obj \<subseteq> set allowed"
    by (auto simp: find_None_iff sortedRubricKeys_def)
  then show ?thesis
    by (cases "find (\<lambda>key. key \<notin> set allowed) (sortedRubricKeys obj)")
       (auto simp: rejectUnknownAssessmentRubricFields_def)
qed

definition anchor_ok :: "f64 \<Rightarrow> AssessmentRubricAnchor \<Rightarrow> bool" where
  "anchor_ok mx a \<longleftrightarrow> (\<exists>x. raScore a = Fin x \<and> 0 \<le> x) \<and> raScore a \<le> mx \<and> trim_space (raDescription a) \<noteq> []"

definition criterion_ok :: "'z RubricLib_scheme \<Rightarrow> AssessmentRubricCriterion \<Rightarrow> bool" where
  "criterion_ok lib c \<longleftrightarrow> validCriterionID lib (rcID c) \<and> trim_space (rcDescription c) \<noteq> [] \<and>
     (\<exists>m > 0. rcMaxScore c = Fin m) \<and>
     (\<forall>a \<in> set (rcAnchors c). anchor_ok (rcMaxScore c) a) \<and> distinct (map raScore (rcAnchors c))"

lemma validate_anchors_iff:
  "validate_anchors i j (Fin m) seen as = Inr u \<longleftrightarrow>
     (\<forall>a \<in> set as. anchor_ok (Fin m) a) \<and> distinct (map raScore as) \<and> set seen \<inter> raScore ` set as = {}"
proof (induction as arbitrary: j seen)
  case (Cons a as)
  then show ?case by (cases "raScore a") (auto simp: anchor_ok_def)
qed simp

lemma validate_criteria_iff:
  "validate_criteria lib i seen t cs = Inr T \<longleftrightarrow>
     (\<forall>c \<in> set cs. criterion_ok lib c) \<and> distinct (map rcID cs) \<and> set seen \<inter> rcID ` set cs = {} \<and>
     T = t + (\<Sum>c\<leftarrow>cs. lbDecimal lib (real_of (rcMaxScore c)))"
proof (induction cs arbitrary: i seen t)
  case (Cons c cs)
  show ?case
  proof (cases "\<exists>m > 0. rcMaxScore c = Fin m")
    case True
    then obtain m where "rcMaxScore c = Fin m" "m > 0" by blast
    with Cons show ?thesis by (auto simp: succeeds validate_anchors_iff criterion_ok_def)
  next
    case False
    then have "\<not> rubricFinite (rcMaxScore c) \<or> rcMaxScore c \<le> 0" by (cases "rcMaxScore c") auto
    with False show ?thesis by (auto simp: criterion_ok_def)
  qed
qed auto

definition rubric_total :: "'z RubricLib_scheme \<Rightarrow> AssessmentRubric \<Rightarrow> real" where
  "rubric_total lib r = (\<Sum>c\<leftarrow>rbCriteria r. lbDecimal lib (real_of (rcMaxScore c)))"

definition rubric_ok :: "'z RubricLib_scheme \<Rightarrow> AssessmentRubric \<Rightarrow> bool" where
  "rubric_ok lib r \<longleftrightarrow> rbCriteria r \<noteq> [] \<and> (\<forall>c \<in> set (rbCriteria r). criterion_ok lib c) \<and> distinct (map rcID (rbCriteria r)) \<and>
     (\<exists>x. lbFloat64 lib (rubric_total lib r) = Fin x) \<and>
     (\<exists>p > 0. rbPassingScore r = Fin p \<and> lbDecimal lib p \<le> rubric_total lib r)"

lemma ValidateRubric_iff [succeeds]: "ValidateRubric lib r = Inr u \<longleftrightarrow> rubric_ok lib r"
  by (cases "rbPassingScore r")
     (auto simp: ValidateRubric_def rubric_ok_def rubric_total_def succeeds validate_criteria_iff)

section \<open>Stored rubrics read back\<close>

lemma elements_ok_all: "elements_ok d vs \<longleftrightarrow> (\<forall>v \<in> set vs. json_ok d v)"
  by (induction vs) auto

lemma anchor_map_ok: "d \<le> 30 \<Longrightarrow> json_ok d (anchor_map a)"
  by (simp add: anchor_map_def)

lemma criterion_map_ok: "d \<le> 20 \<Longrightarrow> json_ok d (criterion_map c)"
  by (auto simp: criterion_map_def elements_ok_all anchor_map_ok)

lemma RubricMap_ok: "json_ok 0 (RubricMap r)"
  by (auto simp: RubricMap_def elements_ok_all criterion_map_ok)

lemma parse_anchor_map: "anchor_ok mx a \<Longrightarrow> parse_anchor i (j, anchor_map a) = Inr a"
  by (auto simp: parse_anchor_def anchor_map_def anchor_ok_def sbind_def rejectUnknownAssessmentRubricFields_def
      sortedRubricKeys_def finite_number_def rubricFiniteNumber_def string_member_def)

lemma check_all_enumerate:
  "(\<And>i x. x \<in> set xs \<Longrightarrow> f (i, g x) = Inr x) \<Longrightarrow> check_all f (enumerate n (map g xs)) = Inr xs"
  by (induction xs arbitrary: n) auto

lemma sbind_reject_ok:
  "fst ` set obj \<subseteq> set allowed \<Longrightarrow> sbind (rejectUnknownAssessmentRubricFields obj allowed) f = f ()"
  using rejectUnknown_Inr_iff[of obj allowed "()"] by simp

lemma parse_criterion_map:
  assumes "criterion_ok lib c"
  shows "parse_criterion (i, criterion_map c) = Inr c"
proof -
  have anchors: "check_all (parse_anchor i) (enumerate 0 (map anchor_map (rcAnchors c))) = Inr (rcAnchors c)"
    using assms by (intro check_all_enumerate parse_anchor_map) (auto simp: criterion_ok_def)
  obtain m where "rcMaxScore c = Fin m" using assms by (auto simp: criterion_ok_def)
  with anchors show ?thesis
    by (cases c) (auto simp: parse_criterion_def criterion_map_def sbind_reject_ok
      finite_number_def rubricFiniteNumber_def string_member_def)
qed

lemma rubric_of_object_map:
  assumes "rubric_ok lib r" and "lbFits lib (RubricMap r)" and "rbAnswerKey r = [] \<or> trim_space (rbAnswerKey r) \<noteq> []"
    and "RubricMap r = JObj obj"
  shows "rubric_of_object lib obj = Inr r"
proof -
  obtain p where p: "rbPassingScore r = Fin p" using assms(1) by (auto simp: rubric_ok_def)
  have obj: "obj = (if rbAnswerKey r \<noteq> [] then [(''answer_key'', JStr (rbAnswerKey r))] else []) @
      [(''criteria'', JArr (map criterion_map (rbCriteria r))), (''passing_score'', JNum (rbPassingScore r))]"
    using assms(4) by (simp add: RubricMap_def)
  have criteria: "check_all parse_criterion (enumerate 0 (map criterion_map (rbCriteria r))) = Inr (rbCriteria r)"
    using assms(1) by (intro check_all_enumerate parse_criterion_map[of lib]) (simp add: rubric_ok_def)
  have valid: "ValidateRubric lib r = Inr ()" using assms(1) by (simp add: succeeds)
  have "fst ` set obj \<subseteq> set [''criteria'', ''passing_score'', ''answer_key'', ''max_total'']"
    by (auto simp: obj)
  then show ?thesis
    using assms(2,3) p valid criteria
    by (cases r) (auto simp: rubric_of_object_def Let_def sbind_reject_ok finite_number_def rubricFiniteNumber_def check_max_total_def obj)
qed

lemma rubric_of_object_accepts:
  assumes "rubric_of_object lib obj = Inr r"
  shows "rubric_ok lib r" "lbFits lib (RubricMap r)" "rbAnswerKey r = [] \<or> trim_space (rbAnswerKey r) \<noteq> []"
  using assms by (auto simp: rubric_of_object_def succeeds Let_def split: option.splits json.splits if_splits)

lemma ParseRubric_Inr_iff [succeeds]:
  "ParseRubric lib raw = Inr r \<longleftrightarrow>
     text_ok raw \<and> (\<exists>obj. json_ok 0 (JObj obj) \<and> lbTokens lib raw = tokens_of (JObj obj) \<and> rubric_of_object lib obj = Inr r)"
proof -
  have "ParseRubric lib raw = Inr r \<longleftrightarrow>
      (\<exists>obj. parseRubricSchemaJSON (lbTokens lib) raw = Inr (JObj obj) \<and> rubric_of_object lib obj = Inr r)"
    by (auto simp: ParseRubric_def split: sum.splits json.splits)
  then show ?thesis by (simp only: parse_iff conj_assoc) blast
qed

text \<open>C14. Round trip of rubrics: a rubric that \<open>ParseRubric\<close> accepts came in a text of valid
  UTF-8 within the byte limit, is well formed (at least one criterion, unique valid identifiers, positive finite
  maxima, anchors within their criterion, a finite maximum and a passing score that can be reached),
  has a canonical document within the byte limit, and every text of valid UTF-8 within that limit
  whose tokens are those of the canonical document that \<open>RubricMap\<close> writes for it parses back to
  exactly the same rubric.
\<close>

theorem ParseRubric_roundtrip:
  assumes "ParseRubric lib raw = Inr r"
  shows "text_ok raw \<and> rubric_ok lib r \<and> lbFits lib (RubricMap r) \<and>
    (\<forall>canonical. text_ok canonical \<and> lbTokens lib canonical = tokens_of (RubricMap r) \<longrightarrow> ParseRubric lib canonical = Inr r)"
proof -
  from assms obtain obj where raw: "text_ok raw" and "rubric_of_object lib obj = Inr r" by (auto simp only: succeeds)
  note r = rubric_of_object_accepts[OF this(2)]
  obtain obj' where obj': "RubricMap r = JObj obj'" by (simp add: RubricMap_def)
  have "ParseRubric lib canonical = Inr r" if "text_ok canonical" "lbTokens lib canonical = tokens_of (RubricMap r)" for canonical
    using that RubricMap_ok[of r] rubric_of_object_map[of lib r, OF r obj'] obj' unfolding ParseRubric_Inr_iff by metis
  with raw r show ?thesis by blast
qed

definition example_rubric :: AssessmentRubric where
  "example_rubric = \<lparr>rbCriteria = [\<lparr>rcID = ''c1'', rcDescription = ''d'', rcMaxScore = Fin 2,
       rcAnchors = [\<lparr>raScore = Fin 1, raDescription = ''half''\<rparr>]\<rparr>,
     \<lparr>rcID = ''c2'', rcDescription = ''d'', rcMaxScore = Fin 3, rcAnchors = []\<rparr>],
     rbPassingScore = Fin 4, rbAnswerKey = ''k''\<rparr>"

definition example_lib :: RubricLib where
  "example_lib = \<lparr>lbTokens = (\<lambda>_. tokens_of (RubricMap example_rubric)), lbFits = (\<lambda>_. True), lbDecimal = (\<lambda>x. x), lbFloat64 = Fin,
     lbLetterOrDigit = (\<lambda>r. 48 \<le> r \<and> r \<le> 57 \<or> 65 \<le> r \<and> r \<le> 90 \<or> 97 \<le> r \<and> r \<le> 122)\<rparr>"

lemma example_rubric_ok: "rubric_ok example_lib example_rubric"
proof -
  have "trim_space ''d'' \<noteq> []" "trim_space ''half'' \<noteq> []" "validCriterionID example_lib ''c1''" "validCriterionID example_lib ''c2''"
    by code_simp+
  then show ?thesis
    by (simp add: example_rubric_def rubric_ok_def rubric_total_def criterion_ok_def anchor_ok_def) (simp add: example_lib_def)
qed

theorem ParseRubric_roundtrip_witness:
  "ParseRubric example_lib ''rubric'' = Inr example_rubric \<and> lbFits example_lib (RubricMap example_rubric) \<and>
   ParseRubric example_lib ''canonical'' = Inr example_rubric"
proof -
  obtain obj where obj: "RubricMap example_rubric = JObj obj" by (simp add: RubricMap_def)
  have k: "trim_space ''k'' \<noteq> []" and texts: "text_ok ''rubric''" "text_ok ''canonical''" by code_simp+
  from k have "rubric_of_object example_lib obj = Inr example_rubric"
    by (intro rubric_of_object_map[OF example_rubric_ok _ _ obj]) (simp_all add: example_rubric_def example_lib_def)
  moreover have tokens: "lbTokens example_lib raw = tokens_of (RubricMap example_rubric)" for raw by (simp add: example_lib_def)
  ultimately have "ParseRubric example_lib ''rubric'' = Inr example_rubric"
    using RubricMap_ok[of example_rubric] obj texts(1) unfolding ParseRubric_Inr_iff by metis
  from this ParseRubric_roundtrip[OF this] texts(2) tokens show ?thesis by blast
qed

section \<open>Sound scoring\<close>

text \<open>The identifier and the score that an entry of the canonical score carries.\<close>

definition entry_id :: "json \<Rightarrow> string" where
  "entry_id j = (case j of JObj m \<Rightarrow> string_member m ''id'' | _ \<Rightarrow> [])"

definition entry_score :: "json \<Rightarrow> f64" where
  "entry_score j = (case j of JObj m \<Rightarrow> (case map_of m ''score'' of Some (JNum x) \<Rightarrow> x | _ \<Rightarrow> NaN) | _ \<Rightarrow> NaN)"

lemma item_max_score_Inr: "item_max_score cid mx item = Inr ms \<Longrightarrow> ms = [] \<or> (\<exists>v. ms = [(''max_score'', JNum v)])"
  by (auto simp: item_max_score_def split: option.splits prod.splits if_splits)

lemma item_error_type_Inr: "item_error_type cid item = Inr et \<Longrightarrow> et = [] \<or> (\<exists>e. et = [(''error_type'', JStr e)])"
  by (auto simp: item_error_type_def split: option.splits json.splits if_splits)

lemma score_item_sound:
  assumes "score_item maxs seen item = Inr (cid, v, mx, j)"
  shows "\<exists>x. v = Fin x \<and> 0 \<le> x \<and> \<not> Fin x > mx \<and> maxs cid = Some mx \<and> cid \<notin> seen \<and> entry_id j = cid \<and> entry_score j = Fin x"
proof -
  obtain x ms et where d: "v = Fin x" "\<not> Fin x < 0" "\<not> Fin x > mx" "maxs cid = Some mx" "cid \<notin> seen"
    and ms: "item_max_score cid mx item = Inr ms" and et: "item_error_type cid item = Inr et"
    and j: "\<exists>ev. j = JObj (et @ [(''evidence'', JStr ev), (''id'', JStr cid)] @ ms @ [(''score'', JNum v)])"
    using assms by (auto simp: score_item_def succeeds Let_def split: option.splits prod.splits if_splits
        dest!: rubricFiniteNumber_valid)
  from item_max_score_Inr[OF ms] item_error_type_Inr[OF et] j have "entry_id j = cid" "entry_score j = v"
    by (auto simp: entry_id_def entry_score_def string_member_def)
  with d show ?thesis by simp
qed

definition scored :: "'z RubricLib_scheme \<Rightarrow> (string \<Rightarrow> f64 option) \<Rightarrow> members \<Rightarrow> real \<Rightarrow> bool" where
  "scored lib maxs byID t \<longleftrightarrow> distinct (map fst byID) \<and> t = (\<Sum>(k, j)\<leftarrow>byID. lbDecimal lib (real_of (entry_score j))) \<and>
     (\<forall>(k, j) \<in> set byID. entry_id j = k \<and>
        (\<exists>x mx. maxs k = Some mx \<and> entry_score j = Fin x \<and> 0 \<le> x \<and> \<not> Fin x > mx))"

lemma score_items_sound:
  assumes "score_items lib maxs byID t m items = Inr (byID', T, M)" and "scored lib maxs byID t"
  shows "scored lib maxs byID' T"
  using assms
proof (induction items arbitrary: byID t m)
  case (Cons item items)
  from Cons.prems(1) obtain cid v mx j dv dm
    where item: "score_item maxs (fst ` set byID) item = Inr (cid, v, mx, j)" and dv: "\<exists>x. v = Fin x \<and> dv = lbDecimal lib x"
      and rest: "score_items lib maxs (byID @ [(cid, j)]) (t + dv) (m + dm) items = Inr (byID', T, M)"
    by (auto simp: succeeds)
  from score_item_sound[OF item] dv Cons.prems(2) have "scored lib maxs (byID @ [(cid, j)]) (t + dv)"
    by (auto simp: scored_def)
  with Cons.IH[OF rest] show ?case .
qed simp

lemma map_of_rev_distinct:
  assumes "distinct (map fst xs)"
  shows "map_of (rev xs) = map_of xs"
proof
  fix k
  have "map_of (rev xs) k = Some v \<longleftrightarrow> map_of xs k = Some v" for v
    using assms by (simp add: rev_map[symmetric])
  then show "map_of (rev xs) k = map_of xs k"
    by (cases "map_of xs k"; cases "map_of (rev xs) k") auto
qed

lemma maxByID_criterion:
  assumes "distinct (map rcID (rbCriteria r))"
  shows "maxByID r k = Some mx \<longleftrightarrow> (\<exists>c \<in> set (rbCriteria r). rcID c = k \<and> rcMaxScore c = mx)"
proof -
  have d: "distinct (map fst (map (\<lambda>c. (rcID c, rcMaxScore c)) (rbCriteria r)))"
    using assms by (simp add: comp_def)
  show ?thesis unfolding maxByID_def map_of_rev_distinct[OF d] map_of_eq_Some_iff[OF d] by auto
qed

text \<open>
  All identifiers of a complete score are those of the rubric, so sums over the entries and over
  the criteria agree.
\<close>

lemma scored_complete:
  assumes sc: "scored lib (maxByID r) byID t" and len: "length byID = length (rbCriteria r)"
    and ids: "distinct (map rcID (rbCriteria r))"
  shows "fst ` set byID = rcID ` set (rbCriteria r)"
    and "t = (\<Sum>c\<leftarrow>rbCriteria r. lbDecimal lib (real_of (entry_score (the (map_of byID (rcID c))))))"
proof -
  have di: "distinct (map fst byID)" and t: "t = (\<Sum>(k, j)\<leftarrow>byID. lbDecimal lib (real_of (entry_score j)))"
    using sc by (auto simp: scored_def)
  have sub: "fst ` set byID \<subseteq> rcID ` set (rbCriteria r)"
  proof clarify
    fix k j
    assume "(k, j) \<in> set byID"
    with sc obtain mx where "maxByID r k = Some mx" unfolding scored_def by blast
    then show "fst (k, j) \<in> rcID ` set (rbCriteria r)" using maxByID_criterion[OF ids] by force
  qed
  have "card (fst ` set byID) = card (rcID ` set (rbCriteria r))"
    using distinct_card[OF di] distinct_card[OF ids] len by simp
  with sub show eq: "fst ` set byID = rcID ` set (rbCriteria r)" by (simp add: card_subset_eq)
  let ?f = "\<lambda>k. lbDecimal lib (real_of (entry_score (the (map_of byID k))))"
  have "t = sum_list (map ?f (map fst byID))"
    unfolding t map_map by (intro arg_cong[of _ _ sum_list] map_cong refl) (clarsimp simp: di)
  also have "\<dots> = sum ?f (fst ` set byID)" using sum_list_distinct_conv_sum_set[OF di, of ?f] by simp
  also have "\<dots> = sum_list (map ?f (map rcID (rbCriteria r)))"
    using sum_list_distinct_conv_sum_set[OF ids, of ?f] eq by simp
  finally show "t = (\<Sum>c\<leftarrow>rbCriteria r. ?f (rcID c))" by (simp add: comp_def)
qed

lemma Evaluate_parts:
  assumes "Evaluate lib r score = Inr res"
  obtains byID t where "rubric_ok lib r" "scored lib (maxByID r) byID t" "length byID = length (rbCriteria r)"
    "map_of (arScore res) ''criteria_scores'' = Some (JArr (canonical_scores r byID))"
    "map_of (arScore res) ''total'' = Some (JNum (arTotal res))"
    "arTotal res = lbFloat64 lib t" "\<exists>x. arTotal res = Fin x"
    "\<exists>p. rbPassingScore r = Fin p \<and> (arPassed res \<longleftrightarrow> lbDecimal lib p \<le> t)"
proof -
  from assms obtain items byID t m where ok: "rubric_ok lib r"
    and items: "score_items lib (maxByID r) [] 0 0 items = Inr (byID, t, m)"
    and len: "length byID = length (rbCriteria r)"
    and res: "\<exists>summary confidence p x. score_summary score = Inr summary \<and> score_confidence score = Inr confidence \<and>
      rbPassingScore r = Fin p \<and> lbFloat64 lib t = Fin x \<and>
      res = \<lparr>arScore = confidence @ [(''criteria_scores'', JArr (canonical_scores r byID)), (''max_total'', JNum (lbFloat64 lib m))] @
              summary @ [(''total'', JNum (lbFloat64 lib t))], arTotal = lbFloat64 lib t, arPassed = (lbDecimal lib p \<le> t)\<rparr>"
    by (auto simp: Evaluate_def succeeds Let_def)
  have "score_confidence score = Inr c \<Longrightarrow> c = [] \<or> (\<exists>v. c = [(''confidence'', JNum v)])" for c
    by (auto simp: score_confidence_def split: option.splits prod.splits if_splits)
  moreover have "score_summary score = Inr c \<Longrightarrow> c = [] \<or> (\<exists>v. c = [(''summary'', JStr v)])" for c
    by (auto simp: score_summary_def split: option.splits json.splits if_splits)
  ultimately have "map_of (arScore res) ''criteria_scores'' = Some (JArr (canonical_scores r byID))"
    "map_of (arScore res) ''total'' = Some (JNum (arTotal res))" using res by auto
  moreover have "scored lib (maxByID r) byID t" using score_items_sound[OF items] by (simp add: scored_def)
  ultimately show thesis using that ok len res by auto
qed

lemma scored_entry:
  assumes ok: "rubric_ok lib r" and sc: "scored lib (maxByID r) byID t" and len: "length byID = length (rbCriteria r)"
    and c: "c \<in> set (rbCriteria r)"
  shows "\<exists>j x m. map_of byID (rcID c) = Some j \<and> entry_id j = rcID c \<and> entry_score j = Fin x \<and> 0 \<le> x \<and>
    rcMaxScore c = Fin m \<and> x \<le> m"
proof -
  have ids: "distinct (map rcID (rbCriteria r))" using ok by (simp add: rubric_ok_def)
  have "rcID c \<in> fst ` set byID" using c scored_complete(1)[OF sc len ids] by simp
  then obtain j where j: "map_of byID (rcID c) = Some j" by (metis map_of_eq_None_iff not_Some_eq)
  from map_of_SomeD[OF j] sc obtain x mx where x: "entry_id j = rcID c" "maxByID r (rcID c) = Some mx"
    "entry_score j = Fin x" "0 \<le> x" "\<not> Fin x > mx" by (fastforce simp: scored_def)
  have "maxByID r (rcID c) = Some (rcMaxScore c)" using c maxByID_criterion[OF ids] by blast
  moreover obtain m where "rcMaxScore c = Fin m" using c ok by (auto simp: rubric_ok_def criterion_ok_def)
  ultimately show ?thesis using x j by auto
qed

text \<open>C15. Sound scoring: when \<open>Evaluate\<close> succeeds, the canonical score lists every criterion of the
  frozen rubric exactly once and in the rubric's order, and each score lies between zero and the
  criterion's maximum. The attempt passes exactly when the exact sum of the decimals of these scores
  reaches the decimal of the passing score; that sum is at most the rubric's maximum. The reported
  total, also written in the canonical score, is finite and is the float that \<open>big.Rat.Float64\<close>
  gives for that sum; it plays no part in the verdict. The printed decimals are assumed to follow
  the order of the floats.
\<close>

theorem Evaluate_sound:
  assumes eval: "Evaluate lib r score = Inr res" and decimals: "mono (lbDecimal lib)"
  shows "\<exists>entries xs p. map_of (arScore res) ''criteria_scores'' = Some (JArr entries) \<and>
     map entry_id entries = map rcID (rbCriteria r) \<and> distinct (map entry_id entries) \<and>
     map entry_score entries = map Fin xs \<and>
     list_all2 (\<lambda>c x. 0 \<le> x \<and> Fin x \<le> rcMaxScore c) (rbCriteria r) xs \<and>
     rbPassingScore r = Fin p \<and>
     (arPassed res \<longleftrightarrow> lbDecimal lib p \<le> sum_list (map (lbDecimal lib) xs)) \<and>
     sum_list (map (lbDecimal lib) xs) \<le> rubric_total lib r \<and>
     arTotal res = lbFloat64 lib (sum_list (map (lbDecimal lib) xs)) \<and> (\<exists>x. arTotal res = Fin x) \<and>
     map_of (arScore res) ''total'' = Some (JNum (arTotal res))"
proof -
  obtain byID t p where ok: "rubric_ok lib r" and sc: "scored lib (maxByID r) byID t"
    and len: "length byID = length (rbCriteria r)"
    and res: "map_of (arScore res) ''criteria_scores'' = Some (JArr (canonical_scores r byID))"
      "map_of (arScore res) ''total'' = Some (JNum (arTotal res))"
      "arTotal res = lbFloat64 lib t" "\<exists>x. arTotal res = Fin x"
      "rbPassingScore r = Fin p" "arPassed res \<longleftrightarrow> lbDecimal lib p \<le> t"
    using Evaluate_parts[OF eval] by metis
  have ids: "distinct (map rcID (rbCriteria r))" using ok by (simp add: rubric_ok_def)
  let ?x = "\<lambda>c. real_of (entry_score (the (map_of byID (rcID c))))"
  let ?e = "\<lambda>c. case map_of byID (rcID c) of Some j \<Rightarrow> j | None \<Rightarrow> JNull"
  have entry: "entry_id (?e c) = rcID c \<and> entry_score (?e c) = Fin (?x c) \<and> 0 \<le> ?x c \<and> Fin (?x c) \<le> rcMaxScore c \<and>
      ?x c \<le> real_of (rcMaxScore c)" if "c \<in> set (rbCriteria r)" for c
    using scored_entry[OF ok sc len that] by auto
  have t: "t = sum_list (map (lbDecimal lib) (map ?x (rbCriteria r)))"
    using scored_complete(2)[OF sc len ids] by (simp add: comp_def)
  moreover have "sum_list (map (lbDecimal lib) (map ?x (rbCriteria r))) \<le> rubric_total lib r"
    unfolding rubric_total_def map_map comp_def using entry monoD[OF decimals] by (intro sum_list_mono) blast
  moreover have "map entry_id (canonical_scores r byID) = map rcID (rbCriteria r)"
    using entry by (simp add: canonical_scores_def)
  moreover have "map entry_score (canonical_scores r byID) = map Fin (map ?x (rbCriteria r))"
    using entry by (simp add: canonical_scores_def)
  moreover have "list_all2 (\<lambda>c x. 0 \<le> x \<and> Fin x \<le> rcMaxScore c) (rbCriteria r) (map ?x (rbCriteria r))"
    using entry by (simp add: list_all2_conv_all_nth)
  ultimately show ?thesis
    using res ids by (intro exI[of _ "canonical_scores r byID"] exI[of _ "map ?x (rbCriteria r)"] exI[of _ p]) simp
qed

definition example_score :: members where
  "example_score = [(''criteria_scores'', JArr [
     JObj [(''id'', JStr ''c2''), (''score'', JNum (Fin 3)), (''evidence'', JStr ''e'')],
     JObj [(''id'', JStr ''c1''), (''score'', JNum (Fin (3/2))), (''evidence'', JStr ''e'')]])]"

lemma example_evaluates:
  "\<exists>res. Evaluate example_lib example_rubric example_score = Inr res \<and> arTotal res = Fin (9/2) \<and> arPassed res"
proof -
  have e: "trim_space ''e'' \<noteq> []" by code_simp
  have ok: "ValidateRubric example_lib example_rubric = Inr ()" using example_rubric_ok by (simp add: succeeds)
  have max: "maxByID example_rubric = [''c2'' \<mapsto> Fin 3, ''c1'' \<mapsto> Fin 2]"
    by (auto simp: maxByID_def example_rubric_def)
  have frozen: "length (rbCriteria example_rubric) = 2" "rbPassingScore example_rubric = Fin 4"
    by (simp_all add: example_rubric_def)
  have fin: "rubricFinite (Fin x)" for x by simp
  have lib: "lbFits example_lib j" "lbDecimal example_lib x = x" "lbFloat64 example_lib x = Fin x" for j x
    by (simp_all add: example_lib_def)
  show ?thesis
    unfolding Evaluate_def ok sbind_simps
    by (auto simp: example_score_def sbind_reject_ok score_entries_def max score_item_def string_member_def
        rubricFiniteNumber_def e item_max_score_def item_error_type_def check_aggregate_def score_summary_def
        score_confidence_def Let_def frozen fin lib simp del: rubricFinite_iff)
qed

theorem Evaluate_sound_witness:
  "\<exists>res entries xs. Evaluate example_lib example_rubric example_score = Inr res \<and> arPassed res \<and>
     map_of (arScore res) ''criteria_scores'' = Some (JArr entries) \<and> map entry_id entries = [''c1'', ''c2''] \<and>
     map entry_score entries = map Fin xs \<and> sum_list xs = 9/2"
proof -
  obtain res where r: "Evaluate example_lib example_rubric example_score = Inr res" "arTotal res = Fin (9/2)" "arPassed res"
    using example_evaluates by blast
  have lib: "lbDecimal example_lib = (\<lambda>x. x)" "lbFloat64 example_lib = Fin" by (simp_all add: example_lib_def)
  then have "mono (lbDecimal example_lib)" by (simp add: mono_def)
  from Evaluate_sound[OF r(1) this] r show ?thesis by (fastforce simp: example_rubric_def lib)
qed

section \<open>No panic\<close>

lemma finite_number_Inl: "finite_number e v = Inl e' \<Longrightarrow> e' = e"
  by (auto simp: finite_number_def split: prod.splits if_splits)

lemma reject_not_panic: "rejectUnknownAssessmentRubricFields obj allowed \<noteq> Inl Panic"
  by (auto simp: rejectUnknownAssessmentRubricFields_def split: option.splits)

lemma check_all_Inl: "check_all f xs = Inl e \<Longrightarrow> \<exists>x \<in> set xs. f x = Inl e"
  by (induction xs) (auto simp: sbind_Inl_iff)

lemma validate_anchors_not_panic: "validate_anchors i j mx seen as \<noteq> Inl Panic"
  by (induction as arbitrary: j seen) auto

lemma validate_criteria_not_panic: "validate_criteria lib i seen t cs \<noteq> Inl Panic"
  by (induction cs arbitrary: i seen t) (auto simp: sbind_Inl_iff validate_anchors_not_panic)

lemma ValidateRubric_not_panic: "ValidateRubric lib r \<noteq> Inl Panic"
  by (auto simp: ValidateRubric_def sbind_Inl_iff validate_criteria_not_panic)

lemma parse_anchor_not_panic: "parse_anchor i x \<noteq> Inl Panic"
  by (auto simp: parse_anchor_def sbind_Inl_iff reject_not_panic dest: finite_number_Inl split: prod.splits json.splits)

lemma parse_criterion_not_panic: "parse_criterion x \<noteq> Inl Panic"
  by (auto simp: parse_criterion_def sbind_Inl_iff reject_not_panic parse_anchor_not_panic
      dest: finite_number_Inl check_all_Inl split: prod.splits json.splits option.splits)

lemma parse_criterion_finite: "parse_criterion x = Inr c \<Longrightarrow> \<exists>m. rcMaxScore c = Fin m"
  by (auto simp: parse_criterion_def succeeds split: prod.splits json.splits)

lemma check_max_total_not_panic:
  assumes "\<And>c. c \<in> set cs \<Longrightarrow> \<exists>m. rcMaxScore c = Fin m"
  shows "check_max_total lib cs v \<noteq> Inl Panic"
proof -
  have "check_all (\<lambda>c. decimal lib (rcMaxScore c)) cs \<noteq> Inl Panic"
    using assms check_all_Inl[of "\<lambda>c. decimal lib (rcMaxScore c)" cs Panic] by fastforce
  then show ?thesis by (auto simp: check_max_total_def sbind_Inl_iff split: option.splits prod.splits if_splits)
qed

lemma criteria_finite:
  assumes "check_all parse_criterion xs = Inr cs" and "c \<in> set cs"
  shows "\<exists>m. rcMaxScore c = Fin m"
proof -
  have "Inr c \<in> set (map parse_criterion xs)" using assms by (simp add: succeeds)
  then obtain x where "parse_criterion x = Inr c" by auto
  then show ?thesis by (rule parse_criterion_finite)
qed

lemma parsed_max_total_not_panic:
  "check_all parse_criterion xs = Inr cs \<Longrightarrow> check_max_total lib cs v \<noteq> Inl Panic"
  by (rule check_max_total_not_panic, rule criteria_finite)

lemma rubric_of_object_not_panic: "rubric_of_object lib obj \<noteq> Inl Panic"
proof
  assume "rubric_of_object lib obj = Inl Panic"
  then show False
    by (auto simp: rubric_of_object_def sbind_Inl_iff reject_not_panic Let_def ValidateRubric_not_panic
        parse_criterion_not_panic dest: finite_number_Inl check_all_Inl
        dest!: parsed_max_total_not_panic
        split: option.splits json.splits if_splits)
qed

lemma score_item_not_panic: "score_item maxs seen item \<noteq> Inl Panic"
  by (auto simp: score_item_def sbind_Inl_iff reject_not_panic Let_def item_max_score_def item_error_type_def
      split: option.splits prod.splits if_splits json.splits)

lemma score_items_not_panic:
  assumes "\<And>k mx. maxs k = Some mx \<Longrightarrow> \<exists>m. mx = Fin m"
  shows "score_items lib maxs byID t m items \<noteq> Inl Panic"
proof (induction items arbitrary: byID t m)
  case (Cons item items)
  show ?case
  proof (cases "score_item maxs (fst ` set byID) item")
    case (Inl e)
    with score_item_not_panic[of maxs "fst ` set byID" item] show ?thesis by auto
  next
    case (Inr q)
    obtain cid v mx j where q: "q = (cid, v, mx, j)" by (cases q)
    from score_item_sound[OF Inr[unfolded q]] assms Cons Inr q show ?thesis by fastforce
  qed
qed simp

lemma score_entries_not_panic: "score_entries score \<noteq> Inl Panic"
  by (auto simp: score_entries_def dest!: check_all_Inl split: option.splits json.splits)

lemma check_aggregate_not_panic: "check_aggregate score x \<noteq> Inl Panic"
  by (auto simp: check_aggregate_def split: prod.splits option.splits if_splits)

lemma score_tail_not_panic: "score_summary score \<noteq> Inl Panic" "score_confidence score \<noteq> Inl Panic"
  by (auto simp: score_summary_def score_confidence_def split: option.splits json.splits prod.splits if_splits)

text \<open>C16. Error behaviour: the panic of \<open>decimal\<close> on a value that is not finite is never reached.
  Whatever document, rubric or score is given, \<open>ParseRubric\<close>, \<open>Evaluate\<close> and \<open>EvaluateJSON\<close>
  return a result or an ordinary error.
\<close>

theorem assessment_never_panics:
  "ParseRubric lib raw \<noteq> Inl Panic \<and> Evaluate lib r score \<noteq> Inl Panic \<and>
   EvaluateJSON lib r raw \<noteq> Inl Panic"
proof -
  have eval: "Evaluate lib r score \<noteq> Inl Panic" for score
  proof (cases "rubric_ok lib r")
    case True
    then have "\<exists>p. rbPassingScore r = Fin p" by (auto simp: rubric_ok_def)
    moreover have "\<exists>m. mx = Fin m" if "maxByID r k = Some mx" for k mx
      using True that maxByID_criterion[of r k mx] by (auto simp: rubric_ok_def criterion_ok_def)
    ultimately show ?thesis
      by (auto simp: Evaluate_def sbind_Inl_iff reject_not_panic ValidateRubric_not_panic score_entries_not_panic
          score_items_not_panic check_aggregate_not_panic score_tail_not_panic Let_def
          dest: check_all_Inl split: prod.splits if_splits)
  next
    case False
    then have "ValidateRubric lib r \<noteq> Inr u" for u by (simp add: succeeds)
    then obtain e where "ValidateRubric lib r = Inl e" by (cases "ValidateRubric lib r") auto
    with ValidateRubric_not_panic[of lib r] show ?thesis by (simp add: Evaluate_def)
  qed
  moreover have "ParseRubric lib raw \<noteq> Inl Panic"
    by (auto simp: ParseRubric_def rubric_of_object_not_panic split: sum.splits json.splits)
  moreover have "EvaluateJSON lib r raw \<noteq> Inl Panic"
    by (auto simp: EvaluateJSON_def eval split: sum.splits json.splits)
  ultimately show ?thesis by blast
qed

end
