(* ===== verification/Mastery.thy ===== *)
theory Mastery
  imports Evidence Transfer_Model Rubric
begin

text \<open>
  The mastery read model of \<open>engine/mastery_status.go\<close> and the evidence controller of
  \<open>engine/evidence_controller.go\<close>: which of the claims Estimated, Retained, Demonstrated and
  Transferred the stored evidence supports. Nil rows are dropped by the first filter of each
  function, so the functions behind it work on the rows that are not nil. The decoders of
  \<open>encoding/json\<close> (the token stream of a stored rubric and the adjudication identifier of a stored
  provenance document) are arguments. \<open>sort.Slice\<close> is a stable sort; the order of equal times does
  not matter here, as the reference definition below shows.
\<close>

section \<open>Types\<close>

definition minimumDelayedRecallGap :: duration where "minimumDelayedRecallGap = 24 * hour"

datatype MasteryStage =
    MasteryStageNotStarted | MasteryStageDeveloping | MasteryStageEstimated
  | MasteryStageRetained | MasteryStageDemonstrated | MasteryStageTransferred

datatype RetentionEvidenceTrust =
    RetentionEvidenceNone | RetentionEvidenceUnverifiedOnly | RetentionEvidenceAssessmentLinked

record MasteryStatus =
  msStage :: MasteryStage
  msEstimated :: bool
  msRetained :: bool
  msDemonstrated :: bool
  msTransferred :: bool
  msMasteryEstimate :: f64
  msRetentionEstimate :: f64
  msRetentionEvidence :: RetentionEvidenceTrust
  msEvidenceQuality :: EvidenceQuality
  msConfidence :: MasteryConfidenceLabel
  msTransferReadiness :: TransferReadinessLabel

text \<open>
  What the standard library makes of the stored texts: the functions the rubric reader uses, and
  the adjudication identifier of a provenance document (\<open>None\<close> when it does not decode).
\<close>

record JsonCodec = RubricLib +
  jcAdjudicationID :: "string \<Rightarrow> string option"

section \<open>Evidence filters\<close>

definition isRetrievalActivity :: "string \<Rightarrow> bool" where
  "isRetrievalActivity t \<longleftrightarrow> t \<in> string_of_activity ` {ActivityRecall, ActivityDiagnosticAssessment,
     ActivityMasteryChallenge, ActivityDebuggingCase, ActivityFeynmanPrompt, ActivityTransferProbe}"

definition isCognitiveExposureActivity :: "string \<Rightarrow> bool" where
  "isCognitiveExposureActivity t \<longleftrightarrow> isRetrievalActivity t \<or>
     t \<in> string_of_activity ` {ActivityNewConcept, ActivityPractice, ActivityDebugMisconception}"

definition after :: "time \<Rightarrow> time \<Rightarrow> bool" where "after t u \<longleftrightarrow> t > u"

definition attempt_evidence :: "string \<Rightarrow> string \<Rightarrow> time \<Rightarrow> AssessmentAttempt \<Rightarrow> bool" where
  "attempt_evidence learnerID concept now a \<longleftrightarrow>
     \<not> (aaLearnerID a \<noteq> learnerID \<or> aaConceptID a \<noteq> concept \<or>
        aaStatus a \<noteq> AssessmentAttemptEvaluated \<or> aaCurriculumInvalidatedVersion a \<noteq> 0) \<and>
     (case (aaSubmittedAt a, aaEvaluatedAt a) of
        (Some submitted, Some evaluated) \<Rightarrow>
          \<not> isZero submitted \<and> \<not> isZero evaluated \<and> \<not> after submitted evaluated \<and>
          \<not> (\<not> isZero now \<and> after evaluated now)
      | _ \<Rightarrow> False)"

definition assessmentEvidenceAt ::
    "string \<Rightarrow> string \<Rightarrow> AssessmentAttempt option list \<Rightarrow> time \<Rightarrow> AssessmentAttempt list" where
  "assessmentEvidenceAt learnerID concept assessments now =
     filter (attempt_evidence learnerID concept now) (somes assessments)"

definition assessmentMatchesEvaluatedInteraction ::
    "AssessmentAttempt option \<Rightarrow> Interaction \<Rightarrow> string \<Rightarrow> string \<Rightarrow> bool" where
  "assessmentMatchesEvaluatedInteraction attempt i learnerID concept =
     (case attempt of
        None \<Rightarrow> False
      | Some a \<Rightarrow> inAssessmentAttemptID i \<noteq> '''' \<and> aaID a = inAssessmentAttemptID i \<and>
          aaLearnerID a = learnerID \<and> aaConceptID a = concept \<and> aaActivityType a = inActivityType i \<and>
          aaStatus a = AssessmentAttemptEvaluated \<and> aaCurriculumInvalidatedVersion a = 0 \<and>
          aaSubmittedAt a \<noteq> None \<and> aaEvaluatedAt a \<noteq> None)"

section \<open>The response timeline\<close>

text \<open>
  The observations one interaction contributes: a linked one is dated to the committed response,
  and a later grading of the old protocol stays as an exposure that is no success.
\<close>

definition timeline_rows ::
    "(string \<Rightarrow> AssessmentAttempt option) \<Rightarrow> string \<Rightarrow> string \<Rightarrow> Interaction \<Rightarrow> Interaction list" where
  "timeline_rows attempts learnerID concept i =
     (case attempts (inAssessmentAttemptID i) of
        Some a \<Rightarrow>
          (if assessmentMatchesEvaluatedInteraction (Some a) i learnerID concept then
             (case aaSubmittedAt a of
                Some submitted \<Rightarrow>
                  let exposed = (aaEventProtocol a = LearningEventProtocol \<and>
                        (case aaPriorExposureAt a of Some p \<Rightarrow> \<not> p < submitted | None \<Rightarrow> False));
                      observation = i\<lparr>inCreatedAt := submitted, inSuccess := aaPassed a \<and> \<not> exposed\<rparr>
                  in observation #
                     (if aaEventProtocol a = '''' \<and> after (inCreatedAt i) submitted
                      then [i\<lparr>inSuccess := False, inAssessmentAttemptID := ''''\<rparr>] else [])
              | None \<Rightarrow> [i])
           else [i])
      | None \<Rightarrow> [i])"

text \<open>\<open>UnixNano\<close> is a 64-bit number, so the keys of \<open>seen\<close> are times modulo \<open>2 ^ 64\<close>.\<close>

definition unix_nano :: "time \<Rightarrow> int" where "unix_nano t = t mod 2 ^ 64"

definition exposure_row :: "string \<Rightarrow> string \<Rightarrow> time \<Rightarrow> Interaction" where
  "exposure_row learnerID concept t =
     \<lparr>inID = 0, inLearnerID = learnerID, inSessionID = '''', inAssessmentAttemptID = '''', inConcept = concept,
      inActivityType = string_of_activity ActivityNewConcept, inSuccess = False, inResponseTime = 0,
      inConfidence = 0, inErrorType = '''', inNotes = '''', inHintsRequested = 0, inSelfInitiated = False,
      inCalibrationID = '''', inIsProactiveReview = False, inMisconceptionType = '''',
      inMisconceptionDetail = '''', inDomainID = '''', inBKTSlip = None, inBKTGuess = None,
      inRubricJSON = '''', inRubricScoreJSON = '''', inCreatedAt = t\<rparr>"

fun prior_exposures :: "string \<Rightarrow> string \<Rightarrow> time \<Rightarrow> int set \<Rightarrow> AssessmentAttempt list \<Rightarrow> Interaction list" where
  "prior_exposures learnerID concept now seen [] = []"
| "prior_exposures learnerID concept now seen (a # as) =
     (case aaPriorExposureAt a of
        Some p \<Rightarrow>
          (if aaEventProtocol a \<noteq> LearningEventProtocol \<or> unix_nano p \<in> seen \<or> (\<not> isZero now \<and> after p now)
           then prior_exposures learnerID concept now seen as
           else exposure_row learnerID concept p #
                prior_exposures learnerID concept now (insert (unix_nano p) seen) as)
      | None \<Rightarrow> prior_exposures learnerID concept now seen as)"

definition assessmentResponseTimeline ::
    "string \<Rightarrow> string \<Rightarrow> Interaction option list \<Rightarrow> AssessmentAttempt list \<Rightarrow> time \<Rightarrow> Interaction list" where
  "assessmentResponseTimeline learnerID concept interactions assessments now =
     (let attempts = index_by aaID assessments;
          visible = filter (\<lambda>i. \<not> (\<not> isZero now \<and> after (inCreatedAt i) now)) (somes interactions);
          timeline = concat (map (timeline_rows attempts learnerID concept) visible)
      in timeline @ prior_exposures learnerID concept now ((unix_nano \<circ> inCreatedAt) ` set timeline) assessments)"

section \<open>Delayed retrieval\<close>

definition relevant_exposure :: "string \<Rightarrow> string \<Rightarrow> time \<Rightarrow> Interaction \<Rightarrow> bool" where
  "relevant_exposure learnerID concept now i \<longleftrightarrow>
     \<not> (inLearnerID i \<noteq> learnerID \<or> inConcept i \<noteq> concept \<or> isZero (inCreatedAt i) \<or>
        (\<not> isZero now \<and> after (inCreatedAt i) now) \<or> \<not> isCognitiveExposureActivity (inActivityType i))"

definition cold_success :: "Interaction \<Rightarrow> bool" where
  "cold_success i \<longleftrightarrow> inSuccess i \<and> inHintsRequested i = 0 \<and> isRetrievalActivity (inActivityType i)"

text \<open>
  The loop over the sorted exposures: the group of equal times starting at the head, then the rest
  with the group's time as the previous exposure.
\<close>

function delayed_loop :: "duration \<Rightarrow> time \<Rightarrow> Interaction list \<Rightarrow> Interaction list" where
  "delayed_loop gap previousExposure [] = []"
| "delayed_loop gap previousExposure (i # is) =
     (let same = takeWhile (\<lambda>j. inCreatedAt j = inCreatedAt i) is;
          rest = dropWhile (\<lambda>j. inCreatedAt j = inCreatedAt i) is
      in (if same = [] \<and> \<not> isZero previousExposure \<and> t_sub (inCreatedAt i) previousExposure \<ge> gap \<and> cold_success i
          then [i] else []) @
         delayed_loop gap (inCreatedAt i) rest)"
  by pat_completeness auto
termination
  by (relation "measure (\<lambda>(_, _, is). length is)") (auto simp: le_imp_less_Suc length_dropWhile_le)

definition delayedRetrievalCandidates ::
    "string \<Rightarrow> string \<Rightarrow> Interaction list \<Rightarrow> duration \<Rightarrow> time \<Rightarrow> Interaction list" where
  "delayedRetrievalCandidates learnerID concept interactions minimumGap now =
     (let gap = (if minimumGap \<le> 0 then minimumDelayedRecallGap else minimumGap);
          relevant = filter (relevant_exposure learnerID concept now) interactions
      in if length relevant < 2 then [] else delayed_loop gap 0 (sort_key inCreatedAt relevant))"

definition hasDelayedRetrievalObservation ::
    "string \<Rightarrow> string \<Rightarrow> Interaction list \<Rightarrow> duration \<Rightarrow> time \<Rightarrow> bool" where
  "hasDelayedRetrievalObservation learnerID concept interactions minimumGap now \<longleftrightarrow>
     length (delayedRetrievalCandidates learnerID concept interactions minimumGap now) > 0"

definition hasAssessmentLinkedDelayedSuccessfulRecall ::
    "string \<Rightarrow> string \<Rightarrow> Interaction list \<Rightarrow> AssessmentAttempt list \<Rightarrow> duration \<Rightarrow> time \<Rightarrow> bool" where
  "hasAssessmentLinkedDelayedSuccessfulRecall learnerID concept interactions assessments minimumGap now =
     (let attempts = index_by aaID (filter (\<lambda>a. aaID a \<noteq> '''') assessments)
      in \<exists>i \<in> set (delayedRetrievalCandidates learnerID concept interactions minimumGap now).
           assessmentMatchesEvaluatedInteraction (attempts (inAssessmentAttemptID i)) i learnerID concept \<and>
           (case attempts (inAssessmentAttemptID i) of Some a \<Rightarrow> aaPassed a | None \<Rightarrow> False))"

section \<open>Trusted assessments\<close>

definition isTrustedEvaluatedAssessment :: "AssessmentAttempt \<Rightarrow> string \<Rightarrow> bool" where
  "isTrustedEvaluatedAssessment a concept \<longleftrightarrow>
     \<not> (aaConceptID a \<noteq> concept \<or> aaID a = '''' \<or> aaStatus a \<noteq> AssessmentAttemptEvaluated \<or>
        aaCurriculumInvalidatedVersion a \<noteq> 0 \<or> \<not> aaTrustedEvaluation a \<or>
        aaSubmittedAt a = None \<or> aaEvaluatedAt a = None) \<and>
     (case aaEvaluationMethod a of
        EvaluationMethodExternal \<Rightarrow> True
      | EvaluationMethodHumanReview \<Rightarrow> True
      | EvaluationMethodDeterministic \<Rightarrow> True
      | EvaluationMethodHostLLM \<Rightarrow> True
      | _ \<Rightarrow> False)"

definition isTrustedPassedAssessment :: "AssessmentAttempt \<Rightarrow> string \<Rightarrow> bool" where
  "isTrustedPassedAssessment a concept \<longleftrightarrow> isTrustedEvaluatedAssessment a concept \<and> aaPassed a"

definition demonstration_activity :: "string \<Rightarrow> bool" where
  "demonstration_activity t \<longleftrightarrow>
     t \<in> string_of_activity ` {ActivityDiagnosticAssessment, ActivityMasteryChallenge, ActivityTransferProbe}"

definition hasTrustedPassedDemonstration :: "string \<Rightarrow> AssessmentAttempt list \<Rightarrow> bool" where
  "hasTrustedPassedDemonstration concept assessments \<longleftrightarrow>
     (\<exists>a \<in> set assessments. isTrustedPassedAssessment a concept \<and> demonstration_activity (aaActivityType a))"

text \<open>The score of a verified transfer record: the assessment outcome is authoritative.\<close>

definition verified_score :: "JsonCodec \<Rightarrow> AssessmentAttempt \<Rightarrow> f64 \<Rightarrow> f64" where
  "verified_score jc a score =
     (let adjudicated =
            (case jcAdjudicationID jc (aaEvaluationProvenanceJSON a) of
               Some adj \<Rightarrow>
                 (if adj \<noteq> '''' then
                    (case ParseRubric jc (aaRubricJSON a) of
                       Inr rubric \<Rightarrow>
                         let maximum = fold (\<lambda>c m. m + rcMaxScore c) (rbCriteria rubric) 0
                         in if maximum > 0 then bmin 1 (bmax 0 (aaScore a / maximum)) else score
                     | Inl _ \<Rightarrow> score)
                  else score)
             | None \<Rightarrow> score)
      in if \<not> aaPassed a then 0 else adjudicated)"

definition trustedTransferRecords ::
    "JsonCodec \<Rightarrow> string \<Rightarrow> TransferRecord option list \<Rightarrow> AssessmentAttempt list \<Rightarrow> TransferRecord list" where
  "trustedTransferRecords jc concept transfers assessments =
     (let trustedAttempts = index_by aaID
            (filter (\<lambda>a. isTrustedEvaluatedAssessment a concept \<and>
                         aaActivityType a = string_of_activity ActivityTransferProbe) assessments)
      in somes (map (\<lambda>r.
           if trConceptID r \<noteq> concept \<or> trAssessmentAttemptID r = '''' then None
           else (case trustedAttempts (trAssessmentAttemptID r) of
                   None \<Rightarrow> None
                 | Some a \<Rightarrow> Some (r\<lparr>trScore := verified_score jc a (trScore r),
                     trCreatedAt := (case aaEvaluatedAt a of
                        Some t \<Rightarrow> if isZero (trCreatedAt r) then t else trCreatedAt r
                      | None \<Rightarrow> trCreatedAt r)\<rparr>)))
           (somes transfers)))"

definition BuildTrustedTransferProfileFromEvidence ::
    "JsonCodec \<Rightarrow> string \<Rightarrow> TransferRecord option list \<Rightarrow> AssessmentAttempt option list \<Rightarrow> time \<Rightarrow> TransferProfile" where
  "BuildTrustedTransferProfileFromEvidence jc concept transfers assessments now =
     BuildTrustedTransferProfileAt concept
       (map Some (trustedTransferRecords jc concept transfers (somes assessments))) now"

section \<open>AssessMasteryStatus\<close>

definition now_profile :: "time \<Rightarrow> MasteryEvidenceProfile" where
  "now_profile now =
     \<lparr>mpNow = now, mpMinObservations = 0, mpStaleAfter = 0, mpRecentErrorWindow = 0, mpRecentErrorSampleSize = 0,
      mpHighErrorRateMinObservations = 0, mpHighErrorRateThreshold = 0, mpThresholdMargin = 0, mpMinDiversity = 0\<rparr>"

definition AssessMasteryStatus ::
    "JsonCodec \<Rightarrow> string \<Rightarrow> string \<Rightarrow> ConceptState option \<Rightarrow> Interaction option list \<Rightarrow>
     TransferRecord option list \<Rightarrow> AssessmentAttempt option list \<Rightarrow> time \<Rightarrow> MasteryStatus" where
  "AssessMasteryStatus jc learnerID concept cs interactions transfers allAssessments now =
     (let started = (case cs of Some c \<Rightarrow> csCardState c \<noteq> New | None \<Rightarrow> False);
          estimate = (case cs of Some c \<Rightarrow> csPMastery c | None \<Rightarrow> 0);
          estimated = (case cs of Some c \<Rightarrow> csPMastery c \<ge> MasteryBKT | None \<Rightarrow> False);
          retention = (case cs of
              Some c \<Rightarrow> if started then CurrentRetrievability now (csLastReview c) (csStability c) else 0
            | None \<Rightarrow> 0);
          confidence = (case cs of
              Some c \<Rightarrow> muConfidenceLabel (ComputeMasteryUncertainty (Some c) interactions [now_profile now])
            | None \<Rightarrow> MasteryConfidenceLow);
          assessments = assessmentEvidenceAt learnerID concept allAssessments now;
          evidence = MasteryEvidenceQuality (BuildEvidenceProfile learnerID concept interactions now);
          verified = trustedTransferRecords jc concept transfers assessments;
          transfer = BuildTrustedTransferProfileAt concept (map Some verified) now;
          timeline = assessmentResponseTimeline learnerID concept interactions assessments now;
          linkedRecall = hasAssessmentLinkedDelayedSuccessfulRecall learnerID concept timeline assessments
                           minimumDelayedRecallGap now;
          retentionEvidence =
            (if linkedRecall then RetentionEvidenceAssessmentLinked
             else if hasDelayedRetrievalObservation learnerID concept timeline minimumDelayedRecallGap now
             then RetentionEvidenceUnverifiedOnly
             else RetentionEvidenceNone);
          retained = (started \<and> retention \<ge> RetentionRecallRoutingThreshold \<and> linkedRecall);
          demonstrated = hasTrustedPassedDemonstration concept assessments;
          transferred = (demonstrated \<and> tpReadinessLabel transfer \<in> {TransferReadinessReady, TransferReadinessRobust});
          stage =
            (if transferred then MasteryStageTransferred
             else if demonstrated then MasteryStageDemonstrated
             else if retained then MasteryStageRetained
             else if estimated then MasteryStageEstimated
             else if started then MasteryStageDeveloping
             else MasteryStageNotStarted)
      in \<lparr>msStage = stage, msEstimated = estimated, msRetained = retained, msDemonstrated = demonstrated,
          msTransferred = transferred, msMasteryEstimate = estimate, msRetentionEstimate = retention,
          msRetentionEvidence = retentionEvidence, msEvidenceQuality = eqQuality evidence,
          msConfidence = confidence, msTransferReadiness = tpReadinessLabel transfer\<rparr>)"

definition ReadyForMasteryChallenge ::
    "MasteryStatus \<Rightarrow> EvidenceQualityAssessment \<Rightarrow> MasteryUncertainty \<Rightarrow> TransferProfile \<Rightarrow> bool" where
  "ReadyForMasteryChallenge status evidence uncertainty transfer \<longleftrightarrow>
     msEstimated status \<and> msRetained status \<and> eqQuality evidence \<noteq> EvidenceQualityWeak \<and>
     muConfidenceLabel uncertainty \<noteq> MasteryConfidenceLow \<and>
     tpReadinessLabel transfer \<noteq> TransferReadinessBlocked"

section \<open>Evidence controller\<close>

record EvidenceControllerInput =
  ecActivity :: Activity
  ecConceptState :: "ConceptState option"
  ecEvidenceQuality :: EvidenceQualityAssessment
  ecMasteryUncertainty :: MasteryUncertainty
  ecTransferProfile :: TransferProfile

record EvidenceControllerDecision =
  edActivity :: Activity
  edAdjusted :: bool
  edRationale :: message

definition BuildActivityPrompt :: "ActivityType \<Rightarrow> string \<Rightarrow> string \<Rightarrow> message" where
  "BuildActivityPrompt t concept format =
     (if t = ActivityDiagnosticAssessment then
        [S ''Generate one cold diagnostic assessment on '', S concept, S ''. Format: '', S format,
         S ''. Freeze the exact task and domain-appropriate scoring rubric with prepare_assessment_attempt before showing it. Ask for an observable response before giving any explanation, hint, worked example, correction, or feedback. Do not teach the concept before the learner commits an answer. Persist that response with submit_assessment_attempt before scoring it, then record the derived evaluation with record_interaction.'']
      else if t = ActivityTransferProbe then
        [S ''Generate a novel transfer activity on '', S concept, S ''. Format: '', S format,
         S ''. Choose one canonical transfer dimension (near, far, debugging, teaching, or creative). Freeze the task and rubric with prepare_assessment_attempt before showing it; after the learner responds, call submit_assessment_attempt before evaluating, then pass the attempt_id, criterion scores, transfer dimension and 0..1 transfer score to record_interaction with activity_type=TRANSFER_PROBE.'']
      else if t = ActivityMasteryChallenge then
        [S ''Generate a domain-appropriate integrated performance task on '', S concept, S ''. Format: '', S format,
         S ''. Require autonomous application and evaluate correctness, completeness, boundary conditions or counterexamples appropriate to the domain, and clarity of reasoning or execution. Freeze the exact task and rubric with prepare_assessment_attempt before showing it; persist the learner response with submit_assessment_attempt before evaluating; then record criterion scores through record_interaction.'']
      else
        [S ''Generate a '', S (string_of_activity t), S '' activity on '', S concept, S ''. Format: '', S format,
         S ''. Use the final structured activity.difficulty_target field as the difficulty target.''])"

definition evidenceControllerEligible :: "Activity \<Rightarrow> bool" where
  "evidenceControllerEligible activity \<longleftrightarrow>
     acConcept activity \<noteq> '''' \<and>
     acType activity \<in> {ActivityPractice, ActivityMasteryChallenge, ActivityFeynmanPrompt, ActivityTransferProbe}"

definition evidenceAdjusted ::
    "Activity \<Rightarrow> ActivityType \<Rightarrow> string \<Rightarrow> int \<Rightarrow> message \<Rightarrow> EvidenceControllerDecision" where
  "evidenceAdjusted activity t format minutes rationale =
     \<lparr>edActivity = activity\<lparr>acType := t, acFormat := format, acEstimatedMinutes := minutes,
        acRationale := acRationale activity @ [S ''; ''] @ rationale,
        acPromptForLLM := BuildActivityPrompt t (acConcept activity) format\<rparr>,
      edAdjusted = True, edRationale = rationale\<rparr>"

definition evidence_unchanged :: "Activity \<Rightarrow> EvidenceControllerDecision" where
  "evidence_unchanged activity = \<lparr>edActivity = activity, edAdjusted = False, edRationale = []\<rparr>"

definition ApplyEvidenceController :: "EvidenceControllerInput \<Rightarrow> EvidenceControllerDecision" where
  "ApplyEvidenceController input =
     (let activity = ecActivity input in
      case ecConceptState input of
        None \<Rightarrow> evidence_unchanged activity
      | Some cs \<Rightarrow>
          if \<not> evidenceControllerEligible activity then evidence_unchanged activity
          else if csPMastery cs < MasteryBKT then evidence_unchanged activity
          else if tpReadinessLabel (ecTransferProfile input) = TransferReadinessBlocked then
            evidenceAdjusted activity ActivityFeynmanPrompt ''transfer_repair'' 15
              [S ''evidence controller: transfer blocked -> Feynman explanation before further challenge'']
          else if tpReadinessLabel (ecTransferProfile input) = TransferReadinessUnobserved then
            evidenceAdjusted activity ActivityTransferProbe ''transfer_novel_context'' 20
              [S ''evidence controller: high mastery but transfer unobserved -> transfer probe'']
          else if acType activity = ActivityMasteryChallenge \<and>
                  eqQuality (ecEvidenceQuality input) = EvidenceQualityWeak then
            evidenceAdjusted activity ActivityPractice ''varied_evidence_probe'' 12
              [S ''evidence controller: weak mastery evidence -> varied proof before mastery challenge'']
          else evidence_unchanged activity)"

section \<open>Delayed retrieval: the loop and its reference definition\<close>

lemma t_sub_antimono: "u \<le> u' \<Longrightarrow> t_sub t u' \<le> t_sub t u"
  by (auto simp: t_sub_def)

text \<open>
  The reference definition: a cold success with no other exposure at its time, with an earlier
  exposure, and with every earlier exposure at least the gap away.
\<close>

definition delayed_candidate :: "duration \<Rightarrow> Interaction list \<Rightarrow> Interaction \<Rightarrow> bool" where
  "delayed_candidate gap es i \<longleftrightarrow>
     i \<in> set es \<and> length (filter (\<lambda>j. inCreatedAt j = inCreatedAt i) es) = 1 \<and> cold_success i \<and>
     (\<exists>j \<in> set es. inCreatedAt j < inCreatedAt i) \<and>
     (\<forall>j \<in> set es. inCreatedAt j < inCreatedAt i \<longrightarrow> gap \<le> t_sub (inCreatedAt i) (inCreatedAt j))"

text \<open>The same with a last exposure before the list, zero when there is none.\<close>

definition delayed_after :: "duration \<Rightarrow> time \<Rightarrow> Interaction list \<Rightarrow> Interaction \<Rightarrow> bool" where
  "delayed_after gap prev es i \<longleftrightarrow>
     i \<in> set es \<and> length (filter (\<lambda>j. inCreatedAt j = inCreatedAt i) es) = 1 \<and> cold_success i \<and>
     (prev \<noteq> 0 \<or> (\<exists>j \<in> set es. inCreatedAt j < inCreatedAt i)) \<and>
     (prev \<noteq> 0 \<longrightarrow> gap \<le> t_sub (inCreatedAt i) prev) \<and>
     (\<forall>j \<in> set es. inCreatedAt j < inCreatedAt i \<longrightarrow> gap \<le> t_sub (inCreatedAt i) (inCreatedAt j))"

lemma sorted_map_dropWhile: "sorted (map f xs) \<Longrightarrow> sorted (map f (dropWhile P xs))"
  by (induction xs) auto

lemma sorted_group_rest:
  fixes key :: "'a \<Rightarrow> 'b :: linorder"
  assumes "sorted (map key (x # xs))" and "y \<in> set (dropWhile (\<lambda>j. key j = key x) xs)"
  shows "key x < key y"
proof -
  let ?r = "dropWhile (\<lambda>j. key j = key x) xs"
  obtain z zs where r: "?r = z # zs" using assms(2) by (cases ?r) auto
  have "key z \<noteq> key x" using r by (metis (mono_tags, lifting) hd_dropWhile list.distinct(1) list.sel(1))
  moreover have "z \<in> set xs" by (metis r set_dropWhileD list.set_intros(1))
  ultimately have "key x < key z" using assms(1) by force
  moreover have "sorted (map key ?r)"
    using assms(1) by (simp add: sorted_map_dropWhile)
  with r assms(2) have "key z \<le> key y" by auto
  ultimately show ?thesis by simp
qed

lemma delayed_after_group:
  assumes s: "sorted (map inCreatedAt (x # xs))" and x: "inCreatedAt x \<noteq> 0" and prev: "prev \<noteq> 0 \<Longrightarrow> prev < inCreatedAt x"
    and same: "same = takeWhile (\<lambda>j. inCreatedAt j = inCreatedAt x) xs"
    and rest: "rest = dropWhile (\<lambda>j. inCreatedAt j = inCreatedAt x) xs"
  shows "delayed_after gap prev (x # xs) i \<longleftrightarrow>
     (i = x \<and> same = [] \<and> prev \<noteq> 0 \<and> gap \<le> t_sub (inCreatedAt x) prev \<and> cold_success x) \<or>
     delayed_after gap (inCreatedAt x) rest i"
proof -
  have xs: "xs = same @ rest" by (simp add: same rest)
  have eq: "inCreatedAt j = inCreatedAt x" if "j \<in> set same" for j using that by (auto simp: same dest: set_takeWhileD)
  have less: "inCreatedAt x < inCreatedAt j" if "j \<in> set rest" for j
    using sorted_group_rest[OF s] that by (simp add: rest)
  consider "i \<in> set rest" | "i \<in> insert x (set same)" | "i \<notin> set (x # xs)" using xs by auto
  then show ?thesis
  proof cases
    case 1
    have none: "filter (\<lambda>j. inCreatedAt j = inCreatedAt i) (x # same) = []"
      using eq less[OF 1] by (auto simp: filter_empty_conv)
    have i: "i \<noteq> x" using less[OF 1] by auto
    have far: "gap \<le> t_sub (inCreatedAt i) prev" if "gap \<le> t_sub (inCreatedAt i) (inCreatedAt x)" "prev \<noteq> 0"
      using that prev t_sub_antimono[of prev "inCreatedAt x" "inCreatedAt i"] by simp
    have "filter (\<lambda>j. inCreatedAt j = inCreatedAt i) (x # xs) = filter (\<lambda>j. inCreatedAt j = inCreatedAt i) rest"
      using none by (simp add: xs split: if_splits)
    moreover have "(\<forall>j \<in> set (x # xs). inCreatedAt j < inCreatedAt i \<longrightarrow> gap \<le> t_sub (inCreatedAt i) (inCreatedAt j)) \<longleftrightarrow>
        gap \<le> t_sub (inCreatedAt i) (inCreatedAt x) \<and>
        (\<forall>j \<in> set rest. inCreatedAt j < inCreatedAt i \<longrightarrow> gap \<le> t_sub (inCreatedAt i) (inCreatedAt j))"
      using less[OF 1] eq unfolding xs by auto
    moreover have "\<exists>j \<in> set (x # xs). inCreatedAt j < inCreatedAt i" using less[OF 1] by auto
    ultimately show ?thesis using 1 i x far unfolding delayed_after_def by (auto simp: xs)
  next
    case 2
    then have t: "inCreatedAt i = inCreatedAt x" using eq by auto
    have "\<not> i \<in> set rest" using less[of i] t by auto
    moreover have "filter (\<lambda>j. inCreatedAt j = inCreatedAt i) (x # xs) = x # same"
    proof -
      have "filter (\<lambda>j. inCreatedAt j = inCreatedAt x) rest = []" using less by (force simp: filter_empty_conv)
      moreover have "filter (\<lambda>j. inCreatedAt j = inCreatedAt x) same = same" using eq by (simp add: filter_id_conv)
      ultimately show ?thesis by (simp add: t xs)
    qed
    moreover have "\<not> inCreatedAt j < inCreatedAt i" if "j \<in> set (x # xs)" for j
    proof -
      from that xs have "j = x \<or> j \<in> set same \<or> j \<in> set rest" by auto
      then show ?thesis using t eq less by fastforce
    qed
    ultimately show ?thesis using 2 t unfolding delayed_after_def by auto
  next
    case 3
    then show ?thesis using xs by (auto simp: delayed_after_def)
  qed
qed

lemma delayed_loop_iff:
  assumes "sorted (map inCreatedAt es)" and "\<forall>j \<in> set es. inCreatedAt j \<noteq> 0 \<and> (prev \<noteq> 0 \<longrightarrow> prev < inCreatedAt j)"
  shows "i \<in> set (delayed_loop gap prev es) \<longleftrightarrow> delayed_after gap prev es i"
  using assms
proof (induction gap prev es rule: delayed_loop.induct)
  case (1 gap prev)
  then show ?case by (simp add: delayed_after_def)
next
  case (2 gap prev x xs)
  define same where "same = takeWhile (\<lambda>j. inCreatedAt j = inCreatedAt x) xs"
  define rest where "rest = dropWhile (\<lambda>j. inCreatedAt j = inCreatedAt x) xs"
  have less: "inCreatedAt x < inCreatedAt j" if "j \<in> set rest" for j
    using sorted_group_rest[OF "2.prems"(1)] that by (simp add: rest_def)
  have "sorted (map inCreatedAt rest)" using "2.prems"(1) by (simp add: rest_def sorted_map_dropWhile)
  moreover have "\<forall>j \<in> set rest. inCreatedAt j \<noteq> 0 \<and> (inCreatedAt x \<noteq> 0 \<longrightarrow> inCreatedAt x < inCreatedAt j)"
    using "2.prems"(2) less by (auto simp: rest_def dest: set_dropWhileD)
  ultimately have "i \<in> set (delayed_loop gap (inCreatedAt x) rest) \<longleftrightarrow> delayed_after gap (inCreatedAt x) rest i"
    using "2.IH"[OF same_def rest_def] by blast
  then show ?case
    using delayed_after_group[OF "2.prems"(1) _ _ same_def rest_def, of prev gap i] "2.prems"(2)
    by (auto simp: Let_def isZero_def simp flip: same_def rest_def)
qed

lemma delayed_after_start: "delayed_after gap 0 es i \<longleftrightarrow> delayed_candidate gap es i"
  by (simp add: delayed_after_def delayed_candidate_def)

lemma delayed_candidate_sort: "delayed_candidate gap (sort_key inCreatedAt es) i \<longleftrightarrow> delayed_candidate gap es i"
proof -
  have "length (filter P (sort_key inCreatedAt es)) = length (filter P es)" for P
    by (metis mset_filter mset_sort size_mset)
  then show ?thesis by (simp add: delayed_candidate_def)
qed

definition recall_gap :: "duration \<Rightarrow> duration" where
  "recall_gap minimumGap = (if minimumGap \<le> 0 then minimumDelayedRecallGap else minimumGap)"

lemma delayedRetrievalCandidates_iff:
  "i \<in> set (delayedRetrievalCandidates learnerID concept is minimumGap now) \<longleftrightarrow>
     delayed_candidate (recall_gap minimumGap) (filter (relevant_exposure learnerID concept now) is) i"
proof -
  let ?r = "filter (relevant_exposure learnerID concept now) is"
  have nz: "\<forall>j \<in> set (sort_key inCreatedAt ?r). inCreatedAt j \<noteq> 0 \<and> (0 \<noteq> (0 :: int) \<longrightarrow> 0 < inCreatedAt j)"
    by (auto simp: relevant_exposure_def isZero_def)
  have short: "\<not> delayed_candidate gap es i" if "length es < 2" for gap es
    using that by (cases es; cases "tl es") (auto simp: delayed_candidate_def)
  then have "\<not> delayed_candidate gap ?r i" if "length ?r < 2" for gap using that .
  then show ?thesis
    using delayed_loop_iff[OF sorted_sort_key nz, of i] unfolding delayedRetrievalCandidates_def Let_def recall_gap_def
    by (simp add: delayed_after_start delayed_candidate_sort)
qed

text \<open>C17. Delayed retrieval is computed as its reference definition says: an observation counts exactly
  when it is a successful, unaided retrieval of this learner and concept, no other exposure has the
  same time, there is an earlier exposure, and every earlier exposure lies at least the minimum gap
  (24 hours by default) before it. In particular the order in which the rows are stored is irrelevant.
\<close>

theorem delayed_retrieval_reference:
  "(i \<in> set (delayedRetrievalCandidates learnerID concept is minimumGap now)) =
     delayed_candidate (recall_gap minimumGap) (filter (relevant_exposure learnerID concept now) is) i"
  by (rule delayedRetrievalCandidates_iff)

section \<open>What the claims rest on\<close>

text \<open>
  The stored attempts that count at the decision clock: evaluated, not invalidated, of this learner
  and concept, submitted before they were evaluated and evaluated by now.
\<close>

definition counted_attempt ::
    "string \<Rightarrow> string \<Rightarrow> time \<Rightarrow> AssessmentAttempt option list \<Rightarrow> AssessmentAttempt \<Rightarrow> bool" where
  "counted_attempt learnerID concept now assessments a \<longleftrightarrow>
     Some a \<in> set assessments \<and> aaLearnerID a = learnerID \<and> aaConceptID a = concept \<and>
     aaStatus a = AssessmentAttemptEvaluated \<and> aaCurriculumInvalidatedVersion a = 0 \<and>
     (\<exists>s e. aaSubmittedAt a = Some s \<and> aaEvaluatedAt a = Some e \<and> s \<noteq> 0 \<and> e \<noteq> 0 \<and> s \<le> e \<and> (now \<noteq> 0 \<longrightarrow> e \<le> now))"

lemma assessmentEvidenceAt_iff:
  "a \<in> set (assessmentEvidenceAt learnerID concept assessments now) \<longleftrightarrow>
     counted_attempt learnerID concept now assessments a"
  by (auto simp: assessmentEvidenceAt_def attempt_evidence_def counted_attempt_def set_somes isZero_def after_def
      split: option.splits)

lemma index_by_named: "k \<noteq> '''' \<Longrightarrow> index_by aaID (filter (\<lambda>a. aaID a \<noteq> '''') as) k = index_by aaID as k"
  by (induction as rule: rev_induct) (auto simp: index_by_def)

text \<open>A row of the timeline that a passed attempt is matched with carries the time of its submission.\<close>

lemma prior_exposures_unlinked:
  "i \<in> set (prior_exposures learnerID concept now seen as) \<Longrightarrow> inAssessmentAttemptID i = ''''"
  by (induction as arbitrary: seen) (auto simp: exposure_row_def split: option.splits if_splits)

lemma timeline_rows_dated:
  assumes "i \<in> set (timeline_rows attempts learnerID concept j)"
    and "attempts (inAssessmentAttemptID i) = Some a"
    and "assessmentMatchesEvaluatedInteraction (Some a) i learnerID concept"
  shows "aaSubmittedAt a = Some (inCreatedAt i)"
  using assms by (auto simp: timeline_rows_def assessmentMatchesEvaluatedInteraction_def Let_def split: option.splits if_splits)

lemma timeline_dated:
  assumes "i \<in> set (assessmentResponseTimeline learnerID concept rows as now)"
    and "index_by aaID as (inAssessmentAttemptID i) = Some a"
    and "assessmentMatchesEvaluatedInteraction (Some a) i learnerID concept"
  shows "aaSubmittedAt a = Some (inCreatedAt i)"
proof -
  have "inAssessmentAttemptID i \<noteq> ''''" using assms(3) by (simp add: assessmentMatchesEvaluatedInteraction_def)
  with assms(1) obtain j where "i \<in> set (timeline_rows (index_by aaID as) learnerID concept j)"
    by (auto simp: assessmentResponseTimeline_def Let_def dest: prior_exposures_unlinked)
  from timeline_rows_dated[OF this assms(2,3)] show ?thesis .
qed

lemma linked_recall_backed:
  assumes "hasAssessmentLinkedDelayedSuccessfulRecall learnerID concept timeline attempts minimumGap now"
    and t: "timeline = assessmentResponseTimeline learnerID concept rows attempts now"
  obtains i a where "a \<in> set attempts" "aaPassed a" "inAssessmentAttemptID i = aaID a" "aaSubmittedAt a = Some (inCreatedAt i)"
    "delayed_candidate (recall_gap minimumGap) (filter (relevant_exposure learnerID concept now) timeline) i"
proof -
  let ?m = "index_by aaID (filter (\<lambda>a. aaID a \<noteq> '''') attempts)"
  from assms(1) obtain i where i: "i \<in> set (delayedRetrievalCandidates learnerID concept timeline minimumGap now)"
    and m: "assessmentMatchesEvaluatedInteraction (?m (inAssessmentAttemptID i)) i learnerID concept"
    and p: "case ?m (inAssessmentAttemptID i) of Some a \<Rightarrow> aaPassed a | None \<Rightarrow> False"
    unfolding hasAssessmentLinkedDelayedSuccessfulRecall_def Let_def by blast
  from p obtain a where a: "?m (inAssessmentAttemptID i) = Some a" "aaPassed a" by (auto split: option.splits)
  have id: "inAssessmentAttemptID i \<noteq> ''''" using m a by (simp add: assessmentMatchesEvaluatedInteraction_def)
  have "i \<in> set timeline" using i by (auto simp: delayedRetrievalCandidates_iff delayed_candidate_def)
  with timeline_dated[of i learnerID concept rows attempts now a] a(1) m id
  have "aaSubmittedAt a = Some (inCreatedAt i)" by (simp add: t index_by_named)
  with index_by_SomeD[OF a(1)] a(2) i show thesis
    by (intro that[of a i]) (auto simp: delayedRetrievalCandidates_iff)
qed

lemma status_fields:
  fixes jc learnerID concept cs rows ts stored now
  defines "s \<equiv> AssessMasteryStatus jc learnerID concept cs rows ts stored now"
    and "attempts \<equiv> assessmentEvidenceAt learnerID concept stored now"
  shows "msDemonstrated s \<longleftrightarrow> hasTrustedPassedDemonstration concept attempts"
    and "msRetained s \<Longrightarrow> hasAssessmentLinkedDelayedSuccessfulRecall learnerID concept
           (assessmentResponseTimeline learnerID concept rows attempts now) attempts minimumDelayedRecallGap now"
    and "msTransferred s \<longleftrightarrow> msDemonstrated s \<and> msTransferReadiness s \<in> {TransferReadinessReady, TransferReadinessRobust}"
    and "msEstimated s \<longleftrightarrow> (\<exists>c. cs = Some c \<and> MasteryBKT \<le> csPMastery c)"
    and "msStage s =
       (if msTransferred s then MasteryStageTransferred else if msDemonstrated s then MasteryStageDemonstrated
        else if msRetained s then MasteryStageRetained else if msEstimated s then MasteryStageEstimated
        else if (\<exists>c. cs = Some c \<and> csCardState c \<noteq> New) then MasteryStageDeveloping else MasteryStageNotStarted)"
  unfolding s_def attempts_def AssessMasteryStatus_def Let_def
  by (auto split: option.splits)

text \<open>C18. Mastery claims rest on stored assessments, never on the model's probability alone.
  Demonstrated holds exactly when a counted attempt is trusted, passed and of a demonstrating kind;
  Retained needs a counted passed attempt whose row in the timeline carries the time of its
  submission and is, at that time, a delayed retrieval after 24 hours without exposure; Transferred implies Demonstrated; and the
  stage is the strongest claim that holds.
\<close>

theorem mastery_claims_are_backed:
  fixes jc learnerID concept cs rows ts stored now
  defines "s \<equiv> AssessMasteryStatus jc learnerID concept cs rows ts stored now"
  shows "(msDemonstrated s \<longleftrightarrow> (\<exists>a. counted_attempt learnerID concept now stored a \<and> aaTrustedEvaluation a \<and> aaID a \<noteq> '''' \<and>
            (\<forall>m. aaEvaluationMethod a \<noteq> EvaluationMethodOther m) \<and> aaPassed a \<and> demonstration_activity (aaActivityType a))) \<and>
     (msRetained s \<longrightarrow> (\<exists>a i. counted_attempt learnerID concept now stored a \<and> aaPassed a \<and> inAssessmentAttemptID i = aaID a \<and>
            aaSubmittedAt a = Some (inCreatedAt i) \<and>
            delayed_candidate (24 * hour) (filter (relevant_exposure learnerID concept now)
              (assessmentResponseTimeline learnerID concept rows (assessmentEvidenceAt learnerID concept stored now) now)) i)) \<and>
     (msTransferred s \<longrightarrow> msDemonstrated s) \<and>
     msStage s = (if msTransferred s then MasteryStageTransferred else if msDemonstrated s then MasteryStageDemonstrated
        else if msRetained s then MasteryStageRetained else if msEstimated s then MasteryStageEstimated
        else if (\<exists>c. cs = Some c \<and> csCardState c \<noteq> New) then MasteryStageDeveloping else MasteryStageNotStarted)"
proof -
  let ?as = "assessmentEvidenceAt learnerID concept stored now"
  have trusted: "isTrustedPassedAssessment a concept \<longleftrightarrow> aaTrustedEvaluation a \<and> aaID a \<noteq> '''' \<and>
      (\<forall>m. aaEvaluationMethod a \<noteq> EvaluationMethodOther m) \<and> aaPassed a"
    if "counted_attempt learnerID concept now stored a" for a
    using that by (auto simp: isTrustedPassedAssessment_def isTrustedEvaluatedAssessment_def counted_attempt_def
        split: EvaluationMethod.splits)
  have dem: "hasTrustedPassedDemonstration concept ?as \<longleftrightarrow>
      (\<exists>a. counted_attempt learnerID concept now stored a \<and> aaTrustedEvaluation a \<and> aaID a \<noteq> '''' \<and>
         (\<forall>m. aaEvaluationMethod a \<noteq> EvaluationMethodOther m) \<and> aaPassed a \<and> demonstration_activity (aaActivityType a))"
    unfolding hasTrustedPassedDemonstration_def Bex_def assessmentEvidenceAt_iff using trusted by blast
  have gap: "recall_gap minimumDelayedRecallGap = 24 * hour" by (simp add: recall_gap_def minimumDelayedRecallGap_def)
  have ret: "\<exists>a i. counted_attempt learnerID concept now stored a \<and> aaPassed a \<and> inAssessmentAttemptID i = aaID a \<and>
      aaSubmittedAt a = Some (inCreatedAt i) \<and>
      delayed_candidate (24 * hour) (filter (relevant_exposure learnerID concept now)
        (assessmentResponseTimeline learnerID concept rows ?as now)) i" if "msRetained s"
    using status_fields(2)[of jc learnerID concept cs rows ts stored now] that
      linked_recall_backed[of learnerID concept "assessmentResponseTimeline learnerID concept rows ?as now" ?as minimumDelayedRecallGap now rows]
    unfolding s_def gap by (metis assessmentEvidenceAt_iff)
  show ?thesis
    using dem ret status_fields(1,3,5)[of jc learnerID concept cs rows ts stored now] unfolding s_def by (simp only:) blast
qed

definition example_row :: "string \<Rightarrow> string \<Rightarrow> time \<Rightarrow> Interaction" where
  "example_row kind attempt t =
     (exposure_row ''l'' ''c'' t)\<lparr>inActivityType := kind, inSuccess := True, inAssessmentAttemptID := attempt\<rparr>"

definition example_attempt :: AssessmentAttempt where
  "example_attempt = \<lparr>aaID = ''a'', aaLearnerID = ''l'', aaDomainID = ''d'', aaConceptID = ''c'', aaSessionID = '''',
     aaActivityID = ''e'', aaActivityVersion = 1, aaDecisionID = '''', aaCurriculumVersion = 1,
     aaCurriculumInvalidatedVersion = 0, aaCurriculumConceptJSON = '''', aaOutcomeIDsJSON = ''[]'',
     aaActivityType = ''MASTERY_CHALLENGE'', aaObservable = ''o'', aaTaskText = ''t'', aaTaskContentHash = '''',
     aaResponseText = ''r'', aaResponseContentHash = '''', aaRubricJSON = '''', aaPassingScore = 1,
     aaStatus = AssessmentAttemptEvaluated, aaRubricScoreJSON = '''', aaScore = 1, aaPassed = True, aaEvaluatorID = ''h'',
     aaEvaluationMethod = EvaluationMethodHumanReview, aaEvaluationProvenanceJSON = '''', aaTrustedEvaluation = True,
     aaEventProtocol = LearningEventProtocol, aaPriorExposureAt = None, aaCreatedAt = 2,
     aaSubmittedAt = Some (1 + 24 * hour), aaEvaluatedAt = Some (2 + 24 * hour), aaCancelledAt = None\<rparr>"

definition example_codec :: JsonCodec where
  "example_codec = \<lparr>lbTokens = (\<lambda>_. []), lbFits = (\<lambda>_. True), lbDecimal = (\<lambda>x. x), lbFloat64 = Fin,
     lbLetterOrDigit = (\<lambda>_. False), jcAdjudicationID = (\<lambda>_. None)\<rparr>"

definition example_mature :: ConceptState where
  "example_mature = (NewConceptStateInDomain ''l'' ''d'' ''c'')\<lparr>csCardState := Review, csLastReview := Some (2 + 24 * hour)\<rparr>"

abbreviation example_status :: MasteryStatus where
  "example_status \<equiv> AssessMasteryStatus example_codec ''l'' ''c'' (Some example_mature)
     [Some (example_row ''PRACTICE'' '''' 1), Some (example_row ''MASTERY_CHALLENGE'' ''a'' (2 + 24 * hour))] []
     [None, Some example_attempt] (2 + 24 * hour)"

lemma example_evidence: "assessmentEvidenceAt ''l'' ''c'' [None, Some example_attempt] (2 + 24 * hour) = [example_attempt]"
  by (simp add: assessmentEvidenceAt_def attempt_evidence_def example_attempt_def isZero_def after_def time_defs)

lemma example_timeline:
  "assessmentResponseTimeline ''l'' ''c''
     [Some (example_row ''PRACTICE'' '''' 1), Some (example_row ''MASTERY_CHALLENGE'' ''a'' (2 + 24 * hour))]
     [example_attempt] (2 + 24 * hour) =
   [example_row ''PRACTICE'' '''' 1, example_row ''MASTERY_CHALLENGE'' ''a'' (1 + 24 * hour)]"
  by (simp add: assessmentResponseTimeline_def example_row_def exposure_row_def timeline_rows_def index_by_def
      assessmentMatchesEvaluatedInteraction_def example_attempt_def LearningEventProtocol_def isZero_def after_def time_defs)

lemma example_linked:
  "hasAssessmentLinkedDelayedSuccessfulRecall ''l'' ''c''
     [example_row ''PRACTICE'' '''' 1, example_row ''MASTERY_CHALLENGE'' ''a'' (1 + 24 * hour)]
     [example_attempt] minimumDelayedRecallGap (2 + 24 * hour)"
proof -
  let ?i = "example_row ''MASTERY_CHALLENGE'' ''a'' (1 + 24 * hour)"
  have "?i \<in> set (delayedRetrievalCandidates ''l'' ''c'' [example_row ''PRACTICE'' '''' 1, ?i] minimumDelayedRecallGap (2 + 24 * hour))"
    unfolding delayedRetrievalCandidates_iff
    by (simp add: delayed_candidate_def relevant_exposure_def isCognitiveExposureActivity_def isRetrievalActivity_def
        cold_success_def example_row_def exposure_row_def isZero_def after_def recall_gap_def minimumDelayedRecallGap_def
        t_sub_def time_defs)
  then show ?thesis
    unfolding hasAssessmentLinkedDelayedSuccessfulRecall_def Let_def
    by (rule rev_bexI) (simp add: index_by_def assessmentMatchesEvaluatedInteraction_def example_attempt_def
        example_row_def exposure_row_def)
qed

lemma example_retained: "msRetained example_status"
proof -
  have "CurrentElapsedDays (2 + 24 * hour) (Some (2 + 24 * hour)) = 0"
    by (simp add: CurrentElapsedDays_def t_sub_def time_defs)
  then have "RetentionRecallRoutingThreshold \<le> CurrentRetrievability (2 + 24 * hour) (csLastReview example_mature) (csStability example_mature)"
    by (simp add: CurrentRetrievability_def example_mature_def Retrievability_def NewConceptStateInDomain_def
        fsrsFactor_def fsrsDecay_def RetentionRecallRoutingThreshold_def)
  then show ?thesis
    unfolding AssessMasteryStatus_def Let_def example_evidence example_timeline
    by (simp add: example_linked example_mature_def)
qed

theorem mastery_claims_are_backed_witness:
  "msRetained example_status \<and> (\<exists>a. counted_attempt ''l'' ''c'' (2 + 24 * hour) [None, Some example_attempt] a \<and> aaPassed a) \<and>
   msDemonstrated example_status"
proof -
  have "counted_attempt ''l'' ''c'' (2 + 24 * hour) [None, Some example_attempt] example_attempt"
    by (simp flip: assessmentEvidenceAt_iff add: example_evidence)
  moreover have "aaTrustedEvaluation example_attempt" "aaID example_attempt \<noteq> ''''" "aaPassed example_attempt"
    "\<forall>m. aaEvaluationMethod example_attempt \<noteq> EvaluationMethodOther m"
    "demonstration_activity (aaActivityType example_attempt)"
    by (simp_all add: example_attempt_def demonstration_activity_def)
  ultimately have "msDemonstrated example_status"
    using mastery_claims_are_backed[of example_codec "''l''" "''c''"] by blast
  moreover have "\<exists>a. counted_attempt ''l'' ''c'' (2 + 24 * hour) [None, Some example_attempt] a \<and> aaPassed a"
    using mastery_claims_are_backed[of example_codec "''l''" "''c''" "Some example_mature"] example_retained by blast
  ultimately show ?thesis using example_retained by blast
qed

end
