(* ===== verification/Alerts.thy ===== *)
theory Alerts
  imports Mastery Concept_Selector
begin

text \<open>
  The alerts of \<open>engine/alert.go\<close>, the calibration policy of \<open>engine/calibration_policy.go\<close> and the
  evidence snapshot of \<open>engine/alert_evidence.go\<close>. Where the code ranges over a Go map, whose order
  is unspecified, the model uses the order of first occurrence. The rows that the alert loops
  dereference without a nil check are given as rows. The batched store reads of the snapshot are
  arguments.
\<close>

section \<open>Definitions\<close>

record MasteryAlertEvidence =
  maTransfers :: "TransferRecord option list"
  maAssessments :: "AssessmentAttempt option list"

definition estimateReviewMinutes :: "ConceptState \<Rightarrow> int" where
  "estimateReviewMinutes cs = (if csLapses cs > 2 then 12 else 8)"

definition masteryChallengeReadyForAlert ::
    "JsonCodec \<Rightarrow> ConceptState \<Rightarrow> Interaction list \<Rightarrow> TransferRecord option list \<Rightarrow> AssessmentAttempt option list \<Rightarrow> time \<Rightarrow> bool" where
  "masteryChallengeReadyForAlert jc cs interactions transfers assessments now =
     (let relevant = map Some (filter (\<lambda>i. inConcept i = csConcept cs \<and>
            \<not> (csLearnerID cs \<noteq> '''' \<and> inLearnerID i \<noteq> '''' \<and> inLearnerID i \<noteq> csLearnerID cs)) interactions);
          status = AssessMasteryStatus jc (csLearnerID cs) (csConcept cs) (Some cs) relevant transfers assessments now;
          evidence = MasteryEvidenceQuality (BuildEvidenceProfile (csLearnerID cs) (csConcept cs) relevant now);
          uncertainty = ComputeMasteryUncertainty (Some cs) relevant [now_profile now];
          transfer = BuildTrustedTransferProfileFromEvidence jc (csConcept cs) transfers assessments now
      in ReadyForMasteryChallenge status evidence uncertainty transfer)"

definition plain_alert :: "AlertType \<Rightarrow> string \<Rightarrow> AlertUrgency \<Rightarrow> message \<Rightarrow> Alert" where
  "plain_alert t concept urgency action =
     \<lparr>alDomainID = '''', alType = t, alConcept = concept, alUrgency = urgency, alRetention = 0,
      alHoursUntilCritical = 0, alSessionsStalled = 0, alErrorRate = 0, alRecommendedAction = action\<rparr>"

text \<open>The FORGETTING alert of one state, when its retention is below the warning threshold.\<close>

definition forgetting_alert :: "time \<Rightarrow> ConceptState \<Rightarrow> Alert option" where
  "forgetting_alert now cs =
     (let retention = CurrentRetrievability now (csLastReview cs) (csStability cs) in
      if RecallEligible (Some cs) \<and> retention < RetentionAlertWarningThreshold then
        Some ((plain_alert AlertForgetting (csConcept cs)
                 (if retention < RetentionAlertCriticalThreshold then UrgencyCritical else UrgencyWarning)
                 [S ''immediate review - '', D (estimateReviewMinutes cs), S '' minutes''])
              \<lparr>alRetention := retention,
               alHoursUntilCritical :=
                 (if retention > RetentionAlertCriticalThreshold
                  then (retention - RetentionAlertCriticalThreshold) / 0.01 * 2 else 0)\<rparr>)
      else None)"

text \<open>The loop over the states: the alerts so far and the concepts in critical forgetting.\<close>

fun state_alerts ::
    "JsonCodec \<Rightarrow> Interaction list \<Rightarrow> (string \<Rightarrow> MasteryAlertEvidence) \<Rightarrow> time \<Rightarrow> string set \<Rightarrow> ConceptState list \<Rightarrow> Alert list \<times> string set" where
  "state_alerts jc rows evidenceByConcept now critical [] = ([], critical)"
| "state_alerts jc rows evidenceByConcept now critical (cs # rest) =
     (if csCardState cs = New then state_alerts jc rows evidenceByConcept now critical rest
      else
        let forgetting = (case forgetting_alert now cs of Some a \<Rightarrow> [a] | None \<Rightarrow> []);
            critical = (if \<exists>a \<in> set forgetting. alUrgency a = UrgencyCritical then insert (csConcept cs) critical else critical);
            evidence = evidenceByConcept (csConcept cs);
            ready = (if masteryChallengeReadyForAlert jc cs rows (maTransfers evidence) (maAssessments evidence) now
                        \<and> csConcept cs \<notin> critical
                     then [plain_alert AlertMasteryReady (csConcept cs) UrgencyInfo [S ''mastery challenge disponible'']] else []);
            (alerts, critical) = state_alerts jc rows evidenceByConcept now critical rest
        in (forgetting @ ready @ alerts, critical))"

text \<open>\<open>m[k]++\<close> on an association list in order of first use.\<close>

fun bump :: "'k \<Rightarrow> ('k \<times> nat) list \<Rightarrow> ('k \<times> nat) list" where
  "bump k [] = [(k, 1)]"
| "bump k ((k', n) # xs) = (if k = k' then (k', n + 1) # xs else (k', n) # bump k xs)"

definition streak_step :: "Interaction \<Rightarrow> (string \<times> nat) list \<times> string set \<Rightarrow> (string \<times> nat) list \<times> string set" where
  "streak_step i = (\<lambda>(streaks, processed).
     if inConcept i \<in> processed then (streaks, processed)
     else if \<not> inSuccess i then (bump (inConcept i) streaks, processed)
     else (streaks, insert (inConcept i) processed))"

definition fail_streaks :: "Interaction list \<Rightarrow> (string \<times> nat) list" where
  "fail_streaks rows = fst (fold streak_step rows ([], {}))"

definition error_count :: "Interaction list \<Rightarrow> string \<Rightarrow> string \<Rightarrow> nat" where
  "error_count rows concept kind =
     length (filter (\<lambda>i. inConcept i = concept \<and> \<not> inSuccess i \<and> inErrorType i \<noteq> '''' \<and> inErrorType i = kind) rows)"

definition drift_action :: "Interaction list \<Rightarrow> string \<Rightarrow> message" where
  "drift_action rows concept =
     (if error_count rows concept ''KNOWLEDGE_GAP'' \<ge> 3
      then [S ''reduce difficulty - conceptual gap - revisit the fundamentals'']
      else if error_count rows concept ''LOGIC_ERROR'' \<ge> 3
      then [S ''reduce difficulty - recurring logic errors - reasoning exercises'']
      else if error_count rows concept ''SYNTAX_ERROR'' \<ge> 3
      then [S ''reduce difficulty - recurring syntax errors - practice exercises'']
      else [S ''reduce difficulty''])"

definition drift_alerts :: "Interaction list \<Rightarrow> string set \<Rightarrow> Alert list" where
  "drift_alerts rows critical =
     map (\<lambda>(concept, streak). (plain_alert AlertZPDDrift concept UrgencyWarning (drift_action rows concept))
            \<lparr>alErrorRate := f_of_int (int streak) / f_of_int (int streak + 1)\<rparr>)
       (filter (\<lambda>(concept, streak). concept \<notin> critical \<and> streak \<ge> 3) (fail_streaks rows))"

definition ComputeAlertsWithEvidenceAt ::
    "JsonCodec \<Rightarrow> ConceptState list \<Rightarrow> Interaction list \<Rightarrow> (string \<Rightarrow> MasteryAlertEvidence) \<Rightarrow> time \<Rightarrow> time \<Rightarrow> Alert list" where
  "ComputeAlertsWithEvidenceAt jc states rows evidenceByConcept sessionStart now =
     (let (alerts, critical) = state_alerts jc rows evidenceByConcept now {} states
      in alerts @ drift_alerts rows critical @
         (if \<not> isZero sessionStart \<and> t_sub now sessionStart > 45 * minute
          then [plain_alert AlertOverload '''' UrgencyInfo [S ''pause recommandee'']] else []))"

definition ComputeAlertsAt :: "JsonCodec \<Rightarrow> ConceptState list \<Rightarrow> Interaction list \<Rightarrow> time \<Rightarrow> time \<Rightarrow> Alert list" where
  "ComputeAlertsAt jc states rows sessionStart now =
     ComputeAlertsWithEvidenceAt jc states rows (\<lambda>_. \<lparr>maTransfers = [], maAssessments = []\<rparr>) sessionStart now"

subsection \<open>Metacognitive alerts\<close>

definition calibrationActionableThreshold :: f64 where "calibrationActionableThreshold = 0.25"
definition calibrationMinimumSamples :: int where "calibrationMinimumSamples = 5"

definition calibrationBiasIsActionable :: "f64 \<Rightarrow> int \<Rightarrow> bool" where
  "calibrationBiasIsActionable bias samples \<longleftrightarrow>
     samples \<ge> calibrationMinimumSamples \<and> fabs bias \<ge> calibrationActionableThreshold"

text \<open>\<open>None\<close> stands for a nil slice.\<close>

record MetacognitiveAlertOptions =
  moConceptStates :: "ConceptState list option"
  moTransferRecords :: "TransferRecord list option"
  moCalibrationSamples :: int

definition WithTransferData ::
    "ConceptState list option \<Rightarrow> TransferRecord list option \<Rightarrow> MetacognitiveAlertOptions \<Rightarrow> MetacognitiveAlertOptions" where
  "WithTransferData states transfers opts = opts\<lparr>moConceptStates := states, moTransferRecords := transfers\<rparr>"

definition WithCalibrationEvidence :: "int \<Rightarrow> MetacognitiveAlertOptions \<Rightarrow> MetacognitiveAlertOptions" where
  "WithCalibrationEvidence samples opts = opts\<lparr>moCalibrationSamples := samples\<rparr>"

definition affect_alert :: Alert where
  "affect_alert = plain_alert AlertAffectNegative '''' UrgencyWarning [S ''adapter le tutor_mode'']"

definition affect_alerts :: "AffectState list \<Rightarrow> Alert list" where
  "affect_alerts affects =
     (case affects of
        a0 # a1 # _ \<Rightarrow>
          (let low = (afSatisfaction a0 > 0 \<and> afSatisfaction a0 \<le> 2 \<and> afSatisfaction a1 > 0 \<and> afSatisfaction a1 \<le> 2);
               hard = (afPerceivedDifficulty a0 = 1 \<and> afPerceivedDifficulty a1 = 1)
           in if low \<or> hard then [affect_alert] else [])
      | _ \<Rightarrow> [])"

definition transfer_blocked_alerts :: "ConceptState list \<Rightarrow> TransferRecord list \<Rightarrow> Alert list" where
  "transfer_blocked_alerts states transfers =
     map (\<lambda>c. plain_alert AlertTransferBlocked c UrgencyWarning [S ''feynman challenge recommande''])
       (filter (\<lambda>c. length (filter (\<lambda>tr. trConceptID tr = c \<and> trScore tr < 0.50) transfers) \<ge> 2)
         (remdups (map csConcept (filter (\<lambda>cs. csPMastery cs \<ge> MasteryBKT) states))))"

definition ComputeMetacognitiveAlerts ::
    "f64 \<Rightarrow> AffectState list \<Rightarrow> (MetacognitiveAlertOptions \<Rightarrow> MetacognitiveAlertOptions) list \<Rightarrow> Alert list" where
  "ComputeMetacognitiveAlerts calibrationBias affects opts =
     (let options = fold (\<lambda>f o'. f o') opts
            \<lparr>moConceptStates = None, moTransferRecords = None, moCalibrationSamples = 0\<rparr>
      in (if calibrationBiasIsActionable calibrationBias (moCalibrationSamples options)
          then [plain_alert AlertCalibrationDiverging '''' UrgencyWarning
                  [S ''calibration divergente: '',
                   S (if calibrationBias < 0 then ''sous-estimation'' else ''sur-estimation''), S '' persistante'']]
          else [])
         @ affect_alerts affects
         @ (case (moConceptStates options, moTransferRecords options) of
              (Some states, Some transfers) \<Rightarrow> transfer_blocked_alerts states transfers
            | _ \<Rightarrow> []))"

subsection \<open>Evidence snapshot\<close>

record EvidenceSnapshot =
  esLearnerID :: string
  esDomainID :: string
  esTransfersByConcept :: "string \<Rightarrow> TransferRecord option list"
  esAssessmentsByConcept :: "string \<Rightarrow> AssessmentAttempt option list"
  esConcepts :: "string set"

definition evidenceAssessmentLimitPerConcept :: int where
  "evidenceAssessmentLimitPerConcept = 100"

text \<open>The batched reads of the store: learner, domain, concepts and, for attempts, the limit.\<close>

record EvidenceReads =
  erTransfers :: "string \<Rightarrow> string \<Rightarrow> string list \<Rightarrow> string + (string \<Rightarrow> TransferRecord option list)"
  erAssessments :: "string \<Rightarrow> string \<Rightarrow> string list \<Rightarrow> int \<Rightarrow> string + (string \<Rightarrow> AssessmentAttempt option list)"

fun unique_loop :: "string set \<Rightarrow> string list \<Rightarrow> string list" where
  "unique_loop seen [] = []"
| "unique_loop seen (c # cs) =
     (if c = '''' \<or> c \<in> seen then unique_loop seen cs else c # unique_loop (insert c seen) cs)"

definition uniqueEvidenceConcepts :: "string list \<Rightarrow> string list" where
  "uniqueEvidenceConcepts concepts = unique_loop {} concepts"

definition LoadEvidenceSnapshot :: "EvidenceReads \<Rightarrow> string \<Rightarrow> string \<Rightarrow> string list \<Rightarrow> string + EvidenceSnapshot" where
  "LoadEvidenceSnapshot reads learnerID domainID allConcepts =
     (let concepts = uniqueEvidenceConcepts allConcepts;
          snapshot = \<lparr>esLearnerID = learnerID, esDomainID = domainID, esTransfersByConcept = (\<lambda>_. []),
                      esAssessmentsByConcept = (\<lambda>_. []), esConcepts = set concepts\<rparr>
      in if length concepts = 0 then Inr snapshot
         else sbind (erTransfers reads learnerID domainID concepts) (\<lambda>transfers.
              sbind (erAssessments reads learnerID domainID concepts evidenceAssessmentLimitPerConcept) (\<lambda>assessments.
              Inr (snapshot\<lparr>esTransfersByConcept := transfers, esAssessmentsByConcept := assessments\<rparr>))))"

definition ForConcept :: "EvidenceSnapshot option \<Rightarrow> string \<Rightarrow> MasteryAlertEvidence" where
  "ForConcept s concept =
     (case s of
        None \<Rightarrow> \<lparr>maTransfers = [], maAssessments = []\<rparr>
      | Some e \<Rightarrow> \<lparr>maTransfers = esTransfersByConcept e concept, maAssessments = esAssessmentsByConcept e concept\<rparr>)"

text \<open>A concept without a state has the zero value of the map.\<close>

definition ForMasteryAlerts :: "EvidenceSnapshot option \<Rightarrow> ConceptState option list \<Rightarrow> string \<Rightarrow> MasteryAlertEvidence" where
  "ForMasteryAlerts s states concept =
     (if concept \<noteq> '''' \<and> (\<exists>cs \<in> set (somes states). csConcept cs = concept) then ForConcept s concept
      else \<lparr>maTransfers = [], maAssessments = []\<rparr>)"

definition snapshot_matches :: "EvidenceSnapshot option \<Rightarrow> string \<Rightarrow> string \<Rightarrow> string list \<Rightarrow> bool" where
  "snapshot_matches s learnerID domainID concepts =
     (case s of
        None \<Rightarrow> False
      | Some e \<Rightarrow> esLearnerID e = learnerID \<and> esDomainID e = domainID \<and>
                  (\<forall>c \<in> set (uniqueEvidenceConcepts concepts). c \<in> esConcepts e))"

definition ensureEvidenceSnapshot ::
    "EvidenceReads \<Rightarrow> string \<Rightarrow> string \<Rightarrow> string list \<Rightarrow> EvidenceSnapshot option \<Rightarrow> string + EvidenceSnapshot" where
  "ensureEvidenceSnapshot reads learnerID domainID concepts s =
     (case s of
        Some e \<Rightarrow> if snapshot_matches s learnerID domainID concepts then Inr e
                  else LoadEvidenceSnapshot reads learnerID domainID concepts
      | None \<Rightarrow> LoadEvidenceSnapshot reads learnerID domainID concepts)"

definition LoadMasteryAlertEvidence ::
    "EvidenceReads \<Rightarrow> string \<Rightarrow> string \<Rightarrow> ConceptState option list \<Rightarrow> string + (string \<Rightarrow> MasteryAlertEvidence)" where
  "LoadMasteryAlertEvidence reads learnerID domainID states =
     sbind (LoadEvidenceSnapshot reads learnerID domainID (map csConcept (somes states))) (\<lambda>s.
     Inr (ForMasteryAlerts (Some s) states))"

section \<open>Failure streaks\<close>

text \<open>The streak of a concept: the failures before its most recent success (rows are newest first).\<close>

definition streak_of :: "Interaction list \<Rightarrow> string \<Rightarrow> nat" where
  "streak_of rows c = length (takeWhile (\<lambda>i. \<not> inSuccess i) (filter (\<lambda>i. inConcept i = c) rows))"

lemma map_of_bump: "map_of (bump k xs) j = (if j = k then Some (case map_of xs k of Some n \<Rightarrow> n + 1 | None \<Rightarrow> 1) else map_of xs j)"
  by (induction k xs rule: bump.induct) auto

lemma keys_bump: "fst ` set (bump k xs) = insert k (fst ` set xs)"
  by (induction k xs rule: bump.induct) auto

lemma distinct_bump: "distinct (map fst xs) \<Longrightarrow> distinct (map fst (bump k xs))"
  by (induction k xs rule: bump.induct) (auto simp: keys_bump)

lemma takeWhile_snoc_length:
  "length (takeWhile P (xs @ [x])) = (if P x \<and> (\<forall>y \<in> set xs. P y) then Suc (length xs) else length (takeWhile P xs))"
  by (induction xs) auto

lemma streak_of_snoc:
  "streak_of (rows @ [i]) c =
     (if inConcept i = c \<and> \<not> inSuccess i \<and> (\<forall>j \<in> set rows. inConcept j = c \<longrightarrow> \<not> inSuccess j)
      then Suc (streak_of rows c) else streak_of rows c)"
proof (cases "inConcept i = c")
  case True
  then show ?thesis
    by (auto simp: streak_of_def takeWhile_snoc_length takeWhile_eq_all_conv[THEN iffD2])
qed (simp add: streak_of_def)

lemma streak_fold:
  "(case fold streak_step rows ([], {}) of (streaks, processed) \<Rightarrow>
     processed = {c. \<exists>i \<in> set rows. inConcept i = c \<and> inSuccess i} \<and> distinct (map fst streaks) \<and>
     (\<forall>c. map_of streaks c = (if streak_of rows c = 0 then None else Some (streak_of rows c))))"
proof (induction rows rule: rev_induct)
  case Nil
  then show ?case by (simp add: streak_of_def)
next
  case (snoc i rows)
  obtain streaks processed where f: "fold streak_step rows ([], {}) = (streaks, processed)" by fastforce
  with snoc have p: "processed = {c. \<exists>i \<in> set rows. inConcept i = c \<and> inSuccess i}" and d: "distinct (map fst streaks)"
    and m: "\<And>c. map_of streaks c = (if streak_of rows c = 0 then None else Some (streak_of rows c))"
    by auto
  have step: "fold streak_step (rows @ [i]) ([], {}) = streak_step i (streaks, processed)" by (simp add: f)
  show ?case
    unfolding step unfolding streak_step_def using d m
    by (auto simp: streak_of_snoc p map_of_bump distinct_bump split: option.splits)
qed

lemma fail_streaks_iff:
  "n > 0 \<Longrightarrow> (c, n) \<in> set (fail_streaks rows) \<longleftrightarrow> streak_of rows c = n"
  using streak_fold[of rows]
  by (cases "fold streak_step rows ([], {})") (auto simp: fail_streaks_def simp flip: map_of_eq_Some_iff)

section \<open>Arbitration\<close>

definition critical_state :: "time \<Rightarrow> ConceptState \<Rightarrow> bool" where
  "critical_state now cs \<longleftrightarrow> csCardState cs \<noteq> New \<and> (\<exists>a. forgetting_alert now cs = Some a \<and> alUrgency a = UrgencyCritical)"

definition ready_alert :: "ConceptState \<Rightarrow> Alert" where
  "ready_alert cs = plain_alert AlertMasteryReady (csConcept cs) UrgencyInfo [S ''mastery challenge disponible'']"

definition ready_state :: "JsonCodec \<Rightarrow> Interaction list \<Rightarrow> (string \<Rightarrow> MasteryAlertEvidence) \<Rightarrow> time \<Rightarrow> ConceptState \<Rightarrow> bool" where
  "ready_state jc rows ev now cs \<longleftrightarrow> csCardState cs \<noteq> New \<and>
     masteryChallengeReadyForAlert jc cs rows (maTransfers (ev (csConcept cs))) (maAssessments (ev (csConcept cs))) now"

lemma state_alerts_Cons:
  assumes "csCardState cs \<noteq> New"
  shows "state_alerts jc rows ev now critical (cs # rest) =
     (let r = state_alerts jc rows ev now (if critical_state now cs then insert (csConcept cs) critical else critical) rest
      in ((case forgetting_alert now cs of Some a \<Rightarrow> [a] | None \<Rightarrow> []) @
          (if ready_state jc rows ev now cs \<and> \<not> critical_state now cs \<and> csConcept cs \<notin> critical then [ready_alert cs] else []) @
          fst r, snd r))"
proof (cases "critical_state now cs")
  case True
  with assms show ?thesis
    by (cases "state_alerts jc rows ev now (insert (csConcept cs) critical) rest")
       (auto simp: critical_state_def ready_state_def)
next
  case False
  with assms show ?thesis
    by (cases "state_alerts jc rows ev now critical rest"; cases "forgetting_alert now cs")
       (auto simp: critical_state_def ready_state_def ready_alert_def)
qed

lemma state_alerts_critical:
  "snd (state_alerts jc rows ev now critical states) = critical \<union> csConcept ` {cs \<in> set states. critical_state now cs}"
proof (induction states arbitrary: critical)
  case (Cons cs rest)
  have split: "{c \<in> set (cs # rest). critical_state now c} =
      (if critical_state now cs then {cs} else {}) \<union> {c \<in> set rest. critical_state now c}" by auto
  show ?case
  proof (cases "csCardState cs = New")
    case True
    then have "\<not> critical_state now cs" by (simp add: critical_state_def)
    with True show ?thesis unfolding split by (simp add: Cons.IH)
  next
    case False
    then show ?thesis unfolding split state_alerts_Cons[OF False] by (simp add: Let_def Cons.IH image_Un)
  qed
qed simp

lemma state_alerts_member:
  assumes "a \<in> set (fst (state_alerts jc rows ev now critical states))"
  shows "\<exists>cs \<in> set states. csCardState cs \<noteq> New \<and> (forgetting_alert now cs = Some a \<or>
     a = ready_alert cs \<and> ready_state jc rows ev now cs \<and> \<not> critical_state now cs)"
  using assms
proof (induction states arbitrary: critical)
  case (Cons cs rest)
  show ?case
  proof (cases "csCardState cs = New")
    case True
    with Cons show ?thesis by auto
  next
    case False
    from Cons.prems consider "forgetting_alert now cs = Some a"
      | "a = ready_alert cs" "ready_state jc rows ev now cs" "\<not> critical_state now cs"
      | crit'' where "a \<in> set (fst (state_alerts jc rows ev now crit'' rest))"
      unfolding state_alerts_Cons[OF False] by (auto simp: Let_def split: if_splits option.splits)
    then show ?thesis
    proof cases
      case 1
      with False show ?thesis by auto
    next
      case 2
      with False show ?thesis by auto
    next
      case (3 crit'')
      from Cons.IH[OF 3] show ?thesis by auto
    qed
  qed
qed simp

lemma forgetting_alert_type: "forgetting_alert now cs = Some a \<Longrightarrow> alType a = AlertForgetting \<and> alConcept a = csConcept cs"
  by (auto simp: forgetting_alert_def plain_alert_def Let_def split: if_splits)

lemma ComputeAlerts_parts:
  "ComputeAlertsWithEvidenceAt jc states rows ev start now =
     fst (state_alerts jc rows ev now {} states) @ drift_alerts rows (csConcept ` {cs \<in> set states. critical_state now cs}) @
     (if \<not> isZero start \<and> t_sub now start > 45 * minute
      then [plain_alert AlertOverload '''' UrgencyInfo [S ''pause recommandee'']] else [])"
  using state_alerts_critical[of jc rows ev now "{}" states]
  by (cases "state_alerts jc rows ev now {} states") (simp add: ComputeAlertsWithEvidenceAt_def)

lemma drift_alert_iff:
  "(\<exists>a \<in> set (drift_alerts rows critical). alConcept a = c) \<longleftrightarrow> c \<notin> critical \<and> 3 \<le> streak_of rows c"
proof -
  have "(\<exists>a \<in> set (drift_alerts rows critical). alConcept a = c) \<longleftrightarrow>
      c \<notin> critical \<and> (\<exists>n \<ge> 3. (c, n) \<in> set (fail_streaks rows))"
    by (force simp: drift_alerts_def plain_alert_def)
  then show ?thesis using fail_streaks_iff[of _ c rows] by fastforce
qed

lemma drift_alert_type: "a \<in> set (drift_alerts rows critical) \<Longrightarrow> alType a = AlertZPDDrift"
  by (auto simp: drift_alerts_def plain_alert_def)

text \<open>C19. Arbitration between alerts: with one state per concept, a concept in critical forgetting gets
  neither a MASTERY_READY nor a ZPD_DRIFT alert; ZPD_DRIFT is raised exactly for the other concepts
  that failed three times or more since their last success; MASTERY_READY is only raised for a
  state whose retained, diverse evidence makes it ready; and OVERLOAD exactly when the session
  is longer than 45 minutes.
\<close>

theorem alert_arbitration:
  fixes jc states rows ev start now
  assumes "distinct (map csConcept states)"
  defines "alerts \<equiv> ComputeAlertsWithEvidenceAt jc states rows ev start now"
  shows "(\<forall>a \<in> set alerts. alType a = AlertForgetting \<longrightarrow> alUrgency a = UrgencyCritical \<longrightarrow>
            (\<forall>b \<in> set alerts. alConcept b = alConcept a \<longrightarrow> alType b \<notin> {AlertMasteryReady, AlertZPDDrift})) \<and>
     (\<forall>c. (\<exists>a \<in> set alerts. alType a = AlertZPDDrift \<and> alConcept a = c) \<longleftrightarrow>
            3 \<le> streak_of rows c \<and> \<not> (\<exists>cs \<in> set states. csConcept cs = c \<and> critical_state now cs)) \<and>
     (\<forall>a \<in> set alerts. alType a = AlertMasteryReady \<longrightarrow> (\<exists>cs \<in> set states. csConcept cs = alConcept a \<and> ready_state jc rows ev now cs)) \<and>
     ((\<exists>a \<in> set alerts. alType a = AlertOverload) \<longleftrightarrow> start \<noteq> 0 \<and> 45 * minute < t_sub now start)"
proof -
  let ?crit = "csConcept ` {cs \<in> set states. critical_state now cs}"
  let ?sa = "fst (state_alerts jc rows ev now {} states)"
  have same: "cs = cs'" if "cs \<in> set states" "cs' \<in> set states" "csConcept cs = csConcept cs'" for cs cs'
    using that assms(1) by (auto simp: distinct_map inj_on_def)
  have sa: "\<exists>cs \<in> set states. csConcept cs = alConcept a \<and> csCardState cs \<noteq> New \<and>
      (alType a = AlertForgetting \<and> forgetting_alert now cs = Some a \<or>
       alType a = AlertMasteryReady \<and> alUrgency a = UrgencyInfo \<and> ready_state jc rows ev now cs \<and> \<not> critical_state now cs)"
    if "a \<in> set ?sa" for a
    using state_alerts_member[OF that] by (fastforce dest: forgetting_alert_type simp: ready_alert_def plain_alert_def)
  have al: "alerts = ?sa @ drift_alerts rows ?crit @
     (if \<not> isZero start \<and> t_sub now start > 45 * minute then [plain_alert AlertOverload '''' UrgencyInfo [S ''pause recommandee'']] else [])"
    unfolding alerts_def by (rule ComputeAlerts_parts)
  have drift: "alConcept b \<notin> ?crit" if "b \<in> set (drift_alerts rows ?crit)" for b
    using drift_alert_iff[of rows ?crit "alConcept b"] that by blast
  have forg: "a \<in> set ?sa" if "a \<in> set alerts" "alType a \<in> {AlertForgetting, AlertMasteryReady}" for a
    using that by (auto simp: al plain_alert_def dest: drift_alert_type split: if_splits)
  have zpd: "a \<in> set (drift_alerts rows ?crit)" if "a \<in> set alerts" "alType a = AlertZPDDrift" for a
    using that sa[of a] by (auto simp: al plain_alert_def split: if_splits)
  have crit: "alConcept a \<in> ?crit \<and> (\<forall>cs \<in> set states. csConcept cs = alConcept a \<longrightarrow> critical_state now cs)"
    if a: "a \<in> set alerts" "alType a = AlertForgetting" "alUrgency a = UrgencyCritical" for a
  proof -
    from a have "a \<in> set ?sa" by (intro forg) simp_all
    from sa[OF this] a(2,3) obtain cs where cs: "cs \<in> set states" "csConcept cs = alConcept a" "critical_state now cs"
      by (auto simp: critical_state_def)
    then have "alConcept a \<in> ?crit" by (metis (mono_tags, lifting) CollectI image_eqI)
    moreover have "critical_state now cs'" if "cs' \<in> set states" "csConcept cs' = alConcept a" for cs'
      using same[OF that(1) cs(1)] cs that by simp
    ultimately show ?thesis by blast
  qed
  have c1: "alType b \<notin> {AlertMasteryReady, AlertZPDDrift}"
    if "a \<in> set alerts" "alType a = AlertForgetting" "alUrgency a = UrgencyCritical" "b \<in> set alerts" "alConcept b = alConcept a" for a b
  proof
    assume "alType b \<in> {AlertMasteryReady, AlertZPDDrift}"
    then consider "alType b = AlertMasteryReady" | "alType b = AlertZPDDrift" by blast
    then show False
    proof cases
      case 1
      with that(4) have "b \<in> set ?sa" by (intro forg) simp_all
      from sa[OF this] 1 crit[OF that(1-3)] that(5) show False by auto
    next
      case 2
      from drift[OF zpd[OF that(4) 2]] crit[OF that(1-3)] that(5) show False by simp
    qed
  qed
  have c2: "(\<exists>a \<in> set alerts. alType a = AlertZPDDrift \<and> alConcept a = c) \<longleftrightarrow>
      3 \<le> streak_of rows c \<and> \<not> (\<exists>cs \<in> set states. csConcept cs = c \<and> critical_state now cs)" for c
  proof -
    have "(\<exists>a \<in> set alerts. alType a = AlertZPDDrift \<and> alConcept a = c) \<longleftrightarrow> (\<exists>a \<in> set (drift_alerts rows ?crit). alConcept a = c)"
    proof
      assume "\<exists>a \<in> set alerts. alType a = AlertZPDDrift \<and> alConcept a = c"
      then show "\<exists>a \<in> set (drift_alerts rows ?crit). alConcept a = c" using zpd by blast
    next
      assume "\<exists>a \<in> set (drift_alerts rows ?crit). alConcept a = c"
      then obtain a where a: "a \<in> set (drift_alerts rows ?crit)" "alConcept a = c" by blast
      then have "a \<in> set alerts" by (simp add: al)
      with a drift_alert_type[OF a(1)] show "\<exists>a \<in> set alerts. alType a = AlertZPDDrift \<and> alConcept a = c" by blast
    qed
    also have "\<dots> \<longleftrightarrow> c \<notin> ?crit \<and> 3 \<le> streak_of rows c" by (rule drift_alert_iff)
    finally show ?thesis unfolding image_iff by blast
  qed
  have c3: "\<exists>cs \<in> set states. csConcept cs = alConcept a \<and> ready_state jc rows ev now cs"
    if "a \<in> set alerts" "alType a = AlertMasteryReady" for a
  proof -
    from that have "a \<in> set ?sa" by (intro forg) simp_all
    from sa[OF this] that(2) show ?thesis by auto
  qed
  have c4: "(\<exists>a \<in> set alerts. alType a = AlertOverload) \<longleftrightarrow> start \<noteq> 0 \<and> 45 * minute < t_sub now start"
    using sa drift_alert_type by (fastforce simp: al plain_alert_def isZero_def)
  show ?thesis using c1 c2 c3 c4 by blast
qed

definition example_fail :: "string \<Rightarrow> Interaction" where
  "example_fail c = (exposure_row ''l'' c 1)\<lparr>inActivityType := ''PRACTICE''\<rparr>"

definition forgotten :: ConceptState where
  "forgotten = (NewConceptStateInDomain ''l'' ''d'' ''c'')\<lparr>csCardState := Review, csLastReview := Some 1, csStability := Fin 1\<rparr>"

definition example_alerts :: "Alert list" where
  "example_alerts = ComputeAlertsWithEvidenceAt example_codec [forgotten]
     [example_fail ''c'', example_fail ''c'', example_fail ''c'', example_fail ''x'', example_fail ''x'', example_fail ''x'']
     (\<lambda>_. \<lparr>maTransfers = [], maAssessments = []\<rparr>) 1 (1 + 400 * day)"

lemma forgotten_critical: "critical_state (1 + 400 * day) forgotten"
proof -
  let ?now = "1 + 400 * day"
  have days: "CurrentElapsedDays ?now (Some 1) = 400"
    by (simp add: CurrentElapsedDays_def isZero_def t_sub_def hours_of_def time_defs)
  have r: "CurrentRetrievability ?now (csLastReview forgotten) (csStability forgotten) = Fin ((1 + 19 / 81 * 400) powr (- (1/2)))"
    unfolding CurrentRetrievability_def forgotten_def
    by (simp add: days Retrievability_def fsrsFactor_def fsrsDecay_def)
  have "((1 + 19 / 81 * 400 :: real) powr (- (1/2))) \<le> 81 powr (- (1/2))"
    by (rule powr_mono2') simp_all
  also have "(81 :: real) powr (- (1/2)) = inverse (81 powr (1/2))" by (rule powr_minus)
  also have "(81 :: real) powr (1/2) = sqrt 81" by (rule powr_half_sqrt) simp
  also have "sqrt (81 :: real) = 9" by (rule real_sqrt_unique) simp_all
  finally have "((1 + 19 / 81 * 400 :: real) powr (- (1/2))) \<le> 1 / 9" by (simp only: inverse_eq_divide)
  then show ?thesis
    unfolding critical_state_def forgetting_alert_def Let_def r
    by (simp add: forgotten_def RecallEligible_def isZero_def plain_alert_def
      RetentionAlertWarningThreshold_def RetentionAlertCriticalThreshold_def)
qed

theorem alert_arbitration_witness:
  "(\<exists>a \<in> set example_alerts. alType a = AlertZPDDrift \<and> alConcept a = ''x'') \<and>
   \<not> (\<exists>a \<in> set example_alerts. alType a = AlertZPDDrift \<and> alConcept a = ''c'') \<and>
   (\<exists>a \<in> set example_alerts. alType a = AlertOverload)"
proof -
  let ?now = "1 + 400 * day"
  note crit = forgotten_critical
  have "45 * minute < t_sub ?now 1" by (simp add: t_sub_def time_defs)
  then show ?thesis
    using alert_arbitration[of "[forgotten]" example_codec
        "[example_fail ''c'', example_fail ''c'', example_fail ''c'', example_fail ''x'', example_fail ''x'', example_fail ''x'']"
        "\<lambda>_. \<lparr>maTransfers = [], maAssessments = []\<rparr>" 1 ?now] crit
    unfolding example_alerts_def
    by (simp add: streak_of_def example_fail_def exposure_row_def forgotten_def)
qed

end
