(* ===== verification/Orchestrator.thy ===== *)
theory Orchestrator
  imports Alerts Action_Selector
begin

text \<open>
  The regulation pipeline, \<open>engine/orchestrator.go\<close>: fixtures, observables, phase evaluation, the
  Gate / ConceptSelector / ActionSelector run with its relaxation and its one phase fallback, and
  the compare-and-swap of the settled phase, \<open>CompareAndSwapDomainPhase\<close> of \<open>db/phase.go\<close>.

  The interface \<open>store.Store\<close> is the record \<open>Store\<close> of its read operations, each with an error or
  a value; the phase columns of the domains are the table \<open>PhaseTable\<close>. The table that the call
  finds when it writes is an argument, because other calls may write between its read and its
  write. Logging is not modelled.
\<close>

section \<open>The phase columns\<close>

record DomainPhaseRow =
  drPhase :: "string option"
  drPhaseChangedAt :: "time option"
  drPhaseEntryEntropy :: "f64 option"

type_synonym PhaseTable = "string \<rightharpoonup> DomainPhaseRow"

datatype store_error = ErrDomainPhaseConflict

definition domainPhaseEntropyArg :: "Phase \<Rightarrow> f64 \<Rightarrow> f64 option" where
  "domainPhaseEntropyArg phase entry = (if phase = PhaseDiagnostic then Some entry else None)"

definition phase_row :: "Phase \<Rightarrow> f64 \<Rightarrow> time \<Rightarrow> DomainPhaseRow" where
  "phase_row phase entry now =
     \<lparr>drPhase = Some (string_of_phase phase), drPhaseChangedAt = Some now,
      drPhaseEntryEntropy = domainPhaseEntropyArg phase entry\<rparr>"

definition UpdateDomainPhase :: "string \<Rightarrow> Phase \<Rightarrow> f64 \<Rightarrow> time \<Rightarrow> PhaseTable \<Rightarrow> PhaseTable" where
  "UpdateDomainPhase domainID phase entry now tbl =
     (case tbl domainID of None \<Rightarrow> tbl | Some _ \<Rightarrow> tbl(domainID \<mapsto> phase_row phase entry now))"

text \<open>\<open>COALESCE(phase, '')\<close>\<close>

definition stored_phase :: "DomainPhaseRow \<Rightarrow> string" where
  "stored_phase r = (case drPhase r of Some p \<Rightarrow> p | None \<Rightarrow> '''')"

definition CompareAndSwapDomainPhase ::
    "string \<Rightarrow> Phase \<Rightarrow> Phase \<Rightarrow> f64 \<Rightarrow> time \<Rightarrow> PhaseTable \<Rightarrow> store_error + PhaseTable" where
  "CompareAndSwapDomainPhase domainID expected phase entry now tbl =
     (case tbl domainID of
        Some r \<Rightarrow> if stored_phase r = string_of_phase expected
                  then Inr (tbl(domainID \<mapsto> phase_row phase entry now)) else Inl ErrDomainPhaseConflict
      | None \<Rightarrow> Inl ErrDomainPhaseConflict)"

section \<open>Input, store and fixtures\<close>

record OrchestratorInput =
  oiLearnerID :: string
  oiDomainID :: string
  oiNow :: time
  oiSessionStart :: time
  oiReviewOnly :: bool
  oiPreviewOnly :: bool
  oiConfig :: PhaseConfig
  oiEvidenceSnapshot :: "EvidenceSnapshot option"

text \<open>The read operations of \<open>store.Store\<close> that the orchestrator calls; an error is its text.\<close>

record Store =
  stGetLearnerDomainByID :: "string \<Rightarrow> string \<Rightarrow> string + Domain"
  stGetConceptStatesByDomain :: "string \<Rightarrow> string \<Rightarrow> string + ConceptState list"
  stGetActiveMisconceptionsBatchInDomain :: "string \<Rightarrow> string \<Rightarrow> string list \<Rightarrow> string + (string \<Rightarrow> bool)"
  stGetRecentConceptsInDomain :: "string \<Rightarrow> string \<Rightarrow> int \<Rightarrow> string + string list"
  stGetQualifiedDiagnosticConceptsSinceInDomain :: "string \<Rightarrow> string \<Rightarrow> time \<Rightarrow> string + string list"
  stGetRecentInteractionsByDomain :: "string \<Rightarrow> string \<Rightarrow> int \<Rightarrow> string + Interaction list"
  stGetSessionStart :: "string \<Rightarrow> string + time"
  stEvidence :: EvidenceReads
  stGetFirstActiveMisconceptionInDomain :: "string \<Rightarrow> string \<Rightarrow> string \<Rightarrow> string + MisconceptionGroup option"
  stGetActionHistoryForConceptInDomain :: "string \<Rightarrow> string \<Rightarrow> string \<Rightarrow> int \<Rightarrow> string + ActionHistory"

datatype orch_error =
    ErrUnknownDomain string
  | ErrRead string string
  | ErrGate gate_error
  | ErrConceptSelector selector_error
  | ErrPersist store_error

record pipelineFixtures =
  pfStatesList :: "ConceptState list"
  pfStatesByConcept :: "string \<rightharpoonup> ConceptState"
  pfGoalRelevance :: "(string \<rightharpoonup> f64) option"
  pfActiveMisc :: "string \<Rightarrow> bool"
  pfRecentConcepts :: "string list"
  pfRecentInteractions :: "Interaction list"
  pfAlerts :: "Alert list"
  pfDiagnosticItems :: int
  pfDiagnosedConcepts :: "string \<Rightarrow> bool"

text \<open>\<open>fmt.Errorf("what: %w", err)\<close> around a read.\<close>

definition wrap :: "string \<Rightarrow> string + 'a \<Rightarrow> orch_error + 'a" where
  "wrap what r = (case r of Inl e \<Rightarrow> Inl (ErrRead what e) | Inr x \<Rightarrow> Inr x)"

definition fetchPipelineFixtures ::
    "JsonCodec \<Rightarrow> (string \<Rightarrow> GoalRelevance option) \<Rightarrow> Store \<Rightarrow> Domain \<Rightarrow> OrchestratorInput \<Rightarrow> orch_error + pipelineFixtures" where
  "fetchPipelineFixtures jc unmarshal store domain input =
     (let learner = oiLearnerID input; concepts = ksConcepts (dGraph domain) in
      sbind (wrap ''get states'' (stGetConceptStatesByDomain store learner (dID domain))) (\<lambda>states.
      let domainStates = filter (\<lambda>cs. csConcept cs \<in> set concepts) states in
      sbind (wrap ''get active misconceptions''
        (stGetActiveMisconceptionsBatchInDomain store learner (dID domain) concepts)) (\<lambda>activeMisc.
      sbind (wrap ''get recent concepts'' (stGetRecentConceptsInDomain store learner (dID domain) 20)) (\<lambda>recent.
      sbind (if isZero (dPhaseChangedAt domain) then Inr []
             else wrap ''get qualified diagnostic concept coverage''
               (stGetQualifiedDiagnosticConceptsSinceInDomain store learner (dID domain) (dPhaseChangedAt domain))) (\<lambda>qualifiedConcepts.
      let qualified = filter (\<lambda>c. c \<in> set concepts) qualifiedConcepts in
      sbind (wrap ''get recent interactions'' (stGetRecentInteractionsByDomain store learner (dID domain) 50)) (\<lambda>interactions.
      let domainInteractions = filter (\<lambda>i. inConcept i \<in> set concepts) interactions in
      sbind (if isZero (oiSessionStart input) then wrap ''get session start'' (stGetSessionStart store learner)
             else Inr (oiSessionStart input)) (\<lambda>sessionStart.
      sbind (wrap ''load alert evidence''
        (ensureEvidenceSnapshot (stEvidence store) learner (dID domain) concepts (oiEvidenceSnapshot input))) (\<lambda>snapshot.
      let alertEvidence = ForMasteryAlerts (Some snapshot) (map Some domainStates);
          alerts = ComputeAlertsWithEvidenceAt jc domainStates domainInteractions alertEvidence sessionStart (oiNow input) in
      Inr \<lparr>pfStatesList = domainStates, pfStatesByConcept = index_by csConcept domainStates,
           pfGoalRelevance = EffectiveGoalRelevance unmarshal domain, pfActiveMisc = activeMisc,
           pfRecentConcepts = recent, pfRecentInteractions = domainInteractions, pfAlerts = alerts,
           pfDiagnosticItems = int (length qualified), pfDiagnosedConcepts = (\<lambda>c. c \<in> set qualified)\<rparr>))))))))"

section \<open>Observables\<close>

definition goal_relevant :: "PhaseConfig \<Rightarrow> (string \<rightharpoonup> f64) option \<Rightarrow> string \<Rightarrow> bool" where
  "goal_relevant cfg gr c =
     (case gr of
        None \<Rightarrow> \<not> 1.0 \<le> cfgGoalRelevantCutoff cfg
      | Some m \<Rightarrow> (case m c of None \<Rightarrow> False | Some rel \<Rightarrow> \<not> rel \<le> cfgGoalRelevantCutoff cfg))"

definition below_retention :: "PhaseConfig \<Rightarrow> time \<Rightarrow> ConceptState \<Rightarrow> bool" where
  "below_retention cfg now cs \<longleftrightarrow>
     csCardState cs \<noteq> New \<and> CurrentRetrievability now (csLastReview cs) (csStability cs) < cfgRetentionRecallThreshold cfg"

definition buildObservables :: "Domain \<Rightarrow> pipelineFixtures \<Rightarrow> PhaseConfig \<Rightarrow> time \<Rightarrow> PhaseObservables" where
  "buildObservables domain pf cfg now =
     (let relevant = filter (goal_relevant cfg (pfGoalRelevance pf)) (ksConcepts (dGraph domain));
          states = pfStatesByConcept pf;
          count = (\<lambda>P. int (length (filter P relevant)))
      in \<lparr>obMeanEntropy = MeanBinaryEntropyOverGraph (dGraph domain) states,
          obPhaseEntryEntropy = dPhaseEntryEntropy domain,
          obDiagnosticItemsCount = pfDiagnosticItems pf,
          obDiagnosticCoverageTarget = min (int (length (ksConcepts (dGraph domain)))) (cfgNDiagnosticMax cfg),
          obEstimatedGoalRelevant =
            count (\<lambda>c. case states c of Some cs \<Rightarrow> csPMastery cs \<ge> MasteryBKT | None \<Rightarrow> False),
          obTotalGoalRelevant = int (length relevant),
          obBelowExitGoalRelevant =
            count (\<lambda>c. case states c of Some cs \<Rightarrow> csPMastery cs < EffectiveMasteryExitThreshold cfg | None \<Rightarrow> True),
          obGoalRelevantBelowRetention =
            (\<exists>c \<in> set relevant. case states c of Some cs \<Rightarrow> below_retention cfg now cs | None \<Rightarrow> False)\<rparr>)"

fun noFringeFallbackPhase :: "Phase \<Rightarrow> Phase" where
  "noFringeFallbackPhase PhaseInstruction = PhaseMaintenance"
| "noFringeFallbackPhase PhaseMaintenance = PhaseInstruction"
| "noFringeFallbackPhase PhaseDiagnostic = PhaseDiagnostic"
| "noFringeFallbackPhase p = p"

section \<open>Selections outside the concept selector\<close>

text \<open>The loop of \<open>recallNeedSelection\<close>: the best concept so far with its retention.\<close>

fun recall_loop ::
    "(string \<rightharpoonup> f64) option \<Rightarrow> (string \<rightharpoonup> ConceptState) \<Rightarrow> PhaseConfig \<Rightarrow> time \<Rightarrow> string list \<Rightarrow> string \<times> f64 \<Rightarrow> string \<times> f64" where
  "recall_loop gr states cfg now [] best = best"
| "recall_loop gr states cfg now (concept # rest) (best, bestRetention) =
     (let (relevance, eligible) = resolveRelevance gr concept in
      if \<not> eligible \<or> relevance \<le> cfgGoalRelevantCutoff cfg then recall_loop gr states cfg now rest (best, bestRetention)
      else if \<not> RecallEligible (states concept) then recall_loop gr states cfg now rest (best, bestRetention)
      else
        let retention = (case states concept of
              Some cs \<Rightarrow> CurrentRetrievability now (csLastReview cs) (csStability cs) | None \<Rightarrow> 0)
        in if \<not> retention < cfgRetentionRecallThreshold cfg then recall_loop gr states cfg now rest (best, bestRetention)
           else if best = '''' \<or> retention < bestRetention \<or> (feq retention bestRetention \<and> concept < best)
           then recall_loop gr states cfg now rest (concept, retention)
           else recall_loop gr states cfg now rest (best, bestRetention))"

definition recallNeedSelection :: "Domain \<Rightarrow> pipelineFixtures \<Rightarrow> Phase \<Rightarrow> OrchestratorInput \<Rightarrow> Selection option" where
  "recallNeedSelection domain pf phase input =
     (let cfg = oiConfig input;
          (best, retention) = recall_loop (pfGoalRelevance pf) (pfStatesByConcept pf) cfg (oiNow input)
            (ksConcepts (dGraph domain)) ('''', cfgRetentionRecallThreshold cfg)
      in if best = '''' then None
         else Some \<lparr>sConcept = best, sScore = 1 - retention, sNoFringe = False, sPhase = phase,
                    sRationale = [S ''recall need: current retention '', F 2 retention, S '' below '',
                      F 2 (cfgRetentionRecallThreshold cfg)]\<rparr>)"

fun critical_loop :: "Alert list \<Rightarrow> string \<times> f64 \<Rightarrow> string \<times> f64" where
  "critical_loop [] best = best"
| "critical_loop (a # rest) (best, bestRetention) =
     (if alType a \<noteq> AlertForgetting \<or> alUrgency a \<noteq> UrgencyCritical then critical_loop rest (best, bestRetention)
      else if best = '''' \<or> alRetention a < bestRetention then critical_loop rest (alConcept a, alRetention a)
      else critical_loop rest (best, bestRetention))"

definition criticalForgettingBypassSelection :: "Alert list \<Rightarrow> Phase \<Rightarrow> Selection option" where
  "criticalForgettingBypassSelection alerts phase =
     (let (best, retention) = critical_loop alerts ('''', 1.0)
      in if best = '''' then None
         else Some \<lparr>sConcept = best, sScore = 1 - retention, sNoFringe = False,
                    sPhase = phase_of_string (string_of_phase phase @ ''+bypass_forgetting''),
                    sRationale = [S ''FORGETTING-Critical bypass retention='', F 2 retention]\<rparr>)"

section \<open>The pipeline\<close>

definition selectActionForSelection ::
    "Store \<Rightarrow> pipelineFixtures \<Rightarrow> Selection \<Rightarrow> Phase \<Rightarrow> OrchestratorInput \<Rightarrow> orch_error + Action" where
  "selectActionForSelection store pf selection phase input =
     (let c = sConcept selection;
          cs = (case pfStatesByConcept pf c of
                  Some cs \<Rightarrow> cs | None \<Rightarrow> NewConceptStateInDomain (oiLearnerID input) (oiDomainID input) c)
      in sbind (if pfActiveMisc pf c
                then wrap ''fetch misconception''
                  (stGetFirstActiveMisconceptionInDomain store (oiLearnerID input) (oiDomainID input) c)
                else Inr None) (\<lambda>mc.
         sbind (wrap ''action history''
           (stGetActionHistoryForConceptInDomain store (oiLearnerID input) (oiDomainID input) c 50)) (\<lambda>history.
         Inr (SelectActionForPhaseAt phase (Some cs) mc history (oiNow input)))))"

definition filterPrerequisites :: "(string \<rightharpoonup> string list) \<Rightarrow> string set \<Rightarrow> string \<rightharpoonup> string list" where
  "filterPrerequisites src allowed = src |` allowed"

definition composeActivity :: "Action \<Rightarrow> Selection \<Rightarrow> Phase \<Rightarrow> Activity" where
  "composeActivity a sel phase =
     (let phaseLabel = (if string_of_phase (sPhase sel) \<noteq> '''' then sPhase sel else phase)
      in \<lparr>acType = atType a, acConcept = sConcept sel, acDifficultyTarget = atDifficultyTarget a,
          acFormat = atFormat a, acEstimatedMinutes = atEstimatedMinutes a,
          acRationale = [S ''[phase='', S (string_of_phase phaseLabel), S ''] ''] @ sRationale sel @ [S '' - ''] @ atRationale a,
          acPromptForLLM = BuildActivityPrompt (atType a) (sConcept sel) (atFormat a)\<rparr>)"

definition bare_activity :: "ActivityType \<Rightarrow> string \<Rightarrow> message \<Rightarrow> message \<Rightarrow> Activity" where
  "bare_activity t format rationale prompt =
     \<lparr>acType = t, acConcept = '''', acDifficultyTarget = 0, acFormat = format, acEstimatedMinutes = 0,
      acRationale = rationale, acPromptForLLM = prompt\<rparr>"

definition composeEscapeActivity :: "EscapeAction \<Rightarrow> Activity" where
  "composeEscapeActivity esc =
     bare_activity (eaType esc) (eaFormat esc) (eaRationale esc)
       [S ''Session terminee. Emets le recap_brief et appelle record_session_close.'']"

definition gate_input :: "Domain \<Rightarrow> pipelineFixtures \<Rightarrow> Phase \<Rightarrow> OrchestratorInput \<Rightarrow> GateInput" where
  "gate_input domain pf phase input =
     \<lparr>giPhase = phase, giConcepts = ksConcepts (dGraph domain), giStates = pfStatesByConcept pf,
      giGraph = dGraph domain, giActiveMisconceptions = pfActiveMisc pf, giRecentConcepts = pfRecentConcepts pf,
      giAlerts = pfAlerts pf, giAntiRepeatWindow = cfgAntiRepeatWindow (oiConfig input)\<rparr>"

text \<open>The two recall routes that come before the concept selector.\<close>

definition bypass_selection :: "Domain \<Rightarrow> pipelineFixtures \<Rightarrow> Phase \<Rightarrow> OrchestratorInput \<Rightarrow> Selection option" where
  "bypass_selection domain pf phase input =
     (if \<not> oiReviewOnly input \<and> phase \<noteq> PhaseDiagnostic then
        (case criticalForgettingBypassSelection (pfAlerts pf) phase of
           Some selection \<Rightarrow> Some selection
         | None \<Rightarrow> recallNeedSelection domain pf phase input)
      else None)"

definition pipeline_selection ::
    "string \<Rightarrow> Domain \<Rightarrow> pipelineFixtures \<Rightarrow> Phase \<Rightarrow> OrchestratorInput \<Rightarrow> string list \<Rightarrow> orch_error + Selection" where
  "pipeline_selection env domain pf phase input allowed =
     (let filteredGraph = \<lparr>ksConcepts = allowed,
            ksPrerequisites = filterPrerequisites (ksPrerequisites (dGraph domain)) (set allowed)\<rparr>
      in if oiReviewOnly input
         then Inr (SelectReviewConceptAt allowed (pfStatesByConcept pf) (map Some (pfRecentInteractions pf))
                (pfActiveMisc pf) (oiNow input))
         else (case SelectConceptAtWithContext env phase (map Some (pfStatesList pf)) filteredGraph
                      (pfGoalRelevance pf) (oiNow input)
                      \<lparr>scMaintenanceMasteryFloor = EffectiveMasteryExitThreshold (oiConfig input),
                       scDiagnosedConcepts = pfDiagnosedConcepts pf\<rparr> of
                 Inl e \<Rightarrow> Inl (ErrConceptSelector e)
               | Inr s \<Rightarrow> Inr s))"

definition honor_restriction :: "Phase \<Rightarrow> GateResult \<Rightarrow> Selection \<Rightarrow> Action \<Rightarrow> Action" where
  "honor_restriction phase gateResult selection action =
     (if phase = PhaseDiagnostic then action
      else (case gActionRestriction gateResult (sConcept selection) of
              Some (t # ts) \<Rightarrow>
                (if atType action \<in> set (t # ts) then action
                 else action\<lparr>atType := t, atRationale := S ''gate ActionRestriction override : '' # atRationale action\<rparr>)
            | _ \<Rightarrow> action))"

text \<open>
  \<open>runPipeline\<close>: an activity, or \<open>None\<close> for the NoFringe signal. When the selector finds nothing
  and a repetition window was set, the pipeline runs once more without it.
\<close>

function runPipeline ::
    "string \<Rightarrow> Store \<Rightarrow> Domain \<Rightarrow> pipelineFixtures \<Rightarrow> Phase \<Rightarrow> OrchestratorInput \<Rightarrow> orch_error + Activity option" where
  "runPipeline env store domain pf phase input =
     (case ApplyGate env (gate_input domain pf phase input) of
        Inl e \<Rightarrow> Inl (ErrGate e)
      | Inr gateResult \<Rightarrow>
          (case gEscapeAction gateResult of
             Some esc \<Rightarrow> Inr (Some (composeEscapeActivity esc))
           | None \<Rightarrow>
               (case bypass_selection domain pf phase input of
                  Some selection \<Rightarrow>
                    sbind (selectActionForSelection store pf selection phase input) (\<lambda>action.
                    Inr (Some (composeActivity action selection phase)))
                | None \<Rightarrow>
                    if gNoCandidate gateResult then Inr None
                    else
                      (case pipeline_selection env domain pf phase input (gAllowedConcepts gateResult) of
                         Inl e \<Rightarrow> Inl e
                       | Inr selection \<Rightarrow>
                           if sNoFringe selection then
                             (if cfgAntiRepeatWindow (oiConfig input) > 0 then
                                sbind (runPipeline env store domain pf phase
                                         (input\<lparr>oiConfig := (oiConfig input)\<lparr>cfgAntiRepeatWindow := 0\<rparr>\<rparr>)) (\<lambda>r.
                                Inr (map_option (\<lambda>a. a\<lparr>acRationale := acRationale a @
                                  [S '' - anti-repetition relaxed: no phase-eligible activity remained'']\<rparr>) r))
                              else Inr None)
                           else
                             sbind (selectActionForSelection store pf selection phase input) (\<lambda>action.
                             let action = (if oiReviewOnly input
                                           then constrainReviewAction action (pfStatesByConcept pf (sConcept selection)) (oiNow input)
                                           else action)
                             in Inr (Some (composeActivity (honor_restriction phase gateResult selection action) selection phase)))))))"
  by pat_completeness auto
termination
  by (relation "measure (\<lambda>(env, store, domain, pf, phase, input). nat (cfgAntiRepeatWindow (oiConfig input)))") auto

declare runPipeline.simps [simp del]

section \<open>Orchestrate\<close>

definition orchestratorMaxRetries :: nat where "orchestratorMaxRetries = 1"

text \<open>The retry loop: the activity if any, the settled phase, its entry entropy and whether it must be written.\<close>

fun pipeline_retries ::
    "(Phase \<Rightarrow> orch_error + Activity option) \<Rightarrow> bool \<Rightarrow> bool \<Rightarrow> nat \<Rightarrow> Phase \<times> f64 \<times> bool \<Rightarrow>
     orch_error + Activity option \<times> Phase \<times> f64 \<times> bool" where
  "pipeline_retries run reviewOnly fsmTransitioned retriesLeft (phase, entry, pending) =
     sbind (run phase) (\<lambda>r. case r of
       Some activity \<Rightarrow> Inr (Some activity, phase, entry, pending)
     | None \<Rightarrow>
         if reviewOnly \<or> fsmTransitioned then Inr (None, phase, entry, pending)
         else (case retriesLeft of
                 0 \<Rightarrow> Inr (None, phase, entry, pending)
               | Suc n \<Rightarrow>
                   let next = noFringeFallbackPhase phase in
                   if next = phase then Inr (None, phase, entry, pending)
                   else pipeline_retries run reviewOnly fsmTransitioned n (next, 0, True)))"

definition effective_phase :: "Phase \<Rightarrow> Phase" where
  "effective_phase stored = (if string_of_phase stored = '''' then PhaseInstruction else stored)"

text \<open>Step 3: the phase the pipeline starts in, its entry entropy, and whether the machine moved.\<close>

definition phase_decision :: "Domain \<Rightarrow> pipelineFixtures \<Rightarrow> OrchestratorInput \<Rightarrow> Phase \<times> f64 \<times> bool" where
  "phase_decision domain pf input =
     (if oiReviewOnly input then (PhaseMaintenance, 0, False)
      else
        let obs = buildObservables domain pf (oiConfig input) (oiNow input);
            eval = EvaluatePhase (effective_phase (dPhase domain)) obs (oiConfig input)
        in if peTransitioned eval
           then (peTo eval, if peTo eval = PhaseDiagnostic then obMeanEntropy obs else 0, True)
           else (effective_phase (dPhase domain), 0, False))"

definition rest_activity :: "bool \<Rightarrow> Activity" where
  "rest_activity reviewOnly =
     (if reviewOnly then
        bare_activity ActivityRest ''''
          [S ''[intent=review] no_reviewable_concept: no previously studied concept is available in this domain'']
          [S ''No reviewed concept is available in this domain. Tell the learner there is nothing to revise yet in this domain and ask whether they want to start a new concept.'']
      else
        bare_activity ActivityRest '''' [S ''pipeline_exhausted: NoFringe persists after retry'']
          [S ''No eligible activity remains after retry. Ask the learner what they want to work on next.''])"

definition persistSettledPhase ::
    "Domain \<Rightarrow> OrchestratorInput \<Rightarrow> Phase \<times> f64 \<times> bool \<Rightarrow> PhaseTable \<Rightarrow> store_error + PhaseTable" where
  "persistSettledPhase domain input = (\<lambda>(phase, entry, pending) tbl.
     if oiPreviewOnly input \<or> \<not> pending then Inr tbl
     else CompareAndSwapDomainPhase (dID domain) (dPhase domain) phase entry (oiNow input) tbl)"

text \<open>The result of the call, and the table after it.\<close>

definition OrchestrateWithPhase ::
    "string \<Rightarrow> JsonCodec \<Rightarrow> (string \<Rightarrow> GoalRelevance option) \<Rightarrow> Store \<Rightarrow> OrchestratorInput \<Rightarrow> PhaseTable \<Rightarrow>
     (orch_error + Activity \<times> Phase) \<times> PhaseTable" where
  "OrchestrateWithPhase env jc unmarshal store input tbl =
     (case stGetLearnerDomainByID store (oiLearnerID input) (oiDomainID input) of
        Inl e \<Rightarrow> (Inl (ErrUnknownDomain e), tbl)
      | Inr domain \<Rightarrow>
          (case fetchPipelineFixtures jc unmarshal store domain input of
             Inl e \<Rightarrow> (Inl e, tbl)
           | Inr pf \<Rightarrow>
               (case phase_decision domain pf input of (phase, entry, fsmTransitioned) \<Rightarrow>
                  (case pipeline_retries (\<lambda>p. runPipeline env store domain pf p input) (oiReviewOnly input)
                          fsmTransitioned orchestratorMaxRetries (phase, entry, fsmTransitioned) of
                     Inl e \<Rightarrow> (Inl e, tbl)
                   | Inr (activity, settled, entry', pending) \<Rightarrow>
                       (case persistSettledPhase domain input (settled, entry', pending) tbl of
                          Inl e \<Rightarrow> (Inl (ErrPersist e), tbl)
                        | Inr tbl' \<Rightarrow>
                            (Inr (case activity of Some a \<Rightarrow> a | None \<Rightarrow> rest_activity (oiReviewOnly input), settled), tbl'))))))"

definition Orchestrate ::
    "string \<Rightarrow> JsonCodec \<Rightarrow> (string \<Rightarrow> GoalRelevance option) \<Rightarrow> Store \<Rightarrow> OrchestratorInput \<Rightarrow> PhaseTable \<Rightarrow>
     (orch_error + Activity) \<times> PhaseTable" where
  "Orchestrate env jc unmarshal store input tbl =
     (case OrchestrateWithPhase env jc unmarshal store input tbl of
        (Inl e, tbl') \<Rightarrow> (Inl e, tbl')
      | (Inr (activity, _), tbl') \<Rightarrow> (Inr activity, tbl'))"

section \<open>The compare-and-swap contract\<close>

text \<open>
  What the orchestrator relies on when it writes: a successful swap saw the expected value and
  changed only its own key; a swap on another value fails. The client lemmas hold for every store
  with this contract.
\<close>

locale cas_register =
  fixes read :: "'t \<Rightarrow> 'k \<Rightarrow> 'p option"
    and cas :: "'k \<Rightarrow> 'p \<Rightarrow> 'p \<Rightarrow> 'v \<Rightarrow> 't \<Rightarrow> 'e + 't"
  assumes cas_succeeds: "cas k old new v t = Inr t' \<Longrightarrow> read t k = Some old \<and> read t' k = Some new"
    and cas_fails: "read t k \<noteq> Some old \<Longrightarrow> \<exists>e. cas k old new v t = Inl e"
    and cas_frame: "cas k old new v t = Inr t' \<Longrightarrow> j \<noteq> k \<Longrightarrow> read t' j = read t j"
begin

text \<open>Of two writers that read the same value, the second fails when the first changed it.\<close>

lemma no_lost_update:
  assumes "cas k old new v t = Inr t'" and "new \<noteq> old"
  shows "\<exists>e. cas k old new' v' t' = Inl e"
  using assms cas_succeeds[OF assms(1)] by (intro cas_fails) simp

text \<open>Attempts of concurrent writers in the order in which the store executes them.\<close>

definition attempt :: "'k \<times> 'p \<times> 'p \<times> 'v \<Rightarrow> 't \<Rightarrow> 't" where
  "attempt = (\<lambda>(k, old, new, v) t. case cas k old new v t of Inl _ \<Rightarrow> t | Inr t' \<Rightarrow> t')"

lemma attempt_step: "read (attempt w t) k = read t k \<or> (\<exists>old new v. w = (k, old, new, v) \<and> read t k = Some old \<and> read (attempt w t) k = Some new)"
proof -
  obtain j old new v where w: "w = (j, old, new, v)" by (cases w)
  show ?thesis
  proof (cases "cas j old new v t")
    case (Inr t')
    with cas_succeeds[OF Inr] cas_frame[OF Inr, of k] show ?thesis by (cases "k = j") (auto simp: attempt_def w)
  qed (simp add: attempt_def w)
qed

lemma history_path:
  assumes "\<And>k old new v. (k, old, new, v) \<in> set ws \<Longrightarrow> r old new" and "read t k = Some p"
  shows "\<exists>q. read (fold attempt ws t) k = Some q \<and> r\<^sup>*\<^sup>* p q"
  using assms
proof (induction ws arbitrary: t p)
  case (Cons w ws)
  from attempt_step[of w t k] Cons.prems obtain p' where p': "read (attempt w t) k = Some p'" "r\<^sup>*\<^sup>* p p'"
    by (metis list.set_intros(1) option.inject r_into_rtranclp rtranclp.rtrancl_refl)
  have "\<exists>q. read (fold attempt ws (attempt w t)) k = Some q \<and> r\<^sup>*\<^sup>* p' q"
    using Cons.prems(1) p'(1) by (intro Cons.IH) auto
  with p'(2) show ?case by (auto intro: rtranclp_trans)
qed simp

end

definition read_phase :: "PhaseTable \<Rightarrow> string \<Rightarrow> string option" where
  "read_phase tbl d = map_option stored_phase (tbl d)"

lemma stored_phase_row [simp]: "stored_phase (phase_row phase entry now) = string_of_phase phase"
  by (simp add: stored_phase_def phase_row_def)

interpretation phase_cas: cas_register read_phase
  "\<lambda>d old new (entry, now). CompareAndSwapDomainPhase d (phase_of_string old) (phase_of_string new) entry now"
proof (unfold_locales, goal_cases)
  case (1 k old new v t t')
  then show ?case
    by (cases v) (auto simp: CompareAndSwapDomainPhase_def read_phase_def split: option.splits if_splits)
next
  case (2 t k old new v)
  then show ?case by (cases v) (auto simp: CompareAndSwapDomainPhase_def read_phase_def split: option.splits)
next
  case (3 k old new v t t' j)
  then show ?case
    by (cases v) (auto simp: CompareAndSwapDomainPhase_def read_phase_def split: option.splits if_splits)
qed

section \<open>What a call writes\<close>

text \<open>The phase changes a call may make: a transition of the machine, or the fallback on an empty fringe.\<close>

definition allowed_change :: "Phase \<Rightarrow> Phase \<Rightarrow> bool" where
  "allowed_change p q \<longleftrightarrow> (effective_phase p, q) \<in> phase_edges"

lemma noFringeFallback_edge: "noFringeFallbackPhase p \<noteq> p \<Longrightarrow> (p, noFringeFallbackPhase p) \<in> phase_edges"
  by (cases p) (auto simp: phase_edges_def)

lemma pipeline_retries_phase:
  assumes "pipeline_retries run review moved (Suc 0) (phase, entry, moved) = Inr (a, settled, entry', pending)"
  shows "run settled = Inr a \<and> (settled = phase \<and> pending = moved \<or>
     \<not> review \<and> \<not> moved \<and> settled = noFringeFallbackPhase phase \<and> settled \<noteq> phase \<and> pending)"
  using assms by (auto simp: succeeds Let_def split: option.splits if_splits)

lemma phase_decision_moved:
  assumes "phase_decision domain pf input = (phase, entry, moved)"
  shows "moved \<Longrightarrow> \<not> oiReviewOnly input \<and> phase_step (oiConfig input) (effective_phase (dPhase domain)) phase"
    and "\<not> moved \<Longrightarrow> phase = (if oiReviewOnly input then PhaseMaintenance else effective_phase (dPhase domain))"
  using assms phase_step.fire[of "effective_phase (dPhase domain)" "buildObservables domain pf (oiConfig input) (oiNow input)" "oiConfig input"]
  by (auto simp: phase_decision_def Let_def split: if_splits)

lemma Orchestrate_cases:
  assumes "OrchestrateWithPhase env jc unmarshal store input tbl = (Inr (activity, settled), tbl')"
  obtains domain pf phase entry moved a entry' pending where
    "stGetLearnerDomainByID store (oiLearnerID input) (oiDomainID input) = Inr domain"
    "fetchPipelineFixtures jc unmarshal store domain input = Inr pf"
    "phase_decision domain pf input = (phase, entry, moved)"
    "pipeline_retries (\<lambda>p. runPipeline env store domain pf p input) (oiReviewOnly input) moved (Suc 0) (phase, entry, moved)
       = Inr (a, settled, entry', pending)"
    "persistSettledPhase domain input (settled, entry', pending) tbl = Inr tbl'"
    "activity = (case a of Some x \<Rightarrow> x | None \<Rightarrow> rest_activity (oiReviewOnly input))"
  using assms unfolding OrchestrateWithPhase_def orchestratorMaxRetries_def One_nat_def
  by (auto split: sum.splits prod.splits simp del: pipeline_retries.simps)

lemma persist_write:
  assumes "persistSettledPhase domain input (settled, entry, pending) tbl = Inr tbl'"
  shows "tbl' = tbl \<and> (oiPreviewOnly input \<or> \<not> pending) \<or>
     \<not> oiPreviewOnly input \<and> pending \<and>
     CompareAndSwapDomainPhase (dID domain) (dPhase domain) settled entry (oiNow input) tbl = Inr tbl'"
  using assms by (auto simp: persistSettledPhase_def split: if_splits)

lemma CompareAndSwap_Inr:
  assumes "CompareAndSwapDomainPhase d old new entry now tbl = Inr tbl'"
  shows "\<exists>row. tbl d = Some row \<and> stored_phase row = string_of_phase old \<and> tbl' = tbl(d \<mapsto> phase_row new entry now)"
  using assms by (auto simp: CompareAndSwapDomainPhase_def split: option.splits if_splits)

lemma call_writes:
  fixes env jc unmarshal store input tbl
  defines "out \<equiv> OrchestrateWithPhase env jc unmarshal store input tbl"
  shows "((\<exists>e. fst out = Inl e) \<or> oiPreviewOnly input \<longrightarrow> snd out = tbl) \<and>
     (\<forall>activity settled. fst out = Inr (activity, settled) \<longrightarrow>
        (\<exists>domain. stGetLearnerDomainByID store (oiLearnerID input) (oiDomainID input) = Inr domain \<and>
           (snd out = tbl \<or>
            (\<exists>row entry. tbl (dID domain) = Some row \<and> stored_phase row = string_of_phase (dPhase domain) \<and>
               snd out = tbl(dID domain \<mapsto> phase_row settled entry (oiNow input)) \<and> allowed_change (dPhase domain) settled))))"
proof -
  have failed: "snd out = tbl" if "fst out = Inl e" for e
    using that unfolding out_def OrchestrateWithPhase_def
    by (auto simp del: pipeline_retries.simps split: sum.splits prod.splits)
  have ok: "(oiPreviewOnly input \<longrightarrow> snd out = tbl) \<and> (\<exists>domain. stGetLearnerDomainByID store (oiLearnerID input) (oiDomainID input) = Inr domain \<and>
      (snd out = tbl \<or> (\<exists>row entry. tbl (dID domain) = Some row \<and> stored_phase row = string_of_phase (dPhase domain) \<and>
         snd out = tbl(dID domain \<mapsto> phase_row settled entry (oiNow input)) \<and> allowed_change (dPhase domain) settled)))"
    if o: "fst out = Inr (activity, settled)" for activity settled
  proof -
    from o have "OrchestrateWithPhase env jc unmarshal store input tbl = (Inr (activity, settled), snd out)"
      unfolding out_def by (metis prod.collapse)
    then obtain domain pf phase entry moved a entry' pending where
      d: "stGetLearnerDomainByID store (oiLearnerID input) (oiDomainID input) = Inr domain"
      and dec: "phase_decision domain pf input = (phase, entry, moved)"
      and r: "pipeline_retries (\<lambda>p. runPipeline env store domain pf p input) (oiReviewOnly input) moved (Suc 0) (phase, entry, moved)
       = Inr (a, settled, entry', pending)"
      and p: "persistSettledPhase domain input (settled, entry', pending) tbl = Inr (snd out)"
      by (rule Orchestrate_cases)
    have edge: "allowed_change (dPhase domain) settled" if pending
    proof (cases moved)
      case True
      from pipeline_retries_phase[OF r] True have "settled = phase" by blast
      with phase_decision_moved(1)[OF dec True] show ?thesis by (auto simp: allowed_change_def dest: phase_step_edge)
    next
      case False
      from pipeline_retries_phase[OF r] False that
      have "\<not> oiReviewOnly input" "settled = noFringeFallbackPhase phase" "settled \<noteq> phase" by auto
      with phase_decision_moved(2)[OF dec False] noFringeFallback_edge show ?thesis by (auto simp: allowed_change_def)
    qed
    from persist_write[OF p] edge d show ?thesis by (metis CompareAndSwap_Inr)
  qed
  show ?thesis using failed ok by (cases "fst out") auto
qed

text \<open>C7. What a call of the orchestrator writes: a call that fails or only previews leaves the phase
  table as it was. A call that succeeds either writes nothing, or swaps the phase of its own domain,
  which still held the phase that the call had read, to the phase it returns, along an edge of the
  phase machine; no other domain changes.
\<close>

theorem orchestrate_writes:
  fixes env jc unmarshal store input tbl
  defines "out \<equiv> OrchestrateWithPhase env jc unmarshal store input tbl"
  shows "((\<exists>e. fst out = Inl e) \<or> oiPreviewOnly input \<longrightarrow> snd out = tbl) \<and>
     (\<forall>activity settled. fst out = Inr (activity, settled) \<longrightarrow>
        (\<exists>domain. stGetLearnerDomainByID store (oiLearnerID input) (oiDomainID input) = Inr domain \<and>
           (snd out = tbl \<or>
            (\<exists>row entry. tbl (dID domain) = Some row \<and> stored_phase row = string_of_phase (dPhase domain) \<and>
               snd out = tbl(dID domain \<mapsto> phase_row settled entry (oiNow input)) \<and> allowed_change (dPhase domain) settled))))"
  unfolding out_def by (rule call_writes)

text \<open>A store with one concept, diagnosed, in a session that has run for too long.\<close>

definition example_domain_row :: Domain where
  "example_domain_row = \<lparr>dID = ''d'', dLearnerID = ''l'', dName = '''', dPersonalGoal = '''',
     dGraph = \<lparr>ksConcepts = [''a''], ksPrerequisites = Map.empty\<rparr>, dArchived = False, dHighStakes = False, dGraphVersion = 0,
     dGoalRelevanceJSON = '''', dGoalRelevanceVersion = 0, dPhase = PhaseDiagnostic, dPhaseChangedAt = 1,
     dPhaseEntryEntropy = 0, dCreatedAt = 1, dDeletedAt = None\<rparr>"

definition example_store :: Store where
  "example_store = \<lparr>stGetLearnerDomainByID = (\<lambda>l d. if d = ''d'' then Inr example_domain_row else Inl ''no row''),
     stGetConceptStatesByDomain = (\<lambda>_ _. Inr []), stGetActiveMisconceptionsBatchInDomain = (\<lambda>_ _ _. Inr (\<lambda>_. False)),
     stGetRecentConceptsInDomain = (\<lambda>_ _ _. Inr []), stGetQualifiedDiagnosticConceptsSinceInDomain = (\<lambda>_ _ _. Inr [''a'']),
     stGetRecentInteractionsByDomain = (\<lambda>_ _ _. Inr []), stGetSessionStart = (\<lambda>_. Inr 1),
     stEvidence = \<lparr>erTransfers = (\<lambda>_ _ _. Inr (\<lambda>_. [])), erAssessments = (\<lambda>_ _ _ _. Inr (\<lambda>_. []))\<rparr>,
     stGetFirstActiveMisconceptionInDomain = (\<lambda>_ _ _. Inr None),
     stGetActionHistoryForConceptInDomain = (\<lambda>_ _ _ _. Inr \<lparr>hInteractionsAboveBKT = 0, hMasteryChallengeCount = 0, hFeynmanCount = 0, hTransferCount = 0\<rparr>)\<rparr>"

definition example_input :: OrchestratorInput where
  "example_input = \<lparr>oiLearnerID = ''l'', oiDomainID = ''d'', oiNow = 1 + 46 * minute, oiSessionStart = 1, oiReviewOnly = False,
     oiPreviewOnly = False, oiConfig = NewDefaultPhaseConfig, oiEvidenceSnapshot = None\<rparr>"

definition example_table :: PhaseTable where
  "example_table = [''d'' \<mapsto> phase_row PhaseDiagnostic 0 1, ''other'' \<mapsto> phase_row PhaseMaintenance 0 1]"

lemma example_fixtures:
  "\<exists>pf. fetchPipelineFixtures example_codec (\<lambda>_. None) example_store example_domain_row example_input = Inr pf \<and>
     pfDiagnosticItems pf = 1 \<and> (\<exists>a \<in> set (pfAlerts pf). alType a = AlertOverload)"
  by (simp add: fetchPipelineFixtures_def wrap_def example_store_def example_input_def example_domain_row_def isZero_def
      ensureEvidenceSnapshot_def LoadEvidenceSnapshot_def uniqueEvidenceConcepts_def ComputeAlerts_parts drift_alerts_def
      fail_streaks_def t_sub_def time_defs plain_alert_def)

lemma example_run:
  "\<exists>activity. OrchestrateWithPhase '''' example_codec (\<lambda>_. None) example_store example_input example_table =
     (Inr (activity, PhaseInstruction), example_table(''d'' \<mapsto> phase_row PhaseInstruction 0 (1 + 46 * minute)))"
proof -
  obtain pf where pf: "fetchPipelineFixtures example_codec (\<lambda>_. None) example_store example_domain_row example_input = Inr pf"
    "pfDiagnosticItems pf = 1" "\<exists>a \<in> set (pfAlerts pf). alType a = AlertOverload"
    using example_fixtures by blast
  have dom: "stGetLearnerDomainByID example_store (oiLearnerID example_input) (oiDomainID example_input) = Inr example_domain_row"
    by (simp add: example_store_def example_input_def)
  have "coverage_reached (buildObservables example_domain_row pf (oiConfig example_input) (oiNow example_input)) (oiConfig example_input)"
    by (simp add: coverage_reached_def buildObservables_def Let_def pf(2) example_domain_row_def example_input_def NewDefaultPhaseConfig_def)
  then have dec: "phase_decision example_domain_row pf example_input = (PhaseInstruction, 0, True)"
    by (simp add: phase_decision_def Let_def effective_phase_def evaluate_diagnostic_spec)
       (simp add: example_domain_row_def example_input_def evaluate_diagnostic_spec)
  have "gate_overload (gate_input example_domain_row pf PhaseInstruction example_input)"
    using pf(3) by (simp add: gate_overload_def gate_input_def)
  moreover have "known_phase (giPhase (gate_input example_domain_row pf PhaseInstruction example_input))"
    by (simp add: gate_input_def known_phase_def)
  ultimately obtain esc where "runPipeline '''' example_store example_domain_row pf PhaseInstruction example_input = Inr (Some (composeEscapeActivity esc))"
    using ApplyGate_overload[of "gate_input example_domain_row pf PhaseInstruction example_input" "''''"]
    by (auto simp: runPipeline.simps)
  then show ?thesis
    unfolding OrchestrateWithPhase_def dom sum.case pf(1) dec prod.case
    by (simp add: orchestratorMaxRetries_def persistSettledPhase_def CompareAndSwapDomainPhase_def)
       (simp add: example_table_def example_domain_row_def example_input_def)
qed

theorem orchestrate_writes_witness:
  "\<exists>row entry. example_table ''d'' = Some row \<and> stored_phase row = ''DIAGNOSTIC'' \<and>
     snd (OrchestrateWithPhase '''' example_codec (\<lambda>_. None) example_store example_input example_table) =
       example_table(''d'' \<mapsto> phase_row PhaseInstruction entry (1 + 46 * minute)) \<and>
     allowed_change PhaseDiagnostic PhaseInstruction"
proof -
  obtain activity where run: "OrchestrateWithPhase '''' example_codec (\<lambda>_. None) example_store example_input example_table =
     (Inr (activity, PhaseInstruction), example_table(''d'' \<mapsto> phase_row PhaseInstruction 0 (1 + 46 * minute)))"
    using example_run by blast
  have new: "example_table(''d'' \<mapsto> phase_row PhaseInstruction 0 (1 + 46 * minute)) \<noteq> example_table"
    by (auto simp: example_table_def phase_row_def fun_eq_iff time_defs)
  show ?thesis
    using orchestrate_writes[of "''''" example_codec "\<lambda>_. None" example_store example_input example_table] new
    unfolding run by (auto simp: example_store_def example_input_def example_domain_row_def)
qed

section \<open>Concurrent calls\<close>

text \<open>
  Calls of any learners, on any domains and with any snapshots, in the order in which their writes
  reach the store. The abstract machine has only the stored phase of a domain and the edges of the
  phase machine.
\<close>

definition run_calls ::
    "string \<Rightarrow> JsonCodec \<Rightarrow> (string \<Rightarrow> GoalRelevance option) \<Rightarrow> (Store \<times> OrchestratorInput) list \<Rightarrow> PhaseTable \<Rightarrow> PhaseTable" where
  "run_calls env jc unmarshal calls tbl =
     fold (\<lambda>(store, input) t. snd (OrchestrateWithPhase env jc unmarshal store input t)) calls tbl"

definition stored_change :: "string \<Rightarrow> string \<Rightarrow> bool" where
  "stored_change p q \<longleftrightarrow> allowed_change (phase_of_string p) (phase_of_string q)"

lemma allowed_change_stored:
  assumes "allowed_change p q"
  shows "stored_change (string_of_phase p) (string_of_phase q)"
proof -
  have "effective_phase (phase_of_string (string_of_phase p)) = effective_phase p \<and> known_phase q"
    using assms by (cases p) (auto simp: allowed_change_def effective_phase_def phase_edges_def known_phase_def phase_of_string_def split: if_splits)
  with assms show ?thesis by (simp add: stored_change_def allowed_change_def phase_of_string_of_phase)
qed

lemma call_is_attempt:
  "\<exists>ws. snd (OrchestrateWithPhase env jc unmarshal store input tbl) = fold phase_cas.attempt ws tbl \<and>
     (\<forall>(k, old, new, v) \<in> set ws. stored_change old new)"
proof -
  let ?out = "OrchestrateWithPhase env jc unmarshal store input tbl"
  have "snd ?out = tbl \<or> (\<exists>(domain :: Domain) row entry settled. tbl (dID domain) = Some row \<and>
      stored_phase row = string_of_phase (dPhase domain) \<and>
      snd ?out = tbl(dID domain \<mapsto> phase_row settled entry (oiNow input)) \<and> allowed_change (dPhase domain) settled)"
  proof (cases "fst ?out")
    case (Inl e)
    then show ?thesis using call_writes[of env jc unmarshal store input tbl] by blast
  next
    case (Inr b)
    then obtain activity settled where "fst ?out = Inr (activity, settled)" by (cases b) simp
    then show ?thesis using call_writes[of env jc unmarshal store input tbl] by blast
  qed
  then consider "snd ?out = tbl" | domain row entry settled where "tbl (dID (domain :: Domain)) = Some row"
      "stored_phase row = string_of_phase (dPhase domain)"
      "snd ?out = tbl(dID domain \<mapsto> phase_row settled entry (oiNow input))" "allowed_change (dPhase domain) settled"
    by blast
  then show ?thesis
  proof cases
    case 1
    then show ?thesis by (intro exI[of _ "[]"]) simp
  next
    case 2
    let ?w = "(dID domain, string_of_phase (dPhase domain), string_of_phase settled, (entry, oiNow input))"
    have "phase_of_string (string_of_phase settled) = settled"
      using 2(4) by (intro phase_of_string_of_phase) (auto simp: allowed_change_def phase_edges_def known_phase_def)
    with 2 have "phase_cas.attempt ?w tbl = snd ?out"
      by (simp add: phase_cas.attempt_def CompareAndSwapDomainPhase_def)
    with allowed_change_stored[OF 2(4)] show ?thesis by (intro exI[of _ "[?w]"]) simp
  qed
qed

lemma run_calls_attempts:
  "\<exists>ws. run_calls env jc unmarshal calls tbl = fold phase_cas.attempt ws tbl \<and> (\<forall>(k, old, new, v) \<in> set ws. stored_change old new)"
proof (induction calls arbitrary: tbl)
  case Nil
  show ?case by (intro exI[of _ "[]"]) (simp add: run_calls_def)
next
  case (Cons call calls)
  obtain store input where call: "call = (store, input)" by (cases call)
  obtain ws where ws: "snd (OrchestrateWithPhase env jc unmarshal store input tbl) = fold phase_cas.attempt ws tbl"
    "\<forall>(k, old, new, v) \<in> set ws. stored_change old new" using call_is_attempt by blast
  obtain ws' where ws': "run_calls env jc unmarshal calls (fold phase_cas.attempt ws tbl) = fold phase_cas.attempt ws' (fold phase_cas.attempt ws tbl)"
    "\<forall>(k, old, new, v) \<in> set ws'. stored_change old new" using Cons.IH by blast
  have "run_calls env jc unmarshal (call # calls) tbl = fold phase_cas.attempt (ws @ ws') tbl"
    using ws(1) ws'(1) by (simp add: run_calls_def call)
  with ws(2) ws'(2) show ?case by (intro exI[of _ "ws @ ws'"]) auto
qed

text \<open>C6. Refinement under concurrency: however many orchestrator calls run, with fresh or stale
  snapshots and in any order of their writes, the stored phase of each domain follows the abstract
  phase machine (a missing phase counting as INSTRUCTION). No lost or crossed update can put a domain
  on a path the machine does not have.
\<close>

theorem concurrent_calls_refine_phase_machine:
  assumes "read_phase tbl d = Some p"
  shows "\<exists>q. read_phase (run_calls env jc unmarshal calls tbl) d = Some q \<and> stored_change\<^sup>*\<^sup>* p q"
proof -
  obtain ws where ws: "run_calls env jc unmarshal calls tbl = fold phase_cas.attempt ws tbl"
    "\<forall>(k, old, new, v) \<in> set ws. stored_change old new" using run_calls_attempts by blast
  from ws(2) have "stored_change old new" if "(k, old, new, v) \<in> set ws" for k old new v using that by fast
  from phase_cas.history_path[of ws stored_change, OF this assms] show ?thesis by (simp add: ws(1))
qed

theorem concurrent_calls_refine_phase_machine_witness:
  "read_phase (run_calls '''' example_codec (\<lambda>_. None) [(example_store, example_input), (example_store, example_input)] example_table) ''d''
     = Some ''INSTRUCTION'' \<and> stored_change\<^sup>*\<^sup>* ''DIAGNOSTIC'' ''INSTRUCTION''"
proof -
  obtain a where run: "OrchestrateWithPhase '''' example_codec (\<lambda>_. None) example_store example_input example_table =
     (Inr (a, PhaseInstruction), example_table(''d'' \<mapsto> phase_row PhaseInstruction 0 (1 + 46 * minute)))"
    using example_run by blast
  let ?t = "example_table(''d'' \<mapsto> phase_row PhaseInstruction 0 (1 + 46 * minute))"
  have dom: "stGetLearnerDomainByID example_store (oiLearnerID example_input) (oiDomainID example_input) = Inr example_domain_row"
    by (simp add: example_store_def example_input_def)
  have "snd (OrchestrateWithPhase '''' example_codec (\<lambda>_. None) example_store example_input ?t) = ?t"
    using call_writes[of "''''" example_codec "\<lambda>_. None" example_store example_input ?t]
    by (cases "fst (OrchestrateWithPhase '''' example_codec (\<lambda>_. None) example_store example_input ?t)")
       (auto simp: dom example_domain_row_def)
  then have "run_calls '''' example_codec (\<lambda>_. None) [(example_store, example_input), (example_store, example_input)] example_table = ?t"
    by (simp add: run_calls_def run)
  moreover have "read_phase ?t ''d'' = Some ''INSTRUCTION''" "read_phase example_table ''d'' = Some ''DIAGNOSTIC''"
    by (simp_all add: read_phase_def example_table_def)
  ultimately show ?thesis
    using concurrent_calls_refine_phase_machine[of example_table "''d''" "''DIAGNOSTIC''" "''''" example_codec "\<lambda>_. None"
        "[(example_store, example_input), (example_store, example_input)]"] by simp
qed

section \<open>Diagnostic integrity\<close>

text \<open>C10. The diagnosis cannot be skipped: a call that is not a review and starts from a domain in the
  DIAGNOSTIC phase returns another phase only when the attempt-linked diagnostic concepts of the domain
  reach the coverage target; an empty fringe never moves it on.
\<close>

theorem diagnosis_cannot_be_skipped:
  assumes "OrchestrateWithPhase env jc unmarshal store input tbl = (Inr (activity, settled), tbl')"
    and "stGetLearnerDomainByID store (oiLearnerID input) (oiDomainID input) = Inr domain"
    and "dPhase domain = PhaseDiagnostic" and "\<not> oiReviewOnly input" and "settled \<noteq> PhaseDiagnostic"
  shows "\<exists>pf. fetchPipelineFixtures jc unmarshal store domain input = Inr pf \<and>
     coverage_reached (buildObservables domain pf (oiConfig input) (oiNow input)) (oiConfig input) \<and> settled = PhaseInstruction"
proof -
  from assms(1) obtain domain' pf phase entry moved a entry' pending where
    d: "stGetLearnerDomainByID store (oiLearnerID input) (oiDomainID input) = Inr domain'"
    and pf: "fetchPipelineFixtures jc unmarshal store domain' input = Inr pf"
    and dec: "phase_decision domain' pf input = (phase, entry, moved)"
    and r: "pipeline_retries (\<lambda>p. runPipeline env store domain' pf p input) (oiReviewOnly input) moved (Suc 0) (phase, entry, moved)
       = Inr (a, settled, entry', pending)"
    by (rule Orchestrate_cases)
  have dom: "domain' = domain" using d assms(2) by simp
  let ?obs = "buildObservables domain pf (oiConfig input) (oiNow input)"
  have eff: "effective_phase (dPhase domain) = PhaseDiagnostic" by (simp add: effective_phase_def assms(3))
  have dec': "(phase, moved) = (if coverage_reached ?obs (oiConfig input) then (PhaseInstruction, True) else (PhaseDiagnostic, False))"
    using dec assms(4) unfolding phase_decision_def dom eff Let_def by (auto simp: evaluate_diagnostic_spec split: if_splits)
  have "settled = phase \<or> \<not> moved \<and> settled = noFringeFallbackPhase phase" using pipeline_retries_phase[OF r] by blast
  with dec' assms(5) have "coverage_reached ?obs (oiConfig input) \<and> settled = PhaseInstruction"
    by (auto split: if_splits)
  with pf dom show ?thesis by blast
qed

theorem diagnosis_cannot_be_skipped_witness:
  "\<exists>pf. fetchPipelineFixtures example_codec (\<lambda>_. None) example_store example_domain_row example_input = Inr pf \<and>
     coverage_reached (buildObservables example_domain_row pf NewDefaultPhaseConfig (1 + 46 * minute)) NewDefaultPhaseConfig"
proof -
  obtain activity where run: "OrchestrateWithPhase '''' example_codec (\<lambda>_. None) example_store example_input example_table =
     (Inr (activity, PhaseInstruction), example_table(''d'' \<mapsto> phase_row PhaseInstruction 0 (1 + 46 * minute)))"
    using example_run by blast
  have "stGetLearnerDomainByID example_store (oiLearnerID example_input) (oiDomainID example_input) = Inr example_domain_row"
    "dPhase example_domain_row = PhaseDiagnostic" "\<not> oiReviewOnly example_input"
    by (simp_all add: example_store_def example_input_def example_domain_row_def)
  from diagnosis_cannot_be_skipped[OF run this] show ?thesis by (auto simp: example_input_def)
qed

section \<open>What is served\<close>

lemma selectInstruction_scope:
  "sConcept (selectInstruction env states graph gr) = '''' \<or> sConcept (selectInstruction env states graph gr) \<in> set (ksConcepts graph)"
proof -
  let ?el = "filter (\<lambda>item. snd (resolveRelevance gr (fiConcept item))) (externalFringe env states graph)"
  have el: "fiConcept item \<in> set (ksConcepts graph)" if "item \<in> set ?el" for item
    using that by (auto simp: externalFringe_def fringe_loop_mem)
  obtain best score where "best_loop (instruction_score gr) ?el (None, NInf) = (best, score)" by fastforce
  then show ?thesis
    using el best_loop_in[of "instruction_score gr" ?el None NInf]
    by (cases best) (auto simp: selectInstruction_def no_fringe_def Let_def)
qed

lemma selectMaintenance_scope:
  assumes "ksConcepts graph \<noteq> []"
  shows "sConcept (selectMaintenance states graph gr now fl) = '''' \<or> sConcept (selectMaintenance states graph gr now fl) \<in> set (ksConcepts graph)"
proof -
  let ?el = "filter (\<lambda>cs. snd (resolveRelevance gr (csConcept cs))) (sort_key csConcept (maintenance_pool states graph fl))"
  have el: "csConcept cs \<in> set (ksConcepts graph)" if "cs \<in> set ?el" for cs
    using that assms by (auto simp: maintenance_pool_def in_domain_def)
  obtain best score where "best_loop (maintenance_score now gr) ?el (None, NInf) = (best, score)" by fastforce
  then show ?thesis
    using el best_loop_in[of "maintenance_score now gr" ?el None NInf]
    by (cases best) (auto simp: selectMaintenance_def no_fringe_def Let_def)
qed

lemma selectDiagnostic_scope:
  assumes "ksConcepts graph \<noteq> []"
  shows "sConcept (selectDiagnostic states graph dg) = '''' \<or> sConcept (selectDiagnostic states graph dg) \<in> set (ksConcepts graph)"
proof -
  let ?c = "sort_key csConcept (diagnostic_pool states graph)"
  let ?u = "filter (\<lambda>cs. \<not> dg (csConcept cs)) ?c"
  have el: "csConcept cs \<in> set (ksConcepts graph)" if "cs \<in> set ?c" for cs
    using that assms by (auto simp: diagnostic_pool_def in_domain_def)
  obtain b1 s1 where 1: "best_loop diagnostic_score ?u (None, NInf) = (b1, s1)" by fastforce
  obtain b2 s2 where 2: "best_loop diagnostic_score ?c (b1, s1) = (b2, s2)" by fastforce
  have b1: "csConcept cs \<in> set (ksConcepts graph)" if "b1 = Some cs" for cs
    using best_loop_in[of diagnostic_score ?u None NInf cs s1] 1 that el by auto
  have b2: "csConcept cs \<in> set (ksConcepts graph)" if "b2 = Some cs" for cs
    using best_loop_in[of diagnostic_score ?c b1 s1 cs s2] 2 that el b1 by auto
  show ?thesis
    using 1 2 b1 b2 by (cases b1; cases b2) (auto simp: selectDiagnostic_def no_fringe_def Let_def)
qed

lemma SelectReviewConceptAt_scope:
  "sConcept (SelectReviewConceptAt allowed states rows misc now) = '''' \<or> sConcept (SelectReviewConceptAt allowed states rows misc now) \<in> set allowed"
proof -
  let ?el = "filter (\<lambda>c. reviewableConcept (states c) (interaction_count rows c)) allowed"
  obtain best score where "best_loop (review_score states rows misc now) ?el (None, - 1.0) = (best, score)" by fastforce
  then show ?thesis
    using best_loop_in[of "review_score states rows misc now" ?el None "- 1.0"]
    by (cases best) (auto simp: SelectReviewConceptAt_def)
qed

lemma pipeline_selection_scope:
  assumes "pipeline_selection env domain pf phase input allowed = Inr s" and "allowed \<noteq> []"
  shows "sConcept s = '''' \<or> sConcept s \<in> set allowed"
proof (cases "oiReviewOnly input")
  case True
  then have "s = SelectReviewConceptAt allowed (pfStatesByConcept pf) (map Some (pfRecentInteractions pf)) (pfActiveMisc pf) (oiNow input)"
    using assms(1) by (simp add: pipeline_selection_def)
  then show ?thesis using SelectReviewConceptAt_scope by simp
next
  case False
  let ?g = "\<lparr>ksConcepts = allowed, ksPrerequisites = filterPrerequisites (ksPrerequisites (dGraph domain)) (set allowed)\<rparr>"
  have g: "ksConcepts ?g = allowed" by simp
  have "sConcept s = '''' \<or> sConcept s \<in> set (ksConcepts ?g)"
  proof (cases phase)
    case PhaseInstruction
    then have "s = selectInstruction env (map Some (pfStatesList pf)) ?g (pfGoalRelevance pf)"
      using assms(1) False by (simp add: pipeline_selection_def Let_def)
    then show ?thesis by (simp only: selectInstruction_scope)
  next
    case PhaseDiagnostic
    then have "s = selectDiagnostic (map Some (pfStatesList pf)) ?g (pfDiagnosedConcepts pf)"
      using assms(1) False by (simp add: pipeline_selection_def Let_def)
    then show ?thesis using assms(2) selectDiagnostic_scope[of ?g] g by metis
  next
    case PhaseMaintenance
    then have "\<exists>fl. s = selectMaintenance (map Some (pfStatesList pf)) ?g (pfGoalRelevance pf) (oiNow input) fl"
      using assms(1) False by (simp add: pipeline_selection_def Let_def) blast
    then show ?thesis using assms(2) selectMaintenance_scope[of ?g] g by metis
  next
    case (PhaseOther p)
    then show ?thesis using assms(1) False by (simp add: pipeline_selection_def Let_def)
  qed
  then show ?thesis by (simp only: g)
qed

lemma critical_loop_in:
  "critical_loop alerts (b, r) = (b', r') \<Longrightarrow>
     b' = b \<and> r' = r \<or> (\<exists>a \<in> set alerts. alType a = AlertForgetting \<and> alUrgency a = UrgencyCritical \<and> alConcept a = b' \<and> alRetention a = r')"
  by (induction alerts arbitrary: b r) (auto split: if_splits)

lemma recall_loop_in: "recall_loop gr states cfg now cs (b, r) = (b', r') \<Longrightarrow> b' = b \<or> b' \<in> set cs"
  by (induction cs arbitrary: b r) (auto simp: Let_def split: if_splits prod.splits)

definition alerts_in_scope :: "Domain \<Rightarrow> pipelineFixtures \<Rightarrow> bool" where
  "alerts_in_scope domain pf \<longleftrightarrow>
     (\<forall>a \<in> set (pfAlerts pf). alType a = AlertForgetting \<longrightarrow> alConcept a \<in> set (ksConcepts (dGraph domain)))"

lemma bypass_selection_scope:
  assumes "alerts_in_scope domain pf" and "bypass_selection domain pf phase input = Some s"
  shows "sConcept s \<in> set (ksConcepts (dGraph domain))"
proof -
  obtain cb cr where c: "critical_loop (pfAlerts pf) ('''', Fin 1) = (cb, cr)" by fastforce
  obtain rb rr where r: "recall_loop (pfGoalRelevance pf) (pfStatesByConcept pf) (oiConfig input) (oiNow input)
      (ksConcepts (dGraph domain)) ('''', cfgRetentionRecallThreshold (oiConfig input)) = (rb, rr)" by fastforce
  from critical_loop_in[OF c] assms(1) have "cb = '''' \<or> cb \<in> set (ksConcepts (dGraph domain))"
    by (auto simp: alerts_in_scope_def)
  with recall_loop_in[OF r] assms(2) show ?thesis
    by (auto simp: bypass_selection_def criticalForgettingBypassSelection_def recallNeedSelection_def c r split: if_splits option.splits)
qed

lemma gate_allows:
  assumes "ApplyGate env (gate_input domain pf phase input) = Inr g" and "gEscapeAction g = None" and "\<not> gNoCandidate g"
  shows "gAllowedConcepts g \<noteq> [] \<and> set (gAllowedConcepts g) \<subseteq> set (ksConcepts (dGraph domain))"
proof -
  let ?inp = "gate_input domain pf phase input"
  have known: "known_phase (giPhase ?inp)" using assms(1) ApplyGate_unknown[of ?inp env] by fastforce
  have no: "\<not> gate_overload ?inp" using assms ApplyGate_overload[OF known, of env] by fastforce
  from ApplyGate_pool[OF known no, of env] assms pool_empty_iff[of env ?inp] gate_pool_subset[of env ?inp]
  show ?thesis by (auto simp: gate_afterPrereq_def gate_input_def)
qed

lemma runPipeline_scope:
  assumes "alerts_in_scope domain pf" and "runPipeline env store domain pf phase input = Inr (Some a)"
  shows "acConcept a = '''' \<or> acConcept a \<in> set (ksConcepts (dGraph domain))"
  using assms
proof (induction env store domain pf phase input arbitrary: a rule: runPipeline.induct)
  case (1 env store domain pf phase input)
  obtain g where g: "ApplyGate env (gate_input domain pf phase input) = Inr g"
    using "1.prems"(2) by (subst (asm) runPipeline.simps) (auto split: sum.splits)
  show ?case
  proof (cases "gEscapeAction g")
    case (Some esc)
    with "1.prems"(2) g show ?thesis by (subst (asm) runPipeline.simps) (auto simp: composeEscapeActivity_def bare_activity_def)
  next
    case noesc: None
    show ?thesis
    proof (cases "bypass_selection domain pf phase input")
      case (Some s)
      with "1.prems"(2) g noesc have "acConcept a = sConcept s"
        by (subst (asm) runPipeline.simps) (auto simp: succeeds composeActivity_def)
      with bypass_selection_scope[OF "1.prems"(1) Some] show ?thesis by simp
    next
      case nobyp: None
      with "1.prems"(2) g noesc have cand: "\<not> gNoCandidate g" by (subst (asm) runPipeline.simps) auto
      with "1.prems"(2) g noesc nobyp obtain s where s: "pipeline_selection env domain pf phase input (gAllowedConcepts g) = Inr s"
        by (subst (asm) runPipeline.simps) (auto split: sum.splits)
      note al = gate_allows[OF g noesc cand]
      show ?thesis
      proof (cases "sNoFringe s")
        case True
        with "1.prems"(2) g noesc nobyp cand s obtain b where window: "cfgAntiRepeatWindow (oiConfig input) > 0"
          and b: "runPipeline env store domain pf phase (input\<lparr>oiConfig := (oiConfig input)\<lparr>cfgAntiRepeatWindow := 0\<rparr>\<rparr>) = Inr (Some b)"
          and "acConcept a = acConcept b"
          by (subst (asm) runPipeline.simps) (auto simp: succeeds split: if_splits)
        with "1.IH"[OF g noesc nobyp cand s True window "1.prems"(1) b] show ?thesis by simp
      next
        case False
        with "1.prems"(2) g noesc nobyp cand s have "acConcept a = sConcept s"
          by (subst (asm) runPipeline.simps) (auto simp: succeeds Let_def composeActivity_def)
        with pipeline_selection_scope[OF s] al show ?thesis by auto
      qed
    qed
  qed
qed

lemma forgetting_alert_scope:
  assumes "a \<in> set (ComputeAlertsWithEvidenceAt jc states rows ev start now)" and "alType a = AlertForgetting"
  shows "\<exists>cs \<in> set states. csConcept cs = alConcept a \<and> forgetting_alert now cs = Some a"
proof -
  have "a \<in> set (fst (state_alerts jc rows ev now {} states))"
    using assms by (auto simp: ComputeAlerts_parts plain_alert_def dest: drift_alert_type split: if_splits)
  from state_alerts_member[OF this] assms(2) obtain cs where "cs \<in> set states" "forgetting_alert now cs = Some a"
    by (auto simp: ready_alert_def plain_alert_def)
  with forgetting_alert_type[of now cs a] show ?thesis by (intro bexI[of _ cs]) simp_all
qed

lemma fixtures_in_scope:
  assumes "fetchPipelineFixtures jc unmarshal store domain input = Inr pf"
  shows "alerts_in_scope domain pf"
proof -
  from assms obtain states rows ev start now where
    "pfAlerts pf = ComputeAlertsWithEvidenceAt jc (filter (\<lambda>cs. csConcept cs \<in> set (ksConcepts (dGraph domain))) states) rows ev start now"
    unfolding fetchPipelineFixtures_def Let_def succeeds by auto
  then show ?thesis unfolding alerts_in_scope_def using forgetting_alert_scope by fastforce
qed

text \<open>C8. What is served stays in the domain: the activity of a successful call either names no concept
  (rest, or the end of an overlong session) or a concept of the graph of the requested domain, in
  every phase and on every route through the pipeline.
\<close>

theorem served_concept_in_domain:
  assumes "OrchestrateWithPhase env jc unmarshal store input tbl = (Inr (activity, settled), tbl')"
  shows "\<exists>domain. stGetLearnerDomainByID store (oiLearnerID input) (oiDomainID input) = Inr domain \<and>
     (acConcept activity = '''' \<or> acConcept activity \<in> set (ksConcepts (dGraph domain)))"
proof -
  from assms obtain domain pf phase entry moved a entry' pending where
    d: "stGetLearnerDomainByID store (oiLearnerID input) (oiDomainID input) = Inr domain"
    and pf: "fetchPipelineFixtures jc unmarshal store domain input = Inr pf"
    and r: "pipeline_retries (\<lambda>p. runPipeline env store domain pf p input) (oiReviewOnly input) moved (Suc 0) (phase, entry, moved)
       = Inr (a, settled, entry', pending)"
    and act: "activity = (case a of Some x \<Rightarrow> x | None \<Rightarrow> rest_activity (oiReviewOnly input))"
    by (rule Orchestrate_cases)
  have "acConcept activity = '''' \<or> acConcept activity \<in> set (ksConcepts (dGraph domain))"
  proof (cases a)
    case None
    then show ?thesis by (simp add: act rest_activity_def bare_activity_def)
  next
    case (Some x)
    with pipeline_retries_phase[OF r] have "runPipeline env store domain pf settled input = Inr (Some x)" by auto
    from runPipeline_scope[OF fixtures_in_scope[OF pf] this] Some show ?thesis by (simp add: act)
  qed
  with d show ?thesis by blast
qed

theorem served_concept_in_domain_witness:
  "\<exists>activity settled tbl'. OrchestrateWithPhase '''' example_codec (\<lambda>_. None) example_store example_input example_table =
     (Inr (activity, settled), tbl') \<and> acConcept activity \<in> {'''', ''a''}"
proof -
  obtain activity tbl' where run: "OrchestrateWithPhase '''' example_codec (\<lambda>_. None) example_store example_input example_table =
     (Inr (activity, PhaseInstruction), tbl')" using example_run by blast
  from served_concept_in_domain[OF run] run show ?thesis
    by (auto simp: example_store_def example_input_def example_domain_row_def)
qed

lemma critical_loop_min:
  assumes "critical_loop alerts (b, r) = (b', r')"
    and "\<forall>a \<in> set alerts. alType a = AlertForgetting \<and> alUrgency a = UrgencyCritical \<longrightarrow> alConcept a \<noteq> '''' \<and> is_fin (alRetention a)"
    and "b \<noteq> '''' \<longrightarrow> is_fin r"
  shows "(\<forall>a \<in> set alerts. alType a = AlertForgetting \<and> alUrgency a = UrgencyCritical \<longrightarrow> b' \<noteq> '''' \<and> r' \<le> alRetention a) \<and>
     (b \<noteq> '''' \<longrightarrow> b' \<noteq> '''' \<and> r' \<le> r)"
  using assms
proof (induction alerts arbitrary: b r)
  case Nil
  then show ?case by (auto simp: is_fin_iff)
next
  case (Cons a alerts)
  show ?case
  proof (cases "alType a = AlertForgetting \<and> alUrgency a = UrgencyCritical")
    case crit: True
    from crit Cons.prems(2) have a: "alConcept a \<noteq> ''''" "is_fin (alRetention a)" by auto
    show ?thesis
    proof (cases "b = '''' \<or> alRetention a < r")
      case True
      with crit Cons.prems(1) have "critical_loop alerts (alConcept a, alRetention a) = (b', r')" by auto
      from Cons.IH[OF this] Cons.prems(2) a True show ?thesis by (auto simp: f64_less_imp_le intro: f64_le_trans)
    next
      case False
      with crit Cons.prems(1) have "critical_loop alerts (b, r) = (b', r')" by auto
      moreover have "r \<le> alRetention a" using False a Cons.prems(3) by (auto simp: is_fin_iff not_less)
      ultimately show ?thesis using Cons.IH[of b r] Cons.prems(2,3) False by (auto intro: f64_le_trans)
    qed
  next
    case False
    with Cons.prems(1) have "critical_loop alerts (b, r) = (b', r')" by auto
    from Cons.IH[OF this] Cons.prems(2,3) False show ?thesis by auto
  qed
qed

lemma forgetting_alert_retention: "forgetting_alert now cs = Some a \<Longrightarrow> is_fin (alRetention a)"
  using CurrentRetrievability_unit[of now "csLastReview cs" "csStability cs"]
  by (auto simp: forgetting_alert_def plain_alert_def Let_def is_fin_iff elim!: unit_f64E split: if_splits)

lemma critical_bypass:
  assumes "fetchPipelineFixtures jc unmarshal store domain input = Inr pf"
    and "a \<in> set (pfAlerts pf)" "alType a = AlertForgetting" "alUrgency a = UrgencyCritical"
    and "'''' \<notin> set (ksConcepts (dGraph domain))"
  shows "\<exists>s b. criticalForgettingBypassSelection (pfAlerts pf) phase = Some s \<and> b \<in> set (pfAlerts pf) \<and>
     alType b = AlertForgetting \<and> alUrgency b = UrgencyCritical \<and> sConcept s = alConcept b \<and> alRetention b \<le> alRetention a"
proof -
  from assms(1) obtain states rows ev start now where
    al: "pfAlerts pf = ComputeAlertsWithEvidenceAt jc (filter (\<lambda>cs. csConcept cs \<in> set (ksConcepts (dGraph domain))) states) rows ev start now"
    unfolding fetchPipelineFixtures_def Let_def succeeds by auto
  have ok: "\<forall>a \<in> set (pfAlerts pf). alType a = AlertForgetting \<and> alUrgency a = UrgencyCritical \<longrightarrow>
      alConcept a \<noteq> '''' \<and> is_fin (alRetention a)"
  proof (intro ballI impI)
    fix a
    assume a: "a \<in> set (pfAlerts pf)" "alType a = AlertForgetting \<and> alUrgency a = UrgencyCritical"
    then obtain cs where "csConcept cs \<in> set (ksConcepts (dGraph domain))" "csConcept cs = alConcept a" "forgetting_alert now cs = Some a"
      using forgetting_alert_scope[of a, OF a(1)[unfolded al]] by auto
    with assms(5) forgetting_alert_retention show "alConcept a \<noteq> '''' \<and> is_fin (alRetention a)" by metis
  qed
  obtain b r where l: "critical_loop (pfAlerts pf) ('''', Fin 1) = (b, r)" by fastforce
  from critical_loop_min[OF l ok] assms(2-4) have b: "b \<noteq> ''''" "r \<le> alRetention a" by auto
  with critical_loop_in[OF l] show ?thesis by (auto simp: criticalForgettingBypassSelection_def l)
qed

lemma runPipeline_bypass:
  assumes "runPipeline env store domain pf phase input = Inr r" and "bypass_selection domain pf phase input = Some s"
    and "\<not> (\<exists>a \<in> set (pfAlerts pf). alType a = AlertOverload)"
  shows "\<exists>x. r = Some x \<and> acConcept x = sConcept s"
proof -
  let ?inp = "gate_input domain pf phase input"
  obtain g where g: "ApplyGate env ?inp = Inr g"
    using assms(1) by (subst (asm) runPipeline.simps) (auto split: sum.splits)
  have known: "known_phase (giPhase ?inp)" using g ApplyGate_unknown[of ?inp env] by fastforce
  have "\<not> gate_overload ?inp" using assms(3) by (simp add: gate_overload_def gate_input_def)
  from ApplyGate_pool[OF known this, of env] g have "gEscapeAction g = None" by auto
  with assms(1,2) g show ?thesis by (subst (asm) runPipeline.simps) (auto simp: succeeds composeActivity_def)
qed

text \<open>C9. Critical forgetting comes first: in a call that is not a review, does not end the session and
  settles outside DIAGNOSTIC, as soon as some concept of the domain is in critical forgetting the
  activity served is on a critically forgotten concept of lowest retention, whatever the
  prerequisites, the repetition window and the concept selector say.
\<close>

theorem critical_forgetting_first:
  assumes "OrchestrateWithPhase env jc unmarshal store input tbl = (Inr (activity, settled), tbl')"
    and "stGetLearnerDomainByID store (oiLearnerID input) (oiDomainID input) = Inr domain"
    and "fetchPipelineFixtures jc unmarshal store domain input = Inr pf"
    and "\<not> oiReviewOnly input" and "settled \<noteq> PhaseDiagnostic"
    and "\<not> (\<exists>a \<in> set (pfAlerts pf). alType a = AlertOverload)"
    and "'''' \<notin> set (ksConcepts (dGraph domain))"
    and "a \<in> set (pfAlerts pf)" and "alType a = AlertForgetting" and "alUrgency a = UrgencyCritical"
  shows "\<exists>b \<in> set (pfAlerts pf). alType b = AlertForgetting \<and> alUrgency b = UrgencyCritical \<and>
     acConcept activity = alConcept b \<and> alRetention b \<le> alRetention a"
proof -
  from assms(1) obtain domain' pf' phase entry moved r entry' pending where
    d: "stGetLearnerDomainByID store (oiLearnerID input) (oiDomainID input) = Inr domain'"
    and pf: "fetchPipelineFixtures jc unmarshal store domain' input = Inr pf'"
    and r: "pipeline_retries (\<lambda>p. runPipeline env store domain' pf' p input) (oiReviewOnly input) moved (Suc 0) (phase, entry, moved)
       = Inr (r, settled, entry', pending)"
    and act: "activity = (case r of Some x \<Rightarrow> x | None \<Rightarrow> rest_activity (oiReviewOnly input))"
    by (rule Orchestrate_cases)
  from d assms(2) have dom: "domain' = domain" by simp
  from pf assms(3) dom have pf': "pf' = pf" by simp
  obtain s b where s: "criticalForgettingBypassSelection (pfAlerts pf) settled = Some s"
    and b: "b \<in> set (pfAlerts pf)" "alType b = AlertForgetting" "alUrgency b = UrgencyCritical"
      "sConcept s = alConcept b" "alRetention b \<le> alRetention a"
    using critical_bypass[OF assms(3,8,9,10,7)] by blast
  have "bypass_selection domain pf settled input = Some s" using s assms(4,5) by (simp add: bypass_selection_def)
  moreover have "runPipeline env store domain pf settled input = Inr r" using pipeline_retries_phase[OF r] dom pf' by blast
  ultimately obtain x where "r = Some x" "acConcept x = sConcept s" using runPipeline_bypass assms(6) by blast
  with b act show ?thesis by auto
qed

definition forgetting_domain :: Domain where
  "forgetting_domain = example_domain_row\<lparr>dGraph := \<lparr>ksConcepts = [''c''], ksPrerequisites = Map.empty\<rparr>, dPhase := PhaseInstruction\<rparr>"

definition forgetting_store :: Store where
  "forgetting_store = example_store\<lparr>stGetLearnerDomainByID := (\<lambda>_ _. Inr forgetting_domain),
     stGetConceptStatesByDomain := (\<lambda>_ _. Inr [forgotten])\<rparr>"

definition forgetting_input :: OrchestratorInput where
  "forgetting_input = example_input\<lparr>oiNow := 1 + 400 * day, oiSessionStart := 1 + 400 * day\<rparr>"

lemma forgetting_fixtures:
  "\<exists>pf a. fetchPipelineFixtures example_codec (\<lambda>_. None) forgetting_store forgetting_domain forgetting_input = Inr pf \<and>
     a \<in> set (pfAlerts pf) \<and> alType a = AlertForgetting \<and> alUrgency a = UrgencyCritical \<and>
     \<not> (\<exists>a \<in> set (pfAlerts pf). alType a = AlertOverload) \<and> pfStatesByConcept pf = [''c'' \<mapsto> forgotten] \<and>
     pfActiveMisc pf = (\<lambda>_. False) \<and> pfGoalRelevance pf = None \<and> (\<forall>b \<in> set (pfAlerts pf). alType b = AlertForgetting \<longrightarrow> alConcept b = ''c'')"
proof -
  obtain a where a: "forgetting_alert (1 + 400 * day) forgotten = Some a" "alUrgency a = UrgencyCritical"
    using forgotten_critical by (auto simp: critical_state_def)
  have rev: "csCardState forgotten \<noteq> New" and c: "csConcept forgotten = ''c''" by (simp_all add: forgotten_def)
  let ?ev = "ForMasteryAlerts (Some \<lparr>esLearnerID = ''l'', esDomainID = ''d'', esTransfersByConcept = \<lambda>_. [],
      esAssessmentsByConcept = \<lambda>_. [], esConcepts = {''c''}\<rparr>) [Some forgotten]"
  define alerts where "alerts = ComputeAlertsWithEvidenceAt example_codec [forgotten] [] ?ev (1 + 400 * day) (1 + 400 * day)"
  have alerts: "alerts = fst (state_alerts example_codec [] ?ev (1 + 400 * day) {} [forgotten])"
    unfolding alerts_def ComputeAlerts_parts by (simp add: drift_alerts_def fail_streaks_def t_sub_def time_defs)
  have "a \<in> set alerts" unfolding alerts state_alerts_Cons[OF rev] by (simp add: Let_def a)
  moreover have "alType b \<noteq> AlertOverload" if "b \<in> set alerts" for b
    using state_alerts_member[OF that[unfolded alerts]] by (auto simp: ready_alert_def plain_alert_def dest: forgetting_alert_type)
  moreover have "\<exists>pf. fetchPipelineFixtures example_codec (\<lambda>_. None) forgetting_store forgetting_domain forgetting_input = Inr pf \<and>
      pfAlerts pf = alerts \<and> pfStatesByConcept pf = [''c'' \<mapsto> forgotten] \<and> pfActiveMisc pf = (\<lambda>_. False) \<and> pfGoalRelevance pf = None"
    unfolding alerts_def fetchPipelineFixtures_def
    by (simp add: wrap_def forgetting_store_def forgetting_input_def forgetting_domain_def example_store_def example_input_def
        example_domain_row_def isZero_def ensureEvidenceSnapshot_def LoadEvidenceSnapshot_def uniqueEvidenceConcepts_def c
        index_by_def Let_def time_defs EffectiveGoalRelevance_def ParseGoalRelevance_def)
  moreover have "alConcept b = ''c''" if "b \<in> set alerts" "alType b = AlertForgetting" for b
    using forgetting_alert_scope[of b, OF that(1)[unfolded alerts_def] that(2)] c by auto
  ultimately show ?thesis using a forgetting_alert_type[OF a(1)] by blast
qed

lemma forgetting_run:
  "\<exists>activity. OrchestrateWithPhase '''' example_codec (\<lambda>_. None) forgetting_store forgetting_input Map.empty =
     (Inr (activity, PhaseInstruction), Map.empty)"
proof -
  obtain pf a where pf: "fetchPipelineFixtures example_codec (\<lambda>_. None) forgetting_store forgetting_domain forgetting_input = Inr pf"
    "a \<in> set (pfAlerts pf)" "alType a = AlertForgetting" "alUrgency a = UrgencyCritical"
    "\<not> (\<exists>a \<in> set (pfAlerts pf). alType a = AlertOverload)" "pfStatesByConcept pf = [''c'' \<mapsto> forgotten]"
    "pfActiveMisc pf = (\<lambda>_. False)" "pfGoalRelevance pf = None"
    using forgetting_fixtures by blast
  have dom: "stGetLearnerDomainByID forgetting_store (oiLearnerID forgetting_input) (oiDomainID forgetting_input) = Inr forgetting_domain"
    by (simp add: forgetting_store_def)
  have dec: "phase_decision forgetting_domain pf forgetting_input = (PhaseInstruction, 0, False)"
    by (simp add: phase_decision_def Let_def effective_phase_def forgetting_domain_def forgetting_input_def example_input_def
        buildObservables_def goal_relevant_def pf(6,8) NewDefaultPhaseConfig_def forgotten_def NewConceptStateInDomain_def MasteryBKT_def)
  let ?inp = "gate_input forgetting_domain pf PhaseInstruction forgetting_input"
  obtain s where s: "criticalForgettingBypassSelection (pfAlerts pf) PhaseInstruction = Some s"
    using critical_bypass[OF pf(1-4)] by (auto simp: forgetting_domain_def)
  then have "bypass_selection forgetting_domain pf PhaseInstruction forgetting_input = Some s"
    by (simp add: bypass_selection_def forgetting_input_def example_input_def)
  moreover have "\<exists>g. ApplyGate '''' ?inp = Inr g \<and> gEscapeAction g = None"
    using ApplyGate_pool[of ?inp "''''"] pf(5) by (auto simp: gate_input_def known_phase_def gate_overload_def)
  moreover have "\<exists>x. selectActionForSelection forgetting_store pf s PhaseInstruction forgetting_input = Inr x"
    by (simp add: selectActionForSelection_def pf(7) wrap_def forgetting_store_def example_store_def Let_def)
  ultimately obtain x where "runPipeline '''' forgetting_store forgetting_domain pf PhaseInstruction forgetting_input = Inr (Some x)"
    by (auto simp: runPipeline.simps)
  then show ?thesis
    unfolding OrchestrateWithPhase_def dom sum.case pf(1) dec prod.case
    by (simp add: orchestratorMaxRetries_def persistSettledPhase_def)
qed

theorem critical_forgetting_first_witness:
  "\<exists>activity. OrchestrateWithPhase '''' example_codec (\<lambda>_. None) forgetting_store forgetting_input Map.empty =
     (Inr (activity, PhaseInstruction), Map.empty) \<and> acConcept activity = ''c''"
proof -
  obtain pf a where pf: "fetchPipelineFixtures example_codec (\<lambda>_. None) forgetting_store forgetting_domain forgetting_input = Inr pf"
    "a \<in> set (pfAlerts pf)" "alType a = AlertForgetting" "alUrgency a = UrgencyCritical"
    "\<not> (\<exists>a \<in> set (pfAlerts pf). alType a = AlertOverload)"
    "\<forall>b \<in> set (pfAlerts pf). alType b = AlertForgetting \<longrightarrow> alConcept b = ''c''"
    using forgetting_fixtures by blast
  obtain activity where run: "OrchestrateWithPhase '''' example_codec (\<lambda>_. None) forgetting_store forgetting_input Map.empty =
     (Inr (activity, PhaseInstruction), Map.empty)"
    using forgetting_run by blast
  have "stGetLearnerDomainByID forgetting_store (oiLearnerID forgetting_input) (oiDomainID forgetting_input) = Inr forgetting_domain"
    by (simp add: forgetting_store_def)
  moreover have "\<not> oiReviewOnly forgetting_input" "'''' \<notin> set (ksConcepts (dGraph forgetting_domain))"
    by (simp_all add: forgetting_input_def example_input_def forgetting_domain_def)
  ultimately have "acConcept activity = ''c''"
    using critical_forgetting_first[OF run _ pf(1) _ _ pf(5) _ pf(2-4)] pf(6) by auto
  with run show ?thesis by blast
qed

end
