(* ===== verification/Transactions.thy ===== *)
theory Transactions
  imports Rubric
begin

text \<open>
  Store operations in a transaction (\<open>db/store.go\<close>, \<open>WithTx\<close> and \<open>inTx\<close>). An operation maps the
  store to a result and a store: a Go error is \<open>Inl\<close> and keeps the writes made before it, because an
  operation that runs inside a caller's transaction does not undo them; only the boundary that opened
  the transaction, or a savepoint, does. \<open>wp m R E s\<close> says that \<open>m\<close> started in \<open>s\<close> establishes \<open>R\<close> when
  it returns and \<open>E\<close> when it fails; its equations, collected in \<open>wp_simps\<close>, run an operation
  symbolically.
\<close>

section \<open>Errors and operations\<close>

datatype goerr =
    ErrText message | ErrWrap string goerr | ErrNoRows | ErrNotFound | ErrDriver string
  | ErrAssessmentStateConflict | ErrLearningEventExists | ErrLearningSessionClosed | ErrRubric rubric_error
  | ErrInvalidPrincipal | ErrInvalidOAuthScope | ErrInvalidAuthCode | ErrInvalidRefreshToken | ErrRefreshTokenReuse
  | ErrOAuthClientLimitReached | ErrIdempotencyKeyConflict | ErrIdempotencyInProgress | ErrIdempotencyResponseExpired

abbreviation err :: "string \<Rightarrow> goerr" where
  "err t \<equiv> ErrText [S t]"

text \<open>\<open>errors.Is\<close>: the error or one it wraps.\<close>

fun errors_is :: "goerr \<Rightarrow> goerr \<Rightarrow> bool" where
  "errors_is (ErrWrap w e) t \<longleftrightarrow> ErrWrap w e = t \<or> errors_is e t"
| "errors_is e t \<longleftrightarrow> e = t"

type_synonym ('s, 'a) tx = "'s \<Rightarrow> (goerr + 'a) \<times> 's"

definition returns :: "'a \<Rightarrow> ('s, 'a) tx" where
  "returns x = (\<lambda>s. (Inr x, s))"

definition fails :: "goerr \<Rightarrow> ('s, 'a) tx" where
  "fails e = (\<lambda>s. (Inl e, s))"

definition bind_tx :: "('s, 'a) tx \<Rightarrow> ('a \<Rightarrow> ('s, 'b) tx) \<Rightarrow> ('s, 'b) tx" where
  "bind_tx m f = (\<lambda>s. case m s of (Inl e, s') \<Rightarrow> (Inl e, s') | (Inr x, s') \<Rightarrow> f x s')"

definition lift_tx :: "goerr + 'a \<Rightarrow> ('s, 'a) tx" where
  "lift_tx r = (\<lambda>s. (r, s))"

definition reads :: "('s \<Rightarrow> goerr + 'a) \<Rightarrow> ('s, 'a) tx" where
  "reads f = (\<lambda>s. (f s, s))"

definition writes :: "('s \<Rightarrow> 's) \<Rightarrow> ('s, unit) tx" where
  "writes g = (\<lambda>s. (Inr (), g s))"

definition guard_tx :: "bool \<Rightarrow> goerr \<Rightarrow> ('s, unit) tx" where
  "guard_tx b e = (if b then returns () else fails e)"

text \<open>\<open>fmt.Errorf("w: %w", err)\<close> around the error of an operation.\<close>

definition wrap_tx :: "string \<Rightarrow> ('s, 'a) tx \<Rightarrow> ('s, 'a) tx" where
  "wrap_tx w m = (\<lambda>s. case m s of (Inl e, s') \<Rightarrow> (Inl (ErrWrap w e), s') | (Inr x, s') \<Rightarrow> (Inr x, s'))"

text \<open>\<open>errors.Is(err, t)\<close> handled by the caller, every other error returned.\<close>

definition catch_tx :: "('s, 'a) tx \<Rightarrow> goerr \<Rightarrow> ('s, 'a) tx \<Rightarrow> ('s, 'a) tx" where
  "catch_tx m t h = (\<lambda>s. case m s of (Inl e, s') \<Rightarrow> (if errors_is e t then h s' else (Inl e, s')) | r \<Rightarrow> r)"

text \<open>A savepoint, or a transaction that this call opened: an error undoes the writes.\<close>

definition atomic :: "('s, 'a) tx \<Rightarrow> ('s, 'a) tx" where
  "atomic m = (\<lambda>s. case m s of (Inl e, s') \<Rightarrow> (Inl e, s) | r \<Rightarrow> r)"

text \<open>
  A database statement fails for reasons of its own: \<open>drFails\<close> says which labelled statement does.
  \<open>drOwned\<close> says whether the call opens its transaction (the store has a root and the context carries
  no tenant transaction); \<open>drNow\<close> is \<open>time.Now().UTC()\<close>.
\<close>

record Driver =
  drPostgres :: bool
  drOwned :: bool
  drFails :: "string \<Rightarrow> bool"
  drNow :: time

definition sql :: "Driver \<Rightarrow> string \<Rightarrow> ('s, unit) tx" where
  "sql dr statement = guard_tx (\<not> drFails dr statement) (ErrDriver statement)"

definition inTx :: "Driver \<Rightarrow> ('s, 'a) tx \<Rightarrow> ('s, 'a) tx" where
  "inTx dr fn =
     (if \<not> drOwned dr then fn
      else atomic (bind_tx (sql dr ''begin'') (\<lambda>_. bind_tx fn (\<lambda>x. bind_tx (sql dr ''commit'') (\<lambda>_. returns x)))))"

text \<open>The store a transaction body sees: its root is nil, so nested transactions join it.\<close>

definition nested :: "Driver \<Rightarrow> Driver" where
  "nested dr = dr\<lparr>drOwned := False\<rparr>"

section \<open>Weakest preconditions\<close>

named_theorems wp_simps \<open>running an operation symbolically\<close>

definition wp :: "('s, 'a) tx \<Rightarrow> ('a \<Rightarrow> 's \<Rightarrow> bool) \<Rightarrow> (goerr \<Rightarrow> 's \<Rightarrow> bool) \<Rightarrow> 's \<Rightarrow> bool" where
  "wp m R E s = (case m s of (Inl e, s') \<Rightarrow> E e s' | (Inr x, s') \<Rightarrow> R x s')"

lemma wp_returns [wp_simps]: "wp (returns x) R E = (\<lambda>s. R x s)"
  by (simp add: fun_eq_iff wp_def returns_def)

lemma wp_fails [wp_simps]: "wp (fails e) R E = (\<lambda>s. E e s)"
  by (simp add: fun_eq_iff wp_def fails_def)

lemma wp_bind [wp_simps]: "wp (bind_tx m f) R E = wp m (\<lambda>x. wp (f x) R E) E"
  by (simp add: fun_eq_iff wp_def bind_tx_def split: prod.splits sum.splits)

lemma wp_lift [wp_simps]: "wp (lift_tx r) R E = (\<lambda>s. case r of Inl e \<Rightarrow> E e s | Inr x \<Rightarrow> R x s)"
  by (simp add: fun_eq_iff wp_def lift_tx_def)

lemma wp_reads [wp_simps]: "wp (reads f) R E = (\<lambda>s. case f s of Inl e \<Rightarrow> E e s | Inr x \<Rightarrow> R x s)"
  by (simp add: fun_eq_iff wp_def reads_def)

lemma wp_writes [wp_simps]: "wp (writes g) R E = (\<lambda>s. R () (g s))"
  by (simp add: fun_eq_iff wp_def writes_def)

lemma wp_guard [wp_simps]: "wp (guard_tx b e) R E = (\<lambda>s. if b then R () s else E e s)"
  by (simp add: fun_eq_iff wp_def guard_tx_def returns_def fails_def)

lemma wp_sql [wp_simps]: "wp (sql dr l) R E = (\<lambda>s. if drFails dr l then E (ErrDriver l) s else R () s)"
  by (simp add: fun_eq_iff sql_def wp_guard)

lemma wp_wrap [wp_simps]: "wp (wrap_tx w m) R E = wp m R (\<lambda>e. E (ErrWrap w e))"
  by (simp add: fun_eq_iff wp_def wrap_tx_def split: prod.splits sum.splits)

lemma wp_catch [wp_simps]:
  "wp (catch_tx m t h) R E = wp m R (\<lambda>e s'. if errors_is e t then wp h R E s' else E e s')"
  by (simp add: fun_eq_iff wp_def catch_tx_def split: prod.splits sum.splits)

lemma wp_atomic [wp_simps]: "wp (atomic m) R E = (\<lambda>s. wp m R (\<lambda>e _. E e s) s)"
  by (simp add: fun_eq_iff wp_def atomic_def split: prod.splits sum.splits)

lemma wp_if [wp_simps]: "wp (if b then m else n) R E = (\<lambda>s. if b then wp m R E s else wp n R E s)"
  by simp

lemma wp_case_option [wp_simps]:
  "wp (case v of None \<Rightarrow> m | Some x \<Rightarrow> f x) R E = (\<lambda>s. case v of None \<Rightarrow> wp m R E s | Some x \<Rightarrow> wp (f x) R E s)"
  by (simp split: option.splits)

lemma wp_case_prod [wp_simps]:
  "wp (case p of (x, y) \<Rightarrow> f x y) R E = (\<lambda>s. case p of (x, y) \<Rightarrow> wp (f x y) R E s)"
  by (simp split: prod.splits)

lemma wp_let [wp_simps]: "wp (Let v f) R E = (\<lambda>s. let x = v in wp (f x) R E s)"
  by simp

lemma wp_inTx [wp_simps]:
  "wp (inTx dr m) R E =
     (\<lambda>s. if \<not> drOwned dr then wp m R E s
          else if drFails dr ''begin'' then E (ErrDriver ''begin'') s
          else wp m (\<lambda>x s'. if drFails dr ''commit'' then E (ErrDriver ''commit'') s else R x s') (\<lambda>e _. E e s) s)"
  by (simp add: fun_eq_iff inTx_def wp_simps)

lemma wp_mono:
  assumes "wp m R E s" and "\<And>x s'. R x s' \<Longrightarrow> R' x s'" and "\<And>e s'. E e s' \<Longrightarrow> E' e s'"
  shows "wp m R' E' s"
  using assms by (auto simp: wp_def split: prod.splits sum.splits)

lemma wp_inTxI:
  assumes "wp m R (\<lambda>_. P) s" and "P s"
  shows "wp (inTx dr m) R (\<lambda>_. P) s"
proof (cases "drOwned dr \<and> \<not> drFails dr ''begin''")
  case True
  have "wp m (\<lambda>x s'. if drFails dr ''commit'' then P s else R x s') (\<lambda>_ _. P s) s"
    by (rule wp_mono[OF assms(1)]) (simp_all add: assms(2))
  with True show ?thesis by (simp add: wp_inTx)
next
  case False
  then show ?thesis using assms by (auto simp: wp_inTx)
qed

lemma wp_conj: "wp m R E s \<Longrightarrow> wp m R' E' s \<Longrightarrow> wp m (\<lambda>x s'. R x s' \<and> R' x s') (\<lambda>e s'. E e s' \<and> E' e s') s"
  by (auto simp: wp_def split: prod.splits sum.splits)

lemma wp_run: "wp m (\<lambda>x s'. m s = (Inr x, s')) (\<lambda>e s'. m s = (Inl e, s')) s"
  by (auto simp: wp_def split: prod.splits sum.splits)

lemma wp_Inr: "wp m R E s \<Longrightarrow> m s = (Inr x, s') \<Longrightarrow> R x s'"
  by (simp add: wp_def)

lemma wp_Inl: "wp m R E s \<Longrightarrow> m s = (Inl e, s') \<Longrightarrow> E e s'"
  by (simp add: wp_def)

lemma wp_iff: "wp m R E s \<longleftrightarrow> (\<forall>x s'. m s = (Inr x, s') \<longrightarrow> R x s') \<and> (\<forall>e s'. m s = (Inl e, s') \<longrightarrow> E e s')"
  by (auto simp: wp_def split: prod.splits sum.splits)

section \<open>Operations that change nothing\<close>

text \<open>A read: it leaves the store as it was, whatever its result.\<close>

definition pure_tx :: "('s, 'a) tx \<Rightarrow> bool" where
  "pure_tx m \<longleftrightarrow> (\<forall>s. snd (m s) = s)"

lemma pure_wp: "pure_tx m \<Longrightarrow> wp m R E s = (case fst (m s) of Inl e \<Rightarrow> E e s | Inr x \<Rightarrow> R x s)"
  by (auto simp: pure_tx_def wp_def split: prod.splits sum.splits) (metis snd_conv)+

lemma wp_pureI:
  assumes "pure_tx m" and "\<And>x. R x s" and "\<And>e. E e s"
  shows "wp m R E s"
  using assms by (simp add: pure_wp split: sum.split)

lemma pure_basic [intro!, simp]:
  "pure_tx (returns x)" "pure_tx (fails e)" "pure_tx (lift_tx r)" "pure_tx (reads f)" "pure_tx (guard_tx b e)"
  "pure_tx (sql dr l)"
  by (auto simp: pure_tx_def returns_def fails_def lift_tx_def reads_def guard_tx_def sql_def)

lemma pure_bind [intro]: "pure_tx m \<Longrightarrow> (\<And>x. pure_tx (f x)) \<Longrightarrow> pure_tx (bind_tx m f)"
  by (simp add: pure_tx_def bind_tx_def split: prod.splits sum.splits) (metis snd_conv)

lemma pure_wrap [intro]: "pure_tx m \<Longrightarrow> pure_tx (wrap_tx w m)"
  by (simp add: pure_tx_def wrap_tx_def split: prod.splits sum.splits) (metis snd_conv)

lemma pure_case_prod [intro]: "(\<And>x y. pure_tx (f x y)) \<Longrightarrow> pure_tx (case p of (x, y) \<Rightarrow> f x y)"
  by (cases p) simp

lemma pure_case_option [intro]: "pure_tx m \<Longrightarrow> (\<And>x. pure_tx (f x)) \<Longrightarrow> pure_tx (case v of None \<Rightarrow> m | Some x \<Rightarrow> f x)"
  by (cases v) simp_all

lemma pure_if [intro]: "pure_tx m \<Longrightarrow> pure_tx n \<Longrightarrow> pure_tx (if b then m else n)"
  by simp

section \<open>Relations between the store before and after\<close>

text \<open>What an operation does to the store whether it returns or fails. A relation that is reflexive and transitive is
  established for an operation from its parts.\<close>

definition related :: "('s \<Rightarrow> 's \<Rightarrow> bool) \<Rightarrow> ('s, 'a) tx \<Rightarrow> bool" where
  "related rel m \<longleftrightarrow> (\<forall>s. rel s (snd (m s)))"

lemma related_wp: "related rel m \<longleftrightarrow> (\<forall>s. wp m (\<lambda>_. rel s) (\<lambda>_. rel s) s)"
  by (simp add: related_def wp_def split: prod.splits sum.splits) (metis snd_conv sum.exhaust surj_pair)

lemma relatedD: "related rel m \<Longrightarrow> rel s (snd (m s))"
  by (simp add: related_def)

lemma related_run: "related rel m \<Longrightarrow> m s = (r, s') \<Longrightarrow> rel s s'"
  using relatedD[of rel m s] by simp

lemma related_raw: "(\<And>s. rel s (snd (f s))) \<Longrightarrow> related rel f"
  by (simp add: related_def)

lemma related_weaken: "related rel m \<Longrightarrow> (\<And>s s'. rel s s' \<Longrightarrow> rel' s s') \<Longrightarrow> related rel' m"
  by (simp add: related_def)

lemma related_seq:
  assumes "related A m" and "\<And>x. related B (f x)"
    and "\<And>s t u. A s t \<Longrightarrow> B t u \<Longrightarrow> C s u" and "\<And>s t. A s t \<Longrightarrow> C s t"
  shows "related C (bind_tx m f)"
  unfolding related_def
proof
  fix s
  obtain r t where m: "m s = (r, t)" by fastforce
  have A: "A s t" using relatedD[OF assms(1), of s] m by simp
  show "C s (snd (bind_tx m f s))"
  proof (cases r)
    case (Inl e)
    then show ?thesis using assms(4)[OF A] by (simp add: bind_tx_def m)
  next
    case (Inr x)
    then show ?thesis using assms(3)[OF A relatedD[OF assms(2)]] by (simp add: bind_tx_def m)
  qed
qed

lemma related_imp_wrap: "related rel m \<Longrightarrow> related rel (wrap_tx w m)"
  unfolding related_def wrap_tx_def by (auto split: prod.splits sum.splits) (metis snd_conv)+

lemma related_case_prod: "(\<And>x y. related rel (f x y)) \<Longrightarrow> related rel (case p of (x, y) \<Rightarrow> f x y)"
  by (cases p) simp

locale store_relation =
  fixes rel :: "'s \<Rightarrow> 's \<Rightarrow> bool"
  assumes rel_refl: "rel s s"
    and rel_trans: "rel s t \<Longrightarrow> rel t u \<Longrightarrow> rel s u"
begin

lemma pure: "pure_tx m \<Longrightarrow> related rel m"
  by (simp add: related_def pure_tx_def rel_refl)

lemma bind: "related rel m \<Longrightarrow> (\<And>x. related rel (f x)) \<Longrightarrow> related rel (bind_tx m f)"
  unfolding related_def bind_tx_def by (auto split: prod.splits sum.splits intro: rel_trans) (metis rel_trans snd_conv)+

lemma wrap: "related rel m \<Longrightarrow> related rel (wrap_tx w m)"
  unfolding related_def wrap_tx_def by (auto split: prod.splits sum.splits) (metis snd_conv)+

lemma catch: "related rel m \<Longrightarrow> related rel h \<Longrightarrow> related rel (catch_tx m t h)"
  unfolding related_def catch_tx_def by (auto split: prod.splits sum.splits intro: rel_trans) (metis rel_trans snd_conv)+

lemma atomically: "related rel m \<Longrightarrow> related rel (atomic m)"
  unfolding related_def atomic_def by (auto split: prod.splits sum.splits simp: rel_refl) (metis snd_conv)

lemma conditional: "related rel m \<Longrightarrow> related rel n \<Longrightarrow> related rel (if b then m else n)"
  by simp

lemma optional: "related rel m \<Longrightarrow> (\<And>x. related rel (f x)) \<Longrightarrow> related rel (case v of None \<Rightarrow> m | Some x \<Rightarrow> f x)"
  by (cases v) simp_all

lemma pair: "(\<And>x y. related rel (f x y)) \<Longrightarrow> related rel (case p of (x, y) \<Rightarrow> f x y)"
  by (cases p) simp

lemma update: "(\<And>s. rel s (g s)) \<Longrightarrow> related rel (writes g)"
  by (simp add: related_def writes_def)

lemma binding: "(\<And>x. related rel (f x)) \<Longrightarrow> related rel (Let v f)"
  by simp

lemma transaction: "related rel m \<Longrightarrow> related rel (inTx dr m)"
  unfolding inTx_def by (intro conditional atomically bind) (simp_all add: pure)

lemmas rules = bind wrap catch conditional optional pair binding transaction pure_basic[THEN pure]

end

text \<open>Agreement on a part of the store.\<close>

interpretation same: store_relation "\<lambda>s s'. p s' = p s" for p
  by unfold_locales auto

end
