(* ===== verification/Collective.thy ===== *)
theory Collective
  imports Models Transactions "HOL-Library.Product_Lexorder" "HOL-Library.AList"
begin

text \<open>
  Collective BKT weights (\<open>db/collective_weights.go\<close>, with \<open>medianOf\<close> of \<open>db/statistics.go\<close>,
  \<open>sameCalibrationSource\<close> of \<open>db/bkt_calibration.go\<close> and the policy constants of
  \<open>models/collective_weights.go\<close>): an institution publishes immutable versions of a concept's parameters
  from the medians of its learners' independent estimates, and a learner's parameters move towards the
  current version at most once per version.

  The rows a query selects are arguments: the candidate estimates that pass the filters of the publishing
  query, the calibration evidence recomputed for each of them, and the institutional scope of a state. The
  two tables that are written are in \<open>CollectiveStore\<close>. A Go map that is ranged over is an association
  list; the order only decides in which order the versions of different concepts are inserted.
\<close>

section \<open>Policy\<close>

definition CollectiveWeightsPolicyVersion :: string where
  "CollectiveWeightsPolicyVersion = ''institution-collective-weights-v2''"

definition CollectiveWeightMinContributors :: int where "CollectiveWeightMinContributors = 30"
definition CollectiveWeightMinChange :: f64 where "CollectiveWeightMinChange = 0.01"
definition CollectiveWeightMaxStep :: f64 where "CollectiveWeightMaxStep = 0.02"
definition CollectiveBlendFactor :: f64 where "CollectiveBlendFactor = 0.25"
definition CollectiveBlendMaxStep :: f64 where "CollectiveBlendMaxStep = 0.05"
definition CollectiveParamMin :: f64 where "CollectiveParamMin = 0.01"
definition CollectiveParamMax :: f64 where "CollectiveParamMax = 0.5"

lemmas collective_defs = CollectiveWeightMinChange_def CollectiveWeightMaxStep_def CollectiveBlendFactor_def
  CollectiveBlendMaxStep_def CollectiveParamMin_def CollectiveParamMax_def

section \<open>Parameters\<close>

definition clampParam :: "f64 \<Rightarrow> f64" where
  "clampParam v = fmin CollectiveParamMax (fmax CollectiveParamMin v)"

definition stepToward :: "f64 \<Rightarrow> f64 \<Rightarrow> f64 \<Rightarrow> f64" where
  "stepToward from to maxStep = from + fmax (- maxStep) (fmin maxStep (to - from))"

definition map_params :: "(f64 \<Rightarrow> f64) \<Rightarrow> BKTParams \<Rightarrow> BKTParams" where
  "map_params f p = \<lparr>rpPLearn = f (rpPLearn p), rpPForget = f (rpPForget p), rpPSlip = f (rpPSlip p), rpPGuess = f (rpPGuess p)\<rparr>"

definition map2_params :: "(f64 \<Rightarrow> f64 \<Rightarrow> f64) \<Rightarrow> BKTParams \<Rightarrow> BKTParams \<Rightarrow> BKTParams" where
  "map2_params f p q = \<lparr>rpPLearn = f (rpPLearn p) (rpPLearn q), rpPForget = f (rpPForget p) (rpPForget q),
     rpPSlip = f (rpPSlip p) (rpPSlip q), rpPGuess = f (rpPGuess p) (rpPGuess q)\<rparr>"

definition nextCollectiveParams :: "BKTParams \<Rightarrow> BKTParams option \<Rightarrow> BKTParams \<times> bool" where
  "nextCollectiveParams median current =
     (let target = map_params clampParam median in
      case current of
        None \<Rightarrow> (target, True)
      | Some cur \<Rightarrow>
          let moved = fabs (rpPLearn target - rpPLearn cur) \<ge> CollectiveWeightMinChange \<or>
                      fabs (rpPForget target - rpPForget cur) \<ge> CollectiveWeightMinChange \<or>
                      fabs (rpPSlip target - rpPSlip cur) \<ge> CollectiveWeightMinChange \<or>
                      fabs (rpPGuess target - rpPGuess cur) \<ge> CollectiveWeightMinChange in
          if \<not> moved then (cur, False)
          else (map2_params (\<lambda>c t. clampParam (stepToward c t CollectiveWeightMaxStep)) cur target, True))"

definition applyCollectiveWeight :: "BKTParams \<Rightarrow> BKTParams \<Rightarrow> bool \<Rightarrow> BKTParams" where
  "applyCollectiveWeight state weight prior =
     (if prior then map_params clampParam weight
      else map2_params (\<lambda>from to. clampParam (stepToward from (from + CollectiveBlendFactor * (to - from)) CollectiveBlendMaxStep))
             state weight)"

text \<open>\<open>slices.Sort\<close> on floats: a NaN comes before every number.\<close>

fun f_key :: "f64 \<Rightarrow> nat \<times> real" where
  "f_key NaN = (0, 0)"
| "f_key NInf = (1, 0)"
| "f_key (Fin x) = (2, x)"
| "f_key PInf = (3, 0)"

text \<open>The only caller has at least \<open>CollectiveWeightMinContributors\<close> values, so the list is never empty.\<close>

definition medianOf :: "f64 list \<Rightarrow> f64" where
  "medianOf values =
     (let sorted = sort_key f_key values; n = length sorted in
      if n mod 2 = 1 then sorted ! (n div 2) else (sorted ! (n div 2 - 1) + sorted ! (n div 2)) / 2)"

section \<open>Tables\<close>

record CollectiveWeight =
  cwVersion :: int
  cwContributors :: int
  cwPolicyVersion :: string
  cwComputedAt :: time
  cwParams :: BKTParams

record weight_row =
  wrFormationVersionID :: string
  wrWeight :: CollectiveWeight

datatype CollectiveMode = CollectiveApplyPrior | CollectiveApplyBlend

record application_row =
  apLearnerID :: string
  apWeightVersion :: int
  apMode :: CollectiveMode
  apAppliedAt :: time

record CollectiveStore =
  ltWeights :: "string \<times> string \<Rightarrow> weight_row list"
  ltApplications :: "string \<times> string \<times> string \<rightharpoonup> application_row"

record CollectiveWeightApplication =
  waVersion :: int
  waMode :: CollectiveMode
  waBefore :: BKTParams
  waAfter :: BKTParams

record BKTCalibrationEvidence =
  ceTenantID :: string
  ceEnrollmentID :: string
  ceFormationVersionID :: string
  ceFormationConceptID :: string
  ceCurriculumVersion :: int
  ceObservations :: int
  ceLastInteractionID :: int
  ceEvidenceHash :: string
  ceInteractions :: "Interaction list"

definition sameCalibrationSource :: "BKTCalibrationEvidence option \<Rightarrow> BKTCalibrationEvidence option \<Rightarrow> bool" where
  "sameCalibrationSource a b =
     (case (a, b) of
        (Some a, Some b) \<Rightarrow>
          ceTenantID a = ceTenantID b \<and> ceEnrollmentID a = ceEnrollmentID b \<and>
          ceFormationVersionID a = ceFormationVersionID b \<and> ceFormationConceptID a = ceFormationConceptID b \<and>
          ceCurriculumVersion a = ceCurriculumVersion b \<and> ceObservations a = ceObservations b \<and>
          ceLastInteractionID a = ceLastInteractionID b \<and> ceEvidenceHash a = ceEvidenceHash b
      | _ \<Rightarrow> False)"

section \<open>Publishing\<close>

record candidate =
  cnLearnerID :: string
  cnDomainID :: string
  cnConcept :: string
  cnEvidence :: BKTCalibrationEvidence
  cnParams :: BKTParams

text \<open>The two maps of the function: the votes of a concept by learner, and the formation version of a concept.\<close>

type_synonym votes = "(string \<times> string \<times> (string \<times> BKTParams) list) list"

definition add_vote :: "candidate \<Rightarrow> votes \<Rightarrow> votes" where
  "add_vote c vs =
     (let concept = ceFormationConceptID (cnEvidence c);
          ballots = (case map_of vs concept of Some (v, bs) \<Rightarrow> bs | None \<Rightarrow> []);
          ballots = (if map_of ballots (cnLearnerID c) = None then ballots @ [(cnLearnerID c, cnParams c)] else ballots)
      in AList.update concept (ceFormationVersionID (cnEvidence c), ballots) vs)"

fun collect_votes :: "(candidate \<Rightarrow> goerr + BKTCalibrationEvidence option) \<Rightarrow> candidate list \<Rightarrow> votes \<Rightarrow> goerr + votes" where
  "collect_votes actual [] vs = Inr vs"
| "collect_votes actual (c # cs) vs =
     (case actual c of
        Inl e \<Rightarrow> Inl e
      | Inr a \<Rightarrow> collect_votes actual cs (if sameCalibrationSource a (Some (cnEvidence c)) then add_vote c vs else vs))"

text \<open>The latest compatible weight and the highest version of any policy.\<close>

definition current_of :: "weight_row list \<Rightarrow> CollectiveWeight option \<times> int" where
  "current_of rows =
     (let weights = map wrWeight rows;
          compatible = rev (sort_key cwVersion (filter (\<lambda>w. cwPolicyVersion w = CollectiveWeightsPolicyVersion) weights))
      in (case compatible of [] \<Rightarrow> None | w # _ \<Rightarrow> Some w, fold max (map cwVersion weights) 0))"

definition currentCollectiveWeight :: "Driver \<Rightarrow> string \<Rightarrow> string \<Rightarrow> (CollectiveStore, CollectiveWeight option \<times> int) tx" where
  "currentCollectiveWeight dr tenant concept =
     bind_tx (sql dr ''select latest version'') (\<lambda>_.
     bind_tx (sql dr ''select current weight'') (\<lambda>_.
     reads (\<lambda>s. Inr (current_of (ltWeights s (tenant, concept))))))"

definition median_params :: "BKTParams list \<Rightarrow> BKTParams" where
  "median_params ps = \<lparr>rpPLearn = medianOf (map rpPLearn ps), rpPForget = medianOf (map rpPForget ps),
     rpPSlip = medianOf (map rpPSlip ps), rpPGuess = medianOf (map rpPGuess ps)\<rparr>"

text \<open>\<open>INSERT ... ON CONFLICT (tenant, concept, version) DO NOTHING\<close>: the number of rows inserted.\<close>

definition insert_weight :: "Driver \<Rightarrow> string \<times> string \<Rightarrow> weight_row \<Rightarrow> (CollectiveStore, int) tx" where
  "insert_weight dr key row =
     bind_tx (sql dr ''insert weight'') (\<lambda>_ s.
       if \<exists>r \<in> set (ltWeights s key). cwVersion (wrWeight r) = cwVersion (wrWeight row) then (Inr 0, s)
       else (Inr 1, s\<lparr>ltWeights := (ltWeights s)(key := ltWeights s key @ [row])\<rparr>))"

definition publish_concept :: "Driver \<Rightarrow> string \<Rightarrow> time \<Rightarrow> string \<times> string \<times> (string \<times> BKTParams) list \<Rightarrow> (CollectiveStore, int) tx" where
  "publish_concept dr tenant now cv =
     (case cv of (concept, versionOf, votes) \<Rightarrow>
        if int (length votes) < CollectiveWeightMinContributors then returns 0
        else bind_tx (currentCollectiveWeight dr tenant concept) (\<lambda>(current, version).
             case nextCollectiveParams (median_params (map snd votes)) (map_option cwParams current) of (next, changed) \<Rightarrow>
               if \<not> changed then returns 0
               else insert_weight dr (tenant, concept)
                      \<lparr>wrFormationVersionID = versionOf,
                       wrWeight = \<lparr>cwVersion = version + 1, cwContributors = int (length votes),
                         cwPolicyVersion = CollectiveWeightsPolicyVersion, cwComputedAt = now, cwParams = next\<rparr>\<rparr>))"

fun publish_all :: "Driver \<Rightarrow> string \<Rightarrow> time \<Rightarrow> votes \<Rightarrow> int \<Rightarrow> (CollectiveStore, int) tx" where
  "publish_all dr tenant now [] published = returns published"
| "publish_all dr tenant now (cv # vs) published =
     bind_tx (publish_concept dr tenant now cv) (\<lambda>n. publish_all dr tenant now vs (published + n))"

definition RecomputeCollectiveWeights ::
    "Driver \<Rightarrow> bool \<Rightarrow> string \<Rightarrow> (candidate \<Rightarrow> goerr + BKTCalibrationEvidence option) \<Rightarrow> candidate list \<Rightarrow> time \<Rightarrow> (CollectiveStore, int) tx" where
  "RecomputeCollectiveWeights dr scopeValid tenant actual candidates now =
     (if \<not> scopeValid then fails (ErrText [S ''recompute collective weights: invalid scope''])
      else
        let now = (if isZero now then drNow dr else now) in
        inTx dr (
          bind_tx (sql dr ''select candidates'') (\<lambda>_.
          bind_tx (lift_tx (collect_votes actual candidates [])) (\<lambda>vs.
          publish_all dr tenant now vs 0))))"

section \<open>Applying\<close>

definition stateBKTParams :: "ConceptState \<Rightarrow> BKTParams" where
  "stateBKTParams cs = \<lparr>rpPLearn = csPLearn cs, rpPForget = csPForget cs, rpPSlip = csPSlip cs, rpPGuess = csPGuess cs\<rparr>"

definition setStateBKTParams :: "BKTParams \<Rightarrow> ConceptState \<Rightarrow> ConceptState" where
  "setStateBKTParams p cs = cs\<lparr>csPLearn := rpPLearn p, csPForget := rpPForget p, csPSlip := rpPSlip p, csPGuess := rpPGuess p\<rparr>"

text \<open>The version applied last, when its row is of the current policy; \<open>-1\<close> otherwise.\<close>

definition applied_version :: "CollectiveStore \<Rightarrow> string \<times> string \<times> string \<Rightarrow> int" where
  "applied_version s key =
     (case key of (tenant, enrollment, concept) \<Rightarrow>
       case ltApplications s key of
         None \<Rightarrow> -1
       | Some a \<Rightarrow>
           let policy = (case find (\<lambda>r. cwVersion (wrWeight r) = apWeightVersion a) (ltWeights s (tenant, concept)) of
                           Some r \<Rightarrow> cwPolicyVersion (wrWeight r) | None \<Rightarrow> '''')
           in if apWeightVersion a < 0 \<or> policy \<noteq> CollectiveWeightsPolicyVersion then -1 else apWeightVersion a)"

text \<open>The state is passed by pointer: the result is the application and the state as the caller then sees it.\<close>

definition ApplyCollectiveWeights ::
    "Driver \<Rightarrow> bool \<Rightarrow> (string \<times> string \<times> string) option \<Rightarrow> ConceptState \<Rightarrow> time \<Rightarrow>
     (CollectiveStore, CollectiveWeightApplication option \<times> ConceptState) tx" where
  "ApplyCollectiveWeights dr scopeValid scope state now =
     (if \<not> scopeValid \<or> csLearnerID state = '''' then fails (ErrText [S ''apply collective weights: invalid scope or state''])
      else bind_tx (sql dr ''select scope'') (\<lambda>_.
        case scope of
          None \<Rightarrow> returns (None, state)
        | Some (tenant, enrollment, concept) \<Rightarrow>
            bind_tx (currentCollectiveWeight dr tenant concept) (\<lambda>(weight, _).
            case weight of
              None \<Rightarrow> returns (None, setStateBKTParams BKTReferenceParams state)
            | Some weight \<Rightarrow>
                bind_tx (sql dr ''select application'') (\<lambda>_.
                bind_tx (reads (\<lambda>s. Inr (applied_version s (tenant, enrollment, concept)))) (\<lambda>applied.
                let state = (if applied < 0 then setStateBKTParams BKTReferenceParams state else state) in
                if applied \<ge> cwVersion weight then returns (None, state)
                else
                  let before = stateBKTParams state;
                      prior = (applied < 0 \<and> csReps state = 0);
                      after = applyCollectiveWeight before (cwParams weight) prior;
                      mode = (if prior then CollectiveApplyPrior else CollectiveApplyBlend) in
                  bind_tx (sql dr ''upsert application'') (\<lambda>_.
                  bind_tx (writes (\<lambda>s. s\<lparr>ltApplications := (ltApplications s)((tenant, enrollment, concept) \<mapsto>
                      \<lparr>apLearnerID = csLearnerID state, apWeightVersion = cwVersion weight, apMode = mode, apAppliedAt = now\<rparr>)\<rparr>)) (\<lambda>_.
                  returns (Some \<lparr>waVersion = cwVersion weight, waMode = mode, waBefore = before, waAfter = after\<rparr>,
                           setStateBKTParams after state))))))))"

section \<open>Bounds\<close>

definition in_band :: "f64 \<Rightarrow> bool" where
  "in_band v \<longleftrightarrow> (\<exists>x. v = Fin x \<and> 1/100 \<le> x \<and> x \<le> 1/2)"

definition near_f64 :: "real \<Rightarrow> f64 \<Rightarrow> f64 \<Rightarrow> bool" where
  "near_f64 d a b \<longleftrightarrow> (\<exists>x y. a = Fin x \<and> b = Fin y \<and> \<bar>x - y\<bar> \<le> d)"

definition params_all :: "(f64 \<Rightarrow> bool) \<Rightarrow> BKTParams \<Rightarrow> bool" where
  "params_all P p \<longleftrightarrow> P (rpPLearn p) \<and> P (rpPForget p) \<and> P (rpPSlip p) \<and> P (rpPGuess p)"

definition params_near :: "real \<Rightarrow> BKTParams \<Rightarrow> BKTParams \<Rightarrow> bool" where
  "params_near d p q \<longleftrightarrow> near_f64 d (rpPLearn p) (rpPLearn q) \<and> near_f64 d (rpPForget p) (rpPForget q) \<and>
     near_f64 d (rpPSlip p) (rpPSlip q) \<and> near_f64 d (rpPGuess p) (rpPGuess q)"

lemma clampParam_Fin: "clampParam (Fin x) = Fin (min (1/2) (max (1/100) x))"
  by (auto simp: clampParam_def collective_defs fmin_def fmax_def)

lemma clampParam_band: "is_fin v \<Longrightarrow> in_band (clampParam v)"
  by (auto simp: is_fin_iff clampParam_Fin in_band_def)

lemma clampParam_id: "in_band v \<Longrightarrow> clampParam v = v"
  by (auto simp: in_band_def clampParam_Fin)

lemma stepToward_Fin: "0 \<le> m \<Longrightarrow> stepToward (Fin a) (Fin b) (Fin m) = Fin (a + max (- m) (min m (b - a)))"
  by (auto simp: stepToward_def fmin_def fmax_def max_def min_def)

lemma band_fin: "in_band v \<Longrightarrow> is_fin v"
  by (auto simp: in_band_def)

lemma clamped_step:
  fixes x m d :: real
  assumes "1/100 \<le> x" "x \<le> 1/2" "0 \<le> m"
  shows "\<bar>x - min (1/2) (max (1/100) (x + max (- m) (min m d)))\<bar> \<le> m"
  using assms unfolding min_def max_def abs_le_iff by (auto split: if_splits)

lemma clamped_step_band:
  assumes "v = Fin (x + max (- m) (min m d))" and "1/100 \<le> x" "x \<le> 1/2" "0 \<le> m"
  shows "in_band (clampParam v) \<and> near_f64 m (Fin x) (clampParam v)"
proof
  show "in_band (clampParam v)" using assms(1) by (intro clampParam_band) simp
  show "near_f64 m (Fin x) (clampParam v)"
    unfolding near_f64_def assms(1) clampParam_Fin using clamped_step[OF assms(2-4)] by blast
qed

lemma step_band:
  assumes "in_band c" and "in_band t"
  shows "in_band (clampParam (stepToward c t CollectiveWeightMaxStep)) \<and>
    near_f64 (1/50) c (clampParam (stepToward c t CollectiveWeightMaxStep))"
proof -
  obtain x y where xy: "c = Fin x" "t = Fin y" "1/100 \<le> x" "x \<le> 1/2"
    using assms by (auto simp: in_band_def)
  have "stepToward c t CollectiveWeightMaxStep = Fin (x + max (- (1/50)) (min (1/50) (y - x)))"
    using stepToward_Fin[of "1/50" x y] by (simp add: xy collective_defs)
  from clamped_step_band[OF this xy(3,4)] show ?thesis unfolding xy(1) by simp
qed

lemma blend_band:
  assumes "in_band c" and "in_band t"
  shows "in_band (clampParam (stepToward c (c + CollectiveBlendFactor * (t - c)) CollectiveBlendMaxStep)) \<and>
    near_f64 (1/20) c (clampParam (stepToward c (c + CollectiveBlendFactor * (t - c)) CollectiveBlendMaxStep))"
proof -
  obtain x y where xy: "c = Fin x" "t = Fin y" "1/100 \<le> x" "x \<le> 1/2"
    using assms by (auto simp: in_band_def)
  have "stepToward c (c + CollectiveBlendFactor * (t - c)) CollectiveBlendMaxStep =
      Fin (x + max (- (1/20)) (min (1/20) ((x + 1/4 * (y - x)) - x)))"
    using stepToward_Fin[of "1/20" x "x + 1/4 * (y - x)"] by (simp add: xy collective_defs)
  from clamped_step_band[OF this xy(3,4)] show ?thesis unfolding xy(1) by simp
qed

lemma medianOf_fin:
  assumes "vs \<noteq> []" and "\<forall>v \<in> set vs. is_fin v"
  shows "is_fin (medianOf vs)"
proof -
  define xs where "xs = sort_key f_key vs"
  have "length xs = length vs" by (simp add: xs_def)
  with assms(1) have "xs \<noteq> []" by (metis length_0_conv)
  moreover from assms(2) have "\<forall>v \<in> set xs. is_fin v" by (simp add: xs_def)
  ultimately have xs: "xs \<noteq> []" "\<forall>v \<in> set xs. is_fin v" by blast+
  have at: "is_fin (xs ! k)" if "k < length xs" for k using that xs(2) by simp
  have "is_fin ((xs ! (length xs div 2 - 1) + xs ! (length xs div 2)) / 2)"
  proof -
    obtain a b where "xs ! (length xs div 2 - 1) = Fin a" "xs ! (length xs div 2) = Fin b"
      using at[of "length xs div 2 - 1"] at[of "length xs div 2"] xs(1) unfolding is_fin_iff
      by (metis One_nat_def div_less_dividend length_greater_0_conv less_imp_diff_less one_less_numeral_iff semiring_norm(76))
    then show ?thesis by simp
  qed
  moreover have "is_fin (xs ! (length xs div 2))" using xs(1) by (intro at) simp
  ultimately show ?thesis by (simp add: medianOf_def xs_def Let_def)
qed

lemma median_params_fin:
  assumes "ps \<noteq> []" and "\<forall>p \<in> set ps. params_all is_fin p"
  shows "params_all is_fin (median_params ps)"
  using assms by (auto simp: params_all_def median_params_def intro!: medianOf_fin)

lemma nextCollectiveParams_first:
  "params_all is_fin m \<Longrightarrow> nextCollectiveParams m None = (p, c) \<Longrightarrow> c \<and> params_all in_band p"
  by (auto simp: nextCollectiveParams_def params_all_def map_params_def Let_def intro: clampParam_band)

lemma nextCollectiveParams_step:
  assumes "params_all is_fin m" and "params_all in_band cur" and "nextCollectiveParams m (Some cur) = (p, True)"
  shows "params_all in_band p \<and> params_near (1/50) cur p"
proof -
  have t: "params_all in_band (map_params clampParam m)"
    using assms(1) by (auto simp: params_all_def map_params_def intro: clampParam_band)
  have "p = map2_params (\<lambda>c t. clampParam (stepToward c t CollectiveWeightMaxStep)) cur (map_params clampParam m)"
    using assms(3) unfolding nextCollectiveParams_def Let_def by (simp split: if_splits)
  then show ?thesis
    using assms(2) t by (simp add: params_all_def params_near_def map2_params_def step_band)
qed

lemma applyCollectiveWeight_band:
  assumes "params_all in_band w" and "\<not> prior \<longrightarrow> params_all in_band st"
  shows "params_all in_band (applyCollectiveWeight st w prior) \<and>
    (\<not> prior \<longrightarrow> params_near (1/20) st (applyCollectiveWeight st w prior)) \<and>
    (prior \<longrightarrow> applyCollectiveWeight st w prior = w)"
  using assms
  by (auto simp: applyCollectiveWeight_def params_all_def params_near_def map_params_def map2_params_def blend_band clampParam_id)

section \<open>Published versions\<close>

definition compatible_params :: "weight_row list \<Rightarrow> BKTParams list" where
  "compatible_params rows = map (cwParams \<circ> wrWeight) (filter (\<lambda>r. cwPolicyVersion (wrWeight r) = CollectiveWeightsPolicyVersion) rows)"

fun gradual :: "BKTParams list \<Rightarrow> bool" where
  "gradual [] \<longleftrightarrow> True"
| "gradual [p] \<longleftrightarrow> params_all in_band p"
| "gradual (p # q # ps) \<longleftrightarrow> params_all in_band p \<and> params_near (1/50) p q \<and> gradual (q # ps)"

definition weight_rows_ok :: "weight_row list \<Rightarrow> bool" where
  "weight_rows_ok rows \<longleftrightarrow>
     sorted_wrt (<) (map (cwVersion \<circ> wrWeight) rows) \<and> (\<forall>r \<in> set rows. 0 < cwVersion (wrWeight r)) \<and>
     gradual (compatible_params rows)"

definition weights_ok :: "CollectiveStore \<Rightarrow> bool" where
  "weights_ok s \<longleftrightarrow> (\<forall>key. weight_rows_ok (ltWeights s key))"

lemma gradual_snoc:
  "gradual (ps @ [q]) \<longleftrightarrow> gradual ps \<and> params_all in_band q \<and> (ps \<noteq> [] \<longrightarrow> params_near (1/50) (last ps) q)"
  by (induction ps rule: gradual.induct) auto

lemma gradual_last: "gradual ps \<Longrightarrow> ps \<noteq> [] \<Longrightarrow> params_all in_band (last ps)"
  by (induction ps rule: gradual.induct) auto

lemma fold_max_ge: "(k :: int) \<le> fold max xs k \<and> (\<forall>x \<in> set xs. x \<le> fold max xs k)"
proof (induction xs arbitrary: k)
  case (Cons a xs)
  from Cons.IH[of "max a k"] show ?case by auto
qed simp

lemma latest_version:
  "cwVersion (wrWeight r) \<le> fold max (map cwVersion (map wrWeight rows)) 0" if "r \<in> set rows"
  using fold_max_ge[of 0 "map cwVersion (map wrWeight rows)"] that by auto

text \<open>The row that \<open>ORDER BY version DESC LIMIT 1\<close> selects is the compatible row inserted last.\<close>

lemma current_weight_last:
  assumes "weight_rows_ok rows"
  shows "rev (sort_key cwVersion (filter (\<lambda>w. cwPolicyVersion w = CollectiveWeightsPolicyVersion) (map wrWeight rows))) =
    rev (map wrWeight (filter (\<lambda>r. cwPolicyVersion (wrWeight r) = CollectiveWeightsPolicyVersion) rows))"
proof -
  have "sorted (map cwVersion (map wrWeight rows))"
    using assms by (auto simp: weight_rows_ok_def intro: strict_sorted_imp_sorted)
  then have "sorted (map cwVersion (filter (\<lambda>w. cwPolicyVersion w = CollectiveWeightsPolicyVersion) (map wrWeight rows)))"
    by (rule sorted_filter)
  then show ?thesis by (simp add: sort_key_id_if_sorted filter_map comp_def)
qed

lemma current_of_spec:
  assumes "weight_rows_ok rows" and "current_of rows = (cur, latest)"
  shows "0 \<le> latest \<and> (\<forall>r \<in> set rows. cwVersion (wrWeight r) \<le> latest) \<and>
    (case cur of
       None \<Rightarrow> compatible_params rows = []
     | Some w \<Rightarrow> compatible_params rows \<noteq> [] \<and> cwParams w = last (compatible_params rows) \<and>
         cwPolicyVersion w = CollectiveWeightsPolicyVersion \<and> w \<in> wrWeight ` set rows)"
proof -
  define comp where "comp = filter (\<lambda>r. cwPolicyVersion (wrWeight r) = CollectiveWeightsPolicyVersion) rows"
  have cp: "compatible_params rows = map (cwParams \<circ> wrWeight) comp" by (simp add: compatible_params_def comp_def)
  have cur: "cur = (case rev (map wrWeight comp) of [] \<Rightarrow> None | w # _ \<Rightarrow> Some w)"
    and latest: "latest = fold max (map cwVersion (map wrWeight rows)) 0"
    using assms(2) unfolding current_of_def Let_def current_weight_last[OF assms(1)] comp_def by auto
  have "0 \<le> latest" "\<forall>r \<in> set rows. cwVersion (wrWeight r) \<le> latest"
    using fold_max_ge latest_version unfolding latest by blast+
  moreover have "case cur of None \<Rightarrow> comp = [] | Some w \<Rightarrow> comp \<noteq> [] \<and> w = wrWeight (last comp)"
    by (cases comp rule: rev_cases) (simp_all add: cur)
  moreover have "r \<in> set rows \<and> cwPolicyVersion (wrWeight r) = CollectiveWeightsPolicyVersion" if "r \<in> set comp" for r
    using that by (simp add: comp_def)
  ultimately show ?thesis by (auto simp: cp last_map split: option.splits)
qed

text \<open>A published version: the next number, within the band, and one bounded step from the version before.\<close>

lemma weight_rows_ok_snoc:
  assumes ok: "weight_rows_ok rows" and cur: "current_of rows = (cur, latest)"
    and med: "params_all is_fin m" and nxt: "nextCollectiveParams m (map_option cwParams cur) = (next, True)"
    and row: "cwVersion (wrWeight row) = latest + 1" "cwPolicyVersion (wrWeight row) = CollectiveWeightsPolicyVersion"
      "cwParams (wrWeight row) = next"
  shows "weight_rows_ok (rows @ [row])"
proof -
  note sp = current_of_spec[OF ok cur]
  have "params_all in_band next \<and> (compatible_params rows \<noteq> [] \<longrightarrow> params_near (1/50) (last (compatible_params rows)) next)"
  proof (cases cur)
    case None
    then show ?thesis using sp nextCollectiveParams_first[OF med] nxt by auto
  next
    case (Some w)
    moreover have "params_all in_band (cwParams w)"
      using sp Some ok gradual_last by (auto simp: weight_rows_ok_def)
    ultimately show ?thesis using sp nextCollectiveParams_step[OF med, of "cwParams w" "next"] nxt by auto
  qed
  then have "gradual (compatible_params (rows @ [row]))"
    using ok by (simp add: compatible_params_def row gradual_snoc weight_rows_ok_def)
  then show ?thesis using ok sp by (auto simp: weight_rows_ok_def row sorted_wrt_append)
qed

section \<open>Histories of publications\<close>

definition votes_fin :: "votes \<Rightarrow> bool" where
  "votes_fin vs \<longleftrightarrow> (\<forall>(concept, version, ballots) \<in> set vs. \<forall>(learner, p) \<in> set ballots. params_all is_fin p)"

text \<open>Every store a publication reaches keeps the invariant and the rows of every concept.\<close>

definition published_from :: "CollectiveStore \<Rightarrow> CollectiveStore \<Rightarrow> bool" where
  "published_from s s' \<longleftrightarrow> weights_ok s' \<and> (\<forall>key. \<exists>new. ltWeights s' key = ltWeights s key @ new)"

lemma published_from_refl: "weights_ok s \<Longrightarrow> published_from s s"
  by (simp add: published_from_def)

lemma published_from_trans: "published_from s t \<Longrightarrow> published_from t u \<Longrightarrow> published_from s u"
  unfolding published_from_def by (metis append.assoc)

lemma insert_weight_published:
  assumes "weights_ok s" and "weight_rows_ok (ltWeights s key @ [row])"
  shows "wp (insert_weight dr key row) (\<lambda>_. published_from s) (\<lambda>_. published_from s) s"
proof -
  have "published_from s (s\<lparr>ltWeights := (ltWeights s)(key := ltWeights s key @ [row])\<rparr>)"
    using assms by (auto simp: published_from_def weights_ok_def)
  then show ?thesis
    using published_from_refl[OF assms(1)]
    by (simp add: insert_weight_def wp_def bind_tx_def sql_def guard_tx_def returns_def fails_def)
qed

lemma publish_concept_published:
  assumes "weights_ok s" and "\<forall>(learner, p) \<in> set ballots. params_all is_fin p"
  shows "wp (publish_concept dr tenant now (concept, v, ballots)) (\<lambda>_. published_from s) (\<lambda>_. published_from s) s"
proof (cases "int (length ballots) < CollectiveWeightMinContributors")
  case True
  then show ?thesis by (simp add: publish_concept_def wp_simps published_from_refl assms)
next
  case False
  let ?m = "median_params (map snd ballots)"
  obtain cur latest where cur: "current_of (ltWeights s (tenant, concept)) = (cur, latest)" by fastforce
  obtain nx ch where nx: "nextCollectiveParams ?m (map_option cwParams cur) = (nx, ch)" by fastforce
  have "params_all is_fin ?m"
    using False assms(2) by (intro median_params_fin) (auto simp: CollectiveWeightMinContributors_def)
  then have "weight_rows_ok (ltWeights s (tenant, concept) @ [row])"
    if "cwVersion (wrWeight row) = latest + 1" "cwPolicyVersion (wrWeight row) = CollectiveWeightsPolicyVersion"
      "cwParams (wrWeight row) = nx" ch for row
    using weight_rows_ok_snoc[OF _ cur _ _ that(1-3)] nx that(4) assms(1) by (simp add: weights_ok_def)
  then show ?thesis
    using False cur nx assms(1)
    by (simp add: publish_concept_def currentCollectiveWeight_def wp_simps published_from_refl insert_weight_published)
qed

lemma publish_all_published:
  assumes "weights_ok s" and "votes_fin vs"
  shows "wp (publish_all dr tenant now vs n) (\<lambda>_. published_from s) (\<lambda>_. published_from s) s"
  using assms
proof (induction vs arbitrary: s n)
  case Nil
  then show ?case by (simp add: wp_simps published_from_refl)
next
  case (Cons cv vs)
  obtain concept v ballots where cv: "cv = (concept, v, ballots)" by (cases cv)
  have "wp (publish_concept dr tenant now cv) (\<lambda>_. published_from s) (\<lambda>_. published_from s) s"
    unfolding cv using Cons.prems by (intro publish_concept_published) (auto simp: votes_fin_def cv)
  moreover have "wp (publish_all dr tenant now vs k) (\<lambda>_. published_from s) (\<lambda>_. published_from s) t"
    if "published_from s t" for k t
  proof (rule wp_mono[OF Cons.IH[of t k]])
    show "weights_ok t" using that by (simp add: published_from_def)
    show "votes_fin vs" using Cons.prems(2) by (simp add: votes_fin_def)
  qed (auto intro: published_from_trans[OF that])
  ultimately show ?case unfolding publish_all.simps wp_bind by (rule wp_mono)
qed

lemma add_vote_fin: "votes_fin vs \<Longrightarrow> params_all is_fin (cnParams c) \<Longrightarrow> votes_fin (add_vote c vs)"
proof -
  assume vs: "votes_fin vs" and p: "params_all is_fin (cnParams c)"
  let ?k = "ceFormationConceptID (cnEvidence c)"
  have old: "\<forall>(learner, p) \<in> set bs. params_all is_fin p" if "map_of vs ?k = Some (v, bs)" for v bs
    using map_of_SomeD[OF that] vs by (auto simp: votes_fin_def)
  have "set (AList.update ?k x vs) \<subseteq> insert (?k, x) (set vs)" for x
    by (induction vs) auto
  then show ?thesis using vs p old unfolding votes_fin_def add_vote_def Let_def
    by (fastforce split: option.splits if_splits)
qed

lemma collect_votes_fin:
  "collect_votes actual cs vs = Inr vs' \<Longrightarrow> votes_fin vs \<Longrightarrow> \<forall>c \<in> set cs. params_all is_fin (cnParams c) \<Longrightarrow> votes_fin vs'"
  by (induction actual cs vs rule: collect_votes.induct) (auto split: sum.splits if_splits intro: add_vote_fin)

lemma Recompute_published:
  assumes "weights_ok s" and "\<forall>c \<in> set cs. params_all is_fin (cnParams c)"
  shows "published_from s (snd (RecomputeCollectiveWeights dr ok tenant actual cs now s))"
proof -
  have "wp (RecomputeCollectiveWeights dr ok tenant actual cs now) (\<lambda>_. published_from s) (\<lambda>_. published_from s) s"
    using assms collect_votes_fin[of actual cs "[]"] published_from_refl[OF assms(1)]
    by (auto simp: RecomputeCollectiveWeights_def wp_simps Let_def votes_fin_def split: sum.split
        intro!: wp_mono[OF publish_all_published])
  then show ?thesis by (cases "RecomputeCollectiveWeights dr ok tenant actual cs now s") (auto simp: wp_def split: sum.splits)
qed

text \<open>Publications in sequence: the driver, whether the scope is valid, the tenant, the recomputed evidence, the
  candidate estimates and the time of each.\<close>

type_synonym publication =
  "Driver \<times> bool \<times> string \<times> (candidate \<Rightarrow> goerr + BKTCalibrationEvidence option) \<times> candidate list \<times> time"

definition publications :: "publication list \<Rightarrow> CollectiveStore \<Rightarrow> CollectiveStore" where
  "publications ps s = fold (\<lambda>(dr, ok, tenant, actual, cs, now) s. snd (RecomputeCollectiveWeights dr ok tenant actual cs now s)) ps s"

lemma publications_published:
  assumes "weights_ok s" and "\<forall>(dr, ok, tenant, actual, cs, now) \<in> set ps. \<forall>c \<in> set cs. params_all is_fin (cnParams c)"
  shows "published_from s (publications ps s)"
  using assms
proof (induction ps arbitrary: s)
  case (Cons x ps)
  obtain dr ok tenant actual cs now where x: "x = (dr, ok, tenant, actual, cs, now)" by (cases x)
  let ?t = "snd (RecomputeCollectiveWeights dr ok tenant actual cs now s)"
  have t: "published_from s ?t" using Cons.prems by (intro Recompute_published) (auto simp: x)
  then have "published_from ?t (publications ps ?t)"
    using Cons.prems by (intro Cons.IH) (auto simp: published_from_def)
  from published_from_trans[OF t this] show ?case by (simp add: publications_def x)
qed (simp add: publications_def published_from_refl)

section \<open>One application per version\<close>

lemma state_params_simps [simp]:
  "stateBKTParams (setStateBKTParams p cs) = p" "setStateBKTParams (stateBKTParams cs) cs = cs"
  "setStateBKTParams p (setStateBKTParams q cs) = setStateBKTParams p cs"
  "csReps (setStateBKTParams p cs) = csReps cs" "csLearnerID (setStateBKTParams p cs) = csLearnerID cs"
  by (simp_all add: stateBKTParams_def setStateBKTParams_def)

lemma reference_band: "params_all in_band BKTReferenceParams"
proof -
  have "in_band (Fin x) \<longleftrightarrow> 1/100 \<le> x \<and> x \<le> 1/2" for x by (simp add: in_band_def)
  then show ?thesis by (simp add: params_all_def BKTReferenceParams_def)
qed

lemma find_version:
  assumes "weight_rows_ok rows" and "r \<in> set rows"
  shows "find (\<lambda>r'. cwVersion (wrWeight r') = cwVersion (wrWeight r)) rows = Some r"
proof -
  have "r' = r" if "r' \<in> set rows" "cwVersion (wrWeight r') = cwVersion (wrWeight r)" for r'
  proof -
    have "distinct (map (cwVersion \<circ> wrWeight) rows)"
      using assms(1) by (simp add: weight_rows_ok_def strict_sorted_iff)
    then show ?thesis using that assms(2) by (auto simp: distinct_map inj_on_def)
  qed
  moreover obtain r' where r': "find (\<lambda>r'. cwVersion (wrWeight r') = cwVersion (wrWeight r)) rows = Some r'"
    using assms(2) by (fastforce simp: find_None_iff)
  moreover from r' have "r' \<in> set rows \<and> cwVersion (wrWeight r') = cwVersion (wrWeight r)"
    by (auto simp: find_Some_iff)
  ultimately show ?thesis by simp
qed

lemma applied_version_upd:
  assumes "weights_ok s" and "current_of (ltWeights s (tenant, concept)) = (Some w, latest)"
  shows "applied_version (s\<lparr>ltApplications := (ltApplications s)((tenant, enrollment, concept) \<mapsto>
    \<lparr>apLearnerID = l, apWeightVersion = cwVersion w, apMode = m, apAppliedAt = t\<rparr>)\<rparr>) (tenant, enrollment, concept) = cwVersion w"
    and "0 < cwVersion w" and "params_all in_band (cwParams w)"
proof -
  let ?rows = "ltWeights s (tenant, concept)"
  have ok: "weight_rows_ok ?rows" using assms(1) by (simp add: weights_ok_def)
  from current_of_spec[OF this assms(2)] obtain r where r: "r \<in> set ?rows" "w = wrWeight r"
    "cwPolicyVersion w = CollectiveWeightsPolicyVersion" "compatible_params ?rows \<noteq> []"
    "cwParams w = last (compatible_params ?rows)" by auto
  show v: "0 < cwVersion w" using ok r by (simp add: weight_rows_ok_def)
  show "params_all in_band (cwParams w)" using ok r gradual_last by (simp add: weight_rows_ok_def)
  show "applied_version (s\<lparr>ltApplications := (ltApplications s)((tenant, enrollment, concept) \<mapsto>
    \<lparr>apLearnerID = l, apWeightVersion = cwVersion w, apMode = m, apAppliedAt = t\<rparr>)\<rparr>) (tenant, enrollment, concept) = cwVersion w"
    using find_version[OF ok r(1)] v r by (simp add: applied_version_def)
qed

text \<open>What an application promises of the state it returns and of the table.\<close>

definition applied_once ::
    "CollectiveStore \<Rightarrow> string \<times> string \<times> string \<Rightarrow> ConceptState \<Rightarrow> CollectiveWeightApplication option \<times> ConceptState \<Rightarrow> CollectiveStore \<Rightarrow> bool" where
  "applied_once s key cs res s' \<longleftrightarrow>
     params_all in_band (stateBKTParams (snd res)) \<and> setStateBKTParams (stateBKTParams cs) (snd res) = cs \<and>
     ltWeights s' = ltWeights s \<and>
     (case fst res of
        None \<Rightarrow> s' = s
      | Some a \<Rightarrow> waAfter a = stateBKTParams (snd res) \<and>
          waBefore a = (if applied_version s key < 0 then BKTReferenceParams else stateBKTParams cs) \<and>
          waMode a = (if applied_version s key < 0 \<and> csReps cs = 0 then CollectiveApplyPrior else CollectiveApplyBlend) \<and>
          (waMode a = CollectiveApplyBlend \<longrightarrow> params_near (1/20) (waBefore a) (waAfter a)) \<and>
          applied_version s key < waVersion a \<and> applied_version s' key = waVersion a)"

lemma ApplyCollectiveWeights_run:
  assumes ok: "weights_ok s" and band: "params_all in_band (stateBKTParams cs)"
  shows "wp (ApplyCollectiveWeights dr valid (Some (tenant, enrollment, concept)) cs now)
    (applied_once s (tenant, enrollment, concept) cs) (\<lambda>_ s'. s' = s) s"
proof -
  obtain cur latest where cur: "current_of (ltWeights s (tenant, concept)) = (cur, latest)" by fastforce
  define applied where "applied = applied_version s (tenant, enrollment, concept)"
  define st where "st = (if applied < 0 then setStateBKTParams BKTReferenceParams cs else cs)"
  have st: "params_all in_band (stateBKTParams st)" "setStateBKTParams (stateBKTParams cs) st = cs"
    "setStateBKTParams (stateBKTParams cs) (setStateBKTParams p st) = cs" for p
    using band reference_band by (simp_all add: st_def)
  show ?thesis
  proof (cases cur)
    case None
    then show ?thesis using reference_band
      by (simp add: ApplyCollectiveWeights_def currentCollectiveWeight_def wp_simps cur applied_once_def)
  next
    case (Some w)
    note up = applied_version_upd[OF ok cur[unfolded Some]]
    define pr where "pr \<longleftrightarrow> applied < 0 \<and> csReps st = 0"
    have same: "csReps st = csReps cs" "stateBKTParams st = (if applied < 0 then BKTReferenceParams else stateBKTParams cs)"
      by (simp_all add: st_def)
    note app = applyCollectiveWeight_band[OF up(3), of pr "stateBKTParams st"]
    show ?thesis using app st band up(1,2)
      by (simp add: ApplyCollectiveWeights_def currentCollectiveWeight_def wp_simps cur Some Let_def
          applied_def[symmetric] st_def[symmetric] pr_def[symmetric] applied_once_def not_le)
        (auto simp: pr_def same)
  qed
qed

text \<open>How far a reviewed state moves, and from where.\<close>

lemma params_near_refl: "params_all in_band p \<Longrightarrow> params_near (1/20) p p"
  by (auto simp: params_all_def params_near_def near_f64_def in_band_def)

lemma ApplyCollectiveWeights_moves:
  assumes ok: "weights_ok s" and band: "params_all in_band (stateBKTParams cs)"
    and cur: "current_of (ltWeights s (tenant, concept)) = (Some w, latest)"
  shows "wp (ApplyCollectiveWeights dr valid (Some (tenant, enrollment, concept)) cs now)
    (\<lambda>res s'. (0 \<le> applied_version s (tenant, enrollment, concept) \<longrightarrow> params_near (1/20) (stateBKTParams cs) (stateBKTParams (snd res))) \<and>
       (applied_version s (tenant, enrollment, concept) < 0 \<and> csReps cs \<noteq> 0 \<longrightarrow>
          params_near (1/20) BKTReferenceParams (stateBKTParams (snd res)))) (\<lambda>_ _. True) s"
proof -
  define applied where "applied = applied_version s (tenant, enrollment, concept)"
  note up = applied_version_upd[OF ok cur]
  note app = applyCollectiveWeight_band[OF up(3)]
  show ?thesis using app[of False "stateBKTParams cs"] app[of False BKTReferenceParams] band reference_band up(2) params_near_refl[OF band] params_near_refl[OF reference_band]
    by (auto simp: ApplyCollectiveWeights_def currentCollectiveWeight_def wp_simps cur Let_def applied_def[symmetric])
qed

lemma applyCollectiveWeight_fin:
  assumes "params_all in_band w" and "params_all is_fin st"
  shows "params_all in_band (applyCollectiveWeight st w prior)"
proof -
  have "in_band (clampParam (stepToward c (c + CollectiveBlendFactor * (t - c)) CollectiveBlendMaxStep))"
    if h: "is_fin c" "in_band t" for c t
  proof -
    obtain x y where "c = Fin x" "t = Fin y" using h by (auto simp: is_fin_iff in_band_def)
    then show ?thesis
      using stepToward_Fin[of "1/20" x "x + 1/4 * (y - x)"] by (intro clampParam_band) (simp add: collective_defs)
  qed
  then show ?thesis
    using assms by (auto simp: applyCollectiveWeight_def params_all_def map_params_def map2_params_def intro: clampParam_band band_fin)
qed

text \<open>From any probabilities, an application yields probabilities and keeps the published versions.\<close>

lemma ApplyCollectiveWeights_unit:
  assumes ok: "weights_ok s" and unit: "params_all unit_f64 (stateBKTParams cs)"
  shows "wp (ApplyCollectiveWeights dr valid scope cs now)
    (\<lambda>res s'. weights_ok s' \<and> params_all unit_f64 (stateBKTParams (snd res)) \<and> setStateBKTParams (stateBKTParams cs) (snd res) = cs)
    (\<lambda>_ s'. s' = s) s"
proof (cases scope)
  case None
  then show ?thesis using assms by (simp add: ApplyCollectiveWeights_def wp_simps)
next
  case (Some key)
  obtain tenant enrollment concept where key: "key = (tenant, enrollment, concept)" by (cases key)
  obtain cur latest where cur: "current_of (ltWeights s (tenant, concept)) = (cur, latest)" by fastforce
  have bu: "in_band v \<Longrightarrow> unit_f64 v" for v by (auto simp: in_band_def unit_f64_def)
  have ub: "params_all in_band p \<Longrightarrow> params_all unit_f64 p" for p by (simp add: params_all_def bu)
  define applied where "applied = applied_version s key"
  define st where "st = (if applied < 0 then setStateBKTParams BKTReferenceParams cs else cs)"
  have st: "params_all unit_f64 (stateBKTParams st)" "setStateBKTParams (stateBKTParams cs) st = cs"
    "setStateBKTParams (stateBKTParams cs) (setStateBKTParams p st) = cs" for p
    using unit ub[OF reference_band] by (simp_all add: st_def)
  then have fin: "params_all is_fin (stateBKTParams st)" by (simp add: params_all_def unit_is_fin)
  have same: "weights_ok (s\<lparr>ltApplications := x\<rparr>)" for x using ok by (simp add: weights_ok_def)
  show ?thesis
  proof (cases cur)
    case None
    then show ?thesis using ok ub[OF reference_band]
      by (simp add: Some key ApplyCollectiveWeights_def currentCollectiveWeight_def wp_simps cur)
  next
    case c: (Some w)
    note up = applied_version_upd[OF ok cur[unfolded c]]
    define pr where "pr \<longleftrightarrow> applied < 0 \<and> csReps st = 0"
    note app = ub[OF applyCollectiveWeight_fin[OF up(3) fin, of pr]]
    show ?thesis using app st same ok unit
      by (simp add: Some key ApplyCollectiveWeights_def currentCollectiveWeight_def wp_simps cur c Let_def
          applied_def[symmetric, unfolded key] st_def[symmetric] pr_def[symmetric])
  qed
qed

lemma ApplyCollectiveWeights_applied:
  assumes "weights_ok s" and "current_of (ltWeights s (tenant, concept)) = (Some w, latest)"
  shows "wp (ApplyCollectiveWeights dr valid (Some (tenant, enrollment, concept)) cs now)
    (\<lambda>res s'. fst res \<noteq> None \<longrightarrow> ltWeights s' = ltWeights s \<and> applied_version s' (tenant, enrollment, concept) = cwVersion w \<and>
       \<not> drFails dr ''select scope'' \<and> \<not> drFails dr ''select latest version'' \<and> \<not> drFails dr ''select current weight'' \<and>
       \<not> drFails dr ''select application'') (\<lambda>_ _. True) s"
  using applied_version_upd[OF assms]
  by (simp add: ApplyCollectiveWeights_def currentCollectiveWeight_def wp_simps assms(2) Let_def)

lemma ApplyCollectiveWeights_again:
  assumes "weights_ok s" and "current_of (ltWeights s (tenant, concept)) = (Some w, latest)"
    and "applied_version s (tenant, enrollment, concept) = cwVersion w"
    and "\<not> drFails dr ''select scope''" "\<not> drFails dr ''select latest version''" "\<not> drFails dr ''select current weight''"
      "\<not> drFails dr ''select application''" and "csLearnerID cs \<noteq> ''''"
  shows "ApplyCollectiveWeights dr True (Some (tenant, enrollment, concept)) cs now s = (Inr (None, cs), s)"
  using applied_version_upd(2)[OF assms(1,2)] assms(2-)
  by (simp add: ApplyCollectiveWeights_def currentCollectiveWeight_def bind_tx_def sql_def guard_tx_def returns_def reads_def Let_def)

section \<open>Properties\<close>

text \<open>C23. Publishing collective weights any number of times, from any candidate estimates that are finite numbers and
  with any failing statements: no published version is ever changed or removed (the rows of a concept only grow at
  the end), version numbers strictly increase across policies, every parameter of a version of the current policy is
  within [0.01, 0.5], and two successive versions of a concept differ by at most 0.02 in each parameter, however far
  the learners' median has moved.\<close>

theorem collective_weights_gradual:
  assumes "weights_ok s"
    and "\<forall>(dr, ok, tenant, actual, cs, now) \<in> set ps. \<forall>c \<in> set cs. params_all is_fin (cnParams c)"
  shows "(\<exists>new. ltWeights (publications ps s) key = ltWeights s key @ new) \<and>
    sorted_wrt (<) (map (cwVersion \<circ> wrWeight) (ltWeights (publications ps s) key)) \<and>
    gradual (compatible_params (ltWeights (publications ps s) key))"
  using publications_published[OF assms] unfolding published_from_def weights_ok_def weight_rows_ok_def by blast

definition example_vote :: "string \<Rightarrow> f64 \<Rightarrow> candidate" where
  "example_vote l v = \<lparr>cnLearnerID = l, cnDomainID = ''d'', cnConcept = ''k'',
     cnEvidence = \<lparr>ceTenantID = ''t'', ceEnrollmentID = l, ceFormationVersionID = ''v'', ceFormationConceptID = ''c'',
       ceCurriculumVersion = 1, ceObservations = 5, ceLastInteractionID = 1, ceEvidenceHash = l, ceInteractions = []\<rparr>,
     cnParams = \<lparr>rpPLearn = v, rpPForget = v, rpPSlip = v, rpPGuess = v\<rparr>\<rparr>"

definition empty_weights :: CollectiveStore where
  "empty_weights = \<lparr>ltWeights = (\<lambda>_. []), ltApplications = Map.empty\<rparr>"

lemma empty_weights_ok: "weights_ok empty_weights"
  by (simp add: weights_ok_def weight_rows_ok_def empty_weights_def compatible_params_def)

definition example_publications :: "publication list" where
  "example_publications =
     (let dr = \<lparr>drPostgres = False, drOwned = True, drFails = (\<lambda>_. False), drNow = 1\<rparr>;
          cohort = (\<lambda>v. map (\<lambda>n. example_vote (replicate n CHR ''x'') v) [0..<30]);
          same = (\<lambda>c. Inr (Some (cnEvidence c)))
      in [(dr, True, ''t'', same, cohort (Fin (1/10)), 1), (dr, True, ''t'', same, cohort (Fin (4/10)), 2)])"

theorem collective_weights_gradual_witness:
  "gradual (compatible_params (ltWeights (publications example_publications empty_weights) (''t'', ''c'')))"
  using collective_weights_gradual[of empty_weights example_publications "(''t'', ''c'')"]
  by (simp add: empty_weights_ok example_publications_def example_vote_def params_all_def Let_def)

text \<open>Applying the current collective weight to a learner's state whose parameters are within the band. A failing
  call leaves the tables as they were. A call that succeeds changes only the four parameters (mastery and the memory card
  never), keeps them within [0.01, 0.5], and the version recorded as applied strictly increases. A state that already has
  an applied version moves by at most 0.05 per parameter; a reviewed one without is first set to the reference parameters
  and ends at most 0.05 from those. Applying the same version again changes neither the state nor the table, whatever the
  state is by then.\<close>

lemma collective_weight_applied_once:
  fixes tenant enrollment concept :: string
  defines "key \<equiv> (tenant, enrollment, concept)"
  assumes "weights_ok s" and "params_all in_band (stateBKTParams cs)"
    and "current_of (ltWeights s (tenant, concept)) = (Some w, latest)"
  shows "case ApplyCollectiveWeights dr True (Some key) cs now s of
      (Inl e, s') \<Rightarrow> s' = s
    | (Inr res, s') \<Rightarrow> applied_once s key cs res s' \<and>
        (0 \<le> applied_version s key \<longrightarrow> params_near (1/20) (stateBKTParams cs) (stateBKTParams (snd res))) \<and>
        (applied_version s key < 0 \<and> csReps cs \<noteq> 0 \<longrightarrow> params_near (1/20) BKTReferenceParams (stateBKTParams (snd res))) \<and>
        (\<forall>cs2 later. csLearnerID cs2 \<noteq> '''' \<longrightarrow> fst res \<noteq> None \<longrightarrow>
           ApplyCollectiveWeights dr True (Some key) cs2 later s' = (Inr (None, cs2), s'))"
proof -
  note run = ApplyCollectiveWeights_run[OF assms(2,3), of dr True tenant enrollment concept now]
  show ?thesis
  proof (cases "ApplyCollectiveWeights dr True (Some key) cs now s")
    case (Pair out s')
    show ?thesis
    proof (cases out)
      case (Inl e)
      then show ?thesis using run Pair by (simp add: wp_def key_def)
    next
      case (Inr res)
      note eq = Pair[unfolded Inr key_def]
      have one: "applied_once s key cs res s'" using wp_Inr[OF run eq] by (simp add: key_def)
      have "ApplyCollectiveWeights dr True (Some key) cs2 later s' = (Inr (None, cs2), s')"
        if "csLearnerID cs2 \<noteq> ''''" "fst res \<noteq> None" for cs2 later
        using that wp_Inr[OF ApplyCollectiveWeights_applied[OF assms(2,4)] eq] assms(2,4) unfolding key_def
        by (intro ApplyCollectiveWeights_again[of _ _ _ w latest]) (simp_all add: weights_ok_def)
      moreover note wp_Inr[OF ApplyCollectiveWeights_moves[OF assms(2-4)] eq]
      ultimately show ?thesis using one Pair Inr by (simp add: key_def)
    qed
  qed
qed

definition quiet_driver :: Driver where
  "quiet_driver = \<lparr>drPostgres = False, drOwned = True, drFails = (\<lambda>_. False), drNow = 1\<rparr>"

end
