(* ===== verification/Attempts.thy ===== *)
theory Attempts
  imports Mastery Collective
begin

text \<open>
  The life of an assessment attempt in the store (\<open>db/assessments.go\<close>, with the curriculum lock of
  \<open>db/curriculum_reconciliation.go\<close>, the formation scope of \<open>db/formation_learning.go\<close>,
  \<open>db/learning_scope.go\<close> and the event insertion of \<open>db/learning_events.go\<close>): a task and its rubric
  are frozen in a prepared attempt, a response is submitted, an evaluation completes it, or it is
  cancelled.

  \<open>LearningStore\<close> holds the tables these operations and the recording of an interaction read and
  write. A table with a primary key is a partial function, a table that is only appended to is the
  list of its rows; columns that no record of package \<open>models\<close> has (tenant, enrollment) are separate
  functions. A row lock does not change a row: an operation runs in a transaction that has the rows it
  locked to itself. Encoding is an argument (\<open>StoreCodec\<close>), as is the scope of a learner outside every
  formation (\<open>queryLearningScope\<close> and the recovery enrollment that \<open>resolveLearningScope\<close> falls back to).
\<close>

section \<open>Tables\<close>

record learningScopeIDs =
  scTenantID :: string
  scEnrollmentID :: string
  scFormationConceptID :: string

record LearningEvent =
  leID :: string
  leEventKey :: string
  leDomainID :: string
  leConceptID :: string
  leAttemptID :: string
  leKind :: string
  leSource :: string
  leCurriculumVersion :: int
  leOccurredAt :: time

record learning_event_row =
  lrTenantID :: string
  lrLearnerID :: string
  lrEnrollmentID :: string
  lrInvalidatedVersion :: int
  lrEvent :: LearningEvent

text \<open>The fields of a decision and of its contract that freezing an attempt compares; the competency is kept as
  \<open>json.Marshal\<close> writes it.\<close>

record PedagogicalDecision =
  pdCurriculumVersion :: int
  pdLearningEventProtocol :: string
  pdTargetConcept :: string
  pdRecommendedActivityType :: ActivityType
  pdCompetencyJSON :: string

record decision_row =
  drwTenantID :: string
  drwLearnerID :: string
  drwDomainID :: string
  drwSessionID :: string
  drwCurriculumVersion :: int
  drwSnapshotJSON :: string

datatype LearningSessionStatus = LearningSessionStatusOpen | LearningSessionStatusClosed

record LearningSession =
  lsID :: string
  lsLearnerID :: string
  lsDomainID :: string
  lsStatus :: LearningSessionStatus
  lsStartedAt :: time
  lsLastActiveAt :: time
  lsClosedAt :: "time option"

record PedagogicalSnapshot =
  psID :: int
  psInteractionID :: int
  psLearnerID :: string
  psDomainID :: string
  psConcept :: string
  psActivityType :: string
  psBeforeJSON :: string
  psObservationJSON :: string
  psAfterJSON :: string
  psDecisionJSON :: string
  psInterpretationBrief :: string
  psCreatedAt :: time

text \<open>An independent estimate of a learner's BKT parameters for one concept and curriculum version.\<close>

record estimate_row =
  erFormationVersionID :: string
  erLearnerID :: string
  erParams :: BKTParams
  erObservations :: int
  erLastInteractionID :: int
  erEvidenceHash :: string
  erUpdatedAt :: time

record LearningStore =
  ltDomains :: "Domain list"
  ltDomainTenantID :: "string \<Rightarrow> string"
  ltFormationEnrollmentID :: "string \<Rightarrow> string"
  ltEnrollments :: "string \<times> string \<rightharpoonup> string"
  ltConceptMappings :: "string \<times> string \<times> string \<times> string \<rightharpoonup> string"
  ltDecisions :: "string \<rightharpoonup> decision_row"
  ltAttempts :: "string \<rightharpoonup> AssessmentAttempt"
  ltEvents :: "learning_event_row list"
  ltLearners :: "string set"
  ltSessions :: "LearningSession list"
  ltStates :: "string \<times> string \<times> string \<rightharpoonup> ConceptState"
  ltInteractions :: "Interaction list"
  ltTransfers :: "TransferRecord list"
  ltSnapshots :: "PedagogicalSnapshot list"
  ltCollective :: CollectiveStore
  ltEstimates :: "string \<times> string \<times> string \<times> int \<rightharpoonup> estimate_row"

type_synonym 'a op = "(LearningStore, 'a) tx"

record StoreCodec = JsonCodec +
  cdDecision :: "string \<Rightarrow> PedagogicalDecision option"
  cdMarshal :: "json \<Rightarrow> string option"
  cdDigest :: "string \<Rightarrow> string"
  cdLegacyScope :: "string \<Rightarrow> string \<Rightarrow> string \<Rightarrow> goerr + learningScopeIDs"

section \<open>Scope and curriculum\<close>

text \<open>A row of \<open>domains\<close> by identifier and learner that is not logically deleted.\<close>

definition live_domain :: "LearningStore \<Rightarrow> string \<Rightarrow> string \<Rightarrow> Domain option" where
  "live_domain s learnerID domainID =
     find (\<lambda>d. dID d = domainID \<and> dLearnerID d = learnerID \<and> dDeletedAt d = None) (ltDomains s)"

definition empty_scope :: learningScopeIDs where
  "empty_scope = \<lparr>scTenantID = '''', scEnrollmentID = '''', scFormationConceptID = ''''\<rparr>"

text \<open>The identifiers and whether the domain belongs to a formation.\<close>

definition formationLearningScope :: "Driver \<Rightarrow> string \<Rightarrow> string \<Rightarrow> string \<Rightarrow> (learningScopeIDs \<times> bool) op" where
  "formationLearningScope dr learnerID domainID key =
     bind_tx (if drPostgres dr then sql dr ''lock formation domain'' else returns ()) (\<lambda>_.
     bind_tx (sql dr ''select formation scope'') (\<lambda>_.
     reads (\<lambda>s.
       let tenant = ltDomainTenantID s domainID; enrollment = ltFormationEnrollmentID s domainID in
       if live_domain s learnerID domainID = None \<or> enrollment = '''' then Inr (empty_scope, False)
       else case ltEnrollments s (tenant, enrollment) of
         None \<Rightarrow> Inr (empty_scope, False)
       | Some status \<Rightarrow>
           let out = \<lparr>scTenantID = tenant, scEnrollmentID = enrollment, scFormationConceptID = ''''\<rparr> in
           if status \<noteq> ''active'' then Inl (err ''formation enrollment is not active'')
           else if key = '''' then Inr (out, True)
           else case ltConceptMappings s (tenant, enrollment, domainID, key) of
             None \<Rightarrow> Inl (ErrWrap ''unknown formation concept'' ErrNoRows)
           | Some concept \<Rightarrow> Inr (out\<lparr>scFormationConceptID := concept\<rparr>, True))))"

definition resolveLearningScope :: "Driver \<Rightarrow> 'z StoreCodec_scheme \<Rightarrow> string \<Rightarrow> string \<Rightarrow> string \<Rightarrow> learningScopeIDs op" where
  "resolveLearningScope dr cd learnerID domainID concept =
     bind_tx (formationLearningScope dr learnerID domainID concept) (\<lambda>(scope, found).
     if found then returns scope else lift_tx (cdLegacyScope cd learnerID domainID concept))"

definition lockCurriculumForEvidence :: "Driver \<Rightarrow> string \<Rightarrow> string \<Rightarrow> string \<Rightarrow> int op" where
  "lockCurriculumForEvidence dr learnerID domainID concept =
     (if domainID = '''' then returns 0
      else bind_tx (formationLearningScope dr learnerID domainID '''') (\<lambda>_.
           bind_tx (sql dr ''lock curriculum'') (\<lambda>_.
           reads (\<lambda>s. case live_domain s learnerID domainID of
             None \<Rightarrow> Inl ErrNoRows
           | Some d \<Rightarrow>
               if concept \<in> set (ksConcepts (dGraph d)) then Inr (dGraphVersion d)
               else Inl (ErrText [S ''curriculum concept is no longer active: '', Q concept])))))"

section \<open>Learning events\<close>

definition lockLearningEventStream :: "Driver \<Rightarrow> string \<Rightarrow> string \<Rightarrow> unit op" where
  "lockLearningEventStream dr learnerID domainID =
     (if \<not> drPostgres dr then returns ()
      else bind_tx (sql dr ''lock event stream'') (\<lambda>_.
           reads (\<lambda>s. if live_domain s learnerID domainID = None then Inl ErrNoRows else Inr ())))"

definition insertLearningEvent :: "Driver \<Rightarrow> string \<Rightarrow> string \<Rightarrow> string \<Rightarrow> LearningEvent \<Rightarrow> unit op" where
  "insertLearningEvent dr tenantID learnerID enrollmentID event =
     bind_tx (sql dr ''insert learning event'') (\<lambda>_.
     bind_tx (reads (\<lambda>s.
       if \<exists>r \<in> set (ltEvents s). lrTenantID r = tenantID \<and> lrLearnerID r = learnerID \<and>
            leEventKey (lrEvent r) = leEventKey event
       then Inl ErrLearningEventExists else Inr ())) (\<lambda>_.
     writes (\<lambda>s. s\<lparr>ltEvents := ltEvents s @
       [\<lparr>lrTenantID = tenantID, lrLearnerID = learnerID, lrEnrollmentID = enrollmentID,
         lrInvalidatedVersion = 0, lrEvent = event\<rparr>]\<rparr>)))"

text \<open>\<open>SELECT MAX(occurred_at)\<close> over the current events of a concept.\<close>

definition last_exposure :: "LearningStore \<Rightarrow> string \<Rightarrow> string \<Rightarrow> string \<Rightarrow> time option" where
  "last_exposure s learnerID domainID concept =
     (let times = map (\<lambda>r. leOccurredAt (lrEvent r))
        (filter (\<lambda>r. lrLearnerID r = learnerID \<and> leDomainID (lrEvent r) = domainID \<and>
                     leConceptID (lrEvent r) = concept \<and> lrInvalidatedVersion r = 0) (ltEvents s))
      in if times = [] then None else Some (fold max times (hd times)))"

section \<open>Attempts\<close>

definition getAssessmentAttempt :: "Driver \<Rightarrow> string \<Rightarrow> string \<Rightarrow> AssessmentAttempt op" where
  "getAssessmentAttempt dr learnerID attemptID =
     bind_tx (wrap_tx ''get assessment attempt'' (sql dr ''select assessment attempt'')) (\<lambda>_.
     reads (\<lambda>s. case ltAttempts s attemptID of
       Some a \<Rightarrow> if aaLearnerID a = learnerID then Inr a else Inl (ErrWrap ''get assessment attempt'' ErrNoRows)
     | None \<Rightarrow> Inl (ErrWrap ''get assessment attempt'' ErrNoRows)))"

definition GetAssessmentAttempt :: "Driver \<Rightarrow> string \<Rightarrow> string \<Rightarrow> AssessmentAttempt op" where
  "GetAssessmentAttempt dr learnerID attemptID = getAssessmentAttempt dr learnerID attemptID"

definition GetAssessmentAttemptForUpdate :: "Driver \<Rightarrow> string \<Rightarrow> string \<Rightarrow> AssessmentAttempt op" where
  "GetAssessmentAttemptForUpdate dr learnerID attemptID =
     bind_tx (getAssessmentAttempt dr learnerID attemptID) (\<lambda>attempt.
     bind_tx (lockCurriculumForEvidence dr learnerID (aaDomainID attempt) (aaConceptID attempt)) (\<lambda>_.
     getAssessmentAttempt dr learnerID attemptID))"

text \<open>An \<open>UPDATE assessment_attempts ... WHERE id AND learner AND p\<close>: the number of rows it changed.\<close>

definition update_attempt ::
    "Driver \<Rightarrow> string \<Rightarrow> string \<Rightarrow> string \<Rightarrow> (AssessmentAttempt \<Rightarrow> bool) \<Rightarrow> (AssessmentAttempt \<Rightarrow> AssessmentAttempt) \<Rightarrow> int op" where
  "update_attempt dr statement learnerID attemptID p f =
     bind_tx (sql dr statement) (\<lambda>_ s.
       case ltAttempts s attemptID of
         Some a \<Rightarrow> if aaLearnerID a = learnerID \<and> p a
                   then (Inr 1, s\<lparr>ltAttempts := (ltAttempts s)(attemptID \<mapsto> f a)\<rparr>) else (Inr 0, s)
       | None \<Rightarrow> (Inr 0, s))"

definition requireAssessmentTransition :: "int \<Rightarrow> unit op" where
  "requireAssessmentTransition n = guard_tx (n = 1) ErrAssessmentStateConflict"

definition clock_or :: "Driver \<Rightarrow> time \<Rightarrow> time" where
  "clock_or dr now = (if isZero now then drNow dr else now)"

definition CancelAssessmentAttempt :: "Driver \<Rightarrow> string \<Rightarrow> string \<Rightarrow> time \<Rightarrow> unit op" where
  "CancelAssessmentAttempt dr learnerID attemptID now =
     bind_tx (wrap_tx ''cancel assessment attempt'' (update_attempt dr ''cancel attempt'' learnerID attemptID
         (\<lambda>a. aaStatus a \<in> {AssessmentAttemptPrepared, AssessmentAttemptSubmitted})
         (\<lambda>a. a\<lparr>aaStatus := AssessmentAttemptCancelled, aaCancelledAt := Some (clock_or dr now)\<rparr>)))
       requireAssessmentTransition"

definition completeUntrustedAssessmentEvaluation ::
    "Driver \<Rightarrow> string \<Rightarrow> string \<Rightarrow> string \<Rightarrow> string \<Rightarrow> EvaluationMethod \<Rightarrow> string \<Rightarrow> f64 \<Rightarrow> bool \<Rightarrow> time \<Rightarrow> unit op" where
  "completeUntrustedAssessmentEvaluation dr learnerID attemptID rubricScoreJSON evaluatorID method provenanceJSON score passed now =
     (if rubricScoreJSON = '''' \<or> evaluatorID = '''' \<or> method = EvaluationMethodOther ''''
      then fails (err ''complete assessment evaluation: scoring and evaluator identity are required'')
      else bind_tx (wrap_tx ''complete assessment evaluation'' (update_attempt dr ''evaluate attempt'' learnerID attemptID
          (\<lambda>a. aaStatus a = AssessmentAttemptSubmitted \<and> aaCurriculumInvalidatedVersion a = 0)
          (\<lambda>a. a\<lparr>aaRubricScoreJSON := rubricScoreJSON, aaEvaluatorID := evaluatorID, aaEvaluationMethod := method,
                 aaEvaluationProvenanceJSON := provenanceJSON, aaScore := score, aaPassed := passed,
                 aaTrustedEvaluation := False, aaStatus := AssessmentAttemptEvaluated,
                 aaEvaluatedAt := Some (clock_or dr now)\<rparr>)))
        requireAssessmentTransition)"

definition rubric_tx :: "rubric_error + 'a \<Rightarrow> 'a op" where
  "rubric_tx r = lift_tx (case r of Inl e \<Rightarrow> Inl (ErrRubric e) | Inr x \<Rightarrow> Inr x)"

definition parse_rubric :: "'z StoreCodec_scheme \<Rightarrow> string \<Rightarrow> rubric_error + AssessmentRubric" where
  "parse_rubric cd raw = ParseRubric cd raw"

definition evaluate_json :: "'z StoreCodec_scheme \<Rightarrow> AssessmentRubric \<Rightarrow> string \<Rightarrow> rubric_error + AssessmentResult" where
  "evaluate_json cd rubric raw = EvaluateJSON cd rubric raw"

text \<open>For an attempt bound to a decision: the frozen rubric decides the outcome, and the caller's may not contradict it.\<close>

definition frozen_outcome ::
    "'z StoreCodec_scheme \<Rightarrow> AssessmentAttempt \<Rightarrow> string \<Rightarrow> f64 \<Rightarrow> bool \<Rightarrow> (string \<times> f64 \<times> bool) op" where
  "frozen_outcome cd attempt rubricScoreJSON score passed =
     (if aaDecisionID attempt = '''' then returns (rubricScoreJSON, score, passed)
      else bind_tx (rubric_tx (parse_rubric cd (aaRubricJSON attempt))) (\<lambda>rubric.
           if \<not> feq (rbPassingScore rubric) (aaPassingScore attempt)
           then fails (err ''complete assessment evaluation: inconsistent frozen passing score'')
           else bind_tx (rubric_tx (evaluate_json cd rubric rubricScoreJSON)) (\<lambda>result.
           if \<not> feq score (arTotal result) \<or> passed \<noteq> arPassed result
           then fails (err ''complete assessment evaluation: outcome contradicts frozen rubric and criterion scores'')
           else case cdMarshal cd (JObj (arScore result)) of
                  None \<Rightarrow> fails (err ''json: unsupported value'')
                | Some canonical \<Rightarrow> returns (canonical, arTotal result, arPassed result))))"

definition CompleteAssessmentEvaluation ::
    "Driver \<Rightarrow> 'z StoreCodec_scheme \<Rightarrow> string \<Rightarrow> string \<Rightarrow> string \<Rightarrow> string \<Rightarrow> EvaluationMethod \<Rightarrow> string \<Rightarrow> f64 \<Rightarrow> bool \<Rightarrow> time \<Rightarrow> unit op" where
  "CompleteAssessmentEvaluation dr cd learnerID attemptID rubricScoreJSON evaluatorID method provenanceJSON score passed now =
     (if method \<noteq> EvaluationMethodHostLLM
      then fails (err ''complete assessment evaluation: public evaluator must be host_llm'')
      else inTx dr (
        bind_tx (GetAssessmentAttemptForUpdate dr learnerID attemptID) (\<lambda>attempt.
        if aaStatus attempt \<noteq> AssessmentAttemptSubmitted \<or> aaCurriculumInvalidatedVersion attempt \<noteq> 0
        then fails ErrAssessmentStateConflict
        else bind_tx (frozen_outcome cd attempt rubricScoreJSON score passed) (\<lambda>(rubricScoreJSON, score, passed).
             completeUntrustedAssessmentEvaluation dr learnerID attemptID rubricScoreJSON evaluatorID method
               provenanceJSON score passed now))))"

text \<open>A savepoint around the body: an error rolls back to it, and releasing it can fail.\<close>

definition savepoint :: "Driver \<Rightarrow> 'a op \<Rightarrow> 'a op" where
  "savepoint dr body =
     bind_tx (sql dr ''savepoint'') (\<lambda>_ s. case body s of
         (Inl e, s') \<Rightarrow> (Inl e, if drFails dr ''rollback to savepoint'' then s' else s)
       | (Inr x, s') \<Rightarrow> (if drFails dr ''release savepoint'' then (Inl (ErrDriver ''release savepoint''), s')
                        else (Inr x, s')))"

definition submit_body ::
    "Driver \<Rightarrow> 'z StoreCodec_scheme \<Rightarrow> string \<Rightarrow> string \<Rightarrow> string \<Rightarrow> string \<Rightarrow> time \<Rightarrow> unit op" where
  "submit_body dr cd learnerID attemptID responseText responseHash now =
     bind_tx (GetAssessmentAttempt dr learnerID attemptID) (\<lambda>discovered.
     bind_tx (formationLearningScope dr learnerID (aaDomainID discovered) '''') (\<lambda>_.
     bind_tx (if aaEventProtocol discovered = LearningEventProtocol
              then lockLearningEventStream dr learnerID (aaDomainID discovered) else returns ()) (\<lambda>_.
     bind_tx (GetAssessmentAttemptForUpdate dr learnerID attemptID) (\<lambda>attempt.
     bind_tx (if aaEventProtocol attempt = LearningEventProtocol
              then bind_tx (sql dr ''select exposure'') (\<lambda>_.
                   reads (\<lambda>s. Inr (last_exposure s learnerID (aaDomainID attempt) (aaConceptID attempt))))
              else returns None) (\<lambda>prior.
     bind_tx (bind_tx (wrap_tx ''submit assessment attempt'' (update_attempt dr ''submit attempt'' learnerID attemptID
           (\<lambda>a. aaStatus a = AssessmentAttemptPrepared \<and> aaCurriculumInvalidatedVersion a = 0)
           (\<lambda>a. a\<lparr>aaResponseText := responseText, aaResponseContentHash := responseHash,
                  aaStatus := AssessmentAttemptSubmitted, aaSubmittedAt := Some now, aaPriorExposureAt := prior\<rparr>)))
         requireAssessmentTransition) (\<lambda>_.
     if aaEventProtocol attempt \<noteq> LearningEventProtocol then returns ()
     else bind_tx (resolveLearningScope dr cd learnerID (aaDomainID attempt) (aaConceptID attempt)) (\<lambda>scope.
          insertLearningEvent dr (scTenantID scope) learnerID (scEnrollmentID scope)
            \<lparr>leID = ''response_'' @ attemptID, leEventKey = ''response:'' @ cdDigest cd attemptID,
             leDomainID = aaDomainID attempt, leConceptID = aaConceptID attempt, leAttemptID = attemptID,
             leKind = ''response'', leSource = ''committed_response'',
             leCurriculumVersion = aaCurriculumVersion attempt, leOccurredAt = now\<rparr>)))))))"

definition SubmitAssessmentAttempt ::
    "Driver \<Rightarrow> 'z StoreCodec_scheme \<Rightarrow> string \<Rightarrow> string \<Rightarrow> string \<Rightarrow> string \<Rightarrow> time \<Rightarrow> unit op" where
  "SubmitAssessmentAttempt dr cd learnerID attemptID responseText responseHash now =
     (if responseText = '''' \<and> responseHash = ''''
      then fails (err ''submit assessment attempt: response text or content hash is required'')
      else inTx dr (savepoint dr
             (submit_body (nested dr) cd learnerID attemptID responseText responseHash (clock_or dr now))))"

text \<open>The decision an attempt is bound to: it must exist for this scope at the current curriculum version, and its
  contract must be the attempt's. The result is the event protocol of the contract.\<close>

definition decision_protocol ::
    "Driver \<Rightarrow> 'z StoreCodec_scheme \<Rightarrow> learningScopeIDs \<Rightarrow> AssessmentAttempt \<Rightarrow> string op" where
  "decision_protocol dr cd scope a =
     bind_tx (wrap_tx ''create assessment attempt'' (rubric_tx (parse_rubric cd (aaRubricJSON a)))) (\<lambda>rubric.
     bind_tx (guard_tx (feq (aaPassingScore a) (rbPassingScore rubric))
                (err ''create assessment attempt: passing score contradicts frozen rubric'')) (\<lambda>_.
     bind_tx (if \<not> drPostgres dr then returns ()
              else bind_tx (sql dr ''share domain version'') (\<lambda>_.
                   reads (\<lambda>s. case find (\<lambda>d. dID d = aaDomainID a \<and> dLearnerID d = aaLearnerID a \<and>
                                  ltDomainTenantID s (dID d) = scTenantID scope) (ltDomains s) of
                       None \<Rightarrow> Inl ErrNoRows
                     | Some d \<Rightarrow> if dGraphVersion d \<noteq> aaCurriculumVersion a
                                 then Inl (err ''create assessment attempt: stale curriculum'') else Inr ()))) (\<lambda>_.
     bind_tx (wrap_tx ''create assessment attempt: decision unavailable or stale'' (
         bind_tx (sql dr ''select decision'') (\<lambda>_.
         reads (\<lambda>s. case ltDecisions s (aaDecisionID a) of
             None \<Rightarrow> Inl ErrNoRows
           | Some p \<Rightarrow>
               if drwTenantID p = scTenantID scope \<and> drwLearnerID p = aaLearnerID a \<and> drwDomainID p = aaDomainID a \<and>
                  drwSessionID p = aaSessionID a \<and>
                  (\<exists>d \<in> set (ltDomains s). dID d = drwDomainID p \<and> dGraphVersion d = drwCurriculumVersion p)
               then Inr (drwSnapshotJSON p) else Inl ErrNoRows)))) (\<lambda>payload.
     case cdDecision cd payload of
       None \<Rightarrow> fails (err ''json: invalid decision'')
     | Some decision \<Rightarrow>
         if pdLearningEventProtocol decision \<noteq> '''' \<and> pdLearningEventProtocol decision \<noteq> LearningEventProtocol
         then fails (err ''unsupported learning event protocol'')
         else if pdTargetConcept decision \<noteq> aaConceptID a \<or>
                 string_of_activity (pdRecommendedActivityType decision) \<noteq> aaActivityType a \<or>
                 pdCurriculumVersion decision \<noteq> aaCurriculumVersion a \<or>
                 pdCompetencyJSON decision \<noteq> aaCurriculumConceptJSON a
         then fails (err ''create assessment attempt: decision contract mismatch'')
         else returns (pdLearningEventProtocol decision)))))"

text \<open>The row that is inserted: the columns the statement does not name take their defaults.\<close>

definition prepared_row :: "AssessmentAttempt \<Rightarrow> AssessmentAttempt" where
  "prepared_row a = a\<lparr>aaCurriculumInvalidatedVersion := 0, aaResponseText := '''', aaResponseContentHash := '''',
     aaRubricScoreJSON := '''', aaScore := 0, aaPassed := False, aaEvaluatorID := '''',
     aaEvaluationMethod := EvaluationMethodOther '''', aaEvaluationProvenanceJSON := '''', aaTrustedEvaluation := False,
     aaPriorExposureAt := None, aaSubmittedAt := None, aaEvaluatedAt := None, aaCancelledAt := None\<rparr>"

text \<open>The attempt with the fields the function fills in before the insertion.\<close>

definition insert_attempt :: "Driver \<Rightarrow> AssessmentAttempt \<Rightarrow> unit op" where
  "insert_attempt dr a =
     wrap_tx ''create assessment attempt'' (
       bind_tx (sql dr ''insert attempt'') (\<lambda>_.
       bind_tx (reads (\<lambda>s. if ltAttempts s (aaID a) = None then Inr () else Inl (ErrDriver ''unique attempt id''))) (\<lambda>_.
       writes (\<lambda>s. s\<lparr>ltAttempts := (ltAttempts s)(aaID a \<mapsto> prepared_row a)\<rparr>))))"

definition createAssessmentAttempt :: "Driver \<Rightarrow> 'z StoreCodec_scheme \<Rightarrow> AssessmentAttempt \<Rightarrow> unit op" where
  "createAssessmentAttempt dr cd a =
     (if aaID a = '''' \<or> aaLearnerID a = '''' \<or> aaDomainID a = '''' \<or> aaConceptID a = '''' \<or> aaActivityID a = '''' \<or>
         aaActivityVersion a < 1 \<or> aaActivityType a = '''' \<or> aaObservable a = '''' \<or> aaRubricJSON a = ''''
      then fails (err ''create assessment attempt: required field missing'')
      else if aaTaskText a = '''' \<and> aaTaskContentHash a = ''''
      then fails (err ''create assessment attempt: task text or content hash is required'')
      else if aaStatus a \<noteq> AssessmentAttemptOther '''' \<and> aaStatus a \<noteq> AssessmentAttemptPrepared
      then fails (err ''create assessment attempt: initial status must be prepared'')
      else
        bind_tx (lockCurriculumForEvidence dr (aaLearnerID a) (aaDomainID a) (aaConceptID a)) (\<lambda>version.
        if aaCurriculumVersion a > 0 \<and> aaCurriculumVersion a \<noteq> version
        then fails (err ''create assessment attempt: stale curriculum'')
        else
          bind_tx (resolveLearningScope dr cd (aaLearnerID a) (aaDomainID a) (aaConceptID a)) (\<lambda>scope.
          bind_tx (if aaDecisionID a = '''' then returns '''' else decision_protocol dr cd scope a) (\<lambda>protocol.
          insert_attempt dr
            (a\<lparr>aaStatus := AssessmentAttemptPrepared, aaCreatedAt := clock_or dr (aaCreatedAt a), aaEventProtocol := protocol,
               aaOutcomeIDsJSON := (if aaOutcomeIDsJSON a = '''' then ''[]'' else aaOutcomeIDsJSON a)\<rparr>)))))"

text \<open>A nil attempt is rejected like one with a missing field.\<close>

definition CreateAssessmentAttempt :: "Driver \<Rightarrow> 'z StoreCodec_scheme \<Rightarrow> AssessmentAttempt option \<Rightarrow> unit op" where
  "CreateAssessmentAttempt dr cd a =
     inTx dr (case a of
         None \<Rightarrow> fails (err ''create assessment attempt: required field missing'')
       | Some a \<Rightarrow> createAssessmentAttempt (nested dr) cd a)"

section \<open>Reads\<close>

lemma pure_scope [intro!, simp]:
  "pure_tx (formationLearningScope dr l d k)" "pure_tx (resolveLearningScope dr cd l d c)"
  "pure_tx (lockCurriculumForEvidence dr l d c)" "pure_tx (lockLearningEventStream dr l d)"
  unfolding formationLearningScope_def resolveLearningScope_def lockCurriculumForEvidence_def lockLearningEventStream_def
  by (intro pure_bind pure_if pure_case_prod pure_basic)+

lemma pure_get [intro!, simp]:
  "pure_tx (getAssessmentAttempt dr l i)" "pure_tx (GetAssessmentAttempt dr l i)" "pure_tx (GetAssessmentAttemptForUpdate dr l i)"
  unfolding getAssessmentAttempt_def GetAssessmentAttempt_def GetAssessmentAttemptForUpdate_def
  by (intro pure_bind pure_wrap pure_scope pure_basic)+

lemma pure_rubric_tx [intro!, simp]: "pure_tx (rubric_tx r)"
  by (simp add: rubric_tx_def)

lemma pure_frozen_outcome [intro!, simp]: "pure_tx (frozen_outcome cd a j sc p)"
  unfolding frozen_outcome_def by (intro pure_bind pure_if pure_case_option pure_rubric_tx pure_basic)

lemma pure_decision_protocol [intro!, simp]: "pure_tx (decision_protocol dr cd scope a)"
  unfolding decision_protocol_def by (intro pure_bind pure_if pure_case_option pure_wrap pure_rubric_tx pure_basic)

lemma getAssessmentAttempt_Inr:
  "fst (getAssessmentAttempt dr l i s) = Inr a \<Longrightarrow> ltAttempts s i = Some a \<and> aaLearnerID a = l"
  by (auto simp: getAssessmentAttempt_def bind_tx_def wrap_tx_def sql_def guard_tx_def returns_def fails_def reads_def
      split: if_splits option.splits)

lemma bind_Inr:
  "fst (bind_tx m f s) = Inr y \<Longrightarrow> \<exists>x. fst (m s) = Inr x \<and> fst (f x (snd (m s))) = Inr y"
  by (auto simp: bind_tx_def split: prod.splits sum.splits)

lemma GetAssessmentAttemptForUpdate_Inr:
  "fst (GetAssessmentAttemptForUpdate dr l i s) = Inr a \<Longrightarrow> ltAttempts s i = Some a \<and> aaLearnerID a = l"
  unfolding GetAssessmentAttemptForUpdate_def
  by (elim bind_Inr[elim_format] exE conjE) (auto dest!: getAssessmentAttempt_Inr simp: pure_tx_def[THEN iffD1, OF pure_get(1), rule_format]
      pure_tx_def[THEN iffD1, OF pure_scope(3), rule_format])

section \<open>The life of an attempt\<close>

text \<open>The outcome an evaluation records: for an attempt bound to a decision it is the one its frozen rubric gives
  to the criterion scores.\<close>

definition outcome_ok :: "'z StoreCodec_scheme \<Rightarrow> AssessmentAttempt \<Rightarrow> string \<Rightarrow> f64 \<Rightarrow> bool \<Rightarrow> bool" where
  "outcome_ok cd a scoreJSON score passed \<longleftrightarrow>
     (aaDecisionID a \<noteq> '''' \<longrightarrow>
       (\<exists>raw rubric result. parse_rubric cd (aaRubricJSON a) = Inr rubric \<and> feq (rbPassingScore rubric) (aaPassingScore a) \<and>
          evaluate_json cd rubric raw = Inr result \<and> cdMarshal cd (JObj (arScore result)) = Some scoreJSON \<and>
          score = arTotal result \<and> passed = arPassed result))"

text \<open>The transitions of one attempt.\<close>

inductive attempt_step :: "'z StoreCodec_scheme \<Rightarrow> AssessmentAttempt \<Rightarrow> AssessmentAttempt \<Rightarrow> bool" for cd where
  submit: "aaStatus a = AssessmentAttemptPrepared \<Longrightarrow> aaCurriculumInvalidatedVersion a = 0 \<Longrightarrow> rt \<noteq> '''' \<or> rh \<noteq> '''' \<Longrightarrow>
    attempt_step cd a (a\<lparr>aaResponseText := rt, aaResponseContentHash := rh, aaStatus := AssessmentAttemptSubmitted,
      aaSubmittedAt := Some now, aaPriorExposureAt := prior\<rparr>)"
| evaluate: "aaStatus a = AssessmentAttemptSubmitted \<Longrightarrow> aaCurriculumInvalidatedVersion a = 0 \<Longrightarrow>
    outcome_ok cd a scoreJSON score passed \<Longrightarrow>
    attempt_step cd a (a\<lparr>aaRubricScoreJSON := scoreJSON, aaEvaluatorID := evaluator,
      aaEvaluationMethod := EvaluationMethodHostLLM, aaEvaluationProvenanceJSON := provenance, aaScore := score,
      aaPassed := passed, aaTrustedEvaluation := False, aaStatus := AssessmentAttemptEvaluated, aaEvaluatedAt := Some now\<rparr>)"
| cancel: "aaStatus a = AssessmentAttemptPrepared \<or> aaStatus a = AssessmentAttemptSubmitted \<Longrightarrow>
    attempt_step cd a (a\<lparr>aaStatus := AssessmentAttemptCancelled, aaCancelledAt := Some now\<rparr>)"

inductive_cases attempt_stepE: "attempt_step cd a b"

definition frozen_attempt :: "AssessmentAttempt \<Rightarrow> AssessmentAttempt" where
  "frozen_attempt a = prepared_row (a\<lparr>aaStatus := AssessmentAttemptPrepared\<rparr>)"

definition finished :: "AssessmentAttempt \<Rightarrow> bool" where
  "finished a \<longleftrightarrow> aaStatus a = AssessmentAttemptEvaluated \<or> aaStatus a = AssessmentAttemptCancelled"

definition attempt_ok :: "'z StoreCodec_scheme \<Rightarrow> AssessmentAttempt \<Rightarrow> bool" where
  "attempt_ok cd a \<longleftrightarrow>
     (case aaStatus a of
        AssessmentAttemptPrepared \<Rightarrow> aaSubmittedAt a = None \<and> aaEvaluatedAt a = None
      | AssessmentAttemptSubmitted \<Rightarrow>
          aaSubmittedAt a \<noteq> None \<and> aaEvaluatedAt a = None \<and> (aaResponseText a \<noteq> '''' \<or> aaResponseContentHash a \<noteq> '''')
      | AssessmentAttemptEvaluated \<Rightarrow>
          aaSubmittedAt a \<noteq> None \<and> aaEvaluatedAt a \<noteq> None \<and> (aaResponseText a \<noteq> '''' \<or> aaResponseContentHash a \<noteq> '''') \<and>
          \<not> aaTrustedEvaluation a \<and> outcome_ok cd a (aaRubricScoreJSON a) (aaScore a) (aaPassed a)
      | AssessmentAttemptCancelled \<Rightarrow> aaCancelledAt a \<noteq> None \<and> aaEvaluatedAt a = None
      | AssessmentAttemptOther _ \<Rightarrow> False)"

lemma attempt_step_frozen: "attempt_step cd a b \<Longrightarrow> frozen_attempt b = frozen_attempt a"
  by (induction rule: attempt_step.induct) (simp_all add: frozen_attempt_def prepared_row_def)

lemma attempt_step_ok: "attempt_step cd a b \<Longrightarrow> attempt_ok cd a \<Longrightarrow> attempt_ok cd b"
  by (induction rule: attempt_step.induct) (auto simp: attempt_ok_def outcome_ok_def)

lemma attempt_step_finished: "attempt_step cd a b \<Longrightarrow> \<not> finished a"
  by (induction rule: attempt_step.induct) (auto simp: finished_def)

text \<open>What one call may do to the table: at most one attempt changes, by a transition or by being created.\<close>

definition attempt_moves :: "'z StoreCodec_scheme \<Rightarrow> LearningStore \<Rightarrow> LearningStore \<Rightarrow> bool" where
  "attempt_moves cd s s' \<longleftrightarrow>
     ltAttempts s' = ltAttempts s \<or>
     (\<exists>i a b. ltAttempts s i = Some a \<and> attempt_step cd a b \<and> ltAttempts s' = (ltAttempts s)(i \<mapsto> b)) \<or>
     (\<exists>i a. ltAttempts s i = None \<and> aaStatus a = AssessmentAttemptPrepared \<and> prepared_row a = a \<and>
        ltAttempts s' = (ltAttempts s)(i \<mapsto> a))"

lemma attempt_moves_refl [intro!, simp]: "attempt_moves cd s s"
  by (simp add: attempt_moves_def)

lemma attempt_moves_cong: "ltAttempts t' = ltAttempts t \<Longrightarrow> attempt_moves cd s t' = attempt_moves cd s t"
  by (simp add: attempt_moves_def)

definition call_moves :: "'z StoreCodec_scheme \<Rightarrow> 'a op \<Rightarrow> bool" where
  "call_moves cd m \<longleftrightarrow> (\<forall>s. wp m (\<lambda>_. attempt_moves cd s) (\<lambda>_. attempt_moves cd s) s)"

lemma call_moves_pure: "pure_tx m \<Longrightarrow> call_moves cd m"
  by (simp add: call_moves_def wp_pureI)

lemma call_moves_inTx: "call_moves cd m \<Longrightarrow> call_moves cd (inTx dr m)"
  unfolding call_moves_def
proof
  fix s assume "\<forall>s. wp m (\<lambda>_. attempt_moves cd s) (\<lambda>_. attempt_moves cd s) s"
  then have "wp m (\<lambda>_. attempt_moves cd s) (\<lambda>_. attempt_moves cd s) s" ..
  then show "wp (inTx dr m) (\<lambda>_. attempt_moves cd s) (\<lambda>_. attempt_moves cd s) s"
    by (auto simp: wp_simps elim: wp_mono)
qed

lemma call_moves_savepoint: "call_moves cd m \<Longrightarrow> call_moves cd (savepoint dr m)"
  unfolding call_moves_def savepoint_def
  by (auto simp: wp_simps wp_def split: prod.splits sum.splits if_splits)

lemma wp_update_attempt:
  "wp (update_attempt dr st l i p f) R E = (\<lambda>s.
     if drFails dr st then E (ErrDriver st) s
     else case ltAttempts s i of
       Some a \<Rightarrow> if aaLearnerID a = l \<and> p a then R 1 (s\<lparr>ltAttempts := (ltAttempts s)(i \<mapsto> f a)\<rparr>) else R 0 s
     | None \<Rightarrow> R 0 s)"
  by (auto simp: fun_eq_iff wp_def update_attempt_def bind_tx_def sql_def guard_tx_def returns_def fails_def split: option.splits)

lemma cancel_moves: "call_moves cd (CancelAssessmentAttempt dr l i now)"
  by (auto simp: call_moves_def CancelAssessmentAttempt_def requireAssessmentTransition_def wp_simps wp_update_attempt
      attempt_moves_def split: option.splits intro: attempt_step.cancel)

lemma complete_untrusted_moves:
  assumes "ltAttempts s i = Some a" and "outcome_ok cd a j sc p"
  shows "wp (completeUntrustedAssessmentEvaluation dr l i j ev EvaluationMethodHostLLM pr sc p now)
           (\<lambda>_. attempt_moves cd s) (\<lambda>_. attempt_moves cd s) s"
  using assms
  by (auto simp: completeUntrustedAssessmentEvaluation_def requireAssessmentTransition_def wp_simps wp_update_attempt
      attempt_moves_def intro!: exI[of _ i] attempt_step.evaluate)

lemma frozen_outcome_Inr:
  "fst (frozen_outcome cd a j sc p s) = Inr (j', sc', p') \<Longrightarrow> outcome_ok cd a j' sc' p'"
  unfolding frozen_outcome_def outcome_ok_def rubric_tx_def
  by (auto simp: bind_tx_def returns_def fails_def lift_tx_def split: if_splits sum.splits option.splits)

lemma complete_moves: "call_moves cd (CompleteAssessmentEvaluation dr cd l i j ev m pr sc p now)"
proof -
  have "wp (GetAssessmentAttemptForUpdate dr l i) (\<lambda>a s'. s' = s \<and> ltAttempts s i = Some a) (\<lambda>_ s'. s' = s) s" for s
    by (auto simp: pure_wp split: sum.split dest: GetAssessmentAttemptForUpdate_Inr)
  note get = wp_mono[OF this]
  have "wp (frozen_outcome cd a j sc p) (\<lambda>(j', sc', p') s'. s' = s \<and> outcome_ok cd a j' sc' p') (\<lambda>_ s'. s' = s) s" for a s
    by (auto simp: pure_wp split: sum.split dest: frozen_outcome_Inr)
  note out = wp_mono[OF this]
  have "call_moves cd (bind_tx (GetAssessmentAttemptForUpdate dr l i) (\<lambda>attempt.
        if aaStatus attempt \<noteq> AssessmentAttemptSubmitted \<or> aaCurriculumInvalidatedVersion attempt \<noteq> 0
        then fails ErrAssessmentStateConflict
        else bind_tx (frozen_outcome cd attempt j sc p) (\<lambda>(j, sc, p).
             completeUntrustedAssessmentEvaluation dr l i j ev EvaluationMethodHostLLM pr sc p now)))"
    unfolding call_moves_def by (auto simp: wp_simps intro!: get out complete_untrusted_moves split: prod.splits)
  from call_moves_inTx[OF this, of dr] show ?thesis
    by (cases "m = EvaluationMethodHostLLM") (simp_all add: CompleteAssessmentEvaluation_def call_moves_pure cong: if_cong)
qed

text \<open>An evaluation that succeeds takes a submitted attempt to its final status; one that fails leaves the table or, when the
  commit fails, has already moved it.\<close>

lemma complete_run:
  "wp (CompleteAssessmentEvaluation dr cd l i j ev m pr sc p now)
     (\<lambda>_ s'. \<exists>a b. ltAttempts s i = Some a \<and> aaStatus a = AssessmentAttemptSubmitted \<and> attempt_step cd a b \<and>
        aaStatus b = AssessmentAttemptEvaluated \<and> s' = s\<lparr>ltAttempts := (ltAttempts s)(i \<mapsto> b)\<rparr>)
     (\<lambda>_ s'. attempt_moves cd s s') s"
  (is "wp _ ?R ?E s")
proof -
  have get: "wp (GetAssessmentAttemptForUpdate dr l i) (\<lambda>a s'. s' = s \<and> ltAttempts s i = Some a) (\<lambda>_ s'. s' = s) s"
    by (auto simp: pure_wp split: sum.split dest: GetAssessmentAttemptForUpdate_Inr)
  have out: "wp (frozen_outcome cd a j sc p) (\<lambda>(j', sc', p') s'. s' = s \<and> outcome_ok cd a j' sc' p') (\<lambda>_ s'. s' = s) s" for a
    by (auto simp: pure_wp split: sum.split dest: frozen_outcome_Inr)
  have fin: "wp (completeUntrustedAssessmentEvaluation dr l i j' ev EvaluationMethodHostLLM pr sc' p' now) ?R (\<lambda>_ s'. s' = s) s"
    if "ltAttempts s i = Some a" "outcome_ok cd a j' sc' p'" for a j' sc' p'
    using that
    by (auto simp: completeUntrustedAssessmentEvaluation_def requireAssessmentTransition_def wp_simps wp_update_attempt
        intro!: exI attempt_step.evaluate)
  have body: "wp (bind_tx (GetAssessmentAttemptForUpdate dr l i) (\<lambda>attempt.
        if aaStatus attempt \<noteq> AssessmentAttemptSubmitted \<or> aaCurriculumInvalidatedVersion attempt \<noteq> 0
        then fails ErrAssessmentStateConflict
        else bind_tx (frozen_outcome cd attempt j sc p) (\<lambda>(j, sc, p).
             completeUntrustedAssessmentEvaluation dr l i j ev EvaluationMethodHostLLM pr sc p now))) ?R (\<lambda>_ s'. s' = s) s"
    unfolding wp_bind
    apply (rule wp_mono[OF get])
    subgoal premises prems for a s'
      using prems by (simp add: wp_simps, intro impI wp_mono[OF out]) (auto intro!: wp_mono[OF fin])
    by simp
  show ?thesis
  proof (cases "m = EvaluationMethodHostLLM")
    case True
    from body have "wp (inTx dr (bind_tx (GetAssessmentAttemptForUpdate dr l i) (\<lambda>attempt.
        if aaStatus attempt \<noteq> AssessmentAttemptSubmitted \<or> aaCurriculumInvalidatedVersion attempt \<noteq> 0
        then fails ErrAssessmentStateConflict
        else bind_tx (frozen_outcome cd attempt j sc p) (\<lambda>(j, sc, p).
             completeUntrustedAssessmentEvaluation dr l i j ev EvaluationMethodHostLLM pr sc p now)))) ?R ?E s"
      by (intro wp_inTxI) (auto elim: wp_mono)
    then show ?thesis unfolding CompleteAssessmentEvaluation_def True by simp
  qed (simp add: CompleteAssessmentEvaluation_def wp_simps)
qed

lemma insertLearningEvent_keeps: "wp (insertLearningEvent dr t l e ev) (\<lambda>_ s'. ltAttempts s' = ltAttempts s) (\<lambda>_ s'. ltAttempts s' = ltAttempts s) s"
  by (auto simp: insertLearningEvent_def wp_simps)

lemma insertLearningEvent_moves:
  assumes "attempt_moves cd s t"
  shows "wp (insertLearningEvent dr tn l e ev) (\<lambda>_. attempt_moves cd s) (\<lambda>_. attempt_moves cd s) t"
  by (rule wp_mono[OF insertLearningEvent_keeps]) (simp_all add: attempt_moves_cong[THEN iffD2, OF _ assms])

lemma submit_body_moves:
  assumes "rt \<noteq> '''' \<or> rh \<noteq> ''''"
  shows "call_moves cd (submit_body dr cd' l i rt rh now)"
proof -
  have step: "attempt_moves cd s (s\<lparr>ltAttempts := (ltAttempts s)(i \<mapsto> a\<lparr>aaResponseText := rt, aaResponseContentHash := rh,
        aaStatus := AssessmentAttemptSubmitted, aaSubmittedAt := Some now, aaPriorExposureAt := prior\<rparr>)\<rparr>)"
    if "ltAttempts s i = Some a" "aaStatus a = AssessmentAttemptPrepared" "aaCurriculumInvalidatedVersion a = 0" for s a prior
    unfolding attempt_moves_def
    by (intro disjI2 disjI1 exI[of _ i] exI conjI) (use that assms in \<open>auto intro: attempt_step.submit\<close>)
  show ?thesis
    unfolding call_moves_def submit_body_def
    by (auto simp: wp_simps wp_update_attempt requireAssessmentTransition_def split: option.splits
        intro!: wp_pureI[OF pure_get(2)] wp_pureI[OF pure_get(3)] wp_pureI[OF pure_scope(1)] wp_pureI[OF pure_scope(2)]
          wp_pureI[OF pure_scope(4)] insertLearningEvent_moves step)
qed

lemma submit_moves: "call_moves cd (SubmitAssessmentAttempt dr cd' l i rt rh now)"
  by (auto simp: SubmitAssessmentAttempt_def intro: call_moves_pure call_moves_inTx call_moves_savepoint submit_body_moves)

lemma insert_attempt_moves:
  assumes "aaStatus a = AssessmentAttemptPrepared"
  shows "wp (insert_attempt dr a) (\<lambda>_. attempt_moves cd s) (\<lambda>_. attempt_moves cd s) s"
proof -
  have "prepared_row (prepared_row a) = prepared_row a" "aaStatus (prepared_row a) = AssessmentAttemptPrepared"
    using assms by (simp_all add: prepared_row_def)
  then show ?thesis by (auto simp: insert_attempt_def wp_simps attempt_moves_def)
qed

lemma create_moves: "call_moves cd (CreateAssessmentAttempt dr cd' a)"
proof -
  have "call_moves cd (createAssessmentAttempt (nested dr) cd' b)" for b
    unfolding call_moves_def createAssessmentAttempt_def
    by (auto simp: wp_simps intro!: wp_pureI[OF pure_scope(3)] wp_pureI[OF pure_scope(2)] wp_pureI[OF pure_decision_protocol]
        insert_attempt_moves)
  then show ?thesis unfolding CreateAssessmentAttempt_def by (cases a) (auto intro: call_moves_inTx call_moves_pure)
qed

section \<open>Histories of calls\<close>

datatype attempt_call =
    CallCreate "AssessmentAttempt option"
  | CallSubmit string string string string time
  | CallComplete string string string string EvaluationMethod string f64 bool time
  | CallCancel string string time

fun attempt_op :: "Driver \<Rightarrow> 'z StoreCodec_scheme \<Rightarrow> attempt_call \<Rightarrow> unit op" where
  "attempt_op dr cd (CallCreate a) = CreateAssessmentAttempt dr cd a"
| "attempt_op dr cd (CallSubmit l i rt rh now) = SubmitAssessmentAttempt dr cd l i rt rh now"
| "attempt_op dr cd (CallComplete l i j ev m pr sc p now) = CompleteAssessmentEvaluation dr cd l i j ev m pr sc p now"
| "attempt_op dr cd (CallCancel l i now) = CancelAssessmentAttempt dr l i now"

definition attempt_history :: "'z StoreCodec_scheme \<Rightarrow> (Driver \<times> attempt_call) list \<Rightarrow> LearningStore \<Rightarrow> LearningStore" where
  "attempt_history cd calls s = fold (\<lambda>(dr, c) s. snd (attempt_op dr cd c s)) calls s"

lemma attempt_history_simps [simp]:
  "attempt_history cd [] s = s"
  "attempt_history cd ((dr, c) # calls) s = attempt_history cd calls (snd (attempt_op dr cd c s))"
  by (simp_all add: attempt_history_def)

lemma attempt_op_moves: "attempt_moves cd s (snd (attempt_op dr cd c s))"
proof -
  have "call_moves cd (attempt_op dr cd c)"
    by (cases c) (simp_all add: create_moves submit_moves complete_moves cancel_moves)
  then have "wp (attempt_op dr cd c) (\<lambda>_. attempt_moves cd s) (\<lambda>_. attempt_moves cd s) s"
    unfolding call_moves_def ..
  then show ?thesis by (cases "attempt_op dr cd c s") (auto simp: wp_def split: sum.splits)
qed

lemma attempt_moves_row:
  assumes "attempt_moves cd s s'" and "ltAttempts s i = Some a"
  shows "\<exists>b. ltAttempts s' i = Some b \<and> (a = b \<or> attempt_step cd a b)"
  using assms unfolding attempt_moves_def by (auto split: if_splits)

lemma attempt_moves_origin:
  assumes "attempt_moves cd s s'" and "ltAttempts s' i = Some b"
  shows "(\<exists>a. ltAttempts s i = Some a \<and> (a = b \<or> attempt_step cd a b)) \<or>
    (ltAttempts s i = None \<and> aaStatus b = AssessmentAttemptPrepared \<and> prepared_row b = b)"
  using assms unfolding attempt_moves_def by (auto split: if_splits)

lemma attempt_moves_ok:
  assumes "attempt_moves cd s s'" and "\<forall>a \<in> ran (ltAttempts s). attempt_ok cd a"
  shows "\<forall>a \<in> ran (ltAttempts s'). attempt_ok cd a"
proof -
  have new: "attempt_ok cd a" if "aaStatus a = AssessmentAttemptPrepared" "prepared_row a = a" for a
  proof -
    have "aaSubmittedAt (prepared_row a) = None" "aaEvaluatedAt (prepared_row a) = None"
      by (simp_all add: prepared_row_def)
    with that show ?thesis by (simp add: attempt_ok_def)
  qed
  have old: "attempt_ok cd a" if "ltAttempts s i = Some a" for i a using assms(2) that by (auto simp: ran_def)
  have "attempt_ok cd b" if "ltAttempts s' i = Some b" for i b
    using attempt_moves_origin[OF assms(1) that] new old attempt_step_ok by blast
  then show ?thesis by (auto simp: ran_def)
qed

lemma attempt_history_row:
  assumes "ltAttempts s i = Some a"
  shows "\<exists>b. ltAttempts (attempt_history cd calls s) i = Some b \<and> (attempt_step cd)\<^sup>*\<^sup>* a b"
  using assms
proof (induction calls arbitrary: s a)
  case (Cons x calls)
  obtain dr c where x: "x = (dr, c)" by (cases x)
  obtain b where b: "ltAttempts (snd (attempt_op dr cd c s)) i = Some b" "a = b \<or> attempt_step cd a b"
    using attempt_moves_row[OF attempt_op_moves Cons.prems] by blast
  with Cons.IH[OF b(1)] show ?case
    by (auto simp: x intro: converse_rtranclp_into_rtranclp)
qed simp

lemma attempt_steps_frozen: "(attempt_step cd)\<^sup>*\<^sup>* a b \<Longrightarrow> frozen_attempt b = frozen_attempt a"
  by (induction rule: rtranclp_induct) (simp_all add: attempt_step_frozen)

lemma attempt_steps_finished: "(attempt_step cd)\<^sup>*\<^sup>* a b \<Longrightarrow> finished a \<Longrightarrow> b = a"
  by (auto elim: converse_rtranclpE dest: attempt_step_finished)

lemma attempt_history_ok:
  "\<forall>a \<in> ran (ltAttempts s). attempt_ok cd a \<Longrightarrow> \<forall>a \<in> ran (ltAttempts (attempt_history cd calls s)). attempt_ok cd a"
proof (induction calls arbitrary: s)
  case (Cons x calls)
  obtain dr c where x: "x = (dr, c)" by (cases x)
  from Cons.IH[OF attempt_moves_ok[OF attempt_op_moves Cons.prems]] show ?case by (simp add: x)
qed simp

section \<open>An example store\<close>

definition example_store_codec :: StoreCodec where
  "example_store_codec = \<lparr>lbTokens = (\<lambda>_. []), lbFits = (\<lambda>_. True), lbDecimal = (\<lambda>x. x), lbFloat64 = Fin, lbLetterOrDigit = (\<lambda>_. False), jcAdjudicationID = (\<lambda>_. None),
     cdDecision = (\<lambda>_. None), cdMarshal = (\<lambda>_. Some ''{}''), cdDigest = id, cdLegacyScope = (\<lambda>_ _ _. Inr empty_scope)\<rparr>"

definition example_course :: Domain where
  "example_course = \<lparr>dID = ''d'', dLearnerID = ''l'', dName = '''', dPersonalGoal = '''',
     dGraph = \<lparr>ksConcepts = [''c''], ksPrerequisites = Map.empty\<rparr>, dArchived = False, dHighStakes = False,
     dGraphVersion = 1, dGoalRelevanceJSON = '''', dGoalRelevanceVersion = 0, dPhase = PhaseInstruction,
     dPhaseChangedAt = 0, dPhaseEntryEntropy = 0, dCreatedAt = 0, dDeletedAt = None\<rparr>"

definition example_tables :: LearningStore where
  "example_tables = \<lparr>ltDomains = [example_course], ltDomainTenantID = (\<lambda>_. ''t''), ltFormationEnrollmentID = (\<lambda>_. ''''),
     ltEnrollments = Map.empty, ltConceptMappings = Map.empty, ltDecisions = Map.empty,
     ltAttempts = [''a'' \<mapsto> frozen_attempt example_attempt], ltEvents = [], ltLearners = {''l''}, ltSessions = [], ltStates = Map.empty,
     ltInteractions = [], ltTransfers = [], ltSnapshots = [],
     ltCollective = empty_weights, ltEstimates = Map.empty\<rparr>"

definition example_calls :: "(Driver \<times> attempt_call) list" where
  "example_calls =
     [(quiet_driver, CallSubmit ''l'' ''a'' ''r'' '''' 5),
      (quiet_driver, CallComplete ''l'' ''a'' ''{}'' ''h'' EvaluationMethodHostLLM '''' 1 True 6),
      (quiet_driver, CallCancel ''l'' ''a'' 7)]"

lemmas run_defs = bind_tx_def wrap_tx_def sql_def guard_tx_def returns_def fails_def reads_def writes_def lift_tx_def
  inTx_def atomic_def

lemma example_live: "live_domain example_tables ''l'' ''d'' = Some example_course"
  by (simp add: live_domain_def example_tables_def example_course_def)

lemma example_history_status:
  "map_option aaStatus (ltAttempts (attempt_history example_store_codec example_calls example_tables) ''a'') =
     Some AssessmentAttemptEvaluated"
  by (simp add: example_calls_def SubmitAssessmentAttempt_def submit_body_def CompleteAssessmentEvaluation_def
      CancelAssessmentAttempt_def completeUntrustedAssessmentEvaluation_def requireAssessmentTransition_def
      update_attempt_def GetAssessmentAttempt_def GetAssessmentAttemptForUpdate_def getAssessmentAttempt_def
      lockCurriculumForEvidence_def formationLearningScope_def live_domain_def resolveLearningScope_def frozen_outcome_def
      lockLearningEventStream_def last_exposure_def insertLearningEvent_def savepoint_def nested_def clock_or_def
      quiet_driver_def example_store_codec_def example_tables_def example_course_def example_attempt_def
      frozen_attempt_def prepared_row_def LearningEventProtocol_def empty_scope_def run_defs Let_def)


section \<open>Properties\<close>

text \<open>C3. Whatever sequence of create, submit, evaluate and cancel calls runs, on any database driver, inside or
  outside a caller's transaction and whichever statements fail: an attempt is never lost, its task, rubric and scope
  never change after it was prepared, it moves only along prepared, submitted, evaluated or prepared/submitted,
  cancelled, an evaluated or cancelled attempt is final, and every stored attempt keeps its invariant: an evaluated
  attempt has a response and two timestamps, is not trusted, and when it is bound to a decision carries exactly the
  score and verdict its frozen rubric gives.\<close>

theorem attempt_life_cycle:
  assumes "\<forall>a \<in> ran (ltAttempts s). attempt_ok cd a"
  shows "(\<forall>a \<in> ran (ltAttempts (attempt_history cd calls s)). attempt_ok cd a) \<and>
    (\<forall>i a. ltAttempts s i = Some a \<longrightarrow>
       (\<exists>b. ltAttempts (attempt_history cd calls s) i = Some b \<and> (attempt_step cd)\<^sup>*\<^sup>* a b \<and>
          frozen_attempt b = frozen_attempt a \<and> (finished a \<longrightarrow> b = a)))"
  using attempt_history_ok[OF assms] attempt_history_row attempt_steps_frozen attempt_steps_finished by blast

theorem attempt_life_cycle_witness:
  "\<exists>b. ltAttempts (attempt_history example_store_codec example_calls example_tables) ''a'' = Some b \<and>
     aaStatus b = AssessmentAttemptEvaluated \<and> frozen_attempt b = frozen_attempt example_attempt"
proof -
  have row: "ltAttempts example_tables = [''a'' \<mapsto> frozen_attempt example_attempt]" by (simp add: example_tables_def)
  have ok: "\<forall>a \<in> ran (ltAttempts example_tables). attempt_ok example_store_codec a"
    by (simp add: row attempt_ok_def frozen_attempt_def prepared_row_def)
  have "frozen_attempt (frozen_attempt example_attempt) = frozen_attempt example_attempt"
    by (simp add: frozen_attempt_def prepared_row_def)
  then show ?thesis
    using attempt_life_cycle[OF ok, of example_calls, THEN conjunct2, rule_format, of "''a''" "frozen_attempt example_attempt"]
      example_history_status by (auto simp: row)
qed

end
