(* ===== verification/Learning_Sessions.thy ===== *)
theory Learning_Sessions
  imports Attempts
begin

text \<open>
  Learning sessions (\<open>db/learning_sessions.go\<close>, \<open>models/session.go\<close>): opening or resuming the session of a
  learner, touching and closing it, and the automatic end of a session that stayed idle. The table is the list of
  its rows; its primary key and the unique index on the open session of a learner
  (\<open>idx_learning_sessions_one_open\<close>) make an insert that conflicts do nothing. The identifier that
  \<open>generateID\<close> draws is an argument.
\<close>

section \<open>Operations\<close>

definition LearningSessionIdleTimeout :: duration where
  "LearningSessionIdleTimeout = 4 * hour"

definition learningSessionIdleCutoff :: "time \<Rightarrow> time" where
  "learningSessionIdleCutoff now = now - LearningSessionIdleTimeout"

text \<open>\<open>UPDATE learning_sessions SET .. WHERE ..\<close>.\<close>

definition update_sessions :: "(LearningSession \<Rightarrow> bool) \<Rightarrow> (LearningSession \<Rightarrow> LearningSession) \<Rightarrow> LearningStore \<Rightarrow> LearningStore" where
  "update_sessions g f s = s\<lparr>ltSessions := map (\<lambda>ls. if g ls then f ls else ls) (ltSessions s)\<rparr>"

definition is_open :: "string \<Rightarrow> LearningSession \<Rightarrow> bool" where
  "is_open learnerID ls \<longleftrightarrow> lsLearnerID ls = learnerID \<and> lsStatus ls = LearningSessionStatusOpen"

definition active_at :: "time \<Rightarrow> LearningSession \<Rightarrow> LearningSession" where
  "active_at now ls = ls\<lparr>lsLastActiveAt := (if lsLastActiveAt ls < now then now else lsLastActiveAt ls)\<rparr>"

definition closeStaleLearningSessions :: "Driver \<Rightarrow> string \<Rightarrow> time \<Rightarrow> unit op" where
  "closeStaleLearningSessions dr learnerID now =
     bind_tx (wrap_tx ''close stale learning sessions'' (sql dr ''close stale sessions'')) (\<lambda>_.
     writes (update_sessions (\<lambda>ls. is_open learnerID ls \<and> lsLastActiveAt ls < learningSessionIdleCutoff now)
       (\<lambda>ls. ls\<lparr>lsStatus := LearningSessionStatusClosed, lsClosedAt := Some (lsLastActiveAt ls)\<rparr>)))"

definition GetLearningSession :: "Driver \<Rightarrow> string \<Rightarrow> string \<Rightarrow> LearningSession op" where
  "GetLearningSession dr learnerID sessionID =
     bind_tx (wrap_tx ''get learning session'' (sql dr ''select session'')) (\<lambda>_.
     reads (\<lambda>s. case find (\<lambda>ls. lsID ls = sessionID \<and> lsLearnerID ls = learnerID) (ltSessions s) of
         Some ls \<Rightarrow> Inr ls | None \<Rightarrow> Inl (ErrWrap ''learning session not found'' ErrNotFound)))"

definition GetActiveLearningSession :: "Driver \<Rightarrow> string \<Rightarrow> LearningSession op" where
  "GetActiveLearningSession dr learnerID =
     bind_tx (wrap_tx ''get active learning session'' (sql dr ''select session'')) (\<lambda>_.
     reads (\<lambda>s. case find (\<lambda>ls. is_open learnerID ls \<and> lsLastActiveAt ls \<ge> learningSessionIdleCutoff (drNow dr)) (ltSessions s) of
         Some ls \<Rightarrow> Inr ls | None \<Rightarrow> Inl (ErrWrap ''active learning session not found'' ErrNotFound)))"

definition TouchLearningSession :: "Driver \<Rightarrow> string \<Rightarrow> string \<Rightarrow> time \<Rightarrow> LearningSession op" where
  "TouchLearningSession dr learnerID sessionID now =
     (let now = clock_or dr now; hit = (\<lambda>ls. lsID ls = sessionID \<and> is_open learnerID ls) in
      bind_tx (wrap_tx ''touch learning session'' (sql dr ''touch session'')) (\<lambda>_.
      bind_tx (reads (\<lambda>s. Inr (int (length (filter hit (ltSessions s)))))) (\<lambda>rows.
      bind_tx (writes (update_sessions hit (active_at now))) (\<lambda>_.
      if rows = 0 then fails (ErrWrap ''open learning session not found'' ErrNotFound)
      else GetLearningSession dr learnerID sessionID))))"

definition CloseLearningSession :: "Driver \<Rightarrow> string \<Rightarrow> string \<Rightarrow> time \<Rightarrow> LearningSession op" where
  "CloseLearningSession dr learnerID sessionID now =
     (let now = clock_or dr now in
      bind_tx (wrap_tx ''close learning session'' (sql dr ''close session'')) (\<lambda>_.
      bind_tx (writes (update_sessions (\<lambda>ls. lsID ls = sessionID \<and> is_open learnerID ls)
        (\<lambda>ls. (active_at now ls)\<lparr>lsStatus := LearningSessionStatusClosed, lsClosedAt := Some now\<rparr>))) (\<lambda>_.
      bind_tx (\<lambda>s. case GetLearningSession dr learnerID sessionID s of
          (Inl e, s') \<Rightarrow> (Inl (ErrWrap (if errors_is e ErrNotFound then ''learning session not found'' else ''read closed learning session'') e), s')
        | r \<Rightarrow> r) (\<lambda>session.
      if lsStatus session \<noteq> LearningSessionStatusClosed then fails (err ''learning session could not be closed'')
      else returns session))))"

text \<open>\<open>INSERT .. ON CONFLICT DO NOTHING\<close>.\<close>

definition insert_session :: "LearningSession \<Rightarrow> LearningStore \<Rightarrow> LearningStore" where
  "insert_session new s =
     (if \<exists>ls \<in> set (ltSessions s). lsID ls = lsID new \<or> is_open (lsLearnerID new) ls then s
      else s\<lparr>ltSessions := ltSessions s @ [new]\<rparr>)"

definition resumed :: "string \<Rightarrow> time \<Rightarrow> LearningSession \<Rightarrow> LearningSession" where
  "resumed domainID now ls = (active_at now ls)\<lparr>lsDomainID := (if domainID \<noteq> '''' then domainID else lsDomainID ls)\<rparr>"

definition resume_session :: "Driver \<Rightarrow> string \<Rightarrow> string \<Rightarrow> string \<Rightarrow> time \<Rightarrow> LearningSession \<Rightarrow> LearningSession op" where
  "resume_session dr what learnerID domainID now session =
     bind_tx (wrap_tx what (sql dr ''resume session'')) (\<lambda>_.
     bind_tx (writes (update_sessions (\<lambda>ls. lsID ls = lsID session \<and> is_open learnerID ls) (resumed domainID now))) (\<lambda>_.
     returns (resumed domainID now session)))"

definition open_body :: "Driver \<Rightarrow> 'z StoreCodec_scheme \<Rightarrow> string \<Rightarrow> string \<Rightarrow> string \<Rightarrow> time \<Rightarrow> LearningSession op" where
  "open_body dr cd learnerID domainID requestedID now =
     bind_tx (wrap_tx ''resolve session enrollment'' (resolveLearningScope dr cd learnerID domainID '''')) (\<lambda>_.
     bind_tx (closeStaleLearningSessions dr learnerID now) (\<lambda>_.
     bind_tx (wrap_tx ''insert learning session'' (sql dr ''insert session'')) (\<lambda>_.
     bind_tx (writes (insert_session \<lparr>lsID = requestedID, lsLearnerID = learnerID, lsDomainID = domainID,
        lsStatus = LearningSessionStatusOpen, lsStartedAt = now, lsLastActiveAt = now, lsClosedAt = None\<rparr>)) (\<lambda>_.
     bind_tx (wrap_tx ''read requested learning session'' (sql dr ''select requested session'')) (\<lambda>_.
     bind_tx (reads (\<lambda>s. Inr (find (\<lambda>ls. lsID ls = requestedID \<and> lsLearnerID ls = learnerID) (ltSessions s)))) (\<lambda>requested.
     case requested of
       Some session \<Rightarrow>
         if lsStatus session \<noteq> LearningSessionStatusOpen then fails ErrLearningSessionClosed
         else resume_session dr ''resume learning session'' learnerID domainID now session
     | None \<Rightarrow>
         bind_tx (wrap_tx ''read active learning session'' (sql dr ''select active session'')) (\<lambda>_.
         bind_tx (reads (\<lambda>s. Inr (find (is_open learnerID) (ltSessions s)))) (\<lambda>active.
         case active of
           None \<Rightarrow> fails (err ''learning session id is unavailable'')
         | Some session \<Rightarrow> resume_session dr ''resume active learning session'' learnerID domainID now session))))))))"

definition OpenLearningSession ::
    "Driver \<Rightarrow> 'z StoreCodec_scheme \<Rightarrow> goerr + string \<Rightarrow> string \<Rightarrow> string \<Rightarrow> string \<Rightarrow> time \<Rightarrow> LearningSession op" where
  "OpenLearningSession dr cd generated learnerID domainID requestedID now =
     (if learnerID = '''' then fails (err ''learner is required'')
      else
        bind_tx (wrap_tx ''validate learning session learner'' (sql dr ''count learners'')) (\<lambda>_.
        bind_tx (reads (\<lambda>s. if learnerID \<in> ltLearners s then Inr () else Inl (err ''learning session learner not found''))) (\<lambda>_.
        bind_tx (if domainID = '''' then returns ()
           else bind_tx (wrap_tx ''validate learning session domain'' (sql dr ''count domains'')) (\<lambda>_.
                reads (\<lambda>s. if length (filter (\<lambda>d. dID d = domainID \<and> dLearnerID d = learnerID \<and> \<not> dArchived d) (ltDomains s)) = 1
                           then Inr () else Inl (err ''learning session domain not found'')))) (\<lambda>_.
        bind_tx (if requestedID \<noteq> '''' then returns requestedID
           else bind_tx (wrap_tx ''generate learning session id'' (lift_tx generated)) (\<lambda>g. returns (''sess_'' @ g))) (\<lambda>requestedID.
        inTx dr (open_body (nested dr) cd learnerID domainID requestedID (clock_or dr now)))))))"

section \<open>Which table the operations touch\<close>

abbreviation but_sessions :: "LearningStore \<Rightarrow> LearningStore" where "but_sessions s \<equiv> s\<lparr>ltSessions := []\<rparr>"

lemma pure_GetLearningSession [intro!, simp]: "pure_tx (GetLearningSession dr l i)" "pure_tx (GetActiveLearningSession dr l)"
  unfolding GetLearningSession_def GetActiveLearningSession_def by (intro pure_bind pure_wrap pure_basic)+

lemma touch_only_sessions: "related (\<lambda>s s'. but_sessions s' = but_sessions s) (TouchLearningSession dr l i now)"
  unfolding TouchLearningSession_def
  by (intro same.rules same.update pure_GetLearningSession[THEN same.pure]) (simp add: update_sessions_def)

lemma close_only_sessions: "related (\<lambda>s s'. but_sessions s' = but_sessions s) (CloseLearningSession dr l i now)"
proof -
  have "related (\<lambda>s s'. but_sessions s' = but_sessions s)
      (\<lambda>s. case GetLearningSession dr l i s of (Inl e, s') \<Rightarrow> (Inl (F e), s') | r \<Rightarrow> r)" for F
    by (rule related_raw) (use pure_GetLearningSession(1)[of dr l i] in \<open>auto simp: pure_tx_def split: prod.splits sum.splits, (metis snd_conv)+\<close>)
  then show ?thesis
    unfolding CloseLearningSession_def by (intro same.rules same.update) (simp_all add: update_sessions_def)
qed

lemma open_only_sessions: "related (\<lambda>s s'. but_sessions s' = but_sessions s) (OpenLearningSession dr cd g l d r now)"
  unfolding OpenLearningSession_def open_body_def resume_session_def closeStaleLearningSessions_def
  by (intro same.rules same.update pure_scope[THEN same.pure]) (simp_all add: update_sessions_def insert_session_def)

lemma only_sessions: "but_sessions s' = but_sessions s \<Longrightarrow> \<exists>ses. s' = s\<lparr>ltSessions := ses\<rparr>"
  by (intro exI[of _ "ltSessions s'"], cases s, cases s') simp

section \<open>One open session per learner, immutable history\<close>

definition session_ok :: "LearningSession \<Rightarrow> bool" where
  "session_ok ls \<longleftrightarrow> (lsStatus ls = LearningSessionStatusOpen \<longleftrightarrow> lsClosedAt ls = None) \<and> lsStartedAt ls \<le> lsLastActiveAt ls"

definition sessions_ok :: "LearningSession list \<Rightarrow> bool" where
  "sessions_ok rows \<longleftrightarrow> distinct (map lsID rows) \<and> (\<forall>l. length (filter (is_open l) rows) \<le> 1) \<and> (\<forall>ls \<in> set rows. session_ok ls)"

text \<open>What may happen to a row: it keeps its identity, its activity only moves forward, and once closed it is final.\<close>

definition advances :: "LearningSession \<Rightarrow> LearningSession \<Rightarrow> bool" where
  "advances ls ls' \<longleftrightarrow> lsID ls' = lsID ls \<and> lsLearnerID ls' = lsLearnerID ls \<and> lsStartedAt ls' = lsStartedAt ls \<and>
     lsLastActiveAt ls \<le> lsLastActiveAt ls' \<and> (lsStatus ls = LearningSessionStatusClosed \<longrightarrow> ls' = ls)"

lemma advances_refl [simp]: "advances ls ls"
  by (simp add: advances_def)

lemma advances_trans: "advances a b \<Longrightarrow> advances b c \<Longrightarrow> advances a c"
  by (auto simp: advances_def)

definition session_moves :: "LearningStore \<Rightarrow> LearningStore \<Rightarrow> bool" where
  "session_moves s s' \<longleftrightarrow> (sessions_ok (ltSessions s) \<longrightarrow> sessions_ok (ltSessions s')) \<and>
     (\<forall>ls \<in> set (ltSessions s). \<exists>ls' \<in> set (ltSessions s'). advances ls ls')"

lemma session_moves_refl [simp]: "session_moves s s"
  unfolding session_moves_def using advances_refl by blast

lemma session_moves_trans: "session_moves s t \<Longrightarrow> session_moves t u \<Longrightarrow> session_moves s u"
  unfolding session_moves_def by (meson advances_trans)

interpretation moves: store_relation session_moves
  by unfold_locales (auto intro: session_moves_trans)

text \<open>An update that the code makes changes open rows only.\<close>

definition session_step :: "(LearningSession \<Rightarrow> bool) \<Rightarrow> (LearningSession \<Rightarrow> LearningSession) \<Rightarrow> bool" where
  "session_step g f \<longleftrightarrow> (\<forall>ls. g ls \<longrightarrow> lsStatus ls = LearningSessionStatusOpen \<and> advances ls (f ls) \<and> (session_ok ls \<longrightarrow> session_ok (f ls)))"

lemma length_filter_map_le: "(\<And>x. P (f x) \<Longrightarrow> P x) \<Longrightarrow> length (filter P (map f xs)) \<le> length (filter P xs)"
  by (induction xs) (auto simp: le_SucI)

lemma update_moves: "session_step g f \<Longrightarrow> session_moves s (update_sessions g f s)"
proof -
  assume st: "session_step g f"
  let ?F = "\<lambda>ls. if g ls then f ls else ls"
  have id: "map lsID (map ?F rows) = map lsID rows" for rows
    using st by (auto simp: session_step_def advances_def)
  have adv: "advances ls (?F ls)" "session_ok ls \<Longrightarrow> session_ok (?F ls)" for ls
    using st by (auto simp: session_step_def)
  have "is_open l (?F ls) \<Longrightarrow> is_open l ls" for l ls
    using st by (auto simp: session_step_def is_open_def advances_def split: if_splits)
  from length_filter_map_le[of "is_open l" ?F for l, OF this]
  have op: "length (filter (is_open l) (map ?F rows)) \<le> length (filter (is_open l) rows)" for l rows .
  have "sessions_ok (map ?F rows)" if ok: "sessions_ok rows" for rows
  proof -
    have "\<forall>ls \<in> set (map ?F rows). session_ok ls" using ok adv(2) unfolding sessions_ok_def set_map by blast
    then show ?thesis using ok le_trans[OF op] unfolding sessions_ok_def id by blast
  qed
  moreover have "\<forall>ls \<in> set rows. \<exists>ls' \<in> set (map ?F rows). advances ls ls'" for rows
    using adv(1) unfolding set_map by blast
  moreover have "ltSessions (update_sessions g f s) = map ?F (ltSessions s)" by (simp add: update_sessions_def)
  ultimately show ?thesis unfolding session_moves_def by simp
qed

lemma insert_moves:
  assumes "session_ok new"
  shows "session_moves s (insert_session new s)"
proof (cases "\<exists>ls \<in> set (ltSessions s). lsID ls = lsID new \<or> is_open (lsLearnerID new) ls")
  case True
  then show ?thesis by (simp add: insert_session_def moves.rel_refl)
next
  case False
  then have none: "filter (is_open (lsLearnerID new)) (ltSessions s) = []" by (auto simp: filter_empty_conv)
  have "length (filter (is_open l) (ltSessions s @ [new])) \<le> 1" if "sessions_ok (ltSessions s)" for l
  proof (cases "l = lsLearnerID new")
    case True
    then show ?thesis using none by simp
  next
    case False
    then show ?thesis using that by (simp add: sessions_ok_def is_open_def)
  qed
  then show ?thesis
    using False assms by (auto simp: insert_session_def session_moves_def sessions_ok_def intro: bexI advances_refl)
qed

lemma active_at_simps [simp]:
  "lsID (active_at now ls) = lsID ls" "lsLearnerID (active_at now ls) = lsLearnerID ls" "lsStatus (active_at now ls) = lsStatus ls"
  "lsStartedAt (active_at now ls) = lsStartedAt ls" "lsDomainID (active_at now ls) = lsDomainID ls"
  "lsClosedAt (active_at now ls) = lsClosedAt ls" "lsLastActiveAt (active_at now ls) = max (lsLastActiveAt ls) now"
  by (auto simp: active_at_def)

lemma code_steps:
  "session_step (\<lambda>ls. is_open l ls \<and> lsLastActiveAt ls < c)
     (\<lambda>ls. ls\<lparr>lsStatus := LearningSessionStatusClosed, lsClosedAt := Some (lsLastActiveAt ls)\<rparr>)"
  "session_step (\<lambda>ls. lsID ls = i \<and> is_open l ls) (active_at now)"
  "session_step (\<lambda>ls. lsID ls = i \<and> is_open l ls)
     (\<lambda>ls. (active_at now ls)\<lparr>lsStatus := LearningSessionStatusClosed, lsClosedAt := Some now\<rparr>)"
  "session_step (\<lambda>ls. lsID ls = i \<and> is_open l ls) (resumed d now)"
  by (auto simp: session_step_def is_open_def advances_def session_ok_def resumed_def)

lemmas session_rules = moves.rules moves.update update_moves code_steps pure_GetLearningSession[THEN moves.pure]
  pure_scope[THEN moves.pure]

lemma touch_moves: "related session_moves (TouchLearningSession dr l i now)"
  unfolding TouchLearningSession_def Let_def by (intro session_rules)

lemma close_moves: "related session_moves (CloseLearningSession dr l i now)"
proof -
  have "related session_moves (\<lambda>s. case GetLearningSession dr l i s of (Inl e, s') \<Rightarrow> (Inl (F e), s') | r \<Rightarrow> r)" for F
    by (rule related_raw) (use pure_GetLearningSession(1)[of dr l i] in \<open>auto simp: pure_tx_def split: prod.splits sum.splits, (metis session_moves_refl snd_conv)+\<close>)
  then show ?thesis unfolding CloseLearningSession_def by (intro session_rules)
qed

lemma open_moves: "related session_moves (OpenLearningSession dr cd g l d r now)"
  unfolding OpenLearningSession_def open_body_def resume_session_def closeStaleLearningSessions_def
  by (intro session_rules insert_moves) (simp add: session_ok_def)

datatype session_call =
    CallOpen "goerr + string" string string string time
  | CallTouch string string time
  | CallClose string string time

fun session_op :: "Driver \<Rightarrow> 'z StoreCodec_scheme \<Rightarrow> session_call \<Rightarrow> LearningSession op" where
  "session_op dr cd (CallOpen g l d r now) = OpenLearningSession dr cd g l d r now"
| "session_op dr cd (CallTouch l i now) = TouchLearningSession dr l i now"
| "session_op dr cd (CallClose l i now) = CloseLearningSession dr l i now"

definition session_history :: "'z StoreCodec_scheme \<Rightarrow> (Driver \<times> session_call) list \<Rightarrow> LearningStore \<Rightarrow> LearningStore" where
  "session_history cd calls s = fold (\<lambda>(dr, c) s. snd (session_op dr cd c s)) calls s"

lemma session_history_moves: "session_moves s (session_history cd calls s)"
proof (induction calls arbitrary: s)
  case (Cons x calls)
  obtain dr c where x: "x = (dr, c)" by (cases x)
  have "related session_moves (session_op dr cd c)" by (cases c) (simp_all add: open_moves touch_moves close_moves)
  from moves.rel_trans[OF relatedD[OF this] Cons.IH] show ?case by (simp add: x session_history_def)
qed (simp add: session_history_def moves.rel_refl)


section \<open>The session that opening returns\<close>

text \<open>The open session of a learner is unique.\<close>

lemma open_unique:
  assumes "sessions_ok rows" and "a \<in> set rows" "is_open l a" and "b \<in> set rows" "is_open l b"
  shows "a = b"
proof -
  have "length (filter (is_open l) rows) \<le> 1" using assms(1) by (simp add: sessions_ok_def)
  then obtain x where "set (filter (is_open l) rows) \<subseteq> {x}"
    by (cases "filter (is_open l) rows") (auto simp: le_Suc_eq)
  with assms(2-) show ?thesis by auto
qed

text \<open>What opening promises at time \<open>t\<close>: the returned session is the one open session of the learner, active now, in the
  requested domain, and either new or one that was open and not idle.\<close>

definition live_session :: "string \<Rightarrow> string \<Rightarrow> time \<Rightarrow> LearningSession list \<Rightarrow> LearningSession \<Rightarrow> LearningSession list \<Rightarrow> bool" where
  "live_session l d t rows r rows' \<longleftrightarrow>
     r \<in> set rows' \<and> is_open l r \<and> (\<forall>ls \<in> set rows'. is_open l ls \<longrightarrow> ls = r) \<and> t \<le> lsLastActiveAt r \<and>
     (d \<noteq> '''' \<longrightarrow> lsDomainID r = d) \<and>
     (lsStartedAt r = t \<and> lsID r \<notin> lsID ` set rows \<or>
      (\<exists>ls \<in> set rows. advances ls r \<and> is_open l ls \<and> learningSessionIdleCutoff t \<le> lsLastActiveAt ls))"

lemma update_ids:
  assumes "\<And>ls. lsID (f ls) = lsID ls"
  shows "lsID ` set (ltSessions (update_sessions g f s)) = lsID ` set (ltSessions s)"
proof -
  have "lsID ` set (map (\<lambda>ls. if g ls then f ls else ls) rows) = lsID ` set rows" for rows
    by (induction rows) (simp_all add: assms)
  then show ?thesis by (simp add: update_sessions_def)
qed

lemma resume_run:
  assumes "r \<in> set (ltSessions s)" and "is_open l r" and "sessions_ok (ltSessions s)"
  shows "wp (resume_session dr w l d t r)
    (\<lambda>r' s'. r' = resumed d t r \<and> r' \<in> set (ltSessions s') \<and> (\<forall>ls \<in> set (ltSessions s'). is_open l ls \<longrightarrow> ls = r')) (\<lambda>_ _. True) s"
proof -
  define F where "F = (\<lambda>ls. if lsID ls = lsID r \<and> is_open l ls then resumed d t ls else ls)"
  have "F r = resumed d t r" using assms(2) by (simp add: F_def)
  then have mem: "resumed d t r \<in> F ` set (ltSessions s)" using assms(1) by (rule image_eqI[OF sym])
  have uni: "is_open l (F ls) \<longrightarrow> F ls = resumed d t r" if "ls \<in> set (ltSessions s)" for ls
    using open_unique[OF assms(3) that _ assms(1,2)] by (cases "is_open l ls") (auto simp: F_def)
  have "ltSessions (update_sessions (\<lambda>ls. lsID ls = lsID r \<and> is_open l ls) (resumed d t) s) = map F (ltSessions s)"
    by (simp add: update_sessions_def F_def)
  with mem uni show ?thesis by (simp add: resume_session_def wp_simps)
qed

lemma open_body_run:
  assumes "sessions_ok (ltSessions s)"
  shows "wp (open_body dr cd l d i t) (\<lambda>r s'. live_session l d t (ltSessions s) r (ltSessions s')) (\<lambda>_ _. True) s"
proof -
  let ?new = "\<lparr>lsID = i, lsLearnerID = l, lsDomainID = d, lsStatus = LearningSessionStatusOpen, lsStartedAt = t,
    lsLastActiveAt = t, lsClosedAt = None\<rparr>"
  let ?close = "\<lambda>ls. ls\<lparr>lsStatus := LearningSessionStatusClosed, lsClosedAt := Some (lsLastActiveAt ls)\<rparr>"
  define s1 where "s1 = update_sessions (\<lambda>ls. is_open l ls \<and> lsLastActiveAt ls < learningSessionIdleCutoff t) ?close s"
  define s2 where "s2 = insert_session ?new s1"
  have "session_moves s s1" unfolding s1_def by (rule update_moves[OF code_steps(1)])
  then have ok1: "sessions_ok (ltSessions s1)" using assms by (simp add: session_moves_def)
  have "session_moves s1 s2" unfolding s2_def by (rule insert_moves) (simp add: session_ok_def)
  then have ok: "sessions_ok (ltSessions s2)" using ok1 by (simp add: session_moves_def)
  have old: "ls \<in> set (ltSessions s) \<and> learningSessionIdleCutoff t \<le> lsLastActiveAt ls"
    if ls: "ls \<in> set (ltSessions s1)" "is_open l ls" for ls
  proof -
    obtain x where x: "x \<in> set (ltSessions s)"
      "ls = (if is_open l x \<and> lsLastActiveAt x < learningSessionIdleCutoff t then ?close x else x)"
      using ls(1) by (auto simp: s1_def update_sessions_def)
    have "\<not> is_open l (?close x)" by (simp add: is_open_def)
    with x ls(2) show ?thesis by (cases "is_open l x \<and> lsLastActiveAt x < learningSessionIdleCutoff t") auto
  qed
  have ids: "lsID ` set (ltSessions s1) = lsID ` set (ltSessions s)"
    unfolding s1_def by (rule update_ids) simp
  have live: "live_session l d t (ltSessions s) (resumed d t r) rows'"
    if r: "r \<in> set (ltSessions s2)" "is_open l r"
      and res: "resumed d t r \<in> set rows'" "\<forall>ls \<in> set rows'. is_open l ls \<longrightarrow> ls = resumed d t r" for r rows'
  proof -
    have origin: "r \<in> set (ltSessions s1) \<or> r = ?new \<and> i \<notin> lsID ` set (ltSessions s1)"
      using r(1) by (auto simp: s2_def insert_session_def split: if_splits)
    have fields: "is_open l (resumed d t r)" "t \<le> lsLastActiveAt (resumed d t r)" "d \<noteq> '''' \<longrightarrow> lsDomainID (resumed d t r) = d"
      "advances r (resumed d t r)" "lsID (resumed d t r) = lsID r" "lsStartedAt (resumed d t r) = lsStartedAt r"
      using r(2) by (auto simp: resumed_def is_open_def advances_def)
    have "lsStartedAt r = t \<and> lsID r \<notin> lsID ` set (ltSessions s) \<or>
      (\<exists>ls \<in> set (ltSessions s). advances ls (resumed d t r) \<and> is_open l ls \<and> learningSessionIdleCutoff t \<le> lsLastActiveAt ls)"
      using origin
    proof
      assume "r \<in> set (ltSessions s1)"
      from old[OF this r(2)] show ?thesis using r(2) fields(4) by blast
    next
      assume "r = ?new \<and> i \<notin> lsID ` set (ltSessions s1)"
      then show ?thesis unfolding ids by simp
    qed
    then show ?thesis unfolding live_session_def fields(5,6) using res fields(1-3) by blast
  qed
  have res: "wp (resume_session dr w l d t r) (\<lambda>r s'. live_session l d t (ltSessions s) r (ltSessions s')) (\<lambda>_ _. True) s2"
    if "find P (ltSessions s2) = Some r" "is_open l r" for w r P
  proof -
    have "r \<in> set (ltSessions s2)" using that(1) by (auto simp: find_Some_iff)
    then show ?thesis using live[OF _ that(2)] by (intro wp_mono[OF resume_run[OF _ that(2) ok]]) auto
  qed
  have scope: "wp (resolveLearningScope dr cd l d '''') (\<lambda>_ s'. s' = s) (\<lambda>_ _. True) s" by (intro wp_pureI pure_scope) simp_all
  have own: "is_open l r" if "find (\<lambda>ls. lsID ls = i \<and> lsLearnerID ls = l) rows = Some r" "lsStatus r = LearningSessionStatusOpen" for r rows
    using that by (auto simp: find_Some_iff is_open_def)
  have act: "is_open l r" if "find (is_open l) rows = Some r" for r rows
    using that by (auto simp: find_Some_iff)
  show ?thesis
    unfolding open_body_def wp_bind[of "wrap_tx ''resolve session enrollment'' n" for n] wp_wrap
    apply (rule wp_mono[OF scope])
     apply (simp only: closeStaleLearningSessions_def wp_simps s1_def[symmetric] s2_def[symmetric] sum.case)
     apply (auto split: option.split intro: res act own)
    done
qed

lemma open_run:
  assumes "sessions_ok (ltSessions s)"
  shows "wp (OpenLearningSession dr cd g l d i now)
    (\<lambda>r s'. live_session l d (clock_or dr now) (ltSessions s) r (ltSessions s')) (\<lambda>_ s'. drOwned dr \<longrightarrow> s' = s) s"
proof -
  have "wp (inTx dr (open_body (nested dr) cd l d j t)) (\<lambda>r s'. live_session l d t (ltSessions s) r (ltSessions s'))
      (\<lambda>_ s'. drOwned dr \<longrightarrow> s' = s) s" for j t
    unfolding wp_inTx by (auto intro!: wp_mono[OF open_body_run[OF assms]])
  then show ?thesis
    unfolding OpenLearningSession_def
    by (auto simp: wp_bind wp_wrap wp_reads wp_returns wp_fails wp_sql wp_lift wp_if split: sum.split)
qed

section \<open>Examples\<close>

definition example_sessions :: "(Driver \<times> session_call) list" where
  "example_sessions = [(quiet_driver, CallOpen (Inr ''x'') ''l'' ''d'' '''' 5), (quiet_driver, CallTouch ''l'' ''sess_x'' 6),
     (quiet_driver, CallClose ''l'' ''sess_x'' 7), (quiet_driver, CallOpen (Inr ''y'') ''l'' '''' '''' 8)]"

lemma example_open_returns:
  "wp (OpenLearningSession quiet_driver example_store_codec (Inr ''x'') ''l'' ''d'' '''' 5) (\<lambda>_ _. True) (\<lambda>_ _. False) example_tables"
  by (simp add: OpenLearningSession_def open_body_def closeStaleLearningSessions_def resume_session_def wp_simps
      resolveLearningScope_def formationLearningScope_def live_domain_def update_sessions_def insert_session_def is_open_def
      quiet_driver_def nested_def example_tables_def example_course_def example_store_codec_def empty_scope_def)

section \<open>Properties\<close>

text \<open>C21. Whatever sequence of open, touch and close calls runs for any learners, with any failing statements and any
  transaction boundaries: session identifiers stay unique, a learner never has two open sessions, a session has an end time
  exactly when it is closed and never an activity before its start, no session disappears or changes owner or start, its
  last activity never moves back, and a closed session never changes again.\<close>

theorem sessions_stay_consistent:
  assumes "sessions_ok (ltSessions s)"
  shows "sessions_ok (ltSessions (session_history cd calls s)) \<and>
    (\<forall>ls \<in> set (ltSessions s). \<exists>ls' \<in> set (ltSessions (session_history cd calls s)). advances ls ls')"
  using session_history_moves[of s cd calls] assms by (simp add: session_moves_def)

theorem sessions_stay_consistent_witness:
  "sessions_ok (ltSessions (session_history example_store_codec example_sessions example_tables))"
proof -
  have "sessions_ok (ltSessions example_tables)" by (simp add: example_tables_def sessions_ok_def)
  from sessions_stay_consistent[OF this] show ?thesis by blast
qed

text \<open>C20. Opening a session returns the one open session of the learner as it is stored: active at the time of the call,
  in the requested domain if one was given, and either created by this call or one that was already open and had been
  active within the idle timeout; a session that stayed idle for longer is never resumed. When the call fails in a
  transaction of its own it changes nothing.\<close>

theorem open_returns_live_session:
  assumes "sessions_ok (ltSessions s)"
  shows "case OpenLearningSession dr cd g l d i now s of
      (Inr r, s') \<Rightarrow> live_session l d (clock_or dr now) (ltSessions s) r (ltSessions s')
    | (Inl e, s') \<Rightarrow> drOwned dr \<longrightarrow> s' = s"
  using open_run[OF assms, of dr cd g l d i now] by (auto simp: wp_def split: prod.splits sum.splits)

theorem open_returns_live_session_witness:
  "\<exists>r s'. OpenLearningSession quiet_driver example_store_codec (Inr ''x'') ''l'' ''d'' '''' 5 example_tables = (Inr r, s') \<and>
     live_session ''l'' ''d'' 5 [] r (ltSessions s')"
proof -
  obtain r s' where run: "OpenLearningSession quiet_driver example_store_codec (Inr ''x'') ''l'' ''d'' '''' 5 example_tables = (Inr r, s')"
    using example_open_returns by (auto simp: wp_def split: prod.splits sum.splits)
  have "sessions_ok (ltSessions example_tables)" "ltSessions example_tables = []" "clock_or quiet_driver 5 = 5"
    by (simp_all add: example_tables_def sessions_ok_def clock_or_def isZero_def)
  with open_returns_live_session[OF this(1), where dr = quiet_driver and cd = example_store_codec and g = "Inr ''x''" and l = "''l''"
    and d = "''d''" and i = "''''" and now = 5] run
  show ?thesis by auto
qed

end
