(* ===== verification/Recording.thy ===== *)
theory Recording
  imports Learning_Sessions Transfer_Model
begin

text \<open>
  Recording a learner's answer: \<open>applyInteraction\<close> and its helpers (\<open>tools/interaction_apply.go\<close>,
  \<open>tools/bkt_parameter_policy.go\<close>, \<open>tools/pedagogical_models.go\<close>, \<open>engine/bkt_policy.go\<close>) with the store
  operations it calls (\<open>db/store.go\<close>, \<open>db/metacognition.go\<close>, \<open>db/pedagogical_snapshots.go\<close>,
  \<open>db/learning_sessions.go\<close>, \<open>db/bkt_calibration.go\<close>). In one transaction it consumes the submitted
  assessment attempt, updates the mastery estimate (BKT) and the memory card (FSRS) of the concept and
  appends the interaction, the transfer evidence and the audit snapshot.

  A \<open>map[string]any\<close> is a list of members with distinct keys (a nil map is the empty list), and its values
  are JSON values: numbers, strings and the objects \<open>json.Marshal\<close> makes of a struct. \<open>json.Marshal\<close> and
  the text of a timestamp are arguments. The calibration evidence (a query over committed assessments) and the
  institutional scope of a state are arguments of type \<open>CalibrationPort\<close>.
\<close>

section \<open>Input\<close>

record interactionInput =
  iiConcept :: string
  iiActivityType :: string
  iiSuccess :: bool
  iiResponseTimeSeconds :: f64
  iiConfidence :: f64
  iiErrorType :: string
  iiNotes :: string
  iiHintsRequested :: int
  iiSelfInitiated :: bool
  iiCalibrationID :: string
  iiMisconceptionType :: string
  iiMisconceptionDetail :: string
  iiDomainID :: string
  iiSessionID :: string
  iiAssessmentAttemptID :: string
  iiDecisionID :: string
  iiCurriculumVersion :: int
  iiEvaluatorID :: string
  iiEvaluationMethod :: EvaluationMethod
  iiEvaluationProvenanceJSON :: string
  iiAssessmentScore :: f64
  iiRubricJSON :: string
  iiRubricScoreJSON :: string
  iiRubric :: "json option"
  iiRubricScore :: "json option"
  iiRubricWarnings :: "string list"
  iiRubricScoreWarnings :: "string list"
  iiSemanticObservation :: "members option"
  iiInterpretationBrief :: string
  iiTransferDimension :: string
  iiTransferScore :: "f64 option"
  iiTransferSessionID :: string

definition isCognitiveEvidenceActivity :: "string \<Rightarrow> bool" where
  "isCognitiveEvidenceActivity activityType \<longleftrightarrow>
     activityType \<in> string_of_activity ` {ActivityRecall, ActivityDiagnosticAssessment, ActivityNewConcept,
       ActivityMasteryChallenge, ActivityDebuggingCase, ActivityPractice, ActivityDebugMisconception,
       ActivityFeynmanPrompt, ActivityTransferProbe}"

datatype BKTUpdateMode = BKTObservationOnly | BKTLearningOpportunity

fun string_of_mode :: "BKTUpdateMode \<Rightarrow> string" where
  "string_of_mode BKTObservationOnly = ''observation_only''"
| "string_of_mode BKTLearningOpportunity = ''learning_opportunity''"

definition BKTUpdateModeForActivity :: "string \<Rightarrow> BKTUpdateMode" where
  "BKTUpdateModeForActivity activity =
     (if activity \<in> string_of_activity ` {ActivityNewConcept, ActivityPractice, ActivityRecall,
           ActivityDebuggingCase, ActivityDebugMisconception, ActivityFeynmanPrompt}
      then BKTLearningOpportunity else BKTObservationOnly)"

definition validateUnitInterval :: "string \<Rightarrow> f64 \<Rightarrow> goerr + unit" where
  "validateUnitInterval field v =
     (if isNaN v \<or> isInf v then Inl (ErrText [S field, S '' must be a finite number in [0, 1] (got non-finite value)''])
      else if v < 0 \<or> v > 1 then Inl (ErrText [S field, S '' must be in [0, 1] (got '', F 17 v, S '')''])
      else Inr ())"

fun string_of_dimension :: "TransferDimension \<Rightarrow> string" where
  "string_of_dimension TransferDimensionNear = ''near''"
| "string_of_dimension TransferDimensionFar = ''far''"
| "string_of_dimension TransferDimensionDebugging = ''debugging''"
| "string_of_dimension TransferDimensionTeaching = ''teaching''"
| "string_of_dimension TransferDimensionCreative = ''creative''"

definition normalizeTransferEvidence :: "string \<Rightarrow> string \<Rightarrow> f64 option \<Rightarrow> string \<Rightarrow> goerr + string" where
  "normalizeTransferEvidence activityType dimension score sessionID =
     (if activityType \<noteq> string_of_activity ActivityTransferProbe then
        if trim_space dimension \<noteq> '''' \<or> score \<noteq> None \<or> trim_space sessionID \<noteq> ''''
        then Inl (err ''transfer_dimension, transfer_score and transfer_session_id are only valid for TRANSFER_PROBE'')
        else Inr ''''
      else if trim_space dimension = '''' then Inl (err ''transfer_dimension is required for TRANSFER_PROBE'')
      else case NormalizeTransferDimension dimension of
        None \<Rightarrow> Inl (ErrText [S ''transfer_dimension must be one of: near, far, debugging, teaching, creative (got '', Q dimension, S '')''])
      | Some normalized \<Rightarrow>
          case score of
            None \<Rightarrow> Inl (err ''transfer_score is required for TRANSFER_PROBE'')
          | Some sc \<Rightarrow> sbind (validateUnitInterval ''transfer_score'' sc) (\<lambda>_. Inr (string_of_dimension normalized)))"

section \<open>Store operations\<close>

definition GetDomainsByLearner :: "LearningStore \<Rightarrow> string \<Rightarrow> bool \<Rightarrow> Domain list" where
  "GetDomainsByLearner s learnerID includeArchived =
     sort_key (\<lambda>d. - dCreatedAt d)
       (filter (\<lambda>d. dLearnerID d = learnerID \<and> dDeletedAt d = None \<and> (includeArchived \<or> \<not> dArchived d)) (ltDomains s))"

fun unique_match :: "string \<Rightarrow> string \<Rightarrow> Domain list \<Rightarrow> goerr + string" where
  "unique_match concept m [] = Inr m"
| "unique_match concept m (d # ds) =
     (if concept \<notin> set (ksConcepts (dGraph d)) then unique_match concept m ds
      else if m \<noteq> '''' \<and> m \<noteq> dID d
      then Inl (ErrText [S ''domain_id is required: concept '', Q concept, S '' exists in multiple domains''])
      else unique_match concept (dID d) ds)"

definition inferUniqueConceptDomain :: "Driver \<Rightarrow> string \<Rightarrow> string \<Rightarrow> string op" where
  "inferUniqueConceptDomain dr learnerID concept =
     bind_tx (wrap_tx ''infer concept domain'' (wrap_tx ''get domains by learner'' (sql dr ''select domains''))) (\<lambda>_.
     reads (\<lambda>s. unique_match concept '''' (GetDomainsByLearner s learnerID False)))"

definition inferConceptStateDomain :: "Driver \<Rightarrow> ConceptState \<Rightarrow> ConceptState op" where
  "inferConceptStateDomain dr cs =
     (if csDomainID cs \<noteq> '''' \<or> csConcept cs = '''' then returns cs
      else bind_tx (inferUniqueConceptDomain dr (csLearnerID cs) (csConcept cs)) (\<lambda>d. returns (cs\<lparr>csDomainID := d\<rparr>)))"

definition state_key :: "ConceptState \<Rightarrow> string \<times> string \<times> string" where
  "state_key cs = (csLearnerID cs, csDomainID cs, csConcept cs)"

definition getConceptState :: "Driver \<Rightarrow> string \<Rightarrow> string \<Rightarrow> string \<Rightarrow> ConceptState op" where
  "getConceptState dr learnerID domainID concept =
     wrap_tx ''get concept state'' (
       bind_tx (sql dr ''select concept state'') (\<lambda>_.
       reads (\<lambda>s. case ltStates s (learnerID, domainID, concept) of None \<Rightarrow> Inl ErrNoRows | Some cs \<Rightarrow> Inr cs)))"

definition InsertConceptStateIfNotExists :: "Driver \<Rightarrow> 'z StoreCodec_scheme \<Rightarrow> ConceptState \<Rightarrow> unit op" where
  "InsertConceptStateIfNotExists dr cd cs =
     bind_tx (inferConceptStateDomain dr cs) (\<lambda>cs.
     bind_tx (resolveLearningScope dr cd (csLearnerID cs) (csDomainID cs) (csConcept cs)) (\<lambda>_.
     bind_tx (wrap_tx ''insert concept state if not exists'' (sql dr ''insert concept state'')) (\<lambda>_.
     writes (\<lambda>s. if ltStates s (state_key cs) \<noteq> None then s
                 else s\<lparr>ltStates := (ltStates s)(state_key cs \<mapsto> cs\<lparr>csUpdatedAt := drNow dr\<rparr>)\<rparr>))))"

text \<open>The state is passed by pointer: the result is the state as the caller then sees it.\<close>

definition UpsertConceptState :: "Driver \<Rightarrow> 'z StoreCodec_scheme \<Rightarrow> ConceptState \<Rightarrow> ConceptState op" where
  "UpsertConceptState dr cd cs =
     bind_tx (inferConceptStateDomain dr cs) (\<lambda>cs.
     bind_tx (resolveLearningScope dr cd (csLearnerID cs) (csDomainID cs) (csConcept cs)) (\<lambda>_.
     let cs = cs\<lparr>csUpdatedAt := drNow dr\<rparr> in
     bind_tx (wrap_tx ''upsert concept state'' (sql dr ''upsert concept state'')) (\<lambda>_.
     bind_tx (writes (\<lambda>s. s\<lparr>ltStates := (ltStates s)(state_key cs \<mapsto> cs)\<rparr>)) (\<lambda>_. returns cs))))"

definition GetOrCreateConceptStateForUpdateInDomain ::
    "Driver \<Rightarrow> 'z StoreCodec_scheme \<Rightarrow> string \<Rightarrow> string \<Rightarrow> string \<Rightarrow> ConceptState op" where
  "GetOrCreateConceptStateForUpdateInDomain dr cd learnerID domainID concept =
     bind_tx (lockCurriculumForEvidence dr learnerID domainID concept) (\<lambda>_.
     catch_tx (getConceptState dr learnerID domainID concept) ErrNoRows (
       bind_tx (wrap_tx ''bootstrap domain concept state''
           (InsertConceptStateIfNotExists dr cd (NewConceptStateInDomain learnerID domainID concept))) (\<lambda>_.
       getConceptState dr learnerID domainID concept)))"

text \<open>The row is passed by pointer: the result is the row with the domain and the identifier the call fills in;
  \<open>newID\<close> is the identifier the database generates.\<close>

definition createInteractionWithStore :: "Driver \<Rightarrow> 'z StoreCodec_scheme \<Rightarrow> int \<Rightarrow> Interaction \<Rightarrow> Interaction op" where
  "createInteractionWithStore dr cd newID i =
     bind_tx (if inDomainID i = '''' then inferUniqueConceptDomain dr (inLearnerID i) (inConcept i) else returns (inDomainID i)) (\<lambda>d.
     let i = i\<lparr>inDomainID := d, inCreatedAt := clock_or dr (inCreatedAt i)\<rparr> in
     bind_tx (if inSessionID i \<noteq> ''''
              then wrap_tx ''validate interaction session''
                     (bind_tx (TouchLearningSession dr (inLearnerID i) (inSessionID i) (inCreatedAt i)) (\<lambda>_. returns ()))
              else returns ()) (\<lambda>_.
     bind_tx (resolveLearningScope dr cd (inLearnerID i) (inDomainID i) (inConcept i)) (\<lambda>_.
     bind_tx (wrap_tx ''create interaction'' (sql dr ''insert interaction'')) (\<lambda>_.
     let i = i\<lparr>inID := newID\<rparr> in
     bind_tx (writes (\<lambda>s. s\<lparr>ltInteractions := ltInteractions s @ [i]\<rparr>)) (\<lambda>_. returns i)))))"

definition CreateInteraction :: "Driver \<Rightarrow> 'z StoreCodec_scheme \<Rightarrow> int \<Rightarrow> Interaction \<Rightarrow> Interaction op" where
  "CreateInteraction dr cd newID i = createInteractionWithStore dr cd newID i"

definition CreateTransferRecord :: "Driver \<Rightarrow> TransferRecord \<Rightarrow> unit op" where
  "CreateTransferRecord dr r =
     bind_tx (wrap_tx ''create transfer record'' (sql dr ''insert transfer'')) (\<lambda>_.
     writes (\<lambda>s. s\<lparr>ltTransfers := ltTransfers s @ [r\<lparr>trCreatedAt := drNow dr\<rparr>]\<rparr>))"

definition createPedagogicalSnapshotWithStore :: "Driver \<Rightarrow> int \<Rightarrow> PedagogicalSnapshot \<Rightarrow> unit op" where
  "createPedagogicalSnapshotWithStore dr newID p =
     bind_tx (wrap_tx ''create pedagogical snapshot'' (sql dr ''insert snapshot'')) (\<lambda>_.
     writes (\<lambda>s. s\<lparr>ltSnapshots := ltSnapshots s @ [p\<lparr>psID := newID, psCreatedAt := clock_or dr (psCreatedAt p)\<rparr>]\<rparr>))"

text \<open>The badges that follow a snapshot are rows of other tables: their statement can only fail here.\<close>

definition CreatePedagogicalSnapshot :: "Driver \<Rightarrow> int \<Rightarrow> PedagogicalSnapshot \<Rightarrow> unit op" where
  "CreatePedagogicalSnapshot dr newID p =
     inTx dr (bind_tx (createPedagogicalSnapshotWithStore (nested dr) newID p) (\<lambda>_. sql dr ''award badges''))"

definition WithTx :: "Driver \<Rightarrow> 'a op \<Rightarrow> 'a op" where
  "WithTx dr fn = inTx dr fn"

section \<open>BKT parameters\<close>

definition updateBKTWithFixedParameters :: "BKTState \<Rightarrow> BKTUpdateMode \<Rightarrow> bool \<Rightarrow> IndividualBKTUpdateResult" where
  "updateBKTWithFixedParameters state mode success =
     (let posterior = BKTObserve state success;
          result = \<lparr>State = posterior,
                    Params = \<lparr>pPLearn = 0, pPForget = 0, pPSlip = PSlip state, pPGuess = PGuess state\<rparr>,
                    PosteriorMastery = PMastery posterior, TransitionApplied = False\<rparr>
      in if mode = BKTLearningOpportunity
         then result\<lparr>State := BKTTransition posterior,
                     Params := (Params result)\<lparr>pPLearn := PLearn state, pPForget := PForget state\<rparr>,
                     TransitionApplied := True\<rparr>
         else result)"

definition clampUnit :: "f64 \<Rightarrow> f64" where
  "clampUnit v = (if isNaN v \<or> v = NInf then 0 else if v = PInf then 1 else if v < 0 then 0 else if v > 1 then 1 else v)"

definition buildIndividualBKTProfile :: "Interaction option list \<Rightarrow> f64 \<Rightarrow> IndividualBKTProfile" where
  "buildIndividualBKTProfile interactions stability =
     (let rows = somes interactions; n = int (length rows) in
      if n = 0 then empty_profile
      else
        let successes = int (length (filter inSuccess rows));
            hints = int (length (filter (\<lambda>i. inHintsRequested i > 0) rows));
            overconfidentFailures = int (length (filter (\<lambda>i. \<not> inSuccess i \<and> inConfidence i \<ge> 0.75) rows));
            confidenceSum = fold (\<lambda>i sum. sum + clampUnit (inConfidence i)) rows 0;
            responseTimeSum = fold (\<lambda>i sum. if inResponseTime i > 0 then sum + f_of_int (inResponseTime i) else sum) rows 0;
            successRate = f_of_int successes / f_of_int n
        in \<lparr>Observations = n, SuccessRate = successRate, ErrorRate = 1 - successRate,
            AvgConfidence = confidenceSum / f_of_int n, HintsRate = f_of_int hints / f_of_int n,
            OverconfidenceRate = f_of_int overconfidentFailures / f_of_int n,
            Stability_rate = clampUnit (stability / 10), AvgResponseTimeSecs = responseTimeSum / f_of_int n\<rparr>)"

definition estimateIndependentBKTParameters :: "Interaction list \<Rightarrow> bool \<Rightarrow> string \<Rightarrow> BKTParams \<times> IndividualBKTProfile" where
  "estimateIndependentBKTParameters interactions success errorType =
     (let ref = BKTReferenceParams;
          profile = buildIndividualBKTProfile (map Some interactions) 0;
          result = BKTObserveIndividualized
            \<lparr>PMastery = 0, PLearn = rpPLearn ref, PForget = rpPForget ref, PSlip = rpPSlip ref, PGuess = rpPGuess ref\<rparr>
            profile success errorType
      in (\<lparr>rpPLearn = PLearn (State result), rpPForget = PForget (State result),
           rpPSlip = PSlip (State result), rpPGuess = PGuess (State result)\<rparr>, profile))"

record CalibrationPort =
  cpTenantID :: string
  cpScopeValid :: bool
  cpEvidence :: "LearningStore \<Rightarrow> ConceptState \<Rightarrow> int \<Rightarrow> goerr + BKTCalibrationEvidence option"
  cpCollective :: bool
  cpCollectiveScope :: "LearningStore \<Rightarrow> ConceptState \<Rightarrow> (string \<times> string \<times> string) option"

definition BKTCalibrationProfileWindow :: int where "BKTCalibrationProfileWindow = 20"

definition unit_probability :: "f64 \<Rightarrow> bool" where
  "unit_probability p \<longleftrightarrow> \<not> (isNaN p \<or> isInf p \<or> p < 0 \<or> p > 1)"

definition SaveBKTCalibrationEstimate ::
    "Driver \<Rightarrow> CalibrationPort \<Rightarrow> ConceptState \<Rightarrow> BKTCalibrationEvidence option \<Rightarrow> BKTParams \<Rightarrow> time \<Rightarrow> unit op" where
  "SaveBKTCalibrationEstimate dr port state evidence params now =
     (case evidence of
        None \<Rightarrow> fails (err ''save BKT calibration estimate: missing evidence or time'')
      | Some ev \<Rightarrow>
          if ceObservations ev < 1 \<or> isZero now then fails (err ''save BKT calibration estimate: missing evidence or time'')
          else if \<not> params_all unit_probability params then fails (err ''save BKT calibration estimate: invalid probability'')
          else bind_tx (reads (\<lambda>s. cpEvidence port s state BKTCalibrationProfileWindow)) (\<lambda>actual.
               case actual of
                 None \<Rightarrow> fails (err ''save BKT calibration estimate: source changed or scope mismatch'')
               | Some act \<Rightarrow>
                   if \<not> sameCalibrationSource actual evidence
                   then fails (err ''save BKT calibration estimate: source changed or scope mismatch'')
                   else bind_tx (sql dr ''upsert estimate'') (\<lambda>_.
                        writes (\<lambda>s. s\<lparr>ltEstimates := (ltEstimates s)
                          ((cpTenantID port, ceEnrollmentID act, ceFormationConceptID act, ceCurriculumVersion act) \<mapsto>
                           \<lparr>erFormationVersionID = ceFormationVersionID act, erLearnerID = csLearnerID state, erParams = params,
                            erObservations = ceObservations act, erLastInteractionID = ceLastInteractionID act,
                            erEvidenceHash = ceEvidenceHash act, erUpdatedAt = now\<rparr>)\<rparr>))))"

text \<open>The collective tables inside the store.\<close>

definition in_collective :: "(CollectiveStore, 'a) tx \<Rightarrow> 'a op" where
  "in_collective m = (\<lambda>s. case m (ltCollective s) of (r, c) \<Rightarrow> (r, s\<lparr>ltCollective := c\<rparr>))"

text \<open>The parameters the update uses: the immutable reference for a personal domain, the collective version for a common
  one. The result is the state with these parameters, the calibration evidence and the collective application.\<close>

definition effective_parameters ::
    "Driver \<Rightarrow> CalibrationPort option \<Rightarrow> ConceptState \<Rightarrow> time \<Rightarrow>
     (ConceptState \<times> BKTCalibrationEvidence option \<times> CollectiveWeightApplication option) op" where
  "effective_parameters dr port cs now =
     bind_tx (case port of
         None \<Rightarrow> returns None
       | Some p \<Rightarrow> wrap_tx ''load BKT calibration policy'' (reads (\<lambda>s. cpEvidence p s cs 0))) (\<lambda>evidence.
     case (evidence, port) of
       (Some ev, Some p) \<Rightarrow>
         if cpCollective p
         then bind_tx (reads (\<lambda>s. Inr (cpCollectiveScope p s cs))) (\<lambda>scope.
              bind_tx (wrap_tx ''apply collective weights''
                  (in_collective (ApplyCollectiveWeights dr (cpScopeValid p) scope cs now))) (\<lambda>(collective, cs).
              returns (cs, evidence, collective)))
         else returns (setStateBKTParams BKTReferenceParams cs, evidence, None)
     | _ \<Rightarrow> returns (setStateBKTParams BKTReferenceParams cs, None, None))"

section \<open>Observations\<close>

record RecordCodec = StoreCodec +
  rcTime :: "time \<Rightarrow> json"

abbreviation jint :: "int \<Rightarrow> json" where "jint n \<equiv> JNum (f_of_int n)"

definition put_member :: "string \<times> json \<Rightarrow> members \<Rightarrow> members" where
  "put_member kv m = AList.update (fst kv) (snd kv) m"

definition mergeObservation :: "members \<Rightarrow> members \<Rightarrow> members" where
  "mergeObservation base extra = (if extra = [] then base else fold put_member extra base)"

fun string_of_method :: "EvaluationMethod \<Rightarrow> string" where
  "string_of_method EvaluationMethodHostLLM = ''host_llm''"
| "string_of_method EvaluationMethodExternal = ''external_service''"
| "string_of_method EvaluationMethodHumanReview = ''human_review''"
| "string_of_method EvaluationMethodDeterministic = ''deterministic''"
| "string_of_method (EvaluationMethodOther m) = m"

definition structuredObservation :: "interactionInput \<Rightarrow> members" where
  "structuredObservation input =
     (let obs = [(''evidence_verification'', JStr ''unverified_observation'')];
          obs = (case iiRubric input of None \<Rightarrow> obs | Some v \<Rightarrow> put_member (''rubric'', v) obs);
          obs = (case iiRubricScore input of None \<Rightarrow> obs | Some v \<Rightarrow> put_member (''rubric_score'', v) obs);
          obs = (if iiAssessmentAttemptID input = '''' then obs
                 else put_member (''assessment'', JObj
                        [(''attempt_id'', JStr (iiAssessmentAttemptID input)), (''score'', JNum (iiAssessmentScore input)),
                         (''derived_success'', JBool (iiSuccess input)),
                         (''evaluation_method'', JStr (string_of_method (iiEvaluationMethod input))),
                         (''evaluator_id'', JStr (iiEvaluatorID input)), (''trusted'', JBool False)])
                      (put_member (''evidence_verification'', JStr ''assessment_linked_untrusted_evaluation'') obs));
          obs = (if iiRubricWarnings input = [] then obs
                 else put_member (''rubric_schema_warnings'', JArr (map JStr (iiRubricWarnings input))) obs);
          obs = (if iiRubricScoreWarnings input = [] then obs
                 else put_member (''rubric_score_schema_warnings'', JArr (map JStr (iiRubricScoreWarnings input))) obs)
      in case iiSemanticObservation input of None \<Rightarrow> obs | Some m \<Rightarrow> put_member (''semantic_observation'', JObj m) obs)"

definition individualBKTProfileSnapshot :: "IndividualBKTProfile \<Rightarrow> members" where
  "individualBKTProfileSnapshot p =
     [(''observations'', jint (Observations p)), (''success_rate'', JNum (SuccessRate p)), (''error_rate'', JNum (ErrorRate p)),
      (''avg_confidence'', JNum (AvgConfidence p)), (''hints_rate'', JNum (HintsRate p)),
      (''overconfidence_rate'', JNum (OverconfidenceRate p)), (''stability'', JNum (Stability_rate p)),
      (''avg_response_time_secs'', JNum (AvgResponseTimeSecs p))]"

definition individualBKTParamsSnapshot :: "IndividualBKTParameters \<Rightarrow> members" where
  "individualBKTParamsSnapshot p =
     [(''p_forget'', JNum (pPForget p)), (''p_learn'', JNum (pPLearn p)), (''p_slip'', JNum (pPSlip p)), (''p_guess'', JNum (pPGuess p))]"

definition json_params :: "BKTParams \<Rightarrow> json" where
  "json_params p = JObj [(''p_learn'', JNum (rpPLearn p)), (''p_forget'', JNum (rpPForget p)), (''p_slip'', JNum (rpPSlip p)), (''p_guess'', JNum (rpPGuess p))]"

definition json_application :: "CollectiveWeightApplication \<Rightarrow> json" where
  "json_application a = JObj [(''version'', jint (waVersion a)),
     (''mode'', JStr (case waMode a of CollectiveApplyPrior \<Rightarrow> ''prior'' | CollectiveApplyBlend \<Rightarrow> ''blend'')),
     (''before'', json_params (waBefore a)), (''after'', json_params (waAfter a))]"

definition BKTReferencePolicyVersion :: string where "BKTReferencePolicyVersion = ''bkt-reference-v1''"
definition BKTIndividualEstimatePolicyVersion :: string where
  "BKTIndividualEstimatePolicyVersion = ''independent-reference-estimate-v1''"
definition BKTPersonalParameterPolicy :: string where "BKTPersonalParameterPolicy = ''personal-fixed-reference-v1''"
definition BKTCommonParameterPolicy :: string where "BKTCommonParameterPolicy = ''common-collective-reference-v2''"
definition PedagogicalPolicyVersion :: string where "PedagogicalPolicyVersion = ''2026-10-parameters-v6''"

definition conceptStateSnapshot :: "'z RecordCodec_scheme \<Rightarrow> ConceptState \<Rightarrow> members" where
  "conceptStateSnapshot rc cs =
     [(''p_mastery'', JNum (csPMastery cs)), (''p_learn'', JNum (csPLearn cs)), (''p_forget'', JNum (csPForget cs)),
      (''p_slip'', JNum (csPSlip cs)), (''p_guess'', JNum (csPGuess cs)), (''stability'', JNum (csStability cs)),
      (''difficulty'', JNum (csDifficulty cs)), (''elapsed_days'', jint (csElapsedDays cs)),
      (''scheduled_days'', jint (csScheduledDays cs)), (''reps'', jint (csReps cs)), (''lapses'', jint (csLapses cs)),
      (''card_state'', JStr (case csCardState cs of New \<Rightarrow> ''new'' | Learning \<Rightarrow> ''learning'' | Review \<Rightarrow> ''review''
          | Relearning \<Rightarrow> ''relearning'' | CardOther st \<Rightarrow> st)),
      (''theta'', JNum (csTheta cs))] @
     (case csLastReview cs of Some t \<Rightarrow> (if isZero t then [] else [(''last_review'', rcTime rc t)]) | None \<Rightarrow> []) @
     (case csNextReview cs of Some t \<Rightarrow> [(''next_review'', rcTime rc t)] | None \<Rightarrow> [])"

definition conceptStateAfterSnapshot :: "'z RecordCodec_scheme \<Rightarrow> ConceptState \<Rightarrow> members" where
  "conceptStateAfterSnapshot rc cs = conceptStateSnapshot rc cs"

definition observationSnapshot :: "interactionInput \<Rightarrow> f64 \<Rightarrow> f64 \<Rightarrow> f64 \<Rightarrow> members \<Rightarrow> members" where
  "observationSnapshot input learnUsed slipUsed guessUsed obs =
     (let out = [(''success'', JBool (iiSuccess input)), (''response_time_seconds'', JNum (iiResponseTimeSeconds input)),
            (''confidence'', JNum (iiConfidence input)), (''error_type'', JStr (iiErrorType input)),
            (''hints_requested'', jint (iiHintsRequested input)), (''self_initiated'', JBool (iiSelfInitiated input)),
            (''calibration_id'', JStr (iiCalibrationID input)), (''bkt_learn'', JNum learnUsed), (''bkt_slip'', JNum slipUsed),
            (''bkt_guess'', JNum guessUsed)];
          out = (if \<not> iiSuccess input \<and> iiMisconceptionType input \<noteq> ''''
                 then put_member (''misconception_detail'', JStr (iiMisconceptionDetail input))
                        (put_member (''misconception_type'', JStr (iiMisconceptionType input)) out) else out)
      in fold put_member obs out)"

definition decisionSnapshot :: "interactionInput \<Rightarrow> bool \<Rightarrow> members" where
  "decisionSnapshot input proactiveReview =
     [(''domain_id'', JStr (iiDomainID input)), (''activity_type'', JStr (iiActivityType input)), (''concept'', JStr (iiConcept input)),
      (''is_proactive_review'', JBool proactiveReview), (''source'', JStr ''record_interaction''),
      (''decision_id'', JStr (iiDecisionID input)), (''curriculum_version'', jint (iiCurriculumVersion input)),
      (''policy_version'', JStr PedagogicalPolicyVersion)]"

definition mustSnapshotJSON :: "'z RecordCodec_scheme \<Rightarrow> members \<Rightarrow> string" where
  "mustSnapshotJSON rc m = (case cdMarshal rc (JObj m) of Some data \<Rightarrow> data | None \<Rightarrow> ''{}'')"

section \<open>Recording an answer\<close>

definition failedColdDiagnostic :: "CardState \<Rightarrow> interactionInput \<Rightarrow> bool" where
  "failedColdDiagnostic priorCardState input \<longleftrightarrow>
     \<not> iiSuccess input \<and> priorCardState = New \<and> iiActivityType input = string_of_activity ActivityDiagnosticAssessment"

definition attempt_conflict :: "interactionInput \<Rightarrow> AssessmentAttempt \<Rightarrow> bool" where
  "attempt_conflict input a \<longleftrightarrow>
     aaStatus a \<noteq> AssessmentAttemptSubmitted \<or> aaCurriculumInvalidatedVersion a \<noteq> 0 \<or> aaDomainID a \<noteq> iiDomainID input \<or>
     aaConceptID a \<noteq> iiConcept input \<or> aaActivityType a \<noteq> iiActivityType input \<or>
     (aaSessionID a \<noteq> '''' \<and> aaSessionID a \<noteq> iiSessionID input)"

text \<open>The attempt is locked and consumed: the input bound to its decision, the time of the observation and the protocol.\<close>

definition consume_attempt ::
    "Driver \<Rightarrow> 'z RecordCodec_scheme \<Rightarrow> string \<Rightarrow> interactionInput \<Rightarrow> time \<Rightarrow> (interactionInput \<times> time \<times> string) op" where
  "consume_attempt dr rc learnerID input now =
     (if iiAssessmentAttemptID input = '''' then returns (input, now, ''legacy_grading_time'')
      else
        bind_tx (wrap_tx ''load assessment attempt'' (GetAssessmentAttemptForUpdate dr learnerID (iiAssessmentAttemptID input))) (\<lambda>attempt.
        if attempt_conflict input attempt then fails (err ''assessment attempt state or scope conflict'')
        else
          bind_tx (wrap_tx ''complete assessment evaluation'' (
            CompleteAssessmentEvaluation dr rc learnerID (iiAssessmentAttemptID input) (iiRubricScoreJSON input)
              (iiEvaluatorID input) (iiEvaluationMethod input) (iiEvaluationProvenanceJSON input) (iiAssessmentScore input)
              (iiSuccess input) now)) (\<lambda>_.
          let input = input\<lparr>iiDecisionID := aaDecisionID attempt, iiCurriculumVersion := aaCurriculumVersion attempt\<rparr> in
          if aaEventProtocol attempt \<noteq> LearningEventProtocol then returns (input, now, ''legacy_grading_time'')
          else case aaSubmittedAt attempt of
            None \<Rightarrow> fails (err ''invalid committed response time'')
          | Some t \<Rightarrow> if after t now then fails (err ''invalid committed response time'')
                      else returns (input, t, aaEventProtocol attempt))))"

definition bkt_of :: "ConceptState \<Rightarrow> BKTState" where
  "bkt_of cs = \<lparr>PMastery = csPMastery cs, PLearn = csPLearn cs, PForget = csPForget cs, PSlip = csPSlip cs, PGuess = csPGuess cs\<rparr>"

definition prior_last_review :: "ConceptState \<Rightarrow> time" where
  "prior_last_review cs = (case csLastReview cs of Some t \<Rightarrow> t | None \<Rightarrow> 0)"

definition card_of :: "ConceptState \<Rightarrow> FSRSCard" where
  "card_of cs = \<lparr>fStability = csStability cs, fDifficulty = csDifficulty cs, fElapsedDays = csElapsedDays cs,
     fScheduledDays = csScheduledDays cs, fReps = csReps cs, fLapses = csLapses cs, fState = csCardState cs,
     fLastReview = prior_last_review cs\<rparr>"

definition bkt_observation :: "string \<Rightarrow> BKTParams \<Rightarrow> BKTUpdateMode \<Rightarrow> IndividualBKTUpdateResult \<Rightarrow> members" where
  "bkt_observation parameterPolicy effectiveParams mode r =
     [(''bkt_parameter_policy'', JStr parameterPolicy), (''bkt_reference_policy_version'', JStr BKTReferencePolicyVersion),
      (''bkt_reference_params'', json_params BKTReferenceParams), (''bkt_effective_params'', json_params effectiveParams),
      (''bkt_update_mode'', JStr (string_of_mode mode)), (''bkt_transition_applied'', JBool (TransitionApplied r)),
      (''bkt_posterior'', JNum (PosteriorMastery r)),
      (''bkt_transition_delta'', JNum (PMastery (State r) - PosteriorMastery r)), (''bkt_forget'', JNum (pPForget (Params r))),
      (''bkt_individualized_profile'', JObj (individualBKTProfileSnapshot empty_profile)),
      (''bkt_individualized_params'', JObj (individualBKTParamsSnapshot (Params r)))]"

definition interaction_row :: "string \<Rightarrow> interactionInput \<Rightarrow> ConceptState \<Rightarrow> f64 \<Rightarrow> f64 \<Rightarrow> time \<Rightarrow> Interaction" where
  "interaction_row learnerID input cs slipUsed guessUsed now =
     \<lparr>inID = 0, inLearnerID = learnerID, inSessionID = iiSessionID input, inAssessmentAttemptID = iiAssessmentAttemptID input,
      inConcept = iiConcept input, inActivityType = iiActivityType input, inSuccess = iiSuccess input,
      inResponseTime = f_to_int (iiResponseTimeSeconds input), inConfidence = iiConfidence input, inErrorType = iiErrorType input,
      inNotes = iiNotes input, inHintsRequested = iiHintsRequested input, inSelfInitiated = iiSelfInitiated input,
      inCalibrationID = iiCalibrationID input,
      inIsProactiveReview = (case csNextReview cs of None \<Rightarrow> False | Some t \<Rightarrow> after t now \<and> csCardState cs \<noteq> New),
      inMisconceptionType = (if \<not> iiSuccess input \<and> iiMisconceptionType input \<noteq> '''' then iiMisconceptionType input else ''''),
      inMisconceptionDetail = (if \<not> iiSuccess input \<and> iiMisconceptionType input \<noteq> '''' then iiMisconceptionDetail input else ''''),
      inDomainID = iiDomainID input, inBKTSlip = Some slipUsed, inBKTGuess = Some guessUsed, inRubricJSON = iiRubricJSON input,
      inRubricScoreJSON = iiRubricScoreJSON input, inCreatedAt = now\<rparr>"

text \<open>The independent estimate of a common domain, made from the committed observations.\<close>

definition calibration_source ::
    "Driver \<Rightarrow> CalibrationPort option \<Rightarrow> ConceptState \<Rightarrow> BKTCalibrationEvidence option \<Rightarrow> int \<Rightarrow> interactionInput \<Rightarrow> time \<Rightarrow> members \<Rightarrow> members op" where
  "calibration_source dr port cs evidence interactionID input now obs =
     (case (evidence, port) of
        (Some _, Some p) \<Rightarrow>
          bind_tx (wrap_tx ''load committed BKT calibration evidence'' (reads (\<lambda>s. cpEvidence p s cs BKTCalibrationProfileWindow))) (\<lambda>committed.
          case committed of
            None \<Rightarrow> fails (err ''BKT calibration scope changed during interaction'')
          | Some ev \<Rightarrow>
              let source = [(''policy_version'', JStr BKTIndividualEstimatePolicyVersion),
                    (''reference_policy_version'', JStr BKTReferencePolicyVersion), (''reference_params'', json_params BKTReferenceParams),
                    (''observations'', jint (ceObservations ev)), (''profile_observations'', jint (int (length (ceInteractions ev)))),
                    (''source_interaction_id'', jint (ceLastInteractionID ev)), (''recorded'', JBool False)] in
              if ceObservations ev > 0 \<and> ceLastInteractionID ev = interactionID
              then
                let (estimate, profile) = estimateIndependentBKTParameters (ceInteractions ev) (iiSuccess input) (iiErrorType input) in
                bind_tx (wrap_tx ''save independent BKT calibration estimate'' (SaveBKTCalibrationEstimate dr p cs committed estimate now)) (\<lambda>_.
                returns (put_member (''bkt_calibration_source'', JObj
                    (put_member (''recorded'', JBool True) (put_member (''profile'', JObj (individualBKTProfileSnapshot profile))
                      (put_member (''params'', json_params estimate) source)))) obs))
              else returns (put_member (''bkt_calibration_source'', JObj source) obs))
      | _ \<Rightarrow> returns obs)"

definition record_transfer :: "Driver \<Rightarrow> string \<Rightarrow> interactionInput \<Rightarrow> members \<Rightarrow> members op" where
  "record_transfer dr learnerID input obs =
     (case iiTransferScore input of
        None \<Rightarrow> returns obs
      | Some score \<Rightarrow>
          bind_tx (wrap_tx ''create transfer evidence'' (CreateTransferRecord dr
            \<lparr>trLearnerID = learnerID, trDomainID = iiDomainID input, trAssessmentAttemptID = iiAssessmentAttemptID input,
             trConceptID = iiConcept input, trContextType = iiTransferDimension input, trScore = score,
             trSessionID = (if iiSessionID input = '''' then iiTransferSessionID input else iiSessionID input), trCreatedAt = 0\<rparr>)) (\<lambda>_.
          returns (mergeObservation obs [(''transfer_evidence'', JObj [(''dimension'', JStr (iiTransferDimension input)),
            (''score'', JNum score), (''recorded'', JBool True)])])))"

definition answer_rating :: "interactionInput \<Rightarrow> Rating" where
  "answer_rating input =
     (if \<not> iiSuccess input then Again else if iiConfidence input \<ge> 0.9 then Easy
      else if iiConfidence input < 0.5 then Hard else Good)"

text \<open>Whether the memory card is reviewed, and the reason when a cold diagnostic is the cause that it is not.\<close>

definition fsrs_decision :: "ConceptState \<Rightarrow> interactionInput \<Rightarrow> time \<Rightarrow> string \<Rightarrow> bool \<times> string" where
  "fsrs_decision cs input observedAt protocol =
     (let applied = isZero (prior_last_review cs) \<or> after observedAt (prior_last_review cs) \<or> protocol = ''legacy_grading_time'' in
      if applied \<and> failedColdDiagnostic (csCardState cs) input then (False, ''failed_cold_diagnostic_creates_no_card'')
      else (applied, ''''))"

text \<open>\<open>time.Duration(days) * 24 * time.Hour\<close> in 64 bits.\<close>

definition days_duration :: "int \<Rightarrow> duration" where
  "days_duration n = (n * (24 * hour) + 2 ^ 63) mod 2 ^ 64 - 2 ^ 63"

text \<open>The single write-back of the merged result.\<close>

definition merged_state :: "ConceptState \<Rightarrow> f64 \<Rightarrow> FSRSCard \<Rightarrow> bool \<Rightarrow> time \<Rightarrow> ConceptState" where
  "merged_state cs mastery crd applied observedAt =
     (let cs' = cs\<lparr>csPMastery := mastery, csStability := fStability crd, csDifficulty := fDifficulty crd,
            csElapsedDays := fElapsedDays crd, csScheduledDays := fScheduledDays crd, csReps := fReps crd,
            csLapses := fLapses crd, csCardState := fState crd\<rparr>
      in if applied then cs'\<lparr>csLastReview := Some observedAt, csNextReview := Some (observedAt + days_duration (fScheduledDays crd))\<rparr>
         else cs')"

text \<open>The state an answer leads to, from the state with its effective parameters.\<close>

definition answered_state :: "ConceptState \<Rightarrow> interactionInput \<Rightarrow> time \<Rightarrow> string \<Rightarrow> ConceptState" where
  "answered_state cs input observedAt protocol =
     (let r = updateBKTWithFixedParameters (bkt_of cs) (BKTUpdateModeForActivity (iiActivityType input)) (iiSuccess input);
          applied = fst (fsrs_decision cs input observedAt protocol);
          crd = (if applied then ReviewCard (card_of cs) (answer_rating input) observedAt else card_of cs)
      in merged_state cs (PMastery (State r)) crd applied observedAt)"

text \<open>The writes that follow once the state and its effective parameters are known.\<close>

definition record_answer ::
    "Driver \<Rightarrow> 'z RecordCodec_scheme \<Rightarrow> CalibrationPort option \<Rightarrow> int \<Rightarrow> int \<Rightarrow> string \<Rightarrow> interactionInput \<Rightarrow> time \<Rightarrow> time \<Rightarrow> string \<Rightarrow>
     ConceptState \<Rightarrow> BKTCalibrationEvidence option \<Rightarrow> CollectiveWeightApplication option \<Rightarrow> (ConceptState \<times> members) op" where
  "record_answer dr rc port interactionID snapshotID learnerID input now observedAt protocol cs evidence collective =
     (let mode = BKTUpdateModeForActivity (iiActivityType input);
          r = updateBKTWithFixedParameters (bkt_of cs) mode (iiSuccess input);
          policy = (if evidence = None then BKTPersonalParameterPolicy else BKTCommonParameterPolicy);
          obs = mergeObservation (structuredObservation input) (bkt_observation policy (stateBKTParams cs) mode r);
          obs = (case collective of None \<Rightarrow> obs | Some c \<Rightarrow> mergeObservation obs [(''bkt_collective_weights'', json_application c)]);
          slipUsed = pPSlip (Params r); guessUsed = pPGuess (Params r) in
     bind_tx (wrap_tx ''create interaction'' (CreateInteraction dr rc interactionID
       (interaction_row learnerID input cs slipUsed guessUsed now))) (\<lambda>interaction.
     bind_tx (calibration_source dr port cs evidence (inID interaction) input now obs) (\<lambda>obs.
     bind_tx (record_transfer dr learnerID input obs) (\<lambda>obs.
     let (applied, skip) = fsrs_decision cs input observedAt protocol;
         obs = mergeObservation obs [(''learning_event_protocol'', JStr protocol), (''fsrs_observation_at'', rcTime rc observedAt),
                 (''fsrs_update_applied'', JBool applied)];
         obs = (if skip = '''' then obs else put_member (''fsrs_skip_reason'', JStr skip) obs) in
     bind_tx (wrap_tx ''upsert concept state'' (UpsertConceptState dr rc (answered_state cs input observedAt protocol))) (\<lambda>cs'.
     bind_tx (wrap_tx ''create pedagogical snapshot'' (CreatePedagogicalSnapshot dr snapshotID
       \<lparr>psID = 0, psInteractionID = inID interaction, psLearnerID = learnerID, psDomainID = iiDomainID input,
        psConcept = iiConcept input, psActivityType = iiActivityType input,
        psBeforeJSON = mustSnapshotJSON rc (conceptStateSnapshot rc cs),
        psObservationJSON = mustSnapshotJSON rc (observationSnapshot input (pPLearn (Params r)) slipUsed guessUsed obs),
        psAfterJSON = mustSnapshotJSON rc (conceptStateAfterSnapshot rc cs'),
        psDecisionJSON = mustSnapshotJSON rc (decisionSnapshot input (inIsProactiveReview interaction)),
        psInterpretationBrief = iiInterpretationBrief input, psCreatedAt = now\<rparr>)) (\<lambda>_.
     returns (cs', obs)))))))"

definition interaction_body ::
    "Driver \<Rightarrow> 'z RecordCodec_scheme \<Rightarrow> CalibrationPort option \<Rightarrow> int \<Rightarrow> int \<Rightarrow> string \<Rightarrow> interactionInput \<Rightarrow> time \<Rightarrow> (ConceptState \<times> members) op" where
  "interaction_body dr rc port interactionID snapshotID learnerID input now =
     bind_tx (consume_attempt dr rc learnerID input now) (\<lambda>(input, observedAt, protocol).
     bind_tx (wrap_tx ''load concept state''
       (GetOrCreateConceptStateForUpdateInDomain dr rc learnerID (iiDomainID input) (iiConcept input))) (\<lambda>loaded.
     bind_tx (effective_parameters dr port loaded now) (\<lambda>(cs, evidence, collective).
     record_answer dr rc port interactionID snapshotID learnerID input now observedAt protocol cs evidence collective)))"

definition applyInteraction ::
    "Driver \<Rightarrow> 'z RecordCodec_scheme \<Rightarrow> CalibrationPort option \<Rightarrow> int \<Rightarrow> int \<Rightarrow> string \<Rightarrow> interactionInput \<Rightarrow> time \<Rightarrow> (ConceptState \<times> members) op" where
  "applyInteraction dr rc port interactionID snapshotID learnerID input now =
     (if \<not> isCognitiveEvidenceActivity (iiActivityType input)
      then fails (ErrText [S ''applyInteraction: activity_type '', Q (iiActivityType input),
                           S '' is not learner evidence and cannot update BKT/FSRS''])
      else
        bind_tx (wrap_tx ''applyInteraction'' (lift_tx
          (normalizeTransferEvidence (iiActivityType input) (iiTransferDimension input) (iiTransferScore input) (iiTransferSessionID input)))) (\<lambda>dimension.
        wrap_tx ''applyInteraction'' (WithTx dr
          (interaction_body (nested dr) rc port interactionID snapshotID learnerID (input\<lparr>iiTransferDimension := dimension\<rparr>) now))))"

section \<open>Which tables an operation touches\<close>

text \<open>The store with one table blanked: an operation that keeps it writes at most to that table.\<close>

abbreviation but_attempts :: "LearningStore \<Rightarrow> LearningStore" where "but_attempts s \<equiv> s\<lparr>ltAttempts := Map.empty\<rparr>"
abbreviation but_states :: "LearningStore \<Rightarrow> LearningStore" where "but_states s \<equiv> s\<lparr>ltStates := Map.empty\<rparr>"
abbreviation but_collective :: "LearningStore \<Rightarrow> LearningStore" where "but_collective s \<equiv> s\<lparr>ltCollective := empty_weights\<rparr>"
abbreviation but_interactions :: "LearningStore \<Rightarrow> LearningStore" where
  "but_interactions s \<equiv> s\<lparr>ltInteractions := [], ltSessions := []\<rparr>"
abbreviation but_estimates :: "LearningStore \<Rightarrow> LearningStore" where "but_estimates s \<equiv> s\<lparr>ltEstimates := Map.empty\<rparr>"
abbreviation but_transfers :: "LearningStore \<Rightarrow> LearningStore" where "but_transfers s \<equiv> s\<lparr>ltTransfers := []\<rparr>"
abbreviation but_snapshots :: "LearningStore \<Rightarrow> LearningStore" where "but_snapshots s \<equiv> s\<lparr>ltSnapshots := []\<rparr>"

lemma pure_infer [intro!, simp]: "pure_tx (inferUniqueConceptDomain dr l c)" "pure_tx (inferConceptStateDomain dr cs)"
  unfolding inferUniqueConceptDomain_def inferConceptStateDomain_def
  by (intro pure_bind pure_if pure_wrap pure_basic)+

lemma pure_getConceptState [intro!, simp]: "pure_tx (getConceptState dr l d c)"
  unfolding getConceptState_def by (intro pure_bind pure_wrap pure_basic)

lemma touches_attempts:
  "related (\<lambda>s s'. but_attempts s' = but_attempts s) (CompleteAssessmentEvaluation dr cd l i j ev m pr sc p now)"
  unfolding CompleteAssessmentEvaluation_def completeUntrustedAssessmentEvaluation_def requireAssessmentTransition_def update_attempt_def
  by (intro same.rules pure_get[THEN same.pure] pure_frozen_outcome[THEN same.pure] related_raw)
     (auto split: option.splits)

lemma touches_attempts_consume:
  "related (\<lambda>s s'. but_attempts s' = but_attempts s) (consume_attempt dr rc l input now)"
  unfolding consume_attempt_def by (intro same.rules pure_get[THEN same.pure] touches_attempts)

lemma touches_states_insert:
  "related (\<lambda>s s'. but_states s' = but_states s) (InsertConceptStateIfNotExists dr cd cs)"
  unfolding InsertConceptStateIfNotExists_def
  by (intro same.rules pure_infer[THEN same.pure] pure_scope[THEN same.pure] same.update) simp

lemma touches_states_load:
  "related (\<lambda>s s'. but_states s' = but_states s) (GetOrCreateConceptStateForUpdateInDomain dr cd l d c)"
  unfolding GetOrCreateConceptStateForUpdateInDomain_def
  by (intro same.rules pure_getConceptState[THEN same.pure] pure_scope[THEN same.pure] touches_states_insert)

lemma touches_states_upsert: "related (\<lambda>s s'. but_states s' = but_states s) (UpsertConceptState dr cd cs)"
  unfolding UpsertConceptState_def
  by (intro same.rules pure_infer[THEN same.pure] pure_scope[THEN same.pure] same.update) simp

lemma touches_collective: "related (\<lambda>s s'. but_collective s' = but_collective s) (effective_parameters dr port cs now)"
  unfolding effective_parameters_def in_collective_def
  by (intro same.rules related_raw) (auto split: prod.splits option.splits intro!: same.rules related_raw)

lemma touches_sessions: "related (\<lambda>s s'. but_interactions s' = but_interactions s) (TouchLearningSession dr l i now)"
  by (rule related_weaken[OF touch_only_sessions]) (drule arg_cong[where f = but_interactions], simp)

lemma touches_interactions: "related (\<lambda>s s'. but_interactions s' = but_interactions s) (CreateInteraction dr cd n i)"
  unfolding CreateInteraction_def createInteractionWithStore_def
  by (intro same.rules pure_infer[THEN same.pure] pure_scope[THEN same.pure] touches_sessions same.update) simp

lemma touches_estimates_save: "related (\<lambda>s s'. but_estimates s' = but_estimates s) (SaveBKTCalibrationEstimate dr port cs ev ps now)"
  unfolding SaveBKTCalibrationEstimate_def by (intro same.rules same.update) simp

lemma touches_estimates: "related (\<lambda>s s'. but_estimates s' = but_estimates s) (calibration_source dr port cs ev n input now obs)"
  unfolding calibration_source_def
  by (cases ev; cases port) (simp_all only: option.case prod.case, (intro same.rules touches_estimates_save)+)

lemma touches_transfers: "related (\<lambda>s s'. but_transfers s' = but_transfers s) (record_transfer dr l input obs)"
  unfolding record_transfer_def CreateTransferRecord_def by (intro same.rules same.update) simp

lemma touches_snapshots: "related (\<lambda>s s'. but_snapshots s' = but_snapshots s) (CreatePedagogicalSnapshot dr n p)"
  unfolding CreatePedagogicalSnapshot_def createPedagogicalSnapshotWithStore_def by (intro same.rules same.update) simp

end
