(* ===== verification/Answers.thy ===== *)
theory Answers
  imports Recording
begin

text \<open>
  What recording an answer guarantees. The invariant of the stored states (\<open>store_ok\<close>) is kept by every answer
  and every attempt call, in or outside a caller's transaction and whichever statements fail; an attempt is
  counted at most once over any history; a call in its own transaction refines the specification \<open>recorded\<close> or
  changes nothing; the memory card follows the times of the committed responses.
\<close>

section \<open>Well-formed learner states\<close>

definition state_ok :: "ConceptState \<Rightarrow> bool" where
  "state_ok cs \<longleftrightarrow> bkt_wf (bkt_of cs) \<and> (csCardState cs = New \<or> card_wf (card_of cs))"

definition store_ok :: "LearningStore \<Rightarrow> bool" where
  "store_ok s \<longleftrightarrow> (\<forall>k cs. ltStates s k = Some cs \<longrightarrow> state_key cs = k \<and> state_ok cs) \<and> weights_ok (ltCollective s)"

lemma store_ok_cong: "ltStates s' = ltStates s \<Longrightarrow> ltCollective s' = ltCollective s \<Longrightarrow> store_ok s' = store_ok s"
  by (simp add: store_ok_def)

lemma store_ok_upd:
  "store_ok s \<Longrightarrow> state_ok cs \<Longrightarrow> state_key cs = k \<Longrightarrow> store_ok (s\<lparr>ltStates := (ltStates s)(k \<mapsto> cs)\<rparr>)"
  by (auto simp: store_ok_def)

lemma bkt_wf_of: "bkt_wf (bkt_of cs) \<longleftrightarrow> unit_f64 (csPMastery cs) \<and> params_all unit_f64 (stateBKTParams cs)"
  by (auto simp: bkt_wf_def bkt_of_def params_all_def stateBKTParams_def)

lemma state_ok_params:
  "state_ok cs \<Longrightarrow> params_all unit_f64 p \<Longrightarrow> state_ok (setStateBKTParams p cs)"
  by (simp add: state_ok_def bkt_wf_of) (simp add: setStateBKTParams_def card_of_def prior_last_review_def)

lemma state_ok_other_params:
  assumes "state_ok cs" and "setStateBKTParams (stateBKTParams cs) cs' = cs" and "params_all unit_f64 (stateBKTParams cs')"
  shows "state_ok cs'"
proof -
  have "cs' = setStateBKTParams (stateBKTParams cs') cs" by (subst assms(2)[symmetric]) simp
  with state_ok_params[OF assms(1,3)] show ?thesis by simp
qed

lemma reference_unit: "params_all unit_f64 BKTReferenceParams"
  by (simp add: params_all_def BKTReferenceParams_def unit_f64_def)

lemma new_state_ok: "state_ok (NewConceptStateInDomain l d c)"
  by (simp add: state_ok_def bkt_wf_def bkt_of_def NewConceptStateInDomain_def BKTReferenceParams_def unit_f64_def)

lemma state_ok_stamp [simp]: "state_ok (cs\<lparr>csUpdatedAt := t\<rparr>) = state_ok cs" "state_ok (cs\<lparr>csDomainID := d\<rparr>) = state_ok cs"
  by (simp_all add: state_ok_def bkt_of_def card_of_def prior_last_review_def)

lemma updateBKT_wf: "bkt_wf st \<Longrightarrow> bkt_wf (State (updateBKTWithFixedParameters st mode b))"
  by (simp add: updateBKTWithFixedParameters_def Let_def BKTObserve_wf BKTTransition_wf)

lemma ReviewCard_last: "fLastReview (ReviewCard crd r t) = t"
  by (cases "fState crd") (simp_all add: ReviewCard_def Let_def)

lemma merged_state_fields:
  "csPMastery (merged_state cs m crd a t) = m" "stateBKTParams (merged_state cs m crd a t) = stateBKTParams cs"
  "csCardState (merged_state cs m crd a t) = fState crd"
  "csLearnerID (merged_state cs m crd a t) = csLearnerID cs" "csDomainID (merged_state cs m crd a t) = csDomainID cs"
  "csConcept (merged_state cs m crd a t) = csConcept cs"
  by (simp_all add: merged_state_def stateBKTParams_def Let_def)

lemma card_of_merged:
  "fLastReview crd = t \<Longrightarrow> card_of (merged_state cs m crd True t) = crd"
  "card_of (merged_state cs m (card_of cs) False t) = card_of cs"
  by (simp_all add: merged_state_def card_of_def prior_last_review_def Let_def)

lemma answered_state_ok:
  assumes "state_ok cs"
  shows "state_ok (answered_state cs input t pr)"
proof -
  define r where "r = updateBKTWithFixedParameters (bkt_of cs) (BKTUpdateModeForActivity (iiActivityType input)) (iiSuccess input)"
  define a where "a = fst (fsrs_decision cs input t pr)"
  have "bkt_wf (State r)" unfolding r_def using assms by (intro updateBKT_wf) (simp add: state_ok_def)
  then have b: "bkt_wf (bkt_of (merged_state cs (PMastery (State r)) crd ap t))" for crd ap
    using assms by (simp add: bkt_wf_of state_ok_def merged_state_fields) (simp add: bkt_wf_def)
  have known: "card_known (card_of cs)"
    using assms by (auto simp: state_ok_def card_known_def card_of_def card_wf_def)
  show ?thesis
  proof (cases a)
    case True
    then show ?thesis
      using b ReviewCard_wf[OF known]
      by (simp add: answered_state_def Let_def r_def[symmetric] a_def[symmetric] state_ok_def card_of_merged ReviewCard_last)
  next
    case False
    then show ?thesis
      using b assms
      by (simp add: answered_state_def Let_def r_def[symmetric] a_def[symmetric] state_ok_def card_of_merged merged_state_fields)
         (simp add: card_of_def)
  qed
qed

section \<open>Loading and saving a state\<close>

lemma infer_run:
  "wp (inferConceptStateDomain dr cs)
     (\<lambda>cs' s'. s' = s \<and> (\<exists>d. cs' = cs\<lparr>csDomainID := d\<rparr> \<and> (csDomainID cs \<noteq> '''' \<longrightarrow> d = csDomainID cs))) (\<lambda>_ s'. s' = s) s"
proof -
  have *: "wp (inferUniqueConceptDomain dr l c) (\<lambda>_ s'. s' = s) (\<lambda>_ s'. s' = s) s" for l c
    by (intro wp_pureI pure_infer refl)
  show ?thesis
  proof (cases "csDomainID cs \<noteq> '''' \<or> csConcept cs = ''''")
    case True
    then show ?thesis by (auto simp: inferConceptStateDomain_def wp_simps intro!: exI[of _ "csDomainID cs"])
  next
    case False
    then show ?thesis by (auto simp: inferConceptStateDomain_def wp_simps intro!: wp_mono[OF *])
  qed
qed

lemma scope_run: "wp (resolveLearningScope dr cd l d c) (\<lambda>_ s'. s' = s) (\<lambda>_ s'. s' = s) s"
  by (intro wp_pureI pure_scope refl)

definition inserted_state :: "Driver \<Rightarrow> ConceptState \<Rightarrow> string \<Rightarrow> LearningStore \<Rightarrow> LearningStore" where
  "inserted_state dr cs d s =
     (if ltStates s (csLearnerID cs, d, csConcept cs) \<noteq> None then s
      else s\<lparr>ltStates := (ltStates s)((csLearnerID cs, d, csConcept cs) \<mapsto> cs\<lparr>csDomainID := d, csUpdatedAt := drNow dr\<rparr>)\<rparr>)"

lemma insert_run:
  "wp (InsertConceptStateIfNotExists dr cd cs)
     (\<lambda>_ s'. \<exists>d. (csDomainID cs \<noteq> '''' \<longrightarrow> d = csDomainID cs) \<and> s' = inserted_state dr cs d s) (\<lambda>_ s'. s' = s) s"
proof -
  have "wp (bind_tx (resolveLearningScope dr cd (csLearnerID cs') (csDomainID cs') (csConcept cs')) (\<lambda>_.
      bind_tx (wrap_tx ''insert concept state if not exists'' (sql dr ''insert concept state'')) (\<lambda>_.
      writes (\<lambda>s. if ltStates s (state_key cs') \<noteq> None then s
                  else s\<lparr>ltStates := (ltStates s)(state_key cs' \<mapsto> cs'\<lparr>csUpdatedAt := drNow dr\<rparr>)\<rparr>))))
      (\<lambda>_ s'. s' = inserted_state dr cs d s) (\<lambda>_ s'. s' = s) s" if "cs' = cs\<lparr>csDomainID := d\<rparr>" for cs' d
    unfolding wp_bind using that
    by (intro wp_mono[OF scope_run]) (simp_all add: wp_simps state_key_def inserted_state_def)
  note step = wp_mono[OF this]
  show ?thesis
    unfolding InsertConceptStateIfNotExists_def wp_bind[of "inferConceptStateDomain dr cs"]
    apply (rule wp_mono[OF infer_run])
    subgoal premises prems for cs' s'
    proof -
      from prems obtain d where "cs' = cs\<lparr>csDomainID := d\<rparr>" "csDomainID cs \<noteq> '''' \<longrightarrow> d = csDomainID cs" "s' = s" by blast
      then show ?thesis by (simp only:) (rule step, simp, blast+)
    qed
    by simp
qed

lemma upsert_run:
  "wp (UpsertConceptState dr cd cs)
     (\<lambda>cs' s'. \<exists>d. (csDomainID cs \<noteq> '''' \<longrightarrow> d = csDomainID cs) \<and> cs' = cs\<lparr>csDomainID := d, csUpdatedAt := drNow dr\<rparr> \<and>
        s' = s\<lparr>ltStates := (ltStates s)((csLearnerID cs, d, csConcept cs) \<mapsto> cs')\<rparr>)
     (\<lambda>_ s'. s' = s) s"
  unfolding UpsertConceptState_def wp_bind
  by (rule wp_mono[OF infer_run]) (auto simp: wp_simps Let_def state_key_def intro!: wp_mono[OF scope_run])

definition fresh_state :: "Driver \<Rightarrow> string \<Rightarrow> string \<Rightarrow> string \<Rightarrow> ConceptState" where
  "fresh_state dr l d c = (NewConceptStateInDomain l d c)\<lparr>csUpdatedAt := drNow dr\<rparr>"

lemma fresh_state_ok [simp]: "state_ok (fresh_state dr l d c)" "state_key (fresh_state dr l d c) = (l, d, c)"
  by (simp_all add: fresh_state_def new_state_ok) (simp add: state_key_def NewConceptStateInDomain_def)

text \<open>Loading: the stored row, or a fresh one that the call inserts.\<close>

lemma load_run:
  "wp (GetOrCreateConceptStateForUpdateInDomain dr cd l d c)
     (\<lambda>cs s'. ltStates s' (l, d, c) = Some cs \<and>
        (s' = s \<or> ltStates s (l, d, c) = None \<and> cs = fresh_state dr l d c \<and> s' = s\<lparr>ltStates := (ltStates s)((l, d, c) \<mapsto> cs)\<rparr>))
     (\<lambda>_ s'. s' = s \<or> (\<exists>d'. ltStates s (l, d', c) = None \<and> s' = s\<lparr>ltStates := (ltStates s)((l, d', c) \<mapsto> fresh_state dr l d' c)\<rparr>)) s"
proof -
  have get: "wp (getConceptState dr l d c) (\<lambda>cs s'. s' = t \<and> ltStates t (l, d, c) = Some cs) (\<lambda>_ s'. s' = t) t" for t
    by (auto simp: getConceptState_def wp_simps split: option.split sum.split)
  have lock: "wp (lockCurriculumForEvidence dr l d c) (\<lambda>_ s'. s' = t) (\<lambda>_ s'. s' = t) t" for t
    by (intro wp_pureI pure_scope refl)
  have first: "wp (getConceptState dr l d c) (\<lambda>cs s'. s' = s \<and> ltStates s (l, d, c) = Some cs)
      (\<lambda>e s'. s' = s \<and> (errors_is e ErrNoRows \<longrightarrow> ltStates s (l, d, c) = None)) s"
    by (auto simp: getConceptState_def wp_simps split: option.split sum.split)
  have new: "(NewConceptStateInDomain l d c)\<lparr>csDomainID := d', csUpdatedAt := drNow dr\<rparr> = fresh_state dr l d' c"
    "csLearnerID (NewConceptStateInDomain l d c) = l" "csDomainID (NewConceptStateInDomain l d c) = d" for d'
    by (simp_all add: fresh_state_def NewConceptStateInDomain_def)
  let ?R = "\<lambda>cs s'. ltStates s' (l, d, c) = Some cs \<and> (s' = s \<or> ltStates s (l, d, c) = None \<and> cs = fresh_state dr l d c \<and>
      s' = s\<lparr>ltStates := (ltStates s)((l, d, c) \<mapsto> cs)\<rparr>)"
  let ?E = "\<lambda>_ s'. s' = s \<or> (\<exists>d'. ltStates s (l, d', c) = None \<and>
      s' = s\<lparr>ltStates := (ltStates s)((l, d', c) \<mapsto> fresh_state dr l d' c)\<rparr>)"
  have after: "wp (getConceptState dr l d c) ?R ?E (inserted_state dr (NewConceptStateInDomain l d c) d' s)"
    if "ltStates s (l, d, c) = None" for d'
    by (rule wp_mono[OF get]) (use that in \<open>auto simp: inserted_state_def new split: if_splits\<close>)
  have boot: "wp (bind_tx (wrap_tx ''bootstrap domain concept state''
      (InsertConceptStateIfNotExists dr cd (NewConceptStateInDomain l d c))) (\<lambda>_. getConceptState dr l d c)) ?R ?E s"
    if "ltStates s (l, d, c) = None"
    unfolding wp_simps by (rule wp_mono[OF insert_run]) (auto intro: after[OF that])
  have "wp (catch_tx (getConceptState dr l d c) ErrNoRows (bind_tx (wrap_tx ''bootstrap domain concept state''
      (InsertConceptStateIfNotExists dr cd (NewConceptStateInDomain l d c))) (\<lambda>_. getConceptState dr l d c))) ?R ?E s"
    unfolding wp_catch
    apply (rule wp_mono[OF first])
    subgoal by auto
    subgoal premises prems for e s'
    proof (cases "errors_is e ErrNoRows")
      case True
      with prems have s': "s' = s" and "ltStates s (l, d, c) = None" by auto
      from boot[OF this(2)] show ?thesis unfolding s' if_P[OF True] .
    next
      case False
      then show ?thesis using prems by simp
    qed
    done
  then show ?thesis
    unfolding GetOrCreateConceptStateForUpdateInDomain_def wp_bind[of "lockCurriculumForEvidence dr l d c"]
    by (intro wp_mono[OF lock]) simp_all
qed

section \<open>Every answer keeps the states well-formed\<close>

definition keeps_ok :: "LearningStore \<Rightarrow> LearningStore \<Rightarrow> bool" where
  "keeps_ok s s' \<longleftrightarrow> (store_ok s \<longrightarrow> store_ok s')"

interpretation ok: store_relation keeps_ok
  by unfold_locales (auto simp: keeps_ok_def)

lemma keeps_wp: "related keeps_ok m \<Longrightarrow> store_ok s \<Longrightarrow> wp m (\<lambda>_. store_ok) (\<lambda>_. store_ok) s"
  unfolding wp_iff by (auto simp: keeps_ok_def dest: related_run)

lemma keeps_from_wp:
  assumes "\<And>s. store_ok s \<Longrightarrow> wp m (\<lambda>_. store_ok) (\<lambda>_. store_ok) s"
  shows "related keeps_ok m"
  unfolding related_def keeps_ok_def
proof (intro allI impI)
  fix s assume "store_ok s"
  from assms[OF this] show "store_ok (snd (m s))" by (cases "m s"; cases "fst (m s)") (auto simp: wp_def)
qed

lemma keeps_ok_from:
  assumes "related (\<lambda>s s'. p s' = p s) m"
    and "\<And>s s'. p s' = p s \<Longrightarrow> ltStates s' = ltStates s \<and> ltCollective s' = ltCollective s"
  shows "related keeps_ok m"
  using assms(1) by (rule related_weaken) (use assms(2) store_ok_cong in \<open>unfold keeps_ok_def, blast\<close>)

lemma keeps_ok_ops:
  "related keeps_ok (consume_attempt dr rc l input now)"
  "related keeps_ok (CreateInteraction dr rc n i)"
  "related keeps_ok (calibration_source dr port cs ev n input now obs)"
  "related keeps_ok (record_transfer dr l input obs)"
  "related keeps_ok (CreatePedagogicalSnapshot dr n p)"
  by (rule keeps_ok_from[OF touches_attempts_consume] keeps_ok_from[OF touches_interactions] keeps_ok_from[OF touches_estimates]
        keeps_ok_from[OF touches_transfers] keeps_ok_from[OF touches_snapshots],
      drule arg_cong[where f = "\<lambda>s. (ltStates s, ltCollective s)"], simp)+

lemma upsert_keeps_ok: "state_ok cs \<Longrightarrow> related keeps_ok (UpsertConceptState dr rc cs)"
  unfolding related_wp
  by (intro allI wp_mono[OF upsert_run]) (auto simp: keeps_ok_def state_key_def intro!: store_ok_upd)

lemma record_answer_ok: "state_ok cs \<Longrightarrow> related keeps_ok (record_answer dr rc port n m l input now t pr cs ev col)"
  unfolding record_answer_def
  by (intro ok.rules keeps_ok_ops upsert_keeps_ok answered_state_ok)

lemma wp_in_collective [wp_simps]:
  "wp (in_collective m) R E = (\<lambda>s. wp m (\<lambda>x c. R x (s\<lparr>ltCollective := c\<rparr>)) (\<lambda>e c. E e (s\<lparr>ltCollective := c\<rparr>)) (ltCollective s))"
  by (simp add: fun_eq_iff in_collective_def wp_def split: prod.splits sum.splits)

lemma load_ok:
  assumes "store_ok s"
  shows "wp (GetOrCreateConceptStateForUpdateInDomain dr cd l d c)
    (\<lambda>cs s'. store_ok s' \<and> state_ok cs) (\<lambda>_ s'. store_ok s') s"
proof -
  have old: "state_ok cs" if "ltStates s k = Some cs" for k cs
    using assms that unfolding store_ok_def by blast
  show ?thesis
    by (rule wp_mono[OF load_run]) (use assms old store_ok_upd in \<open>auto\<close>)
qed

lemma collective_ok: "store_ok s \<Longrightarrow> weights_ok c \<Longrightarrow> store_ok (s\<lparr>ltCollective := c\<rparr>)"
  by (simp add: store_ok_def)

lemma effective_ok:
  assumes "store_ok s" and "state_ok cs"
  shows "wp (effective_parameters dr port cs now) (\<lambda>(cs', _, _) s'. store_ok s' \<and> state_ok cs') (\<lambda>_ s'. store_ok s') s"
proof -
  have ref: "state_ok (setStateBKTParams BKTReferenceParams cs)" using assms(2) reference_unit by (rule state_ok_params)
  have w: "weights_ok (ltCollective s)" "params_all unit_f64 (stateBKTParams cs)"
    using assms by (simp_all add: store_ok_def state_ok_def bkt_wf_of)
  have app: "wp (ApplyCollectiveWeights dr v sc cs now)
      (\<lambda>res c. store_ok (s\<lparr>ltCollective := c\<rparr>) \<and> state_ok (snd res)) (\<lambda>_ c. store_ok (s\<lparr>ltCollective := c\<rparr>)) (ltCollective s)" for v sc
    by (rule wp_mono[OF ApplyCollectiveWeights_unit[OF w]])
       (use collective_ok[OF assms(1)] state_ok_other_params[OF assms(2)] w(1) in \<open>blast+\<close>)
  show ?thesis
    unfolding effective_parameters_def
    by (cases port) (auto simp: wp_simps ref assms intro!: wp_mono[OF app] split: option.splits sum.splits)
qed

lemma body_ok: "related keeps_ok (interaction_body dr rc port n m l input now)"
proof -
  have rec: "wp (record_answer dr rc port n m l i now t pr cs ev col) (\<lambda>_. store_ok) (\<lambda>_. store_ok) s"
    if "store_ok s" "state_ok cs" for i t pr cs ev col s
    by (rule keeps_wp[OF record_answer_ok[OF that(2)] that(1)])
  have eff: "wp (bind_tx (effective_parameters dr port cs now) (\<lambda>(cs, evidence, collective).
      record_answer dr rc port n m l i now t pr cs evidence collective)) (\<lambda>_. store_ok) (\<lambda>_. store_ok) s"
    if "store_ok s" "state_ok cs" for i t pr cs s
    unfolding wp_bind by (rule wp_mono[OF effective_ok[OF that]]) (auto intro: rec)
  have load: "wp (bind_tx (wrap_tx ''load concept state''
      (GetOrCreateConceptStateForUpdateInDomain dr rc l (iiDomainID i) (iiConcept i))) (\<lambda>loaded.
      bind_tx (effective_parameters dr port loaded now) (\<lambda>(cs, evidence, collective).
      record_answer dr rc port n m l i now t pr cs evidence collective))) (\<lambda>_. store_ok) (\<lambda>_. store_ok) s"
    if "store_ok s" for i t pr s
    unfolding wp_bind[of "wrap_tx w n" for w n] wp_wrap by (rule wp_mono[OF load_ok[OF that]]) (blast intro: eff)+
  have cons: "wp (consume_attempt dr rc l input now) (\<lambda>_. store_ok) (\<lambda>_. store_ok) s" if "store_ok s" for s
    by (rule keeps_wp[OF keeps_ok_ops(1) that])
  have "wp (interaction_body dr rc port n m l input now) (\<lambda>_. store_ok) (\<lambda>_. store_ok) s" if "store_ok s" for s
    unfolding interaction_body_def wp_bind[of "consume_attempt dr rc l input now"]
    by (rule wp_mono[OF cons[OF that]]) (simp_all only: split_beta, rule load)
  then show ?thesis by (rule keeps_from_wp)
qed

lemma applyInteraction_ok: "related keeps_ok (applyInteraction dr rc port n m l input now)"
  unfolding applyInteraction_def WithTx_def by (intro ok.rules body_ok)

section \<open>An attempt is counted at most once\<close>

definition linked :: "string \<Rightarrow> LearningStore \<Rightarrow> nat" where
  "linked a s = length (filter (\<lambda>i. inAssessmentAttemptID i = a) (ltInteractions s))"

definition finished_in :: "string \<Rightarrow> LearningStore \<Rightarrow> bool" where
  "finished_in a s \<longleftrightarrow> (\<exists>r. ltAttempts s a = Some r \<and> finished r)"

text \<open>How many interactions an attempt accounts for, now and by what it may still become.\<close>

definition potential :: "string \<Rightarrow> LearningStore \<Rightarrow> nat" where
  "potential a s = linked a s + (if finished_in a s then 0 else 1)"

definition no_recount :: "string \<Rightarrow> LearningStore \<Rightarrow> LearningStore \<Rightarrow> bool" where
  "no_recount a s s' \<longleftrightarrow> potential a s' \<le> potential a s \<and> (finished_in a s \<longrightarrow> finished_in a s')"

lemma moves_no_recount:
  assumes "attempt_moves cd s s'" and "ltInteractions s' = ltInteractions s"
  shows "no_recount a s s'"
proof -
  have "finished_in a s'" if fin: "finished_in a s"
  proof -
    from fin obtain r where r: "ltAttempts s a = Some r" "finished r" by (auto simp: finished_in_def)
    from attempt_moves_row[OF assms(1) r(1)] obtain b where "ltAttempts s' a = Some b" "r = b \<or> attempt_step cd r b" by blast
    with r(2) attempt_step_finished show ?thesis by (auto simp: finished_in_def)
  qed
  then show ?thesis by (auto simp: no_recount_def potential_def linked_def assms(2))
qed

lemma attempt_movesI:
  "attempt_step cd a b \<Longrightarrow> ltAttempts s i = Some a \<Longrightarrow> attempt_moves cd s (s\<lparr>ltAttempts := (ltAttempts s)(i \<mapsto> b)\<rparr>)"
  unfolding attempt_moves_def by (intro disjI2 disjI1 exI[of _ i] exI[of _ a] exI[of _ b]) simp

lemma consume_run:
  "wp (consume_attempt dr rc l input now)
     (\<lambda>(input', t, p) s'. attempt_moves rc s s' \<and> ltInteractions s' = ltInteractions s \<and>
        (\<exists>d v. input' = input\<lparr>iiDecisionID := d, iiCurriculumVersion := v\<rparr>) \<and>
        (if iiAssessmentAttemptID input = '''' then s' = s
         else \<not> finished_in (iiAssessmentAttemptID input) s \<and> finished_in (iiAssessmentAttemptID input) s' \<and>
           (\<exists>b. s' = s\<lparr>ltAttempts := (ltAttempts s)(iiAssessmentAttemptID input \<mapsto> b)\<rparr>)))
     (\<lambda>_ s'. attempt_moves rc s s' \<and> ltInteractions s' = ltInteractions s) s"
proof (cases "iiAssessmentAttemptID input = ''''")
  case True
  then show ?thesis
    by (auto simp: consume_attempt_def wp_simps intro!: exI[of _ "iiDecisionID input"] exI[of _ "iiCurriculumVersion input"])
next
  case False
  let ?i = "iiAssessmentAttemptID input"
  have get: "wp (GetAssessmentAttemptForUpdate dr l ?i) (\<lambda>_ s'. s' = s) (\<lambda>_ s'. s' = s) s"
    by (intro wp_pureI pure_get refl)
  have keep: "related (\<lambda>s s'. ltInteractions s' = ltInteractions s)
      (CompleteAssessmentEvaluation dr rc l ?i j ev m pr sc p now)" for j ev m pr sc p
    by (rule related_weaken[OF touches_attempts]) (drule arg_cong[where f = ltInteractions], simp)
  have run: "wp (CompleteAssessmentEvaluation dr rc l ?i j ev m pr sc p now)
      (\<lambda>_ s'. attempt_moves rc s s' \<and> ltInteractions s' = ltInteractions s \<and> \<not> finished_in ?i s \<and> finished_in ?i s' \<and>
        (\<exists>b. s' = s\<lparr>ltAttempts := (ltAttempts s)(?i \<mapsto> b)\<rparr>))
      (\<lambda>_ s'. attempt_moves rc s s' \<and> ltInteractions s' = ltInteractions s) s" for j ev m pr sc p
    by (rule wp_mono[OF wp_conj[OF complete_run keep[unfolded related_wp, rule_format]]])
       (auto simp: finished_in_def finished_def intro: attempt_movesI)
  show ?thesis
    unfolding consume_attempt_def if_not_P[OF False] wp_bind wp_wrap
    apply (rule wp_mono[OF get])
    subgoal premises prems for a s'
      using prems by (auto simp: wp_simps False Let_def intro!: wp_mono[OF run] split: option.splits)
    by simp
qed

text \<open>The insert appends the row, after it touched the session.\<close>

lemma touch_run:
  "wp (TouchLearningSession dr l i now) (\<lambda>_ s'. \<exists>ses. s' = s\<lparr>ltSessions := ses\<rparr>) (\<lambda>_ s'. \<exists>ses. s' = s\<lparr>ltSessions := ses\<rparr>) s"
  by (rule wp_mono[OF touch_only_sessions[unfolded related_wp, rule_format]]) (rule only_sessions, assumption)+

lemma create_run:
  "wp (CreateInteraction dr cd n i)
     (\<lambda>i' s'. \<exists>d ses. (inDomainID i \<noteq> '''' \<longrightarrow> d = inDomainID i) \<and>
        i' = i\<lparr>inDomainID := d, inCreatedAt := clock_or dr (inCreatedAt i), inID := n\<rparr> \<and>
        s' = s\<lparr>ltSessions := ses, ltInteractions := ltInteractions s @ [i']\<rparr>)
     (\<lambda>_ s'. \<exists>ses. s' = s\<lparr>ltSessions := ses\<rparr>) s"
proof -
  have self: "\<exists>ses. t = t\<lparr>ltSessions := ses\<rparr>" for t :: LearningStore by (intro exI[of _ "ltSessions t"]) simp
  have inf: "wp (if inDomainID i = '''' then inferUniqueConceptDomain dr (inLearnerID i) (inConcept i) else returns (inDomainID i))
      (\<lambda>d s'. s' = s \<and> (inDomainID i \<noteq> '''' \<longrightarrow> d = inDomainID i)) (\<lambda>_ s'. s' = s) s"
    by (auto simp: wp_simps intro!: wp_pureI)
  have touch: "wp (if g then wrap_tx w (bind_tx (TouchLearningSession dr l j now) (\<lambda>_. returns ())) else returns ())
      (\<lambda>_ s'. \<exists>ses. s' = s\<lparr>ltSessions := ses\<rparr>) (\<lambda>_ s'. \<exists>ses. s' = s\<lparr>ltSessions := ses\<rparr>) s" for g w l j now
    using wp_mono[OF touch_run] by (cases g) (simp_all add: wp_simps self)
  show ?thesis
    unfolding CreateInteraction_def createInteractionWithStore_def wp_bind Let_def
    apply (rule wp_mono[OF inf])
    subgoal premises prems for d s'
      unfolding conjunct1[OF prems]
      apply (rule wp_mono[OF touch])
      subgoal premises ses for u s''
        using prems ses by (elim exE conjE) (rule wp_mono[OF scope_run], auto simp: wp_simps)
      by simp
    by (simp add: self)
qed

text \<open>Everything but the insert keeps the attempts and the interactions.\<close>

definition both :: "LearningStore \<Rightarrow> (string \<rightharpoonup> AssessmentAttempt) \<times> Interaction list" where
  "both s = (ltAttempts s, ltInteractions s)"

lemma keeps_both:
  "related (\<lambda>s s'. both s' = both s) (GetOrCreateConceptStateForUpdateInDomain dr rc l d c)"
  "related (\<lambda>s s'. both s' = both s) (effective_parameters dr port cs now)"
  "related (\<lambda>s s'. both s' = both s) (calibration_source dr port cs ev n input now obs)"
  "related (\<lambda>s s'. both s' = both s) (record_transfer dr l input obs)"
  "related (\<lambda>s s'. both s' = both s) (UpsertConceptState dr rc cs)"
  "related (\<lambda>s s'. both s' = both s) (CreatePedagogicalSnapshot dr n p)"
  by (rule related_weaken[OF touches_states_load] related_weaken[OF touches_collective] related_weaken[OF touches_estimates]
        related_weaken[OF touches_transfers] related_weaken[OF touches_states_upsert] related_weaken[OF touches_snapshots],
      drule arg_cong[where f = both], simp add: both_def)+

definition appends_one :: "string \<Rightarrow> LearningStore \<Rightarrow> LearningStore \<Rightarrow> bool" where
  "appends_one a s s' \<longleftrightarrow> ltAttempts s' = ltAttempts s \<and>
     (ltInteractions s' = ltInteractions s \<or> (\<exists>i. inAssessmentAttemptID i = a \<and> ltInteractions s' = ltInteractions s @ [i]))"

lemma create_appends: "inAssessmentAttemptID i = a \<Longrightarrow> related (appends_one a) (CreateInteraction dr cd n i)"
  unfolding related_wp by (intro allI wp_mono[OF create_run]) (auto simp: appends_one_def)

lemma record_appends:
  "related (appends_one (iiAssessmentAttemptID input)) (record_answer dr rc port n m l input now t pr cs ev col)"
proof -
  have row: "inAssessmentAttemptID (interaction_row l input cs sl g now) = iiAssessmentAttemptID input" for cs sl g now
    by (simp add: interaction_row_def)
  show ?thesis
    unfolding record_answer_def Let_def
    by (rule related_seq[OF related_imp_wrap[OF create_appends[OF row]], where B = "\<lambda>s s'. both s' = both s"])
       (intro same.rules keeps_both, auto simp: appends_one_def both_def)
qed

lemma appends_after:
  "related (\<lambda>s s'. both s' = both s) m \<Longrightarrow> (\<And>x. related (appends_one a) (f x)) \<Longrightarrow> related (appends_one a) (bind_tx m f)"
  by (rule related_seq[where A = "\<lambda>s s'. both s' = both s" and B = "appends_one a"]) (auto simp: appends_one_def both_def)

lemma rest_appends:
  "related (appends_one (iiAssessmentAttemptID input)) (bind_tx (wrap_tx w (GetOrCreateConceptStateForUpdateInDomain dr rc l d c)) (\<lambda>loaded.
     bind_tx (effective_parameters dr port loaded now) (\<lambda>(cs, evidence, collective).
     record_answer dr rc port n m l input now t pr cs evidence collective)))"
  by (intro appends_after related_case_prod record_appends related_imp_wrap keeps_both)

lemma appends_no_recount:
  assumes "no_recount a s t" and "appends_one b t u" and "a = b \<Longrightarrow> \<not> finished_in a s \<and> finished_in a t \<and> linked a t = linked a s"
  shows "no_recount a s u"
proof -
  have fin: "finished_in a u = finished_in a t" using assms(2) by (simp add: appends_one_def finished_in_def)
  have "linked a u \<le> linked a t + (if a = b then 1 else 0)" using assms(2) by (auto simp: appends_one_def linked_def)
  then show ?thesis using assms(1,3) fin by (auto simp: no_recount_def potential_def split: if_splits)
qed

lemma no_recount_refl [simp]: "no_recount a s s"
  by (simp add: no_recount_def)

lemma no_recount_trans: "no_recount a s t \<Longrightarrow> no_recount a t u \<Longrightarrow> no_recount a s u"
  by (auto simp: no_recount_def)

interpretation recount: store_relation "no_recount a" for a
  by unfold_locales (auto intro: no_recount_trans)

lemma body_no_recount:
  assumes "a \<noteq> ''''"
  shows "related (no_recount a) (interaction_body dr rc port n m l input now)"
  unfolding related_wp
proof
  fix s
  have rest: "wp (bind_tx (wrap_tx ''load concept state''
       (GetOrCreateConceptStateForUpdateInDomain dr rc l (iiDomainID i) (iiConcept i))) (\<lambda>loaded.
     bind_tx (effective_parameters dr port loaded now) (\<lambda>(cs, evidence, collective).
     record_answer dr rc port n m l i now t pr cs evidence collective))) (\<lambda>_. no_recount a s) (\<lambda>_. no_recount a s) s'"
    if r: "attempt_moves rc s s'" "ltInteractions s' = ltInteractions s" and i: "iiAssessmentAttemptID i = iiAssessmentAttemptID input"
      and f: "iiAssessmentAttemptID input \<noteq> '''' \<Longrightarrow> \<not> finished_in (iiAssessmentAttemptID input) s \<and> finished_in (iiAssessmentAttemptID input) s'"
    for i t pr s'
    by (rule wp_mono[OF rest_appends[unfolded related_wp, rule_format]])
       (rule appends_no_recount[OF moves_no_recount[OF r]], assumption, use f i assms r(2) in \<open>auto simp: linked_def\<close>)+
  show "wp (interaction_body dr rc port n m l input now) (\<lambda>_. no_recount a s) (\<lambda>_. no_recount a s) s"
    unfolding interaction_body_def wp_bind[of "consume_attempt dr rc l input now"]
    apply (rule wp_mono[OF consume_run])
    subgoal premises prems for x s'
      using prems by (cases x) (auto intro!: rest split: if_splits)
    by (blast intro: moves_no_recount)
qed

lemma applyInteraction_no_recount: "a \<noteq> '''' \<Longrightarrow> related (no_recount a) (applyInteraction dr rc port n m l input now)"
  unfolding applyInteraction_def WithTx_def by (intro recount.rules body_no_recount)


section \<open>Histories of answers, attempt calls and session calls\<close>

datatype learning_call =
    Answer "CalibrationPort option" int int string interactionInput time
  | Attempt attempt_call
  | Session session_call

fun learning_op :: "Driver \<Rightarrow> 'z RecordCodec_scheme \<Rightarrow> learning_call \<Rightarrow> unit op" where
  "learning_op dr rc (Answer port n m l input now) =
     bind_tx (applyInteraction dr rc port n m l input now) (\<lambda>_. returns ())"
| "learning_op dr rc (Attempt c) = attempt_op dr rc c"
| "learning_op dr rc (Session c) = bind_tx (session_op dr rc c) (\<lambda>_. returns ())"

definition learning_history :: "'z RecordCodec_scheme \<Rightarrow> (Driver \<times> learning_call) list \<Rightarrow> LearningStore \<Rightarrow> LearningStore" where
  "learning_history rc calls s = fold (\<lambda>(dr, c) s. snd (learning_op dr rc c s)) calls s"

text \<open>A reflexive and transitive relation that every call keeps is kept by a history.\<close>

lemma history_relation:
  assumes "store_relation rel" and "\<And>dr c. related rel (learning_op dr rc c)"
  shows "rel s (learning_history rc calls s)"
proof (induction calls arbitrary: s)
  case Nil
  then show ?case by (simp add: learning_history_def store_relation.rel_refl[OF assms(1)])
next
  case (Cons x calls)
  obtain dr c where x: "x = (dr, c)" by (cases x)
  show ?case
    using store_relation.rel_trans[OF assms(1) relatedD[OF assms(2)] Cons.IH]
    by (simp add: x learning_history_def)
qed

definition untouched :: "LearningStore \<Rightarrow> Interaction list \<times> (string \<times> string \<times> string \<rightharpoonup> ConceptState) \<times> CollectiveStore" where
  "untouched s = (ltInteractions s, ltStates s, ltCollective s)"

abbreviation no_attempt_rows :: "LearningStore \<Rightarrow> LearningStore" where "no_attempt_rows s \<equiv> s\<lparr>ltAttempts := Map.empty, ltEvents := []\<rparr>"

lemma savepoint_keeps: "related (\<lambda>s s'. p s' = p s) m \<Longrightarrow> related (\<lambda>s s'. p s' = p s) (savepoint dr m)"
  unfolding savepoint_def
  by (intro same.rules, rule related_raw) (auto split: prod.splits sum.splits dest: related_run)

lemma update_attempt_keeps: "related (\<lambda>s s'. no_attempt_rows s' = no_attempt_rows s) (update_attempt dr w l i g f)"
  unfolding update_attempt_def by (intro same.rules related_raw) (auto split: option.splits)

lemmas keeps_other_rows = same.rules savepoint_keeps update_attempt_keeps pure_get[THEN same.pure] pure_scope[THEN same.pure]
  pure_frozen_outcome[THEN same.pure] pure_decision_protocol[THEN same.pure] same.update

lemma create_keeps: "related (\<lambda>s s'. no_attempt_rows s' = no_attempt_rows s) (CreateAssessmentAttempt dr cd a)"
  unfolding CreateAssessmentAttempt_def createAssessmentAttempt_def insert_attempt_def
  by (intro keeps_other_rows) simp

lemma submit_keeps: "related (\<lambda>s s'. no_attempt_rows s' = no_attempt_rows s) (SubmitAssessmentAttempt dr cd l i rt rh now)"
  unfolding SubmitAssessmentAttempt_def submit_body_def insertLearningEvent_def requireAssessmentTransition_def
  by (intro keeps_other_rows) simp

lemma complete_keeps: "related (\<lambda>s s'. no_attempt_rows s' = no_attempt_rows s) (CompleteAssessmentEvaluation dr cd l i j ev m pr sc p now)"
  unfolding CompleteAssessmentEvaluation_def completeUntrustedAssessmentEvaluation_def requireAssessmentTransition_def
  by (intro keeps_other_rows)

lemma cancel_keeps: "related (\<lambda>s s'. no_attempt_rows s' = no_attempt_rows s) (CancelAssessmentAttempt dr l i now)"
  unfolding CancelAssessmentAttempt_def requireAssessmentTransition_def by (intro keeps_other_rows)

lemma attempt_op_only: "related (\<lambda>s s'. no_attempt_rows s' = no_attempt_rows s) (attempt_op dr cd c)"
  by (cases c) (simp_all add: create_keeps submit_keeps complete_keeps cancel_keeps)

lemma attempt_op_keeps: "related (\<lambda>s s'. (ltSessions s', untouched s') = (ltSessions s, untouched s)) (attempt_op dr cd c)"
  by (rule related_weaken[OF attempt_op_only]) (drule arg_cong[where f = "\<lambda>s. (ltSessions s, untouched s)"], simp add: untouched_def)

lemma session_op_only: "related (\<lambda>s s'. but_sessions s' = but_sessions s) (session_op dr rc c)"
  by (cases c) (simp_all add: open_only_sessions touch_only_sessions close_only_sessions)

lemma session_op_keeps: "related (\<lambda>s s'. (ltAttempts s', untouched s') = (ltAttempts s, untouched s)) (session_op dr rc c)"
  by (rule related_weaken[OF session_op_only]) (drule arg_cong[where f = "\<lambda>s. (ltAttempts s, untouched s)"], simp add: untouched_def)

lemma learning_op_no_recount: "a \<noteq> '''' \<Longrightarrow> related (no_recount a) (learning_op dr rc c)"
proof (cases c)
  case (Attempt call)
  have "related (no_recount a) (attempt_op dr rc call)"
    unfolding related_def
    using moves_no_recount[OF attempt_op_moves] relatedD[OF attempt_op_keeps, unfolded untouched_def] by blast
  with Attempt show ?thesis by simp
next
  case (Session call)
  have "related (no_recount a) (session_op dr rc call)"
    by (rule related_weaken[OF session_op_keeps])
       (simp add: untouched_def no_recount_def potential_def linked_def finished_in_def)
  with Session show ?thesis by (auto intro!: recount.rules)
qed (auto intro!: recount.rules applyInteraction_no_recount)

lemma learning_op_ok: "related keeps_ok (learning_op dr rc c)"
proof (cases c)
  case (Attempt call)
  have "related keeps_ok (attempt_op dr rc call)"
    by (rule keeps_ok_from[OF attempt_op_keeps]) (simp add: untouched_def)
  with Attempt show ?thesis by simp
next
  case (Session call)
  have "related keeps_ok (session_op dr rc call)"
    by (rule keeps_ok_from[OF session_op_keeps]) (simp add: untouched_def)
  with Session show ?thesis by (auto intro!: ok.rules)
qed (auto intro!: ok.rules applyInteraction_ok)

text \<open>The sessions: an answer only touches one.\<close>

lemma moves_if_same: "related (\<lambda>s s'. ltSessions s' = ltSessions s) m \<Longrightarrow> related session_moves m"
  by (erule related_weaken) (metis session_moves_def session_moves_refl)

lemma create_session_moves: "related session_moves (CreateInteraction dr cd n i)"
  unfolding CreateInteraction_def createInteractionWithStore_def
  by (intro moves.rules pure_infer[THEN moves.pure] pure_scope[THEN moves.pure] touch_moves moves_if_same same.update) simp

lemma other_session_moves:
  "related session_moves (consume_attempt dr rc l input now)"
  "related session_moves (GetOrCreateConceptStateForUpdateInDomain dr rc l d c)"
  "related session_moves (effective_parameters dr port cs now)"
  "related session_moves (calibration_source dr port cs ev n input now obs)"
  "related session_moves (record_transfer dr l input obs)"
  "related session_moves (UpsertConceptState dr rc cs)"
  "related session_moves (CreatePedagogicalSnapshot dr n p)"
  by (rule moves_if_same, rule related_weaken[OF touches_attempts_consume] related_weaken[OF touches_states_load]
        related_weaken[OF touches_collective] related_weaken[OF touches_estimates]
        related_weaken[OF touches_transfers] related_weaken[OF touches_states_upsert] related_weaken[OF touches_snapshots],
      drule arg_cong[where f = ltSessions], simp)+

lemma applyInteraction_session_moves: "related session_moves (applyInteraction dr rc port n m l input now)"
  unfolding applyInteraction_def WithTx_def interaction_body_def record_answer_def
  by (intro moves.rules create_session_moves other_session_moves)

lemma attempt_session_moves: "related session_moves (attempt_op dr cd c)"
  by (rule moves_if_same, rule related_weaken[OF attempt_op_keeps]) simp

lemma learning_op_session_moves: "related session_moves (learning_op dr rc c)"
proof (cases c)
  case (Session call)
  have "related session_moves (session_op dr rc call)" by (cases call) (simp_all add: open_moves touch_moves close_moves)
  with Session show ?thesis by (auto intro!: moves.rules)
qed (auto intro!: moves.rules applyInteraction_session_moves attempt_session_moves)

section \<open>What a recorded answer writes\<close>

text \<open>The attempt an answer consumes: submitted, current and of the answer's scope, it becomes evaluated.\<close>

definition consumes ::
    "'z RecordCodec_scheme \<Rightarrow> interactionInput \<Rightarrow> time \<Rightarrow> AssessmentAttempt \<Rightarrow> AssessmentAttempt \<Rightarrow> interactionInput \<Rightarrow> time \<Rightarrow> string \<Rightarrow> bool" where
  "consumes rc input now a b input' t pr \<longleftrightarrow>
     \<not> attempt_conflict input a \<and> attempt_step rc a b \<and> aaStatus b = AssessmentAttemptEvaluated \<and>
     input' = input\<lparr>iiDecisionID := aaDecisionID a, iiCurriculumVersion := aaCurriculumVersion a\<rparr> \<and>
     (if aaEventProtocol a = LearningEventProtocol then aaSubmittedAt a = Some t \<and> t \<le> now \<and> pr = LearningEventProtocol
      else t = now \<and> pr = ''legacy_grading_time'')"

lemma consume_exact:
  "wp (consume_attempt dr rc l input now)
     (\<lambda>(input', t, pr) s'.
        if iiAssessmentAttemptID input = '''' then s' = s \<and> input' = input \<and> t = now \<and> pr = ''legacy_grading_time''
        else \<exists>a b. ltAttempts s (iiAssessmentAttemptID input) = Some a \<and> consumes rc input now a b input' t pr \<and>
          s' = s\<lparr>ltAttempts := (ltAttempts s)(iiAssessmentAttemptID input \<mapsto> b)\<rparr>) (\<lambda>_ _. True) s"
proof (cases "iiAssessmentAttemptID input = ''''")
  case True
  then show ?thesis by (simp add: consume_attempt_def wp_simps)
next
  case False
  let ?i = "iiAssessmentAttemptID input"
  have get: "wp (GetAssessmentAttemptForUpdate dr l ?i) (\<lambda>a s'. s' = s \<and> ltAttempts s ?i = Some a) (\<lambda>_ _. True) s"
    by (auto simp: pure_wp split: sum.split dest: GetAssessmentAttemptForUpdate_Inr)
  show ?thesis
    unfolding consume_attempt_def if_not_P[OF False] wp_bind wp_wrap
    apply (rule wp_mono[OF get])
    subgoal premises prems for a s'
      using prems by (auto simp: wp_simps False Let_def consumes_def after_def intro!: wp_mono[OF complete_run] split: option.splits)
    by simp
qed

lemma only_estimates: "but_estimates s' = but_estimates s \<Longrightarrow> \<exists>e. s' = s\<lparr>ltEstimates := e\<rparr>"
  by (intro exI[of _ "ltEstimates s'"], cases s, cases s') simp

lemma calibration_run:
  "wp (calibration_source dr port cs ev n input now obs) (\<lambda>_ s'. \<exists>e. s' = s\<lparr>ltEstimates := e\<rparr>) (\<lambda>_ _. True) s"
  by (rule wp_mono[OF touches_estimates[unfolded related_wp, rule_format]]) (auto dest: only_estimates)

definition transfer_rows :: "Driver \<Rightarrow> string \<Rightarrow> interactionInput \<Rightarrow> TransferRecord list" where
  "transfer_rows dr l input = (case iiTransferScore input of None \<Rightarrow> []
     | Some score \<Rightarrow> [\<lparr>trLearnerID = l, trDomainID = iiDomainID input, trAssessmentAttemptID = iiAssessmentAttemptID input,
             trConceptID = iiConcept input, trContextType = iiTransferDimension input, trScore = score,
             trSessionID = (if iiSessionID input = '''' then iiTransferSessionID input else iiSessionID input), trCreatedAt = drNow dr\<rparr>])"

lemma transfer_run:
  "wp (record_transfer dr l input obs) (\<lambda>_ s'. s' = s\<lparr>ltTransfers := ltTransfers s @ transfer_rows dr l input\<rparr>) (\<lambda>_ _. True) s"
  by (cases "iiTransferScore input") (simp_all add: record_transfer_def CreateTransferRecord_def transfer_rows_def wp_simps)

lemma snapshot_run:
  "wp (CreatePedagogicalSnapshot dr m p)
     (\<lambda>_ s'. s' = s\<lparr>ltSnapshots := ltSnapshots s @ [p\<lparr>psID := m, psCreatedAt := clock_or dr (psCreatedAt p)\<rparr>]\<rparr>) (\<lambda>_ _. True) s"
  by (simp add: CreatePedagogicalSnapshot_def createPedagogicalSnapshotWithStore_def wp_simps nested_def clock_or_def)

definition answer_row :: "Driver \<Rightarrow> int \<Rightarrow> string \<Rightarrow> interactionInput \<Rightarrow> ConceptState \<Rightarrow> time \<Rightarrow> Interaction" where
  "answer_row dr n l input cs now =
     (interaction_row l input cs (csPSlip cs) (csPGuess cs) now)\<lparr>inID := n, inCreatedAt := clock_or dr now\<rparr>"

text \<open>The audit snapshot of an answer: it names the interaction and shows the state before and after.\<close>

definition audits :: "'z RecordCodec_scheme \<Rightarrow> int \<Rightarrow> int \<Rightarrow> string \<Rightarrow> interactionInput \<Rightarrow> ConceptState \<Rightarrow> ConceptState \<Rightarrow> PedagogicalSnapshot \<Rightarrow> bool" where
  "audits rc n m l input cs cs' p \<longleftrightarrow>
     psID p = m \<and> psInteractionID p = n \<and> psLearnerID p = l \<and> psDomainID p = iiDomainID input \<and> psConcept p = iiConcept input \<and>
     psActivityType p = iiActivityType input \<and>
     psBeforeJSON p = mustSnapshotJSON rc (conceptStateSnapshot rc cs) \<and>
     psAfterJSON p = mustSnapshotJSON rc (conceptStateAfterSnapshot rc cs')"

lemma answered_state_key [simp]: "csLearnerID (answered_state cs input t pr) = csLearnerID cs"
  "csDomainID (answered_state cs input t pr) = csDomainID cs" "csConcept (answered_state cs input t pr) = csConcept cs"
  by (simp_all add: answered_state_def Let_def merged_state_fields)

lemma used_params: "pPSlip (Params (updateBKTWithFixedParameters (bkt_of cs) mode b)) = csPSlip cs"
  "pPGuess (Params (updateBKTWithFixedParameters (bkt_of cs) mode b)) = csPGuess cs"
  by (simp_all add: updateBKTWithFixedParameters_def Let_def bkt_of_def)

lemma answer_row_eq:
  "(interaction_row l input cs (csPSlip cs) (csPGuess cs) now)
     \<lparr>inDomainID := iiDomainID input, inCreatedAt := clock_or dr (inCreatedAt (interaction_row l input cs (csPSlip cs) (csPGuess cs) now)),
      inID := n\<rparr> = answer_row dr n l input cs now"
  "inDomainID (interaction_row l input cs sl g now) = iiDomainID input" "inID (answer_row dr n l input cs now) = n"
  by (simp_all add: answer_row_def interaction_row_def)

lemma set_domain_same: "csDomainID cs = d \<Longrightarrow> cs\<lparr>csDomainID := d\<rparr> = cs"
  by (cases cs) simp

lemma record_run:
  assumes "iiDomainID input \<noteq> ''''" and "csDomainID cs \<noteq> ''''"
  shows "wp (record_answer dr rc port n m l input now t pr cs ev col)
     (\<lambda>(cs', obs) s'. cs' = (answered_state cs input t pr)\<lparr>csUpdatedAt := drNow dr\<rparr> \<and>
        (\<exists>ses est p. audits rc n m l input cs cs' p \<and>
           s' = s\<lparr>ltSessions := ses, ltInteractions := ltInteractions s @ [answer_row dr n l input cs now], ltEstimates := est,
                  ltTransfers := ltTransfers s @ transfer_rows dr l input,
                  ltStates := (ltStates s)(state_key cs \<mapsto> cs'), ltSnapshots := ltSnapshots s @ [p]\<rparr>)) (\<lambda>_ _. True) s"
  unfolding record_answer_def Let_def wp_bind wp_wrap
  apply (rule wp_mono[OF create_run], elim exE conjE)
  subgoal premises a for i s1 d ses
    apply (rule wp_mono[OF calibration_run], elim exE)
    subgoal premises b for obs1 s2 est
      apply (rule wp_mono[OF transfer_run])
      subgoal premises c for obs2 s3
        apply (simp only: split_beta wp_bind wp_wrap)
        apply (rule wp_mono[OF upsert_run], elim exE conjE)
        subgoal premises d for cs' s4 d'
        proof -
          have i: "i = answer_row dr n l input cs now" using a assms(1) by (simp add: answer_row_eq used_params)
          have k: "d' = csDomainID cs" using d(1) assms(2) by simp
          have cs': "cs' = (answered_state cs input t pr)\<lparr>csUpdatedAt := drNow dr\<rparr>"
            unfolding d(2) k by (simp add: set_domain_same)
          show ?thesis
            apply (rule wp_mono[OF snapshot_run])
            unfolding wp_returns prod.case
             apply (rule conjI[OF cs'], rule exI[of _ ses], rule exI[of _ est], rule exI, rule conjI[rotated], erule trans)
              apply (simp add: d(3) c b a(3) i k state_key_def)
             apply (simp add: audits_def i answer_row_eq)
            by simp
        qed
        by simp
      by simp
    by simp
  by simp

lemma effective_run:
  assumes "weights_ok (ltCollective s)" and "params_all unit_f64 (stateBKTParams cs)"
  shows "wp (effective_parameters dr port cs now)
     (\<lambda>(cs', _, _) s'. (\<exists>c. s' = s\<lparr>ltCollective := c\<rparr>) \<and> setStateBKTParams (stateBKTParams cs) cs' = cs \<and>
        (port = None \<longrightarrow> cs' = setStateBKTParams BKTReferenceParams cs)) (\<lambda>_ _. True) s"
proof -
  have self: "\<exists>c. s = s\<lparr>ltCollective := c\<rparr>" by (intro exI[of _ "ltCollective s"]) simp
  have ref: "setStateBKTParams (stateBKTParams cs) (setStateBKTParams BKTReferenceParams cs) = cs" by simp
  show ?thesis
    unfolding effective_parameters_def
    by (cases port) (auto simp: wp_simps self ref intro!: wp_mono[OF ApplyCollectiveWeights_unit[OF assms]] split: option.splits sum.splits)
qed

text \<open>The specification of a recorded answer: the state before it (stored or fresh), with the parameters in force, gives the
  state after it; one interaction and one snapshot are appended, one transfer record when a transfer score was given, and no
  attempt changes.\<close>

definition counted ::
    "Driver \<Rightarrow> 'z RecordCodec_scheme \<Rightarrow> CalibrationPort option \<Rightarrow> int \<Rightarrow> int \<Rightarrow> string \<Rightarrow> interactionInput \<Rightarrow> time \<Rightarrow> time \<Rightarrow> string \<Rightarrow>
     LearningStore \<Rightarrow> ConceptState \<Rightarrow> LearningStore \<Rightarrow> bool" where
  "counted dr rc port n m l input now t pr s cs' s' \<longleftrightarrow>
     (\<exists>before cs p.
        before = (case ltStates s (l, iiDomainID input, iiConcept input) of
            None \<Rightarrow> fresh_state dr l (iiDomainID input) (iiConcept input) | Some st \<Rightarrow> st) \<and>
        setStateBKTParams (stateBKTParams before) cs = before \<and>
        (port = None \<longrightarrow> cs = setStateBKTParams BKTReferenceParams before) \<and>
        cs' = (answered_state cs input t pr)\<lparr>csUpdatedAt := drNow dr\<rparr> \<and>
        audits rc n m l input cs cs' p \<and>
        ltStates s' = (ltStates s)((l, iiDomainID input, iiConcept input) \<mapsto> cs') \<and>
        ltInteractions s' = ltInteractions s @ [answer_row dr n l input cs now] \<and>
        ltTransfers s' = ltTransfers s @ transfer_rows dr l input \<and>
        ltSnapshots s' = ltSnapshots s @ [p] \<and>
        (ltAttempts s', ltDomains s', ltDecisions s', ltEvents s') = (ltAttempts s, ltDomains s, ltDecisions s, ltEvents s))"

text \<open>With its attempt: an answer bound to one consumes exactly that one, and its input then carries the attempt's decision.\<close>

definition recorded ::
    "Driver \<Rightarrow> 'z RecordCodec_scheme \<Rightarrow> CalibrationPort option \<Rightarrow> int \<Rightarrow> int \<Rightarrow> string \<Rightarrow> interactionInput \<Rightarrow> time \<Rightarrow>
     LearningStore \<Rightarrow> ConceptState \<Rightarrow> LearningStore \<Rightarrow> bool" where
  "recorded dr rc port n m l input now s cs' s' \<longleftrightarrow>
     (if iiAssessmentAttemptID input = '''' then counted dr rc port n m l input now now ''legacy_grading_time'' s cs' s'
      else \<exists>a b inp t pr. ltAttempts s (iiAssessmentAttemptID input) = Some a \<and> consumes rc input now a b inp t pr \<and>
        counted dr rc port n m l inp now t pr (s\<lparr>ltAttempts := (ltAttempts s)(iiAssessmentAttemptID input \<mapsto> b)\<rparr>) cs' s')"

lemma setStateBKTParams_key: "state_key (setStateBKTParams ps cs) = state_key cs"
  by (simp add: state_key_def setStateBKTParams_def)

lemma rest_run:
  assumes "store_ok s" and dom: "iiDomainID input \<noteq> ''''"
  shows "wp (bind_tx (wrap_tx w (GetOrCreateConceptStateForUpdateInDomain dr rc l (iiDomainID input) (iiConcept input))) (\<lambda>loaded.
     bind_tx (effective_parameters dr port loaded now) (\<lambda>(cs, evidence, collective).
     record_answer dr rc port n m l input now t pr cs evidence collective)))
     (\<lambda>(cs', obs) s'. counted dr rc port n m l input now t pr s cs' s') (\<lambda>_ _. True) s"
  unfolding wp_bind wp_wrap
  apply (rule wp_mono[OF wp_conj[OF load_run load_ok[OF assms(1)]]])
  subgoal premises load for before s1
  proof -
    let ?k = "(l, iiDomainID input, iiConcept input)"
    have b: "before = (case ltStates s ?k of None \<Rightarrow> fresh_state dr l (iiDomainID input) (iiConcept input) | Some st \<Rightarrow> st)"
      "s1 = s \<or> s1 = s\<lparr>ltStates := (ltStates s)(?k \<mapsto> before)\<rparr>" "state_key before = ?k"
      using load by (auto simp: store_ok_def)
    have w: "weights_ok (ltCollective s1)" "params_all unit_f64 (stateBKTParams before)"
      using load by (simp_all add: store_ok_def state_ok_def bkt_wf_of)
    show ?thesis
      apply (rule wp_mono[OF effective_run[OF w]])
      subgoal premises eff for y s2
      proof -
        obtain cs ev col c where y: "y = (cs, ev, col)" and s2: "s2 = s1\<lparr>ltCollective := c\<rparr>" using eff by (cases y) auto
        have cs: "setStateBKTParams (stateBKTParams before) cs = before" "port = None \<longrightarrow> cs = setStateBKTParams BKTReferenceParams before"
          using eff by (simp_all add: y)
        then have k: "state_key cs = ?k" using b(3) setStateBKTParams_key[of "stateBKTParams before" cs] by simp
        then have d: "csDomainID cs \<noteq> ''''" using dom by (simp add: state_key_def)
        show ?thesis
          unfolding y prod.case
          apply (rule wp_mono[OF record_run[OF dom d]])
          subgoal premises rec for z s3
          proof -
            from rec obtain ses est p where r: "fst z = (answered_state cs input t pr)\<lparr>csUpdatedAt := drNow dr\<rparr>"
              "audits rc n m l input cs (fst z) p"
              "s3 = s2\<lparr>ltSessions := ses, ltInteractions := ltInteractions s2 @ [answer_row dr n l input cs now], ltEstimates := est,
                 ltTransfers := ltTransfers s2 @ transfer_rows dr l input,
                 ltStates := (ltStates s2)(state_key cs \<mapsto> fst z), ltSnapshots := ltSnapshots s2 @ [p]\<rparr>"
              unfolding split_beta by blast
            show ?thesis
              unfolding counted_def split_beta
              by (rule exI[of _ before], rule exI[of _ cs], rule exI[of _ p], intro conjI, fact b(1), fact cs(1), fact cs(2), fact r(1), fact r(2))
                 (use b(2) in \<open>elim disjE; simp add: r(3) s2 k\<close>)+
          qed
          by simp
      qed
      by simp
  qed
  by simp

lemma body_run:
  assumes "store_ok s" and "iiDomainID input \<noteq> ''''"
  shows "wp (interaction_body dr rc port n m l input now) (\<lambda>(cs', obs) s'. recorded dr rc port n m l input now s cs' s') (\<lambda>_ _. True) s"
  unfolding interaction_body_def wp_bind[of "consume_attempt dr rc l input now"]
  apply (rule wp_mono[OF consume_exact])
  subgoal premises con for x s1
  proof -
    obtain inp t pr where x: "x = (inp, t, pr)" by (cases x)
    have "ltStates s1 = ltStates s" "ltCollective s1 = ltCollective s"
      using con by (auto simp: x split: if_splits)
    then have ok: "store_ok s1" using assms(1) store_ok_cong by blast
    have dom: "iiDomainID inp \<noteq> ''''"
      using con assms(2) by (auto simp: x consumes_def split: if_splits)
    have rec: "recorded dr rc port n m l input now s cs' s'" if "counted dr rc port n m l inp now t pr s1 cs' s'" for cs' s'
      using con that unfolding x prod.case recorded_def by (cases "iiAssessmentAttemptID input = ''''") (simp, metis)
    show ?thesis
      unfolding x prod.case by (rule wp_mono[OF rest_run[OF ok dom]]) (auto intro: rec)
  qed
  by simp

lemma applyInteraction_run:
  assumes "store_ok s" and "iiDomainID input \<noteq> ''''"
  shows "wp (applyInteraction dr rc port n m l input now)
    (\<lambda>(cs', obs) s'. \<exists>dim. normalizeTransferEvidence (iiActivityType input) (iiTransferDimension input) (iiTransferScore input)
         (iiTransferSessionID input) = Inr dim \<and>
       recorded (nested dr) rc port n m l (input\<lparr>iiTransferDimension := dim\<rparr>) now s cs' s')
    (\<lambda>_ s'. drOwned dr \<longrightarrow> s' = s) s"
proof -
  have "wp (WithTx dr (interaction_body (nested dr) rc port n m l (input\<lparr>iiTransferDimension := dim\<rparr>) now))
      (\<lambda>(cs', obs) s'. recorded (nested dr) rc port n m l (input\<lparr>iiTransferDimension := dim\<rparr>) now s cs' s')
      (\<lambda>_ s'. drOwned dr \<longrightarrow> s' = s) s" for dim
    unfolding WithTx_def wp_inTx using assms(2) by (auto intro!: wp_mono[OF body_run[OF assms(1)]])
  note step = wp_mono[OF this]
  show ?thesis
    unfolding applyInteraction_def by (auto simp: wp_simps split: sum.splits intro!: step)
qed

section \<open>The memory of a concept\<close>

lemma answered_memory:
  "card_of (answered_state cs input t pr) =
     (if fst (fsrs_decision cs input t pr) then ReviewCard (card_of cs) (answer_rating input) t else card_of cs)"
  by (simp add: answered_state_def Let_def card_of_merged ReviewCard_last)

lemma answered_clock:
  "prior_last_review (answered_state cs input t pr) = (if fst (fsrs_decision cs input t pr) then t else prior_last_review cs)"
  using arg_cong[OF answered_memory[of cs input t pr], of fLastReview] by (simp add: card_of_def ReviewCard_last split: if_splits)

lemma reviewed_only_later:
  "fst (fsrs_decision cs input t pr) \<Longrightarrow> pr \<noteq> ''legacy_grading_time'' \<Longrightarrow> 0 \<le> t \<Longrightarrow> prior_last_review cs \<le> t"
  by (auto simp: fsrs_decision_def Let_def after_def isZero_def split: if_splits)

lemma state_ok_known: "state_ok cs \<Longrightarrow> card_known (card_of cs)"
  by (auto simp: state_ok_def card_known_def card_of_def card_wf_def)

text \<open>
  Answers in the order in which they are graded, each with the time of its observation (the
  submission of a committed response, the grading of an answer of the old protocol) and its protocol.
\<close>

type_synonym graded_answer = "interactionInput \<times> time \<times> string"

definition graded :: "graded_answer list \<Rightarrow> ConceptState \<Rightarrow> ConceptState" where
  "graded xs cs = fold (\<lambda>(input, t, pr) cs. answered_state cs input t pr) xs cs"

lemma graded_memory:
  assumes "state_ok cs"
  shows "state_ok (graded xs cs) \<and>
    csReps cs \<le> csReps (graded xs cs) \<and> csReps (graded xs cs) \<le> csReps cs + int (length xs) \<and>
    prior_last_review (graded xs cs) \<in> insert (prior_last_review cs) ((fst \<circ> snd) ` set xs) \<and>
    (prior_last_review (graded xs cs) = prior_last_review cs \<or> csReps cs < csReps (graded xs cs))"
  using assms
proof (induction xs arbitrary: cs)
  case Nil
  then show ?case by (simp add: graded_def)
next
  case (Cons x xs)
  obtain i t pr where x: "x = (i, t, pr)" by (cases x)
  let ?d = "fst (fsrs_decision cs i t pr)" and ?c = "answered_state cs i t pr"
  have ok: "state_ok ?c" using Cons.prems(1) by (rule answered_state_ok)
  have reps: "csReps ?c = csReps cs + (if ?d then 1 else 0)"
    using arg_cong[OF answered_memory[of cs i t pr], of fReps] ReviewCard_counters(1)[OF state_ok_known[OF Cons.prems(1)]]
    by (simp add: card_of_def split: if_splits)
  have clock: "prior_last_review ?c = (if ?d then t else prior_last_review cs)" by (rule answered_clock)
  have "graded (x # xs) cs = graded xs ?c" by (simp add: graded_def x)
  with Cons.IH[OF ok] reps clock show ?case by (auto simp: x split: if_splits)
qed

lemma answered_forward:
  assumes "pr \<noteq> ''legacy_grading_time''" and "0 \<le> t"
  shows "prior_last_review cs \<le> prior_last_review (answered_state cs input t pr)"
  using reviewed_only_later[OF _ assms] by (simp add: answered_clock)

lemma graded_forward:
  assumes "\<forall>(input, t, pr) \<in> set xs. pr \<noteq> ''legacy_grading_time'' \<and> 0 \<le> t"
  shows "prior_last_review cs \<le> prior_last_review (graded xs cs)"
  using assms
proof (induction xs rule: rev_induct)
  case (snoc x xs)
  obtain i t pr where x: "x = (i, t, pr)" by (cases x)
  have "graded (xs @ [x]) cs = answered_state (graded xs cs) i t pr" by (simp add: graded_def x)
  with snoc answered_forward[of pr t "graded xs cs" i] show ?case by (auto simp: x)
qed (simp add: graded_def)

lemma late_answer_memory:
  assumes "pr \<noteq> ''legacy_grading_time''" and "prior_last_review cs \<noteq> 0" and "t \<le> prior_last_review cs"
  shows "card_of (answered_state cs input t pr) = card_of cs"
  using assms by (simp add: answered_memory fsrs_decision_def Let_def isZero_def after_def)

lemma legacy_answer_clock:
  assumes "\<not> failedColdDiagnostic (csCardState cs) input"
  shows "prior_last_review (answered_state cs input t ''legacy_grading_time'') = t"
  using assms by (simp add: answered_clock fsrs_decision_def Let_def)

lemma cold_diagnostic_memory:
  assumes "failedColdDiagnostic (csCardState cs) input"
  shows "card_of (answered_state cs input t pr) = card_of cs"
  using assms by (simp add: answered_memory fsrs_decision_def Let_def)

section \<open>Examples\<close>

definition example_answer :: "string \<Rightarrow> interactionInput" where
  "example_answer attempt =
     \<lparr>iiConcept = ''c'', iiActivityType = ''MASTERY_CHALLENGE'', iiSuccess = True, iiResponseTimeSeconds = 3, iiConfidence = 1,
      iiErrorType = '''', iiNotes = '''', iiHintsRequested = 0, iiSelfInitiated = False, iiCalibrationID = '''',
      iiMisconceptionType = '''', iiMisconceptionDetail = '''', iiDomainID = ''d'', iiSessionID = '''',
      iiAssessmentAttemptID = attempt, iiDecisionID = '''', iiCurriculumVersion = 0, iiEvaluatorID = ''h'',
      iiEvaluationMethod = EvaluationMethodHostLLM, iiEvaluationProvenanceJSON = '''', iiAssessmentScore = 1,
      iiRubricJSON = '''', iiRubricScoreJSON = ''{}'', iiRubric = None, iiRubricScore = None, iiRubricWarnings = [],
      iiRubricScoreWarnings = [], iiSemanticObservation = None, iiInterpretationBrief = '''', iiTransferDimension = '''',
      iiTransferScore = None, iiTransferSessionID = ''''\<rparr>"

definition example_record_codec :: RecordCodec where
  "example_record_codec = StoreCodec.extend example_store_codec \<lparr>rcTime = (\<lambda>_. JNull)\<rparr>"

lemma example_store_ok: "store_ok example_tables"
  by (simp add: store_ok_def example_tables_def empty_weights_def weights_ok_def weight_rows_ok_def compatible_params_def)


lemmas store_op_defs = lockCurriculumForEvidence_def formationLearningScope_def live_domain_def resolveLearningScope_def
  getConceptState_def InsertConceptStateIfNotExists_def inferConceptStateDomain_def UpsertConceptState_def
  CreateInteraction_def createInteractionWithStore_def CreatePedagogicalSnapshot_def createPedagogicalSnapshotWithStore_def
  GetOrCreateConceptStateForUpdateInDomain_def calibration_source_def record_transfer_def effective_parameters_def

lemmas example_defs = quiet_driver_def nested_def example_tables_def example_course_def example_record_codec_def StoreCodec.defs
  example_store_codec_def example_answer_def empty_scope_def

lemma example_answer_returns:
  "wp (applyInteraction quiet_driver example_record_codec None 7 8 ''l'' (example_answer '''') 9) (\<lambda>_ _. True) (\<lambda>_ _. False) example_tables"
  by (simp add: applyInteraction_def WithTx_def interaction_body_def consume_attempt_def record_answer_def Let_def
      store_op_defs wp_simps example_defs isCognitiveEvidenceActivity_def normalizeTransferEvidence_def
      NewConceptStateInDomain_def state_key_def interaction_row_def setStateBKTParams_def split_beta)

definition example_learning :: "(Driver \<times> learning_call) list" where
  "example_learning = [(quiet_driver, Attempt (CallSubmit ''l'' ''a'' ''r'' '''' 5)),
     (quiet_driver, Answer None 7 8 ''l'' (example_answer ''a'') 9), (quiet_driver, Answer None 8 9 ''l'' (example_answer ''a'') 9)]"

text \<open>A blank domain: the row is created under the one domain that has the concept, and then not found under the blank one.\<close>

lemma blank_domain_load_fails:
  "fst (GetOrCreateConceptStateForUpdateInDomain quiet_driver example_record_codec ''l'' '''' ''c'' example_tables) =
     Inl (ErrWrap ''get concept state'' ErrNoRows)"
  by (simp add: store_op_defs run_defs catch_tx_def inferUniqueConceptDomain_def GetDomainsByLearner_def example_defs
      NewConceptStateInDomain_def state_key_def)

section \<open>Properties\<close>

text \<open>C1. Recording an answer in a transaction of its own is all or nothing: when any statement, the begin or the commit
  fails, or a guard rejects the answer, the store is unchanged; when it returns, exactly one interaction and one audit
  snapshot (naming that interaction, with the state before and after) are appended, one transfer record when a transfer
  score was given, only the state of that learner, domain and concept is written, with the value the mastery and memory
  updates give for the parameters in force (the immutable reference without a calibration port), and only the attempt of
  the answer is consumed: it was submitted, current and of the same scope, and becomes evaluated.\<close>

theorem answer_recorded_or_nothing:
  assumes "store_ok s" and "iiDomainID input \<noteq> ''''" and "drOwned dr"
  shows "case applyInteraction dr rc port n m l input now s of
      (Inl e, s') \<Rightarrow> s' = s
    | (Inr (cs', obs), s') \<Rightarrow> \<exists>dim.
        normalizeTransferEvidence (iiActivityType input) (iiTransferDimension input) (iiTransferScore input)
          (iiTransferSessionID input) = Inr dim \<and>
        recorded (nested dr) rc port n m l (input\<lparr>iiTransferDimension := dim\<rparr>) now s cs' s'"
  using applyInteraction_run[OF assms(1,2), of dr rc port n m l now] assms(3)
  by (auto simp: wp_def split: prod.splits sum.splits)

theorem answer_recorded_or_nothing_witness:
  "\<exists>cs obs s'. applyInteraction quiet_driver example_record_codec None 7 8 ''l'' (example_answer '''') 9 example_tables = (Inr (cs, obs), s') \<and>
     recorded (nested quiet_driver) example_record_codec None 7 8 ''l'' (example_answer '''') 9 example_tables cs s'"
proof -
  obtain r s' where run: "applyInteraction quiet_driver example_record_codec None 7 8 ''l'' (example_answer '''') 9 example_tables = (r, s')"
    by fastforce
  with example_answer_returns obtain cs obs where r: "r = Inr (cs, obs)" by (cases r) (auto simp: wp_def)
  have same: "(example_answer '''')\<lparr>iiTransferDimension := ''''\<rparr> = example_answer ''''" by (simp add: example_answer_def)
  have "drOwned quiet_driver" "iiDomainID (example_answer '''') \<noteq> ''''" by (simp_all add: quiet_driver_def example_answer_def)
  from answer_recorded_or_nothing[OF example_store_ok this(2,1), of example_record_codec None 7 8 "''l''" 9, unfolded run r]
  obtain dim where dim: "normalizeTransferEvidence (iiActivityType (example_answer '''')) (iiTransferDimension (example_answer ''''))
        (iiTransferScore (example_answer '''')) (iiTransferSessionID (example_answer '''')) = Inr dim"
      "recorded (nested quiet_driver) example_record_codec None 7 8 ''l'' ((example_answer '''')\<lparr>iiTransferDimension := dim\<rparr>) 9 example_tables cs s'"
    by auto
  have "dim = ''''" using dim(1) by (simp add: example_answer_def normalizeTransferEvidence_def split: if_splits)
  with dim(2) show ?thesis by (simp add: run r same)
qed

text \<open>C4. Whatever sequence of answers, attempt calls and session calls runs, on any driver, in or outside a caller's
  transaction and whichever statements fail, every stored learner state stays well-formed: it is stored under its own key,
  its mastery and its learn, forget, slip and guess probabilities lie in [0, 1], its memory card is new or satisfies the card
  invariant, the published collective weights keep theirs, and no learner gets a second open session.\<close>

theorem answers_keep_states_well_formed:
  assumes "store_ok s" and "sessions_ok (ltSessions s)"
  shows "store_ok (learning_history rc calls s) \<and> sessions_ok (ltSessions (learning_history rc calls s))"
  using history_relation[OF ok.store_relation_axioms learning_op_ok, of s rc calls]
    history_relation[OF moves.store_relation_axioms learning_op_session_moves, of s rc calls] assms
  by (simp add: keeps_ok_def session_moves_def)

theorem answers_keep_states_well_formed_witness:
  "store_ok example_tables \<and> store_ok (learning_history example_record_codec example_learning example_tables)"
proof -
  have "sessions_ok (ltSessions example_tables)" by (simp add: example_tables_def sessions_ok_def)
  from answers_keep_states_well_formed[OF example_store_ok this] example_store_ok show ?thesis by blast
qed

text \<open>C2. An assessment attempt counts at most once: in any history of answers, attempt calls and session calls, with any failures and any
  transaction boundaries, at most one interaction is ever linked to an attempt, and none is added to one that was already
  evaluated or cancelled.\<close>

theorem attempt_counted_once:
  assumes "a \<noteq> ''''"
  shows "linked a (learning_history rc calls s) \<le> linked a s + (if finished_in a s then 0 else 1)"
  using history_relation[OF recount.store_relation_axioms learning_op_no_recount[OF assms], of s rc calls]
  by (simp add: no_recount_def potential_def split: if_splits)

theorem attempt_counted_once_witness:
  "linked ''a'' (learning_history example_record_codec example_learning example_tables) \<le> 1"
  using attempt_counted_once[of "''a''" example_record_codec example_learning example_tables]
  by (simp add: linked_def example_tables_def split: if_splits)



end
