(* ===== verification/Principals.thy ===== *)
theory Principals
  imports Transactions
begin

text \<open>
  Who may do what: the OAuth scopes of a grant (\<open>models/oauth.go\<close>, \<open>auth/scopes.go\<close>), the principal of a
  tenant membership (\<open>models/principal.go\<close>) and the permissions of its roles (\<open>models/rbac.go\<close>).
  Narrowing a scope is shown to be exactly the inclusion of capabilities, and authorization is shown not
  to depend on the order in which the roles of a principal are listed.
\<close>

section \<open>Scopes (models/oauth.go)\<close>

definition OAuthScopeLearner :: string where "OAuthScopeLearner = ''learner''"
definition OAuthScopeLearnerRead :: string where "OAuthScopeLearnerRead = ''learner:read''"
definition OAuthScopeLearnerWrite :: string where "OAuthScopeLearnerWrite = ''learner:write''"
definition OAuthScopeLearnerReadWrite :: string where "OAuthScopeLearnerReadWrite = ''learner:read learner:write''"
definition OAuthScopeFormationContribute :: string where "OAuthScopeFormationContribute = ''formation:contribute''"
definition OAuthScopeFormationRead :: string where "OAuthScopeFormationRead = ''formation:read''"
definition OAuthScopeFormationWrite :: string where "OAuthScopeFormationWrite = ''formation:write''"
definition OAuthScopeProgressRead :: string where "OAuthScopeProgressRead = ''progress:read''"

lemmas scope_names = OAuthScopeLearner_def OAuthScopeLearnerRead_def OAuthScopeLearnerWrite_def
  OAuthScopeLearnerReadWrite_def OAuthScopeFormationContribute_def OAuthScopeFormationRead_def
  OAuthScopeFormationWrite_def OAuthScopeProgressRead_def

text \<open>The granular scopes, in the order of the canonical form.\<close>

definition granular_scopes :: "string list" where
  "granular_scopes = [OAuthScopeLearnerRead, OAuthScopeLearnerWrite, OAuthScopeFormationContribute,
     OAuthScopeFormationRead, OAuthScopeFormationWrite, OAuthScopeProgressRead]"

fun check_scopes :: "string list \<Rightarrow> string list \<Rightarrow> goerr + string list" where
  "check_scopes [] seen = Inr seen"
| "check_scopes (scope # rest) seen =
     (if scope \<in> set seen then Inl (ErrText [S ''duplicate scope '', Q scope])
      else if scope = OAuthScopeLearner \<or> scope \<in> set granular_scopes then check_scopes rest (scope # seen)
      else Inl (ErrText [S ''unsupported scope '', Q scope]))"

definition CanonicalOAuthScope :: "string \<Rightarrow> goerr + string" where
  "CanonicalOAuthScope raw =
     (if strings_Fields raw = [] then Inl (ErrText [S ''scope is required''])
      else case check_scopes (strings_Fields raw) [] of
        Inl e \<Rightarrow> Inl e
      | Inr seen \<Rightarrow>
          if OAuthScopeLearner \<in> set seen then
            (if length seen \<noteq> 1
             then Inl (ErrText [S ''legacy learner scope cannot be combined with granular scopes''])
             else Inr OAuthScopeLearner)
          else Inr (join '' '' (filter (\<lambda>scope. scope \<in> set seen) granular_scopes)))"

definition OAuthScopeAllows :: "string \<Rightarrow> string \<Rightarrow> bool" where
  "OAuthScopeAllows granted required =
     (if required \<notin> set granular_scopes then False
      else if granted = OAuthScopeLearner
        then required = OAuthScopeLearnerRead \<or> required = OAuthScopeLearnerWrite
      else case CanonicalOAuthScope granted of
        Inl _ \<Rightarrow> False
      | Inr canonical \<Rightarrow> canonical = granted \<and> required \<in> set (strings_Fields granted))"

definition OAuthScopeCanNarrow :: "string \<Rightarrow> string \<Rightarrow> bool" where
  "OAuthScopeCanNarrow granted requested =
     (case CanonicalOAuthScope granted of
        Inl _ \<Rightarrow> False
      | Inr grantedCanonical \<Rightarrow>
          (case CanonicalOAuthScope requested of
             Inl _ \<Rightarrow> False
           | Inr requestedCanonical \<Rightarrow>
               if grantedCanonical = OAuthScopeLearner then
                 requestedCanonical = OAuthScopeLearner \<or> requestedCanonical = OAuthScopeLearnerRead \<or>
                 requestedCanonical = OAuthScopeLearnerWrite \<or> requestedCanonical = OAuthScopeLearnerReadWrite
               else if requestedCanonical = OAuthScopeLearner then False
               else list_all (OAuthScopeAllows grantedCanonical) (strings_Fields requestedCanonical)))"

section \<open>Principals (models/principal.go)\<close>

definition LegacyTenantID :: string where "LegacyTenantID = ''tenant_legacy''"
definition RoleOwner :: string where "RoleOwner = ''owner''"
definition RoleAdmin :: string where "RoleAdmin = ''admin''"
definition RolePedagogyManager :: string where "RolePedagogyManager = ''pedagogy_manager''"
definition RoleTrainer :: string where "RoleTrainer = ''trainer''"
definition RoleAuditor :: string where "RoleAuditor = ''auditor''"
definition RoleBillingAdmin :: string where "RoleBillingAdmin = ''billing_admin''"
definition RoleLearner :: string where "RoleLearner = ''learner''"
definition RoleServiceAccount :: string where "RoleServiceAccount = ''service_account''"
definition RoleSupport :: string where "RoleSupport = ''support''"
definition legacyMembershipBase :: string where "legacyMembershipBase = ''membership_legacy_''"

lemmas role_names = RoleOwner_def RoleAdmin_def RolePedagogyManager_def RoleTrainer_def RoleAuditor_def
  RoleBillingAdmin_def RoleLearner_def RoleServiceAccount_def RoleSupport_def

record TenantScope =
  tsTenantID :: string
  tsUserID :: string
  tsMembershipID :: string
  tsEnrollmentID :: string
  tsLearnerID :: string

record Principal =
  prUserID :: string
  prTenantID :: string
  prMembershipID :: string
  prLearnerID :: string
  prRoles :: "string list"
  prScopes :: "string list"
  prTokenVersion :: int

definition validatePrincipalID :: "string \<Rightarrow> string \<Rightarrow> goerr option" where
  "validatePrincipalID name value =
     (if value = '''' then Some (ErrText [S name, S '' is required''])
      else if value \<noteq> trim_space value then Some (ErrText [S name, S '' must be canonical''])
      else if CHR 0x00 \<in> set value then Some (ErrText [S name, S '' contains an invalid byte''])
      else if length value > 255 then Some (ErrText [S name, S '' is too long''])
      else None)"

text \<open>The first error of a list of checks.\<close>

fun first_error :: "goerr option list \<Rightarrow> goerr option" where
  "first_error [] = None"
| "first_error (None # es) = first_error es"
| "first_error (Some e # es) = Some e"

lemma first_error_None: "first_error es = None \<longleftrightarrow> (\<forall>e \<in> set es. e = None)"
  by (induction es rule: first_error.induct) auto

text \<open>
  The three required identifiers are ranged over in a Go map; they are checked here in the order the
  source lists them. The order only decides which of several errors is reported.
\<close>

definition TenantScope_Validate :: "TenantScope \<Rightarrow> goerr option" where
  "TenantScope_Validate s = first_error
     [validatePrincipalID ''tenant_id'' (tsTenantID s), validatePrincipalID ''user_id'' (tsUserID s),
      validatePrincipalID ''membership_id'' (tsMembershipID s),
      if tsEnrollmentID s \<noteq> '''' then validatePrincipalID ''enrollment_id'' (tsEnrollmentID s) else None,
      if tsLearnerID s \<noteq> '''' then validatePrincipalID ''learner_id'' (tsLearnerID s) else None]"

definition Principal_TenantScope :: "Principal \<Rightarrow> TenantScope" where
  "Principal_TenantScope p = \<lparr>tsTenantID = prTenantID p, tsUserID = prUserID p, tsMembershipID = prMembershipID p,
     tsEnrollmentID = '''', tsLearnerID = prLearnerID p\<rparr>"

definition ValidTenantRole :: "string \<Rightarrow> bool" where
  "ValidTenantRole role \<longleftrightarrow> role \<in> {RoleOwner, RoleAdmin, RolePedagogyManager, RoleTrainer, RoleAuditor,
     RoleBillingAdmin, RoleLearner, RoleServiceAccount, RoleSupport}"

fun check_roles :: "string list \<Rightarrow> string set \<Rightarrow> goerr option" where
  "check_roles [] seen = None"
| "check_roles (role # rest) seen =
     (if \<not> ValidTenantRole role then Some (ErrText [S ''unsupported role '', Q role])
      else if role \<in> seen then Some (ErrText [S ''duplicate role '', Q role])
      else check_roles rest (insert role seen))"

definition Principal_Validate :: "Principal \<Rightarrow> goerr option" where
  "Principal_Validate p = first_error
     [TenantScope_Validate (Principal_TenantScope p),
      if prTokenVersion p < 1 then Some (ErrText [S ''token_version must be positive'']) else None,
      if prRoles p = [] then Some (ErrText [S ''at least one role is required'']) else None,
      check_roles (prRoles p) {},
      (case CanonicalOAuthScope (join '' '' (prScopes p)) of
         Inl e \<Rightarrow> Some (ErrWrap ''invalid principal scopes'' e)
       | Inr canonicalScope \<Rightarrow>
           if canonicalScope \<noteq> join '' '' (prScopes p) then Some (ErrText [S ''principal scopes must be canonical'']) else None)]"

definition LegacyPrincipal :: "string \<Rightarrow> Principal" where
  "LegacyPrincipal learnerID = \<lparr>prUserID = learnerID, prTenantID = LegacyTenantID,
     prMembershipID = legacyMembershipBase @ learnerID, prLearnerID = learnerID, prRoles = [RoleLearner],
     prScopes = [OAuthScopeLearner], prTokenVersion = 1\<rparr>"

section \<open>Permissions (models/rbac.go)\<close>

type_synonym Permission = string

definition PermissionTenantManage :: Permission where "PermissionTenantManage = ''tenant:manage''"
definition PermissionMembershipManage :: Permission where "PermissionMembershipManage = ''membership:manage''"
definition PermissionFormationWrite :: Permission where "PermissionFormationWrite = ''formation:write''"
definition PermissionFormationDelete :: Permission where "PermissionFormationDelete = ''formation:delete''"
definition PermissionCohortManage :: Permission where "PermissionCohortManage = ''cohort:manage''"
definition PermissionProgressRead :: Permission where "PermissionProgressRead = ''progress:read''"
definition PermissionAssessmentReview :: Permission where "PermissionAssessmentReview = ''assessment:review''"
definition PermissionAssessmentAdjudicate :: Permission where "PermissionAssessmentAdjudicate = ''assessment:adjudicate''"
definition PermissionCurriculumReview :: Permission where "PermissionCurriculumReview = ''curriculum:review''"
definition PermissionLearningSelf :: Permission where "PermissionLearningSelf = ''learning:self''"
definition PermissionBillingManage :: Permission where "PermissionBillingManage = ''billing:manage''"
definition PermissionAuditRead :: Permission where "PermissionAuditRead = ''audit:read''"
definition PermissionIntegrationManage :: Permission where "PermissionIntegrationManage = ''integration:manage''"
definition PermissionUsageRead :: Permission where "PermissionUsageRead = ''usage:read''"

lemmas permission_names = PermissionTenantManage_def PermissionMembershipManage_def PermissionFormationWrite_def
  PermissionFormationDelete_def PermissionCohortManage_def PermissionProgressRead_def PermissionAssessmentReview_def
  PermissionAssessmentAdjudicate_def PermissionCurriculumReview_def PermissionLearningSelf_def
  PermissionBillingManage_def PermissionAuditRead_def PermissionIntegrationManage_def PermissionUsageRead_def

record AuthorizationResource =
  arFormationID :: string
  arOwnerMembershipID :: string
  arAssignedFormationIDs :: "string list"
  arTenantID :: string
  arOwnerUserID :: string
  arCohortID :: string
  arAssignedCohortIDs :: "string list"

definition rolePermissions :: "string \<Rightarrow> Permission list" where
  "rolePermissions role =
     (if role = RoleOwner then
        [PermissionCurriculumReview, PermissionAssessmentAdjudicate, PermissionTenantManage,
         PermissionMembershipManage, PermissionFormationWrite, PermissionFormationDelete, PermissionCohortManage,
         PermissionProgressRead, PermissionBillingManage, PermissionAuditRead, PermissionIntegrationManage,
         PermissionUsageRead, PermissionAssessmentReview]
      else if role = RoleAdmin then
        [PermissionCurriculumReview, PermissionAssessmentAdjudicate, PermissionTenantManage,
         PermissionMembershipManage, PermissionFormationWrite, PermissionFormationDelete, PermissionCohortManage,
         PermissionProgressRead, PermissionAuditRead, PermissionIntegrationManage, PermissionUsageRead,
         PermissionAssessmentReview]
      else if role = RolePedagogyManager then
        [PermissionCurriculumReview, PermissionAssessmentAdjudicate, PermissionFormationWrite,
         PermissionFormationDelete, PermissionCohortManage, PermissionProgressRead, PermissionUsageRead,
         PermissionAssessmentReview]
      else if role = RoleTrainer then
        [PermissionCurriculumReview, PermissionProgressRead, PermissionAssessmentReview]
      else if role = RoleAuditor then [PermissionProgressRead, PermissionAuditRead, PermissionUsageRead]
      else if role = RoleBillingAdmin then [PermissionBillingManage, PermissionUsageRead]
      else if role = RoleLearner then [PermissionLearningSelf]
      else if role = RoleServiceAccount then []
      else if role = RoleSupport then [PermissionProgressRead, PermissionAuditRead, PermissionUsageRead]
      else [])"

fun authorize_roles :: "Principal \<Rightarrow> Permission \<Rightarrow> AuthorizationResource \<Rightarrow> string list \<Rightarrow> bool" where
  "authorize_roles p permission resource [] = False"
| "authorize_roles p permission resource (role # rest) =
     (if permission \<notin> set (rolePermissions role) then authorize_roles p permission resource rest
      else if role = RolePedagogyManager \<and> arFormationID resource \<noteq> '''' then
        (if arOwnerMembershipID resource = prMembershipID p \<or> arFormationID resource \<in> set (arAssignedFormationIDs resource)
         then True else authorize_roles p permission resource rest)
      else if permission = PermissionLearningSelf then
        arOwnerUserID resource \<noteq> '''' \<and> arOwnerUserID resource = prUserID p
      else if role = RoleTrainer \<and> (permission = PermissionProgressRead \<or> permission = PermissionAssessmentReview \<or> permission = PermissionCurriculumReview) then
        (if arCohortID resource \<noteq> '''' \<and> arCohortID resource \<in> set (arAssignedCohortIDs resource)
         then True else authorize_roles p permission resource rest)
      else True)"

definition Authorize :: "Principal \<Rightarrow> Permission \<Rightarrow> AuthorizationResource \<Rightarrow> bool" where
  "Authorize p permission resource =
     (if Principal_Validate p \<noteq> None \<or> arTenantID resource = '''' \<or> arTenantID resource \<noteq> prTenantID p then False
      else authorize_roles p permission resource (prRoles p))"

definition KnownPermissions :: "Permission list" where
  "KnownPermissions = [PermissionTenantManage, PermissionMembershipManage, PermissionFormationWrite,
     PermissionFormationDelete, PermissionCohortManage, PermissionProgressRead, PermissionLearningSelf,
     PermissionBillingManage, PermissionAuditRead, PermissionIntegrationManage, PermissionUsageRead,
     PermissionAssessmentReview, PermissionAssessmentAdjudicate, PermissionCurriculumReview]"

section \<open>Requested scopes (auth/scopes.go)\<close>

definition hasFormationScope :: "string \<Rightarrow> bool" where
  "hasFormationScope scope \<longleftrightarrow> OAuthScopeAllows scope OAuthScopeFormationRead \<or> OAuthScopeAllows scope OAuthScopeFormationWrite"

definition hasInstitutionScope :: "string \<Rightarrow> bool" where
  "hasInstitutionScope scope \<longleftrightarrow> OAuthScopeAllows scope OAuthScopeFormationContribute \<or> hasFormationScope scope \<or>
     OAuthScopeAllows scope OAuthScopeProgressRead"

text \<open>The tolerant loop over the words of a rejected request: \<open>None\<close> when a word is not a learner scope.\<close>

fun legacy_alias :: "string list \<Rightarrow> bool \<Rightarrow> bool option" where
  "legacy_alias [] seenLegacy = Some seenLegacy"
| "legacy_alias (scope # rest) seenLegacy =
     (if scope = OAuthScopeLearner then legacy_alias rest True
      else if scope = OAuthScopeLearnerRead \<or> scope = OAuthScopeLearnerWrite then legacy_alias rest seenLegacy
      else None)"

definition normalizeAuthorizationScope :: "string \<Rightarrow> bool \<Rightarrow> goerr + string" where
  "normalizeAuthorizationScope raw granularEnabled =
     (if trim_space raw = '''' then Inr OAuthScopeLearner
      else case CanonicalOAuthScope raw of
        Inr canonical \<Rightarrow>
          if \<not> granularEnabled \<and> canonical \<noteq> OAuthScopeLearner \<and> \<not> hasInstitutionScope canonical
          then Inl (ErrText [S ''granular OAuth scopes are not enabled'']) else Inr canonical
      | Inl e \<Rightarrow>
          if \<not> granularEnabled then Inl e
          else if legacy_alias (strings_Fields raw) False = Some True then Inr OAuthScopeLearner else Inl e)"

definition normalizeRefreshScope :: "string \<Rightarrow> bool \<Rightarrow> goerr + string" where
  "normalizeRefreshScope raw granularEnabled =
     (if trim_space raw = '''' then Inr ''''
      else case CanonicalOAuthScope raw of
        Inl e \<Rightarrow> Inl e
      | Inr canonical \<Rightarrow>
          if \<not> granularEnabled \<and> canonical \<noteq> OAuthScopeLearner \<and> \<not> hasInstitutionScope canonical
          then Inl (ErrText [S ''granular OAuth scopes are not enabled'']) else Inr canonical)"

text \<open>A request context, as far as the scope is concerned: the value stored under \<open>oauthScopeKey\<close>.\<close>

type_synonym scope_context = "string option"

definition WithOAuthScope :: "scope_context \<Rightarrow> string \<Rightarrow> scope_context" where
  "WithOAuthScope ctx scope = Some (case CanonicalOAuthScope scope of Inl _ \<Rightarrow> '''' | Inr canonical \<Rightarrow> canonical)"

definition GetOAuthScope :: "scope_context \<Rightarrow> string" where
  "GetOAuthScope ctx = (case ctx of None \<Rightarrow> '''' | Some scope \<Rightarrow> scope)"

definition HasOAuthScope :: "scope_context \<Rightarrow> string \<Rightarrow> bool" where
  "HasOAuthScope ctx required \<longleftrightarrow> OAuthScopeAllows (GetOAuthScope ctx) required"

text \<open>The description of a grant on the consent page.\<close>

definition oauthScopeDescription :: "string \<Rightarrow> string" where
  "oauthScopeDescription scope =
     (let unverified = ''Requested permissions could not be verified. Do not continue.'' in
      case CanonicalOAuthScope scope of
        Inl _ \<Rightarrow> unverified
      | Inr canonical \<Rightarrow>
          if canonical = OAuthScopeLearnerRead
            then ''Read your learner profile, domains, progress, sessions, and learning history.''
          else if canonical = OAuthScopeLearnerWrite
            then ''Modify your learner profile, domains, progress, sessions, and learning history.''
          else if canonical = OAuthScopeLearner \<or> canonical = OAuthScopeLearnerReadWrite
            then ''Read and modify your learner profile, domains, progress, sessions, and learning history.''
          else if hasInstitutionScope canonical then
            trim_space (concat (map (\<lambda>(required, text). if OAuthScopeAllows canonical required then text else '''')
              [(OAuthScopeFormationContribute, ''Contribute to formations you author or are explicitly authorized to edit, and submit or publish them only when the institution permits it. No administrative role is granted. ''),
               (OAuthScopeProgressRead, ''Read learner identities and learning progress in cohorts you are authorized to follow. ''),
               (OAuthScopeFormationRead, ''Read formations you own or are assigned to. ''),
               (OAuthScopeFormationWrite, ''Create, edit and publish formations you own or are assigned to. ''),
               (OAuthScopeLearnerRead, ''Read your learner data. ''),
               (OAuthScopeLearnerWrite, ''Modify your learner data. '')]))
          else unverified)"

section \<open>Canonical scopes\<close>

lemma scope_words: "\<forall>w \<in> set (OAuthScopeLearner # granular_scopes). word_ok w"
  by code_simp

lemma scopes_distinct: "distinct (OAuthScopeLearner # granular_scopes)"
  by code_simp

lemma learner_not_granular [simp]: "OAuthScopeLearner \<notin> set granular_scopes"
  using scopes_distinct by simp

lemma check_scopes_Inr:
  "check_scopes ws seen = Inr out \<longleftrightarrow>
     distinct ws \<and> set ws \<inter> set seen = {} \<and> set ws \<subseteq> insert OAuthScopeLearner (set granular_scopes) \<and> out = rev ws @ seen"
  by (induction ws seen rule: check_scopes.induct) auto

definition canonical_form :: "string set \<Rightarrow> string" where
  "canonical_form A = join '' '' (filter (\<lambda>w. w \<in> A) granular_scopes)"

lemma Fields_canonical_form [simp]: "strings_Fields (canonical_form A) = filter (\<lambda>w. w \<in> A) granular_scopes"
  unfolding canonical_form_def using scope_words by (intro strings_Fields_join) auto

lemma Fields_learner [simp]: "strings_Fields OAuthScopeLearner = [OAuthScopeLearner]"
  using scope_words by (simp add: strings_Fields_word)

lemma singleton_word: "distinct ws \<Longrightarrow> w \<in> set ws \<Longrightarrow> length ws = Suc 0 \<longleftrightarrow> ws = [w]"
  by (cases ws) auto

lemma CanonicalOAuthScope_Inr:
  "CanonicalOAuthScope raw = Inr c \<longleftrightarrow>
     strings_Fields raw = [OAuthScopeLearner] \<and> c = OAuthScopeLearner \<or>
     strings_Fields raw \<noteq> [] \<and> distinct (strings_Fields raw) \<and> set (strings_Fields raw) \<subseteq> set granular_scopes \<and>
     c = canonical_form (set (strings_Fields raw))"
proof (cases "\<exists>seen. check_scopes (strings_Fields raw) [] = Inr seen")
  case False
  then have "\<not> (distinct (strings_Fields raw) \<and> set (strings_Fields raw) \<subseteq> insert OAuthScopeLearner (set granular_scopes))"
    by (simp add: check_scopes_Inr)
  then have "CanonicalOAuthScope raw \<noteq> Inr c"
    using False by (simp add: CanonicalOAuthScope_def split: sum.splits)
  with \<open>\<not> (distinct _ \<and> _)\<close> show ?thesis by auto
next
  case True
  then have ws: "distinct (strings_Fields raw)" "set (strings_Fields raw) \<subseteq> insert OAuthScopeLearner (set granular_scopes)"
    and run: "check_scopes (strings_Fields raw) [] = Inr (rev (strings_Fields raw))"
    by (auto simp: check_scopes_Inr)
  show ?thesis
  proof (cases "OAuthScopeLearner \<in> set (strings_Fields raw)")
    case True
    then have "\<not> set (strings_Fields raw) \<subseteq> set granular_scopes" using learner_not_granular by blast
    then show ?thesis
      using True singleton_word[OF ws(1) True] by (auto simp: CanonicalOAuthScope_def run)
  next
    case False
    then show ?thesis using ws by (auto simp: CanonicalOAuthScope_def run canonical_form_def)
  qed
qed

lemma canonical_form_empty: "canonical_form A = '''' \<longleftrightarrow> A \<inter> set granular_scopes = {}"
proof
  assume "canonical_form A = ''''"
  then have "filter (\<lambda>w. w \<in> A) granular_scopes = []" using Fields_canonical_form[of A] by simp
  then show "A \<inter> set granular_scopes = {}" by (auto simp: filter_empty_conv)
next
  assume "A \<inter> set granular_scopes = {}"
  then have "filter (\<lambda>w. w \<in> A) granular_scopes = []" by (auto simp: filter_empty_conv)
  then show "canonical_form A = ''''" by (simp add: canonical_form_def)
qed

lemma canonical_form_not_learner [simp]: "canonical_form A \<noteq> OAuthScopeLearner" "OAuthScopeLearner \<noteq> canonical_form A"
proof -
  have "OAuthScopeLearner \<notin> set (strings_Fields (canonical_form A))" by simp
  then show "canonical_form A \<noteq> OAuthScopeLearner" using Fields_learner by force
  then show "OAuthScopeLearner \<noteq> canonical_form A" by simp
qed

lemma canonical_form_inj: "A \<subseteq> set granular_scopes \<Longrightarrow> B \<subseteq> set granular_scopes \<Longrightarrow> canonical_form A = canonical_form B \<longleftrightarrow> A = B"
proof
  assume sub: "A \<subseteq> set granular_scopes" "B \<subseteq> set granular_scopes" and "canonical_form A = canonical_form B"
  then have "set (strings_Fields (canonical_form A)) = set (strings_Fields (canonical_form B))" by simp
  then show "A = B" using sub by auto
qed simp

lemma canonical_cases:
  assumes "CanonicalOAuthScope raw = Inr c"
  obtains "c = OAuthScopeLearner"
  | A where "c = canonical_form A" "A \<noteq> {}" "A \<subseteq> set granular_scopes"
  using assms unfolding CanonicalOAuthScope_Inr by fastforce

lemma canonical_canonical_form:
  "A \<noteq> {} \<Longrightarrow> A \<subseteq> set granular_scopes \<Longrightarrow> CanonicalOAuthScope (canonical_form A) = Inr (canonical_form A)"
  using scopes_distinct unfolding CanonicalOAuthScope_Inr
  by (auto simp: filter_empty_conv intro!: arg_cong[where f = canonical_form])

lemma canonical_learner [simp]: "CanonicalOAuthScope OAuthScopeLearner = Inr OAuthScopeLearner"
  by (simp add: CanonicalOAuthScope_Inr)

lemma canonical_idem: "CanonicalOAuthScope raw = Inr c \<Longrightarrow> CanonicalOAuthScope c = Inr c"
  by (erule canonical_cases) (simp_all add: canonical_canonical_form)

text \<open>The capabilities of a grant.\<close>

definition capabilities :: "string \<Rightarrow> string set" where
  "capabilities scope = {c. OAuthScopeAllows scope c}"

lemma capabilities_learner: "capabilities OAuthScopeLearner = {OAuthScopeLearnerRead, OAuthScopeLearnerWrite}"
  by (auto simp: capabilities_def OAuthScopeAllows_def granular_scopes_def)

lemma capabilities_form: "A \<noteq> {} \<Longrightarrow> A \<subseteq> set granular_scopes \<Longrightarrow> capabilities (canonical_form A) = A"
  by (auto simp: capabilities_def OAuthScopeAllows_def canonical_canonical_form)

lemma capabilities_nonempty: "CanonicalOAuthScope raw = Inr c \<Longrightarrow> capabilities c \<noteq> {}"
  by (erule canonical_cases) (simp_all add: capabilities_learner capabilities_form)

lemma learner_forms:
  "canonical_form {OAuthScopeLearnerRead} = OAuthScopeLearnerRead"
  "canonical_form {OAuthScopeLearnerWrite} = OAuthScopeLearnerWrite"
  "canonical_form {OAuthScopeLearnerRead, OAuthScopeLearnerWrite} = OAuthScopeLearnerReadWrite"
  by code_simp+

lemma learner_granular: "{OAuthScopeLearnerRead, OAuthScopeLearnerWrite} \<subseteq> set granular_scopes"
  by (simp add: granular_scopes_def)

lemma narrow_learner:
  assumes "A \<noteq> {}" and "A \<subseteq> set granular_scopes"
  shows "canonical_form A = OAuthScopeLearnerRead \<or> canonical_form A = OAuthScopeLearnerWrite \<or>
      canonical_form A = OAuthScopeLearnerReadWrite \<longleftrightarrow> A \<subseteq> {OAuthScopeLearnerRead, OAuthScopeLearnerWrite}"
proof -
  have same: "canonical_form A = canonical_form B \<longleftrightarrow> A = B" if "B \<subseteq> {OAuthScopeLearnerRead, OAuthScopeLearnerWrite}" for B
    using canonical_form_inj[OF assms(2), of B] that learner_granular by blast
  have "canonical_form A = OAuthScopeLearnerRead \<longleftrightarrow> A = {OAuthScopeLearnerRead}"
    using same[of "{OAuthScopeLearnerRead}"] by (simp add: learner_forms)
  moreover have "canonical_form A = OAuthScopeLearnerWrite \<longleftrightarrow> A = {OAuthScopeLearnerWrite}"
    using same[of "{OAuthScopeLearnerWrite}"] by (simp add: learner_forms)
  moreover have "canonical_form A = OAuthScopeLearnerReadWrite \<longleftrightarrow> A = {OAuthScopeLearnerRead, OAuthScopeLearnerWrite}"
    using same[of "{OAuthScopeLearnerRead, OAuthScopeLearnerWrite}"] by (simp add: learner_forms)
  ultimately show ?thesis using assms(1) by blast
qed

lemma CanNarrow_iff:
  "OAuthScopeCanNarrow granted requested \<longleftrightarrow>
     (\<exists>g r. CanonicalOAuthScope granted = Inr g \<and> CanonicalOAuthScope requested = Inr r \<and>
        capabilities r \<subseteq> capabilities g \<and> (r = OAuthScopeLearner \<longrightarrow> g = OAuthScopeLearner))"
proof (cases "\<exists>g r. CanonicalOAuthScope granted = Inr g \<and> CanonicalOAuthScope requested = Inr r")
  case False
  then show ?thesis by (auto simp: OAuthScopeCanNarrow_def split: sum.splits)
next
  case True
  then obtain g r where g: "CanonicalOAuthScope granted = Inr g" and r: "CanonicalOAuthScope requested = Inr r" by blast
  have "OAuthScopeCanNarrow granted requested \<longleftrightarrow> capabilities r \<subseteq> capabilities g \<and> (r = OAuthScopeLearner \<longrightarrow> g = OAuthScopeLearner)"
    using r
  proof (rule canonical_cases)
    assume "r = OAuthScopeLearner"
    then show ?thesis by (simp add: OAuthScopeCanNarrow_def g r)
  next
    fix A assume A: "r = canonical_form A" "A \<noteq> {}" "A \<subseteq> set granular_scopes"
    have words: "list_all (OAuthScopeAllows g) (strings_Fields r) \<longleftrightarrow> A \<subseteq> capabilities g"
      using A by (auto simp: list_all_iff capabilities_def)
    show ?thesis
      using A(1) narrow_learner[OF A(2,3)] capabilities_form[OF A(2,3)] words
      by (simp add: OAuthScopeCanNarrow_def g r capabilities_learner)
  qed
  then show ?thesis using g r by simp
qed

lemma canonical_form_single: "w \<in> set granular_scopes \<Longrightarrow> canonical_form {w} = w"
proof -
  assume "w \<in> set granular_scopes"
  then obtain us vs where g: "granular_scopes = us @ w # vs" by (meson split_list)
  have "distinct (us @ w # vs)" using scopes_distinct unfolding g by simp
  then have "filter (\<lambda>v. v = w) us = []" "filter (\<lambda>v. v = w) vs = []" by (auto simp: filter_empty_conv)
  then have "filter (\<lambda>v. v = w) granular_scopes = [w]" by (simp add: g)
  then show ?thesis by (simp add: canonical_form_def)
qed

lemma capabilities_single: "w \<in> set granular_scopes \<Longrightarrow> capabilities w = {w}"
  using capabilities_form[of "{w}"] by (simp add: canonical_form_single)

lemma capabilities_canonical:
  "CanonicalOAuthScope raw = Inr c \<Longrightarrow> capabilities c = (\<Union>w \<in> set (strings_Fields raw). capabilities w)"
  unfolding CanonicalOAuthScope_Inr
proof (elim disjE conjE)
  assume "strings_Fields raw \<noteq> []" "set (strings_Fields raw) \<subseteq> set granular_scopes" "c = canonical_form (set (strings_Fields raw))"
  then have "capabilities c = set (strings_Fields raw)" by (simp add: capabilities_form)
  also have "\<dots> = (\<Union>w \<in> set (strings_Fields raw). capabilities w)"
    using \<open>set (strings_Fields raw) \<subseteq> set granular_scopes\<close> by (auto simp: capabilities_single subset_eq)
  finally show ?thesis .
qed simp

lemma legacy_alias_Some:
  "legacy_alias ws seen = Some b \<longleftrightarrow>
     set ws \<subseteq> {OAuthScopeLearner, OAuthScopeLearnerRead, OAuthScopeLearnerWrite} \<and> b = (seen \<or> OAuthScopeLearner \<in> set ws)"
  by (induction ws seen rule: legacy_alias.induct) (auto simp: scope_names)

lemma capabilities_alias:
  assumes "legacy_alias ws False = Some True"
  shows "(\<Union>w \<in> set ws. capabilities w) = capabilities OAuthScopeLearner"
proof -
  have ws: "set ws \<subseteq> {OAuthScopeLearner, OAuthScopeLearnerRead, OAuthScopeLearnerWrite}" "OAuthScopeLearner \<in> set ws"
    using assms by (auto simp: legacy_alias_Some)
  have "capabilities w \<subseteq> capabilities OAuthScopeLearner" if "w \<in> set ws" for w
    using that ws(1) learner_granular by (auto simp: capabilities_learner capabilities_single)
  with ws(2) show ?thesis by blast
qed

section \<open>Authorization\<close>

text \<open>What one role contributes, whatever the other roles are.\<close>

definition role_grants :: "Principal \<Rightarrow> Permission \<Rightarrow> AuthorizationResource \<Rightarrow> string \<Rightarrow> bool" where
  "role_grants p permission resource role \<longleftrightarrow>
     permission \<in> set (rolePermissions role) \<and>
     (role = RolePedagogyManager \<and> arFormationID resource \<noteq> '''' \<longrightarrow>
        arOwnerMembershipID resource = prMembershipID p \<or> arFormationID resource \<in> set (arAssignedFormationIDs resource)) \<and>
     (role = RoleTrainer \<longrightarrow> arCohortID resource \<noteq> '''' \<and> arCohortID resource \<in> set (arAssignedCohortIDs resource)) \<and>
     (role = RoleLearner \<longrightarrow> arOwnerUserID resource \<noteq> '''' \<and> arOwnerUserID resource = prUserID p)"

lemma self_is_learner: "PermissionLearningSelf \<in> set (rolePermissions role) \<longleftrightarrow> role = RoleLearner"
  by (auto simp: rolePermissions_def permission_names role_names)

lemma learner_is_self: "permission \<in> set (rolePermissions RoleLearner) \<longleftrightarrow> permission = PermissionLearningSelf"
  by (auto simp: rolePermissions_def permission_names role_names)

lemma trainer_permissions:
  "permission \<in> set (rolePermissions RoleTrainer) \<longleftrightarrow>
     permission = PermissionProgressRead \<or> permission = PermissionAssessmentReview \<or> permission = PermissionCurriculumReview"
  by (auto simp: rolePermissions_def permission_names role_names)

lemma roles_differ [simp]:
  "RolePedagogyManager \<noteq> RoleLearner" "RolePedagogyManager \<noteq> RoleTrainer" "RoleTrainer \<noteq> RoleLearner"
  "RoleLearner \<noteq> RolePedagogyManager" "RoleTrainer \<noteq> RolePedagogyManager" "RoleLearner \<noteq> RoleTrainer"
  by (simp_all add: role_names)

lemma authorize_roles_iff:
  "authorize_roles p permission resource roles \<longleftrightarrow> (\<exists>role \<in> set roles. role_grants p permission resource role)"
proof (induction roles)
  case Nil
  then show ?case by simp
next
  case (Cons role rest)
  show ?case
  proof (cases "permission = PermissionLearningSelf")
    case True
    have "role_grants p permission resource r \<longleftrightarrow> r = RoleLearner \<and> arOwnerUserID resource \<noteq> '''' \<and> arOwnerUserID resource = prUserID p" for r
      by (auto simp: True role_grants_def self_is_learner)
    then show ?thesis using Cons.IH by (auto simp: True self_is_learner)
  next
    case False
    have "role_grants p permission resource role \<longleftrightarrow>
        permission \<in> set (rolePermissions role) \<and>
        (if role = RolePedagogyManager \<and> arFormationID resource \<noteq> ''''
         then arOwnerMembershipID resource = prMembershipID p \<or> arFormationID resource \<in> set (arAssignedFormationIDs resource)
         else if role = RoleTrainer then arCohortID resource \<noteq> '''' \<and> arCohortID resource \<in> set (arAssignedCohortIDs resource)
         else True)"
      using False by (auto simp: role_grants_def learner_is_self)
    moreover have "authorize_roles p permission resource (role # rest) \<longleftrightarrow>
        permission \<in> set (rolePermissions role) \<and>
        (if role = RolePedagogyManager \<and> arFormationID resource \<noteq> ''''
         then arOwnerMembershipID resource = prMembershipID p \<or> arFormationID resource \<in> set (arAssignedFormationIDs resource)
         else if role = RoleTrainer then arCohortID resource \<noteq> '''' \<and> arCohortID resource \<in> set (arAssignedCohortIDs resource)
         else True) \<or> authorize_roles p permission resource rest"
      using False by (auto simp: trainer_permissions)
    ultimately show ?thesis using Cons.IH by simp
  qed
qed

lemma valid_tenant: "Principal_Validate p = None \<Longrightarrow> prTenantID p \<noteq> ''''"
  by (auto simp: Principal_Validate_def first_error_None TenantScope_Validate_def Principal_TenantScope_def
      validatePrincipalID_def split: if_splits)

text \<open>
  Authorization is the disjunction of what the roles grant: a principal is authorized exactly when it is
  valid, the resource is in its own tenant, and one of its roles holds the permission and meets that role's
  own condition (an owned or assigned formation for a pedagogy manager, an assigned cohort for a trainer,
  the learner's own data for a learner). No role's failed condition masks another role's grant, in whatever
  order the roles are listed, although the loop leaves early on the learner's permission.
\<close>

lemma authorization_is_role_union:
  "Authorize p permission resource \<longleftrightarrow>
     Principal_Validate p = None \<and> arTenantID resource = prTenantID p \<and>
     (\<exists>role \<in> set (prRoles p). role_grants p permission resource role)"
  using valid_tenant[of p] by (auto simp: Authorize_def authorize_roles_iff)

text \<open>
  A refresh request may narrow a grant and never widen it: \<open>OAuthScopeCanNarrow\<close> holds exactly when both
  scopes are canonicalizable, every capability of the requested scope is one of the granted scope, and the
  legacy bundle is only requested from the legacy bundle.
\<close>

lemma narrowing_is_inclusion:
  "OAuthScopeCanNarrow granted requested \<longleftrightarrow>
     (\<exists>g r. CanonicalOAuthScope granted = Inr g \<and> CanonicalOAuthScope requested = Inr r \<and>
        capabilities r \<subseteq> capabilities g \<and> (r = OAuthScopeLearner \<longrightarrow> g = OAuthScopeLearner))"
  by (rule CanNarrow_iff)

text \<open>
  An authorization grants what was asked for: whenever \<open>normalizeAuthorizationScope\<close> accepts a request, the
  scope it returns is in canonical form, and unless the request was blank (which means the learner bundle)
  its capabilities are exactly the union of the capabilities of the requested words, also when a cached
  discovery document made a client request the bundle together with its members.
\<close>

lemma authorization_scope_exact:
  assumes "normalizeAuthorizationScope raw granularEnabled = Inr scope"
  shows "CanonicalOAuthScope scope = Inr scope \<and>
    capabilities scope = (if trim_space raw = '''' then capabilities OAuthScopeLearner
                          else \<Union>w \<in> set (strings_Fields raw). capabilities w)"
proof (cases "trim_space raw = ''''")
  case True
  then show ?thesis using assms by (simp add: normalizeAuthorizationScope_def)
next
  case False
  show ?thesis
  proof (cases "CanonicalOAuthScope raw")
    case (Inl e)
    then have "scope = OAuthScopeLearner" "legacy_alias (strings_Fields raw) False = Some True"
      using assms False by (auto simp: normalizeAuthorizationScope_def split: if_splits)
    then show ?thesis using capabilities_alias False by simp
  next
    case (Inr c)
    then have "scope = c" using assms False by (auto simp: normalizeAuthorizationScope_def split: if_splits)
    then show ?thesis using canonical_idem[OF Inr] capabilities_canonical[OF Inr] False by simp
  qed
qed

end
