(* ===== verification/Credentials.thy ===== *)
theory Credentials
  imports Principals
begin

text \<open>
  OAuth credentials in the store: refresh tokens, authorization codes and clients (\<open>db/store.go\<close>), and
  the routes that find the tenant of a credential (\<open>db/credential_routes.go\<close>). The tables are lists of rows;
  a query that the database answers from several rows in no particular order returns the first one here.
  Row-level security is not modelled: a key or a family belongs to one tenant. Random values and the clock
  are arguments, and \<open>ccDigest\<close> stands for the base64url text of the SHA-256 digest.
\<close>

section \<open>Tables\<close>

record RefreshToken =
  tkToken :: string
  tkUserID :: string
  tkTenantID :: string
  tkMembershipID :: string
  tkMembershipVersion :: int
  tkLearnerID :: string
  tkClientID :: string
  tkResource :: string
  tkScope :: string
  tkFamilyID :: string
  tkExpiresAt :: time
  tkCreatedAt :: time
  tkUsedAt :: "time option"
  tkRevokedAt :: "time option"

text \<open>A row of \<open>refresh_tokens\<close>; \<open>None\<close> is SQL's NULL.\<close>

record refresh_row =
  rrToken :: string
  rrTenantID :: string
  rrUserID :: string
  rrMembershipID :: string
  rrMembershipVersion :: int
  rrLearnerID :: "string option"
  rrClientID :: "string option"
  rrResource :: string
  rrScope :: string
  rrFamilyID :: string
  rrExpiresAt :: time
  rrCreatedAt :: time
  rrUsedAt :: "time option"
  rrRevokedAt :: "time option"

record AuthCode =
  acCode :: string
  acUserID :: string
  acTenantID :: string
  acMembershipID :: string
  acMembershipVersion :: int
  acLearnerID :: string
  acCodeChallenge :: string
  acCodeChallengeMethod :: string
  acClientID :: string
  acRedirectURI :: string
  acResource :: string
  acScope :: string
  acExpiresAt :: time

text \<open>A row of \<open>oauth_codes\<close>: the code, the learner column and the creation time.\<close>

record code_row =
  crCode :: AuthCode
  crLearnerID :: "string option"
  crCreatedAt :: time

record route_row =
  roKind :: string
  roKey :: string
  roTenantID :: string
  roUserID :: string
  roMembershipID :: string
  roLearnerID :: "string option"
  roExpiresAt :: time
  roCreatedAt :: time

record client_row =
  clClientID :: string
  clClientName :: string
  clRedirectURIs :: string
  clClientSecretHash :: string
  clExpiresAt :: "time option"
  clRegistrationTokenID :: string

record approval_row =
  apLearnerID :: string
  apClientID :: string
  apRedirectURI :: string
  apScope :: string
  apApprovedAt :: time

record dcr_audit_row =
  daAction :: string
  daActor :: string
  daTokenID :: string
  daClientID :: string
  daDetail :: string
  daOccurredAt :: time

record membership_row =
  mbTenantID :: string
  mbID :: string
  mbUserID :: string
  mbLearnerID :: "string option"
  mbStatus :: string
  mbVersion :: int
  mbRolesJSON :: string
  mbMFARequired :: bool
  mbMFAVerifiedAt :: "time option"

record user_row =
  usID :: string
  usStatus :: string
  usEmailVerifiedAt :: "time option"

record tenant_row =
  tnID :: string
  tnStatus :: string

record learner_row =
  lnID :: string
  lnTenantID :: string
  lnUserID :: string
  lnMembershipID :: string
  lnIdentityMode :: string
  lnEmailVerifiedAt :: "time option"

text \<open>The tables of identities, which the operations below only read.\<close>

record Identities =
  idMemberships :: "membership_row list"
  idUsers :: "user_row list"
  idTenants :: "tenant_row list"
  idLearners :: "learner_row list"

record CredentialStore =
  csTokens :: "refresh_row list"
  csCodes :: "code_row list"
  csRoutes :: "route_row list"
  csClients :: "client_row list"
  csApprovals :: "approval_row list"
  csAudit :: "dcr_audit_row list"
  csIdentities :: Identities

type_synonym 'a cop = "(CredentialStore, 'a) tx"

text \<open>\<open>encoding/json\<close> on a column of roles and the digest of a credential.\<close>

record CredentialCodec =
  ccDigest :: "string \<Rightarrow> string"
  ccRoles :: "string \<Rightarrow> goerr + string list"

text \<open>What \<open>newRefreshToken\<close> draws: the encoded random bytes, a family (\<open>None\<close> when \<open>rand.Read\<close> fails), its clock.\<close>

record Draw =
  dwToken :: "string option"
  dwFamily :: "string option"
  dwNow :: time

definition nullString :: "string \<Rightarrow> string option" where
  "nullString s = (if s = '''' then None else Some s)"

definition coalesce :: "'a option \<Rightarrow> 'a \<Rightarrow> 'a" where
  "coalesce v d = (case v of None \<Rightarrow> d | Some x \<Rightarrow> x)"

definition blank :: "string \<Rightarrow> bool" where
  "blank s \<longleftrightarrow> trim_space s = ''''"

section \<open>Tenant transactions (db/store.go)\<close>

definition set_config :: "Driver \<Rightarrow> ('s, unit) tx" where
  "set_config dr =
     (if \<not> drPostgres dr then returns ()
      else bind_tx (wrap_tx ''tenant transaction: set app.current_tenant'' (sql dr ''set app.current_tenant'')) (\<lambda>_.
           bind_tx (wrap_tx ''tenant transaction: set app.current_user'' (sql dr ''set app.current_user'')) (\<lambda>_.
           wrap_tx ''tenant transaction: set app.current_membership'' (sql dr ''set app.current_membership''))))"

text \<open>
  \<open>WithTenantTx\<close> for a call that opens its transaction; \<open>tenant_call\<close> is the pattern of the operations: run
  in the caller's tenant transaction when there is one, else open it and run the operation again inside.
\<close>

definition WithTenantTx :: "Driver \<Rightarrow> TenantScope \<Rightarrow> ('s, 'a) tx \<Rightarrow> ('s, 'a) tx" where
  "WithTenantTx dr scope fn =
     (case TenantScope_Validate scope of
        Some e \<Rightarrow> fails (ErrWrap ''tenant transaction'' e)
      | None \<Rightarrow> atomic (
          bind_tx (wrap_tx ''tenant transaction: begin'' (sql dr ''begin'')) (\<lambda>_.
          bind_tx (set_config dr) (\<lambda>_.
          bind_tx fn (\<lambda>x.
          bind_tx (wrap_tx ''tenant transaction: commit'' (sql dr ''commit'')) (\<lambda>_. returns x))))))"

definition tenant_call :: "Driver \<Rightarrow> TenantScope \<Rightarrow> (Driver \<Rightarrow> ('s, 'a) tx) \<Rightarrow> ('s, 'a) tx \<Rightarrow> ('s, 'a) tx" where
  "tenant_call dr scope again body = (if drOwned dr then WithTenantTx dr scope (again (nested dr)) else body)"

section \<open>Credential routes (db/credential_routes.go)\<close>

definition credentialKindAuthorizationCode :: string where "credentialKindAuthorizationCode = ''authorization_code''"
definition credentialKindRefreshToken :: string where "credentialKindRefreshToken = ''refresh_token''"

definition insertCredentialRoute ::
  "Driver \<Rightarrow> CredentialCodec \<Rightarrow> string \<Rightarrow> string \<Rightarrow> TenantScope \<Rightarrow> time \<Rightarrow> time \<Rightarrow> unit cop" where
  "insertCredentialRoute dr cc kind raw scope expiresAt createdAt =
     (if TenantScope_Validate scope \<noteq> None \<or>
         tsLearnerID scope = '''' \<and> kind \<noteq> credentialKindAuthorizationCode \<and> kind \<noteq> credentialKindRefreshToken
      then fails (err ''insert credential route: invalid tenant scope'')
      else wrap_tx ''insert credential route'' (
        bind_tx (sql dr ''insert credential route'') (\<lambda>_.
        bind_tx (reads (\<lambda>s. if \<exists>r \<in> set (csRoutes s). roKind r = kind \<and> roKey r = ccDigest cc raw
                            then Inl (ErrDriver ''duplicate credential route'') else Inr ())) (\<lambda>_.
        writes (\<lambda>s. s\<lparr>csRoutes := csRoutes s @ [\<lparr>roKind = kind, roKey = ccDigest cc raw, roTenantID = tsTenantID scope,
          roUserID = tsUserID scope, roMembershipID = tsMembershipID scope, roLearnerID = nullString (tsLearnerID scope),
          roExpiresAt = expiresAt, roCreatedAt = createdAt\<rparr>]\<rparr>)))))"

text \<open>The lookup before and the lookup inside the transaction are two statements.\<close>

definition credentialScope :: "Driver \<Rightarrow> CredentialCodec \<Rightarrow> string \<Rightarrow> string \<Rightarrow> TenantScope cop" where
  "credentialScope dr cc kind raw =
     bind_tx (wrap_tx ''lookup credential route''
       (sql dr (if drOwned dr then ''lookup credential route'' else ''lookup credential route in transaction''))) (\<lambda>_.
     bind_tx (reads (\<lambda>s. case List.find (\<lambda>r. roKind r = kind \<and> roKey r = ccDigest cc raw) (csRoutes s) of
         None \<Rightarrow> Inl ErrNotFound
       | Some r \<Rightarrow> Inr \<lparr>tsTenantID = roTenantID r, tsUserID = roUserID r, tsMembershipID = roMembershipID r,
           tsEnrollmentID = '''', tsLearnerID = coalesce (roLearnerID r) ''''\<rparr>)) (\<lambda>scope.
     case TenantScope_Validate scope of
       Some e \<Rightarrow> fails (ErrWrap ''lookup credential route: invalid scope'' e)
     | None \<Rightarrow> returns scope))"

definition deleteCredentialRoute :: "Driver \<Rightarrow> CredentialCodec \<Rightarrow> string \<Rightarrow> string \<Rightarrow> unit cop" where
  "deleteCredentialRoute dr cc kind raw =
     wrap_tx ''delete credential route'' (
       bind_tx (sql dr ''delete credential route'') (\<lambda>_.
       writes (\<lambda>s. s\<lparr>csRoutes := filter (\<lambda>r. \<not> (roKind r = kind \<and> roKey r = ccDigest cc raw)) (csRoutes s)\<rparr>)))"

section \<open>The principal of a learner (db/identity.go)\<close>

definition user_active :: "Identities \<Rightarrow> string \<Rightarrow> bool" where
  "user_active ids userID \<longleftrightarrow> (\<exists>u \<in> set (idUsers ids). usID u = userID \<and> usStatus u = ''active'')"

definition tenant_active :: "Identities \<Rightarrow> string \<Rightarrow> bool" where
  "tenant_active ids tenantID \<longleftrightarrow> (\<exists>t \<in> set (idTenants ids). tnID t = tenantID \<and> tnStatus t = ''active'')"

definition mfa_done :: "membership_row \<Rightarrow> bool" where
  "mfa_done m \<longleftrightarrow> \<not> mbMFARequired m \<or> mbMFAVerifiedAt m \<noteq> None"

text \<open>The learner that a \<open>LEFT JOIN learners\<close> finds for a membership (the learner id is the primary key).\<close>

definition joined_learner :: "Identities \<Rightarrow> membership_row \<Rightarrow> learner_row option" where
  "joined_learner ids m = List.find (\<lambda>l. Some (lnID l) = mbLearnerID m \<and> lnTenantID l = mbTenantID m \<and>
     lnUserID l = mbUserID m \<and> lnMembershipID l = mbID m) (idLearners ids)"

definition principal_row :: "Identities \<Rightarrow> TenantScope \<Rightarrow> membership_row option" where
  "principal_row ids scope = List.find (\<lambda>m.
     user_active ids (mbUserID m) \<and> tenant_active ids (mbTenantID m) \<and>
     mbTenantID m = tsTenantID scope \<and> mbUserID m = tsUserID scope \<and> mbID m = tsMembershipID scope \<and>
     mbStatus m = ''active'' \<and> mfa_done m \<and>
     (mbLearnerID m = None \<and> tsLearnerID scope = '''' \<or> map_option lnID (joined_learner ids m) = Some (tsLearnerID scope)))
     (idMemberships ids)"

definition get_principal :: "Driver \<Rightarrow> CredentialCodec \<Rightarrow> TenantScope \<Rightarrow> string list \<Rightarrow> Principal cop" where
  "get_principal dr cc scope scopes =
     bind_tx (wrap_tx ''get principal'' (sql dr ''get principal'')) (\<lambda>_.
     bind_tx (reads (\<lambda>s. case principal_row (csIdentities s) scope of
         None \<Rightarrow> Inl (ErrWrap ''get principal'' ErrInvalidPrincipal)
       | Some m \<Rightarrow> Inr (m, coalesce (map_option lnID (joined_learner (csIdentities s) m)) ''''))) (\<lambda>(m, learnerID).
     bind_tx (wrap_tx ''get principal roles'' (lift_tx (ccRoles cc (mbRolesJSON m)))) (\<lambda>roles.
     let who = \<lparr>prUserID = mbUserID m, prTenantID = mbTenantID m, prMembershipID = mbID m, prLearnerID = learnerID,
           prRoles = roles, prScopes = scopes, prTokenVersion = mbVersion m\<rparr> in
     if Principal_Validate who \<noteq> None then fails (ErrWrap ''get principal'' ErrInvalidPrincipal)
     else returns who)))"

definition GetPrincipal :: "Driver \<Rightarrow> CredentialCodec \<Rightarrow> TenantScope \<Rightarrow> string list \<Rightarrow> Principal cop" where
  "GetPrincipal dr cc scope scopes =
     (if TenantScope_Validate scope \<noteq> None then fails (ErrWrap ''get principal'' ErrInvalidPrincipal)
      else tenant_call dr scope (\<lambda>dr. get_principal dr cc scope scopes) (get_principal dr cc scope scopes))"

definition GetPrincipalForLearner :: "Driver \<Rightarrow> CredentialCodec \<Rightarrow> string \<Rightarrow> string list \<Rightarrow> Principal cop" where
  "GetPrincipalForLearner dr cc learnerID scopes =
     (if blank learnerID then fails (ErrWrap ''get principal'' ErrInvalidPrincipal)
      else GetPrincipal dr cc (Principal_TenantScope (LegacyPrincipal learnerID)) scopes)"

section \<open>Refresh tokens (db/store.go)\<close>

definition refreshTokenHashPrefix :: string where "refreshTokenHashPrefix = ''sha256:''"

definition refresh_lifetime :: time where
  "refresh_lifetime = 30 * 24 * 3600 * 1000000000"

definition newRefreshToken :: "Draw \<Rightarrow> string \<Rightarrow> string \<Rightarrow> string \<Rightarrow> string \<Rightarrow> string \<Rightarrow> goerr + RefreshToken" where
  "newRefreshToken dw learnerID clientID resource scope familyID =
     (case dwToken dw of
        None \<Rightarrow> Inl (ErrWrap ''generate token'' (ErrDriver ''rand''))
      | Some token \<Rightarrow>
          (case (if familyID = '''' then dwFamily dw else Some familyID) of
             None \<Rightarrow> Inl (ErrWrap ''generate refresh token family'' (ErrWrap ''generate id'' (ErrDriver ''rand'')))
           | Some family \<Rightarrow>
               Inr \<lparr>tkToken = token, tkUserID = '''', tkTenantID = '''', tkMembershipID = '''', tkMembershipVersion = 0,
                 tkLearnerID = learnerID, tkClientID = clientID, tkResource = resource, tkScope = scope, tkFamilyID = family,
                 tkExpiresAt = dwNow dw + refresh_lifetime, tkCreatedAt = dwNow dw, tkUsedAt = None, tkRevokedAt = None\<rparr>))"

definition refreshTokenHash :: "CredentialCodec \<Rightarrow> string \<Rightarrow> string" where
  "refreshTokenHash cc token = refreshTokenHashPrefix @ ccDigest cc token"

text \<open>\<open>LIKE 'sha256:%'\<close> ignores the case of ASCII letters in SQLite.\<close>

definition looks_hashed :: "Driver \<Rightarrow> string \<Rightarrow> bool" where
  "looks_hashed dr key \<longleftrightarrow>
     (if drPostgres dr then take 7 key else map to_lower_char (take 7 key)) = refreshTokenHashPrefix"

definition refreshTokenInspectionPredicate :: "Driver \<Rightarrow> CredentialCodec \<Rightarrow> string \<Rightarrow> refresh_row \<Rightarrow> bool" where
  "refreshTokenInspectionPredicate dr cc token r \<longleftrightarrow>
     rrToken r = refreshTokenHash cc token \<or> rrToken r = token \<and> \<not> looks_hashed dr (rrToken r)"

definition refresh_row_of :: "CredentialCodec \<Rightarrow> RefreshToken \<Rightarrow> refresh_row" where
  "refresh_row_of cc rt = \<lparr>rrToken = refreshTokenHash cc (tkToken rt), rrTenantID = tkTenantID rt, rrUserID = tkUserID rt,
     rrMembershipID = tkMembershipID rt, rrMembershipVersion = tkMembershipVersion rt,
     rrLearnerID = nullString (tkLearnerID rt), rrClientID = nullString (tkClientID rt), rrResource = tkResource rt,
     rrScope = tkScope rt, rrFamilyID = tkFamilyID rt, rrExpiresAt = tkExpiresAt rt, rrCreatedAt = tkCreatedAt rt,
     rrUsedAt = tkUsedAt rt, rrRevokedAt = tkRevokedAt rt\<rparr>"

definition token_scope :: "RefreshToken \<Rightarrow> TenantScope" where
  "token_scope rt = \<lparr>tsTenantID = tkTenantID rt, tsUserID = tkUserID rt, tsMembershipID = tkMembershipID rt,
     tsEnrollmentID = '''', tsLearnerID = tkLearnerID rt\<rparr>"

definition insertRefreshToken :: "Driver \<Rightarrow> CredentialCodec \<Rightarrow> RefreshToken \<Rightarrow> unit cop" where
  "insertRefreshToken dr cc rt =
     (if blank (tkClientID rt) \<or> blank (tkResource rt) then fails (err ''refresh token client_id and resource are required'')
      else if CanonicalOAuthScope (tkScope rt) \<noteq> Inr (tkScope rt)
        then fails (ErrWrap ''refresh token scope is invalid'' ErrInvalidOAuthScope)
      else if TenantScope_Validate (token_scope rt) \<noteq> None \<or> tkMembershipVersion rt < 1
        then fails (ErrWrap ''refresh token tenant principal is invalid'' ErrInvalidPrincipal)
      else bind_tx (sql dr ''insert refresh token'') (\<lambda>_.
        bind_tx (reads (\<lambda>s. if \<exists>r \<in> set (csTokens s). rrToken r = refreshTokenHash cc (tkToken rt)
                            then Inl (ErrDriver ''duplicate refresh token'') else Inr ())) (\<lambda>_.
        bind_tx (writes (\<lambda>s. s\<lparr>csTokens := csTokens s @ [refresh_row_of cc rt]\<rparr>)) (\<lambda>_.
        insertCredentialRoute dr cc credentialKindRefreshToken (tkToken rt) (token_scope rt) (tkExpiresAt rt) (tkCreatedAt rt)))))"

definition create_token_body :: "Driver \<Rightarrow> CredentialCodec \<Rightarrow> Draw \<Rightarrow> Principal \<Rightarrow> string \<Rightarrow> string \<Rightarrow> string \<Rightarrow> RefreshToken cop" where
  "create_token_body dr cc dw who clientID resource canonicalScope =
     bind_tx (lift_tx (newRefreshToken dw (prLearnerID who) clientID resource canonicalScope '''')) (\<lambda>rt.
     let rt = rt\<lparr>tkUserID := prUserID who, tkTenantID := prTenantID who,
               tkMembershipID := prMembershipID who, tkMembershipVersion := prTokenVersion who,
               tkLearnerID := prLearnerID who\<rparr> in
     bind_tx (wrap_tx ''create refresh token'' (insertRefreshToken dr cc rt)) (\<lambda>_. returns rt))"

text \<open>The checks of the function, which its run inside the transaction repeats.\<close>

definition token_checks :: "Principal \<Rightarrow> string \<Rightarrow> string \<Rightarrow> string \<Rightarrow> goerr + Principal \<times> string" where
  "token_checks who clientID resource scope =
     (if blank clientID \<or> blank resource then Inl (err ''create refresh token: client_id and resource are required'')
      else case CanonicalOAuthScope scope of
        Inl _ \<Rightarrow> Inl (ErrWrap ''create refresh token'' ErrInvalidOAuthScope)
      | Inr canonicalScope \<Rightarrow>
          let who = who\<lparr>prScopes := strings_Fields canonicalScope\<rparr> in
          if Principal_Validate who \<noteq> None then Inl (ErrWrap ''create refresh token'' ErrInvalidPrincipal)
          else Inr (who, canonicalScope))"

definition CreateRefreshTokenForPrincipal ::
  "Driver \<Rightarrow> CredentialCodec \<Rightarrow> Draw \<Rightarrow> Principal \<Rightarrow> string \<Rightarrow> string \<Rightarrow> string \<Rightarrow> RefreshToken cop" where
  "CreateRefreshTokenForPrincipal dr cc dw who clientID resource scope =
     bind_tx (lift_tx (token_checks who clientID resource scope)) (\<lambda>(who, canonicalScope).
     tenant_call dr (Principal_TenantScope who)
       (\<lambda>dr. bind_tx (lift_tx (token_checks who clientID resource canonicalScope)) (\<lambda>(who, canonicalScope).
             create_token_body dr cc dw who clientID resource canonicalScope))
       (create_token_body dr cc dw who clientID resource canonicalScope))"

definition CreateRefreshTokenWithScope ::
  "Driver \<Rightarrow> CredentialCodec \<Rightarrow> Draw \<Rightarrow> string \<Rightarrow> string \<Rightarrow> string \<Rightarrow> string \<Rightarrow> RefreshToken cop" where
  "CreateRefreshTokenWithScope dr cc dw learnerID clientID resource scope =
     (if blank clientID \<or> blank resource then fails (err ''create refresh token: client_id and resource are required'')
      else case CanonicalOAuthScope scope of
        Inl _ \<Rightarrow> fails (ErrWrap ''create refresh token'' ErrInvalidOAuthScope)
      | Inr canonicalScope \<Rightarrow> (\<lambda>s.
          case GetPrincipalForLearner dr cc learnerID (strings_Fields canonicalScope) s of
            (Inl _, s') \<Rightarrow> (Inl (ErrWrap ''create refresh token'' ErrInvalidPrincipal), s')
          | (Inr who, s') \<Rightarrow> CreateRefreshTokenForPrincipal dr cc dw who clientID resource canonicalScope s'))"

definition CreateRefreshToken :: "Driver \<Rightarrow> CredentialCodec \<Rightarrow> Draw \<Rightarrow> string \<Rightarrow> string \<Rightarrow> string \<Rightarrow> RefreshToken cop" where
  "CreateRefreshToken dr cc dw learnerID clientID resource =
     CreateRefreshTokenWithScope dr cc dw learnerID clientID resource OAuthScopeLearner"

definition token_lookup :: "string \<Rightarrow> Driver \<Rightarrow> CredentialCodec \<Rightarrow> string \<Rightarrow> TenantScope cop" where
  "token_lookup w dr cc token = (\<lambda>s. case credentialScope dr cc credentialKindRefreshToken token s of
     (Inl _, s') \<Rightarrow> (Inl (ErrWrap w ErrInvalidRefreshToken), s') | r \<Rightarrow> r)"

definition get_token_body :: "Driver \<Rightarrow> CredentialCodec \<Rightarrow> string \<Rightarrow> TenantScope \<Rightarrow> RefreshToken cop" where
  "get_token_body dr cc token scope = wrap_tx ''get refresh token'' (
     bind_tx (sql dr ''get refresh token'') (\<lambda>_.
     reads (\<lambda>s. case List.find (\<lambda>r. rrToken r = refreshTokenHash cc token \<and> rrTenantID r = tsTenantID scope \<and>
           rrUserID r = tsUserID scope \<and> rrMembershipID r = tsMembershipID scope \<and>
           coalesce (rrLearnerID r) '''' = tsLearnerID scope \<and> rrExpiresAt r > drNow dr \<and>
           rrUsedAt r = None \<and> rrRevokedAt r = None) (csTokens s) of
         None \<Rightarrow> Inl ErrNoRows
       | Some r \<Rightarrow> Inr \<lparr>tkToken = token, tkUserID = rrUserID r, tkTenantID = rrTenantID r,
           tkMembershipID = rrMembershipID r, tkMembershipVersion = rrMembershipVersion r,
           tkLearnerID = coalesce (rrLearnerID r) '''', tkClientID = coalesce (rrClientID r) '''',
           tkResource = rrResource r, tkScope = rrScope r, tkFamilyID = rrFamilyID r, tkExpiresAt = rrExpiresAt r,
           tkCreatedAt = rrCreatedAt r, tkUsedAt = rrUsedAt r, tkRevokedAt = rrRevokedAt r\<rparr>)))"

definition GetRefreshToken :: "Driver \<Rightarrow> CredentialCodec \<Rightarrow> string \<Rightarrow> RefreshToken cop" where
  "GetRefreshToken dr cc token =
     bind_tx (token_lookup ''get refresh token'' dr cc token) (\<lambda>scope.
     tenant_call dr scope
       (\<lambda>dr. bind_tx (token_lookup ''get refresh token'' dr cc token) (get_token_body dr cc token))
       (get_token_body dr cc token scope))"

definition delete_token_body :: "Driver \<Rightarrow> CredentialCodec \<Rightarrow> string \<Rightarrow> TenantScope \<Rightarrow> unit cop" where
  "delete_token_body dr cc token scope =
     bind_tx (wrap_tx ''delete refresh token'' (sql dr ''delete refresh token'')) (\<lambda>_.
     bind_tx (writes (\<lambda>s. s\<lparr>csTokens := filter (\<lambda>r. \<not> (rrToken r = refreshTokenHash cc token \<and>
         rrTenantID r = tsTenantID scope)) (csTokens s)\<rparr>)) (\<lambda>_.
     deleteCredentialRoute dr cc credentialKindRefreshToken token))"

definition DeleteRefreshToken :: "Driver \<Rightarrow> CredentialCodec \<Rightarrow> string \<Rightarrow> unit cop" where
  "DeleteRefreshToken dr cc token =
     bind_tx (token_lookup ''delete refresh token'' dr cc token) (\<lambda>scope.
     tenant_call dr scope
       (\<lambda>dr. bind_tx (token_lookup ''delete refresh token'' dr cc token) (delete_token_body dr cc token))
       (delete_token_body dr cc token scope))"

text \<open>\<open>UPDATE refresh_tokens SET revoked_at = COALESCE(revoked_at, now) WHERE p\<close>.\<close>

definition revoke_tokens :: "(refresh_row \<Rightarrow> bool) \<Rightarrow> time \<Rightarrow> CredentialStore \<Rightarrow> CredentialStore" where
  "revoke_tokens p now s =
     s\<lparr>csTokens := map (\<lambda>r. if p r then r\<lparr>rrRevokedAt := Some (coalesce (rrRevokedAt r) now)\<rparr> else r) (csTokens s)\<rparr>"

definition token_membership_active :: "Identities \<Rightarrow> refresh_row \<Rightarrow> bool" where
  "token_membership_active ids r \<longleftrightarrow> (\<exists>m \<in> set (idMemberships ids).
     user_active ids (mbUserID m) \<and> tenant_active ids (mbTenantID m) \<and>
     mbTenantID m = rrTenantID r \<and> mbID m = rrMembershipID r \<and> mbUserID m = rrUserID r \<and> mbStatus m = ''active'' \<and>
     mbVersion m = rrMembershipVersion r \<and> coalesce (mbLearnerID m) '''' = coalesce (rrLearnerID r) '''' \<and> mfa_done m)"

text \<open>The condition of the update that consumes a token.\<close>

definition redeemable :: "CredentialStore \<Rightarrow> CredentialCodec \<Rightarrow> string \<Rightarrow> string \<Rightarrow> string \<Rightarrow> time \<Rightarrow> refresh_row \<Rightarrow> bool" where
  "redeemable s cc token clientID resource now r \<longleftrightarrow>
     rrToken r = refreshTokenHash cc token \<and> rrExpiresAt r > now \<and> rrUsedAt r = None \<and> rrRevokedAt r = None \<and>
     rrClientID r = Some clientID \<and> rrResource r = resource \<and> token_membership_active (csIdentities s) r"

definition consumed :: "time \<Rightarrow> string \<Rightarrow> refresh_row \<Rightarrow> refresh_row" where
  "consumed now family r = r\<lparr>rrUsedAt := Some now, rrFamilyID := if rrFamilyID r = '''' then family else rrFamilyID r\<rparr>"

datatype rotation = Rotated RefreshToken | ReuseDetected | LegacyRejected | InvalidScopeRejected

text \<open>The token was not redeemable: an unbound row and a replay revoke the family, anything else is refused.\<close>

definition revoke_family :: "Driver \<Rightarrow> CredentialCodec \<Rightarrow> string \<Rightarrow> refresh_row \<Rightarrow> string \<Rightarrow> string \<Rightarrow> unit cop" where
  "revoke_family dr cc token r familyError rowError =
     (if rrFamilyID r \<noteq> '''' then
        bind_tx (wrap_tx familyError (sql dr familyError)) (\<lambda>_.
        writes (revoke_tokens (\<lambda>q. rrFamilyID q = rrFamilyID r) (drNow dr)))
      else
        bind_tx (wrap_tx rowError (sql dr rowError)) (\<lambda>_.
        writes (revoke_tokens (refreshTokenInspectionPredicate dr cc token) (drNow dr))))"

definition reject_token :: "Driver \<Rightarrow> CredentialCodec \<Rightarrow> string \<Rightarrow> string \<Rightarrow> string \<Rightarrow> rotation cop" where
  "reject_token dr cc token clientID resource =
     bind_tx (wrap_tx ''inspect rejected refresh token'' (sql dr ''inspect rejected refresh token'')) (\<lambda>_.
     bind_tx (reads (\<lambda>s. case List.find (refreshTokenInspectionPredicate dr cc token) (csTokens s) of
         None \<Rightarrow> Inl ErrInvalidRefreshToken | Some r \<Rightarrow> Inr r)) (\<lambda>r.
     if coalesce (rrClientID r) '''' = '''' \<or> blank (rrResource r) \<or> CanonicalOAuthScope (rrScope r) \<noteq> Inr (rrScope r) then
       bind_tx (revoke_family dr cc token r ''revoke unbound refresh token family'' ''revoke unbound refresh token'')
         (\<lambda>_. returns LegacyRejected)
     else if rrClientID r \<noteq> Some clientID then fails ErrInvalidRefreshToken
     else if rrResource r \<noteq> resource then fails ErrInvalidRefreshToken
     else if rrUsedAt r = None \<and> rrRevokedAt r = None then fails ErrInvalidRefreshToken
     else bind_tx (revoke_family dr cc token r ''revoke refresh token family'' ''revoke legacy refresh token'')
         (\<lambda>_. returns ReuseDetected)))"

definition successor_of :: "RefreshToken \<Rightarrow> refresh_row \<Rightarrow> RefreshToken" where
  "successor_of successor r = successor\<lparr>tkUserID := rrUserID r, tkTenantID := rrTenantID r,
     tkMembershipID := rrMembershipID r, tkMembershipVersion := rrMembershipVersion r,
     tkLearnerID := coalesce (rrLearnerID r) '''', tkFamilyID := rrFamilyID r\<rparr>"

definition rotate_tx ::
  "Driver \<Rightarrow> CredentialCodec \<Rightarrow> RefreshToken \<Rightarrow> string \<Rightarrow> string \<Rightarrow> string \<Rightarrow> string \<Rightarrow> rotation cop" where
  "rotate_tx dr cc successor token clientID resource requestedScope =
     bind_tx (wrap_tx ''consume refresh token'' (sql dr ''consume refresh token'')) (\<lambda>_.
     bind_tx (reads (\<lambda>s. Inr (List.find (redeemable s cc token clientID resource (drNow dr)) (csTokens s)))) (\<lambda>found.
     case found of
       None \<Rightarrow> reject_token dr cc token clientID resource
     | Some r \<Rightarrow>
         bind_tx (writes (\<lambda>s. s\<lparr>csTokens := map (\<lambda>q. if redeemable s cc token clientID resource (drNow dr) q
                    then consumed (drNow dr) (tkFamilyID successor) q else q) (csTokens s)\<rparr>)) (\<lambda>_.
         let successor = successor_of successor (consumed (drNow dr) (tkFamilyID successor) r);
             storedScope = rrScope r in
         if CanonicalOAuthScope storedScope \<noteq> Inr storedScope then
           bind_tx (wrap_tx ''revoke invalid-scope refresh token family'' (sql dr ''revoke invalid-scope refresh token family'')) (\<lambda>_.
           bind_tx (writes (revoke_tokens (\<lambda>q. rrFamilyID q = tkFamilyID successor) (drNow dr)))
             (\<lambda>_. returns InvalidScopeRejected))
         else if requestedScope \<noteq> '''' \<and> \<not> OAuthScopeCanNarrow storedScope requestedScope then fails ErrInvalidOAuthScope
         else
           let successor = successor\<lparr>tkScope := if requestedScope \<noteq> '''' then requestedScope else storedScope\<rparr> in
           bind_tx (wrap_tx ''create rotated refresh token'' (insertRefreshToken dr cc successor)) (\<lambda>_.
           returns (Rotated successor)))))"

definition rotate_body ::
  "Driver \<Rightarrow> CredentialCodec \<Rightarrow> Draw \<Rightarrow> string \<Rightarrow> string \<Rightarrow> string \<Rightarrow> string \<Rightarrow> RefreshToken cop" where
  "rotate_body dr cc dw token clientID resource requestedScope =
     bind_tx (lift_tx (newRefreshToken dw '''' clientID resource OAuthScopeLearner '''')) (\<lambda>successor.
     wrap_tx ''rotate refresh token'' (
       bind_tx (inTx dr (rotate_tx dr cc successor token clientID resource requestedScope)) (\<lambda>outcome.
       case outcome of
         Rotated rt \<Rightarrow> returns rt
       | ReuseDetected \<Rightarrow> fails ErrRefreshTokenReuse
       | LegacyRejected \<Rightarrow> fails ErrInvalidRefreshToken
       | InvalidScopeRejected \<Rightarrow> fails ErrInvalidRefreshToken)))"

text \<open>The checks before the transaction; a token without a route is quarantined, errors of that update are ignored.\<close>

definition rotate_checks :: "Driver \<Rightarrow> CredentialCodec \<Rightarrow> string \<Rightarrow> string \<Rightarrow> string \<Rightarrow> string \<Rightarrow> TenantScope cop" where
  "rotate_checks dr cc token clientID resource requestedScope =
     (if blank clientID \<or> blank resource then fails (ErrWrap ''rotate refresh token'' ErrInvalidRefreshToken)
      else if requestedScope \<noteq> '''' \<and> CanonicalOAuthScope requestedScope \<noteq> Inr requestedScope
        then fails (ErrWrap ''rotate refresh token'' ErrInvalidOAuthScope)
      else (\<lambda>s. case credentialScope dr cc credentialKindRefreshToken token s of
          (Inl _, s') \<Rightarrow>
            (Inl (ErrWrap ''rotate refresh token'' ErrInvalidRefreshToken),
             if drFails dr ''quarantine refresh token'' then s'
             else revoke_tokens (\<lambda>r. rrToken r = token \<and> \<not> looks_hashed dr (rrToken r)) (drNow dr) s')
        | r \<Rightarrow> r))"

text \<open>Errors that satisfy \<open>P\<close> become values, so that the transaction commits.\<close>

definition capture_tx :: "(goerr \<Rightarrow> bool) \<Rightarrow> ('s, 'a) tx \<Rightarrow> ('s, goerr + 'a) tx" where
  "capture_tx P m = (\<lambda>s. case m s of
     (Inl e, s') \<Rightarrow> (if P e then Inr (Inl e) else Inl e, s') | (Inr x, s') \<Rightarrow> (Inr (Inr x), s'))"

definition security_outcome :: "goerr \<Rightarrow> bool" where
  "security_outcome e \<longleftrightarrow> errors_is e ErrRefreshTokenReuse \<or> errors_is e ErrInvalidRefreshToken"

definition RotateRefreshTokenWithScope ::
  "Driver \<Rightarrow> CredentialCodec \<Rightarrow> Draw \<Rightarrow> string \<Rightarrow> string \<Rightarrow> string \<Rightarrow> string \<Rightarrow> RefreshToken cop" where
  "RotateRefreshTokenWithScope dr cc dw token clientID resource requestedScope =
     bind_tx (rotate_checks dr cc token clientID resource requestedScope) (\<lambda>scope.
     if drOwned dr then
       bind_tx (WithTenantTx dr scope (capture_tx security_outcome (
         bind_tx (rotate_checks (nested dr) cc token clientID resource requestedScope) (\<lambda>_.
         rotate_body (nested dr) cc dw token clientID resource requestedScope)))) lift_tx
     else rotate_body dr cc dw token clientID resource requestedScope)"

definition RotateRefreshToken :: "Driver \<Rightarrow> CredentialCodec \<Rightarrow> Draw \<Rightarrow> string \<Rightarrow> string \<Rightarrow> string \<Rightarrow> RefreshToken cop" where
  "RotateRefreshToken dr cc dw token clientID resource = RotateRefreshTokenWithScope dr cc dw token clientID resource ''''"

definition CleanupExpiredRefreshTokens :: "Driver \<Rightarrow> int cop" where
  "CleanupExpiredRefreshTokens dr =
     bind_tx (wrap_tx ''cleanup expired refresh tokens'' (sql dr ''cleanup expired refresh tokens'')) (\<lambda>_. \<lambda>s.
     let gone = (\<lambda>r. rrExpiresAt r < drNow dr \<and>
           (rrFamilyID r = '''' \<or> \<not> (\<exists>q \<in> set (csTokens s). rrFamilyID q = rrFamilyID r \<and> rrExpiresAt q \<ge> drNow dr))) in
     (Inr (int (length (filter gone (csTokens s)))), s\<lparr>csTokens := filter (\<lambda>r. \<not> gone r) (csTokens s)\<rparr>))"

section \<open>Authorization codes (db/store.go)\<close>

definition AuthCode_Principal :: "AuthCode \<Rightarrow> string list \<Rightarrow> Principal" where
  "AuthCode_Principal a roles = \<lparr>prUserID = acUserID a, prTenantID = acTenantID a, prMembershipID = acMembershipID a,
     prLearnerID = acLearnerID a, prRoles = roles, prScopes = strings_Fields (acScope a), prTokenVersion = acMembershipVersion a\<rparr>"

definition code_checks :: "Principal \<Rightarrow> string \<Rightarrow> string \<Rightarrow> goerr + Principal \<times> string" where
  "code_checks who resource scope =
     (if blank resource then Inl (err ''create auth code: resource is required'')
      else case CanonicalOAuthScope scope of
        Inl _ \<Rightarrow> Inl (ErrWrap ''create auth code'' ErrInvalidOAuthScope)
      | Inr canonicalScope \<Rightarrow>
          let who = who\<lparr>prScopes := strings_Fields canonicalScope\<rparr> in
          if Principal_Validate who \<noteq> None then Inl (ErrWrap ''create auth code'' ErrInvalidPrincipal)
          else Inr (who, canonicalScope))"

definition create_code_body ::
  "Driver \<Rightarrow> CredentialCodec \<Rightarrow> string \<Rightarrow> Principal \<Rightarrow> string \<Rightarrow> string \<Rightarrow> string \<Rightarrow> string \<Rightarrow> string \<Rightarrow> string \<Rightarrow> time \<Rightarrow> unit cop" where
  "create_code_body dr cc code who codeChallenge codeChallengeMethod clientID redirectURI resource canonicalScope expiresAt =
     wrap_tx ''create auth code'' (
       bind_tx (sql dr ''insert auth code'') (\<lambda>_.
       bind_tx (reads (\<lambda>s. if \<exists>r \<in> set (csCodes s). acCode (crCode r) = code
                           then Inl (ErrDriver ''duplicate auth code'') else Inr ())) (\<lambda>_.
       bind_tx (writes (\<lambda>s. s\<lparr>csCodes := csCodes s @ [\<lparr>crCode = \<lparr>acCode = code, acUserID = prUserID who,
           acTenantID = prTenantID who, acMembershipID = prMembershipID who, acMembershipVersion = prTokenVersion who,
           acLearnerID = prLearnerID who, acCodeChallenge = codeChallenge, acCodeChallengeMethod = codeChallengeMethod,
           acClientID = clientID, acRedirectURI = redirectURI, acResource = resource, acScope = canonicalScope,
           acExpiresAt = expiresAt\<rparr>, crLearnerID = nullString (prLearnerID who), crCreatedAt = drNow dr\<rparr>]\<rparr>)) (\<lambda>_.
       insertCredentialRoute dr cc credentialKindAuthorizationCode code (Principal_TenantScope who) expiresAt (drNow dr)))))"

definition CreateAuthCodeForPrincipal ::
  "Driver \<Rightarrow> CredentialCodec \<Rightarrow> string \<Rightarrow> Principal \<Rightarrow> string \<Rightarrow> string \<Rightarrow> string \<Rightarrow> string \<Rightarrow> string \<Rightarrow> string \<Rightarrow> time \<Rightarrow> unit cop" where
  "CreateAuthCodeForPrincipal dr cc code who codeChallenge codeChallengeMethod clientID redirectURI resource scope expiresAt =
     bind_tx (lift_tx (code_checks who resource scope)) (\<lambda>(who, canonicalScope).
     tenant_call dr (Principal_TenantScope who)
       (\<lambda>dr. bind_tx (lift_tx (code_checks who resource canonicalScope)) (\<lambda>(who, canonicalScope).
             create_code_body dr cc code who codeChallenge codeChallengeMethod clientID redirectURI resource canonicalScope expiresAt))
       (create_code_body dr cc code who codeChallenge codeChallengeMethod clientID redirectURI resource canonicalScope expiresAt))"

text \<open>The \<open>EXISTS\<close> condition on the membership, its user and its learner.\<close>

definition code_membership_active :: "Identities \<Rightarrow> code_row \<Rightarrow> bool" where
  "code_membership_active ids c \<longleftrightarrow> (\<exists>m \<in> set (idMemberships ids). \<exists>u \<in> set (idUsers ids).
     usID u = mbUserID m \<and> usStatus u = ''active'' \<and>
     mbTenantID m = acTenantID (crCode c) \<and> mbID m = acMembershipID (crCode c) \<and> mbUserID m = acUserID (crCode c) \<and>
     mbStatus m = ''active'' \<and> mbVersion m = acMembershipVersion (crCode c) \<and> mfa_done m \<and>
     (crLearnerID c = None \<and> mbLearnerID m = None \<and> usEmailVerifiedAt u \<noteq> None \<or>
      (case joined_learner ids m of
         None \<Rightarrow> False
       | Some l \<Rightarrow> crLearnerID c = Some (lnID l) \<and>
           (lnIdentityMode l = ''email'' \<and> lnEmailVerifiedAt l \<noteq> None \<or> lnIdentityMode l = ''username''))))"

definition code_valid :: "CredentialStore \<Rightarrow> string \<Rightarrow> TenantScope \<Rightarrow> string \<Rightarrow> time \<Rightarrow> code_row \<Rightarrow> bool" where
  "code_valid s code scope clientID now c \<longleftrightarrow>
     acCode (crCode c) = code \<and> acTenantID (crCode c) = tsTenantID scope \<and> acUserID (crCode c) = tsUserID scope \<and>
     acMembershipID (crCode c) = tsMembershipID scope \<and> coalesce (crLearnerID c) '''' = tsLearnerID scope \<and>
     acClientID (crCode c) = clientID \<and> acExpiresAt (crCode c) > now \<and> code_membership_active (csIdentities s) c"

definition returned_code :: "code_row \<Rightarrow> AuthCode" where
  "returned_code c = (crCode c)\<lparr>acLearnerID := coalesce (crLearnerID c) ''''\<rparr>"

definition code_lookup :: "string \<Rightarrow> Driver \<Rightarrow> CredentialCodec \<Rightarrow> string \<Rightarrow> TenantScope cop" where
  "code_lookup w dr cc code = (\<lambda>s. case credentialScope dr cc credentialKindAuthorizationCode code s of
     (Inl _, s') \<Rightarrow> (Inl (ErrWrap w ErrInvalidAuthCode), s') | r \<Rightarrow> r)"

definition get_code_body :: "Driver \<Rightarrow> string \<Rightarrow> string \<Rightarrow> TenantScope \<Rightarrow> AuthCode cop" where
  "get_code_body dr code clientID scope = wrap_tx ''get auth code'' (
     bind_tx (sql dr ''get auth code'') (\<lambda>_.
     reads (\<lambda>s. case List.find (code_valid s code scope clientID (drNow dr)) (csCodes s) of
       None \<Rightarrow> Inl ErrInvalidAuthCode | Some c \<Rightarrow> Inr (returned_code c))))"

definition GetAuthCode :: "Driver \<Rightarrow> CredentialCodec \<Rightarrow> string \<Rightarrow> string \<Rightarrow> AuthCode cop" where
  "GetAuthCode dr cc code clientID =
     bind_tx (code_lookup ''get auth code'' dr cc code) (\<lambda>scope.
     tenant_call dr scope
       (\<lambda>dr. bind_tx (code_lookup ''get auth code'' dr cc code) (get_code_body dr code clientID))
       (get_code_body dr code clientID scope))"

definition consume_code_body :: "Driver \<Rightarrow> CredentialCodec \<Rightarrow> string \<Rightarrow> string \<Rightarrow> TenantScope \<Rightarrow> AuthCode cop" where
  "consume_code_body dr cc code clientID scope = wrap_tx ''consume auth code'' (
     bind_tx (sql dr ''consume auth code'') (\<lambda>_.
     bind_tx (reads (\<lambda>s. case List.find (code_valid s code scope clientID (drNow dr)) (csCodes s) of
         None \<Rightarrow> Inl ErrInvalidAuthCode | Some c \<Rightarrow> Inr (returned_code c))) (\<lambda>ac.
     bind_tx (writes (\<lambda>s. s\<lparr>csCodes := filter (\<lambda>c. \<not> code_valid s code scope clientID (drNow dr) c) (csCodes s)\<rparr>)) (\<lambda>_.
     bind_tx (deleteCredentialRoute dr cc credentialKindAuthorizationCode code) (\<lambda>_. returns ac)))))"

definition ConsumeAuthCode :: "Driver \<Rightarrow> CredentialCodec \<Rightarrow> string \<Rightarrow> string \<Rightarrow> AuthCode cop" where
  "ConsumeAuthCode dr cc code clientID =
     bind_tx (code_lookup ''consume auth code'' dr cc code) (\<lambda>scope.
     tenant_call dr scope
       (\<lambda>dr. bind_tx (code_lookup ''consume auth code'' dr cc code) (consume_code_body dr cc code clientID))
       (consume_code_body dr cc code clientID scope))"

definition exchange_rest :: "Driver \<Rightarrow> CredentialCodec \<Rightarrow> RefreshToken \<Rightarrow> string \<Rightarrow> AuthCode \<Rightarrow> (AuthCode \<times> RefreshToken) cop" where
  "exchange_rest dr cc rt clientID authCode =
     (let rt = rt\<lparr>tkLearnerID := acLearnerID authCode, tkUserID := acUserID authCode, tkTenantID := acTenantID authCode,
           tkMembershipID := acMembershipID authCode, tkMembershipVersion := acMembershipVersion authCode,
           tkResource := acResource authCode, tkScope := acScope authCode\<rparr> in
     bind_tx (wrap_tx ''create refresh token'' (insertRefreshToken dr cc rt)) (\<lambda>_.
     bind_tx (wrap_tx ''activate oauth client'' (sql dr ''activate oauth client'')) (\<lambda>_.
     bind_tx (writes (\<lambda>s. s\<lparr>csClients := map (\<lambda>c. if clClientID c = clientID then c\<lparr>clExpiresAt := None\<rparr> else c) (csClients s)\<rparr>)) (\<lambda>_.
     returns (authCode, rt)))))"

definition exchange_tx :: "Driver \<Rightarrow> CredentialCodec \<Rightarrow> RefreshToken \<Rightarrow> string \<Rightarrow> string \<Rightarrow> (AuthCode \<times> RefreshToken) cop" where
  "exchange_tx dr cc rt code clientID = bind_tx (ConsumeAuthCode dr cc code clientID) (exchange_rest dr cc rt clientID)"

definition exchange_body :: "Driver \<Rightarrow> CredentialCodec \<Rightarrow> Draw \<Rightarrow> string \<Rightarrow> string \<Rightarrow> (AuthCode \<times> RefreshToken) cop" where
  "exchange_body dr cc dw code clientID =
     bind_tx (lift_tx (newRefreshToken dw '''' clientID '''' OAuthScopeLearner '''')) (\<lambda>rt.
     wrap_tx ''exchange auth code'' (inTx dr (exchange_tx (nested dr) cc rt code clientID)))"

definition ExchangeAuthCodeForRefreshToken ::
  "Driver \<Rightarrow> CredentialCodec \<Rightarrow> Draw \<Rightarrow> string \<Rightarrow> string \<Rightarrow> (AuthCode \<times> RefreshToken) cop" where
  "ExchangeAuthCodeForRefreshToken dr cc dw code clientID =
     (if blank clientID then fails (err ''exchange auth code: client_id is required'')
      else bind_tx (code_lookup ''exchange auth code'' dr cc code) (\<lambda>scope.
        tenant_call dr scope
          (\<lambda>dr. bind_tx (code_lookup ''exchange auth code'' dr cc code) (\<lambda>_. exchange_body dr cc dw code clientID))
          (exchange_body dr cc dw code clientID)))"

definition CleanupExpiredCodes :: "Driver \<Rightarrow> int cop" where
  "CleanupExpiredCodes dr =
     bind_tx (wrap_tx ''cleanup expired codes'' (sql dr ''cleanup expired codes'')) (\<lambda>_. \<lambda>s.
     let gone = (\<lambda>c. acExpiresAt (crCode c) < drNow dr) in
     (Inr (int (length (filter gone (csCodes s)))), s\<lparr>csCodes := filter (\<lambda>c. \<not> gone c) (csCodes s)\<rparr>))"

section \<open>Clients and approvals (db/store.go, db/dcr.go)\<close>

definition insert_client :: "Driver \<Rightarrow> client_row \<Rightarrow> unit cop" where
  "insert_client dr c =
     bind_tx (sql dr ''insert oauth client'') (\<lambda>_.
     bind_tx (reads (\<lambda>s. if \<exists>q \<in> set (csClients s). clClientID q = clClientID c
                         then Inl (ErrDriver ''duplicate oauth client'') else Inr ())) (\<lambda>_.
     writes (\<lambda>s. s\<lparr>csClients := csClients s @ [c]\<rparr>)))"

definition client_of :: "string \<Rightarrow> string \<Rightarrow> string \<Rightarrow> string \<Rightarrow> time option \<Rightarrow> client_row" where
  "client_of clientID clientName redirectURIs secretHash expiresAt = \<lparr>clClientID = clientID, clClientName = clientName,
     clRedirectURIs = redirectURIs, clClientSecretHash = secretHash, clExpiresAt = expiresAt, clRegistrationTokenID = ''''\<rparr>"

definition CreateOAuthClientWithSecret :: "Driver \<Rightarrow> string \<Rightarrow> string \<Rightarrow> string \<Rightarrow> string \<Rightarrow> unit cop" where
  "CreateOAuthClientWithSecret dr clientID clientName redirectURIs secretHash =
     wrap_tx ''create oauth client'' (insert_client dr (client_of clientID clientName redirectURIs secretHash None))"

definition CreateOAuthClient :: "Driver \<Rightarrow> string \<Rightarrow> string \<Rightarrow> string \<Rightarrow> unit cop" where
  "CreateOAuthClient dr clientID clientName redirectURIs = CreateOAuthClientWithSecret dr clientID clientName redirectURIs ''''"

text \<open>The insertion selects no row once the table holds \<open>maxClients\<close> clients.\<close>

definition capped_tx :: "Driver \<Rightarrow> client_row \<Rightarrow> int \<Rightarrow> unit cop" where
  "capped_tx dr c maxClients =
     bind_tx (if drPostgres dr then wrap_tx ''lock oauth client registration'' (sql dr ''lock oauth client registration'') else returns ()) (\<lambda>_.
     bind_tx (reads (\<lambda>s. Inr (int (length (csClients s)) < maxClients))) (\<lambda>room.
     if room then wrap_tx ''create oauth client'' (insert_client dr c)
     else bind_tx (wrap_tx ''create oauth client'' (sql dr ''insert oauth client'')) (\<lambda>_. fails ErrOAuthClientLimitReached)))"

definition createOAuthClientWithSecretCapped ::
  "Driver \<Rightarrow> string \<Rightarrow> string \<Rightarrow> string \<Rightarrow> string \<Rightarrow> int \<Rightarrow> time option \<Rightarrow> unit cop" where
  "createOAuthClientWithSecretCapped dr clientID clientName redirectURIs secretHash maxClients expiresAt =
     (let c = client_of clientID clientName redirectURIs secretHash expiresAt in
      if maxClients \<le> 0 then insert_client dr c
      else inTx dr (capped_tx (nested dr) c maxClients))"

definition CreateOAuthClientWithSecretCapped :: "Driver \<Rightarrow> string \<Rightarrow> string \<Rightarrow> string \<Rightarrow> string \<Rightarrow> int \<Rightarrow> unit cop" where
  "CreateOAuthClientWithSecretCapped dr clientID clientName redirectURIs secretHash maxClients =
     createOAuthClientWithSecretCapped dr clientID clientName redirectURIs secretHash maxClients None"

definition CreateOAuthClientWithSecretCappedTTL ::
  "Driver \<Rightarrow> string \<Rightarrow> string \<Rightarrow> string \<Rightarrow> string \<Rightarrow> int \<Rightarrow> time \<Rightarrow> unit cop" where
  "CreateOAuthClientWithSecretCappedTTL dr clientID clientName redirectURIs secretHash maxClients expiresAt =
     (if expiresAt = 0 then fails (err ''create oauth client: expires_at is required'')
      else createOAuthClientWithSecretCapped dr clientID clientName redirectURIs secretHash maxClients (Some expiresAt))"

definition CountOAuthClients :: "Driver \<Rightarrow> int cop" where
  "CountOAuthClients dr = wrap_tx ''count oauth clients'' (
     bind_tx (sql dr ''count oauth clients'') (\<lambda>_. reads (\<lambda>s. Inr (int (length (csClients s))))))"

definition GetOAuthClient :: "Driver \<Rightarrow> string \<Rightarrow> client_row cop" where
  "GetOAuthClient dr clientID = wrap_tx ''get oauth client'' (
     bind_tx (sql dr ''get oauth client'') (\<lambda>_.
     reads (\<lambda>s. case List.find (\<lambda>c. clClientID c = clientID \<and>
           (case clExpiresAt c of None \<Rightarrow> True | Some t \<Rightarrow> t > drNow dr)) (csClients s) of
         None \<Rightarrow> Inl ErrNoRows | Some c \<Rightarrow> Inr c)))"

definition appendDCRAudit :: "Driver \<Rightarrow> string \<Rightarrow> string \<Rightarrow> string \<Rightarrow> string \<Rightarrow> string \<Rightarrow> time \<Rightarrow> unit cop" where
  "appendDCRAudit dr action actor tokenID clientID detail stamp = wrap_tx ''append DCR audit'' (
     bind_tx (sql dr ''append DCR audit'') (\<lambda>_.
     writes (\<lambda>s. s\<lparr>csAudit := csAudit s @ [\<lparr>daAction = action, daActor = actor, daTokenID = tokenID, daClientID = clientID,
       daDetail = detail, daOccurredAt = stamp\<rparr>]\<rparr>)))"

fun audit_expired :: "Driver \<Rightarrow> client_row list \<Rightarrow> unit cop" where
  "audit_expired dr [] = returns ()"
| "audit_expired dr (c # rest) =
     bind_tx (appendDCRAudit dr ''client_expired_deleted'' ''scheduler-cleanup'' (clRegistrationTokenID c) (clClientID c)
       ''unused registration TTL elapsed'' (drNow dr)) (\<lambda>_. audit_expired dr rest)"

definition client_expired :: "time \<Rightarrow> client_row \<Rightarrow> bool" where
  "client_expired now c \<longleftrightarrow> (case clExpiresAt c of None \<Rightarrow> False | Some t \<Rightarrow> t \<le> now)"

definition expired_ids :: "time \<Rightarrow> CredentialStore \<Rightarrow> string set" where
  "expired_ids now s = clClientID ` set (filter (client_expired now) (csClients s))"

definition cleanup_clients_tx :: "Driver \<Rightarrow> int cop" where
  "cleanup_clients_tx dr =
     bind_tx (wrap_tx ''list expired oauth clients'' (sql dr ''list expired oauth clients'')) (\<lambda>_.
     bind_tx (reads (\<lambda>s. Inr (sort_key clClientID (filter (client_expired (drNow dr)) (csClients s))))) (\<lambda>expired.
     bind_tx (audit_expired dr expired) (\<lambda>_.
     bind_tx (sql dr ''revoke tokens of expired clients'') (\<lambda>_.
     bind_tx (writes (\<lambda>s. revoke_tokens (\<lambda>r. case rrClientID r of None \<Rightarrow> False | Some c \<Rightarrow> c \<in> expired_ids (drNow dr) s) (drNow dr) s)) (\<lambda>_.
     bind_tx (sql dr ''delete codes of expired clients'') (\<lambda>_.
     bind_tx (writes (\<lambda>s. s\<lparr>csCodes := filter (\<lambda>c. acClientID (crCode c) \<notin> expired_ids (drNow dr) s) (csCodes s)\<rparr>)) (\<lambda>_.
     bind_tx (sql dr ''delete approvals of expired clients'') (\<lambda>_.
     bind_tx (writes (\<lambda>s. s\<lparr>csApprovals := filter (\<lambda>a. apClientID a \<notin> expired_ids (drNow dr) s) (csApprovals s)\<rparr>)) (\<lambda>_.
     bind_tx (sql dr ''delete expired clients'') (\<lambda>_. \<lambda>s.
     (Inr (int (length (filter (client_expired (drNow dr)) (csClients s)))),
      s\<lparr>csClients := filter (\<lambda>c. \<not> client_expired (drNow dr) c) (csClients s)\<rparr>)))))))))))"

definition CleanupExpiredOAuthClients :: "Driver \<Rightarrow> int cop" where
  "CleanupExpiredOAuthClients dr = wrap_tx ''cleanup expired oauth clients'' (inTx dr (cleanup_clients_tx dr))"

definition IsClientApprovedForScope :: "Driver \<Rightarrow> string \<Rightarrow> string \<Rightarrow> string \<Rightarrow> string \<Rightarrow> bool cop" where
  "IsClientApprovedForScope dr learnerID clientID redirectURI scope = wrap_tx ''is client approved'' (
     if CanonicalOAuthScope scope \<noteq> Inr scope then fails ErrInvalidOAuthScope
     else bind_tx (sql dr ''is client approved'') (\<lambda>_.
       reads (\<lambda>s. Inr (\<exists>a \<in> set (csApprovals s). apLearnerID a = learnerID \<and> apClientID a = clientID \<and>
         apRedirectURI a = redirectURI \<and> apScope a = scope))))"

definition IsClientApproved :: "Driver \<Rightarrow> string \<Rightarrow> string \<Rightarrow> string \<Rightarrow> bool cop" where
  "IsClientApproved dr learnerID clientID redirectURI = IsClientApprovedForScope dr learnerID clientID redirectURI OAuthScopeLearner"

definition same_approval :: "string \<Rightarrow> string \<Rightarrow> string \<Rightarrow> approval_row \<Rightarrow> bool" where
  "same_approval learnerID clientID redirectURI a \<longleftrightarrow> apLearnerID a = learnerID \<and> apClientID a = clientID \<and> apRedirectURI a = redirectURI"

definition ApproveClientForScope :: "Driver \<Rightarrow> string \<Rightarrow> string \<Rightarrow> string \<Rightarrow> string \<Rightarrow> unit cop" where
  "ApproveClientForScope dr learnerID clientID redirectURI scope = wrap_tx ''approve client'' (
     if CanonicalOAuthScope scope \<noteq> Inr scope then fails ErrInvalidOAuthScope
     else bind_tx (sql dr ''approve client'') (\<lambda>_.
       writes (\<lambda>s.
         if \<exists>a \<in> set (csApprovals s). same_approval learnerID clientID redirectURI a
         then s\<lparr>csApprovals := map (\<lambda>a. if same_approval learnerID clientID redirectURI a
                then a\<lparr>apScope := scope, apApprovedAt := drNow dr\<rparr> else a) (csApprovals s)\<rparr>
         else s\<lparr>csApprovals := csApprovals s @ [\<lparr>apLearnerID = learnerID, apClientID = clientID, apRedirectURI = redirectURI,
                apScope = scope, apApprovedAt = drNow dr\<rparr>]\<rparr>)))"

definition ApproveClient :: "Driver \<Rightarrow> string \<Rightarrow> string \<Rightarrow> string \<Rightarrow> unit cop" where
  "ApproveClient dr learnerID clientID redirectURI = ApproveClientForScope dr learnerID clientID redirectURI OAuthScopeLearner"

end
