(* ===== verification/Token_Families.thy ===== *)
theory Token_Families
  imports Credentials
begin

text \<open>
  What the credential operations of \<open>Credentials\<close> guarantee. Every operation moves the table of refresh
  tokens by one step of \<open>token_step\<close>, an abstract machine on token rows; the invariants are proved on that
  machine: a token is rotated at most once, the tokens of a family form a chain of ever narrower grants of
  which only the newest is unused, and a replayed token closes its family for good.
\<close>

section \<open>Steps of the token table\<close>

definition live_row :: "refresh_row \<Rightarrow> bool" where
  "live_row r \<longleftrightarrow> rrUsedAt r = None \<and> rrRevokedAt r = None"

text \<open>Who holds a token, for which client and resource.\<close>

definition holder :: "refresh_row \<Rightarrow> string \<times> string \<times> string \<times> int \<times> string \<times> string option \<times> string" where
  "holder r = (rrTenantID r, rrUserID r, rrMembershipID r, rrMembershipVersion r, coalesce (rrLearnerID r) '''', rrClientID r, rrResource r)"

definition drawn_key :: "CredentialCodec \<Rightarrow> Draw \<Rightarrow> string option" where
  "drawn_key cc dw = map_option (refreshTokenHash cc) (dwToken dw)"

definition spend :: "(refresh_row \<Rightarrow> bool) \<Rightarrow> time \<Rightarrow> string \<Rightarrow> refresh_row list \<Rightarrow> refresh_row list" where
  "spend P now family rows = map (\<lambda>q. if P q then consumed now family q else q) rows"

definition revoke_rows :: "(refresh_row \<Rightarrow> bool) \<Rightarrow> time \<Rightarrow> refresh_row list \<Rightarrow> refresh_row list" where
  "revoke_rows P now rows = map (\<lambda>r. if P r then r\<lparr>rrRevokedAt := Some (coalesce (rrRevokedAt r) now)\<rparr> else r) rows"

lemma revoke_tokens_rows [simp]: "csTokens (revoke_tokens P now s) = revoke_rows P now (csTokens s)"
  by (simp add: revoke_tokens_def revoke_rows_def)

text \<open>Only live rows with the key \<open>k\<close> are spent.\<close>

definition spends :: "string \<Rightarrow> (refresh_row \<Rightarrow> bool) \<Rightarrow> bool" where
  "spends k P \<longleftrightarrow> (\<forall>q. P q \<longrightarrow> live_row q \<and> rrToken q = k)"

definition successor_row :: "string \<Rightarrow> refresh_row \<Rightarrow> refresh_row \<Rightarrow> bool" where
  "successor_row family r r' \<longleftrightarrow>
     rrFamilyID r' = (if rrFamilyID r = '''' then family else rrFamilyID r) \<and> holder r' = holder r \<and> live_row r' \<and>
     capabilities (rrScope r') \<subseteq> capabilities (rrScope r)"

definition added :: "CredentialCodec \<Rightarrow> Draw \<Rightarrow> refresh_row list \<Rightarrow> refresh_row \<Rightarrow> bool" where
  "added cc dw rows r \<longleftrightarrow> drawn_key cc dw = Some (rrToken r) \<and> rrToken r \<notin> rrToken ` set rows"

inductive token_step :: "CredentialCodec \<Rightarrow> Draw \<Rightarrow> refresh_row list \<Rightarrow> refresh_row list \<Rightarrow> bool" for cc dw where
  same: "token_step cc dw rows rows"
| revoked: "token_step cc dw rows (revoke_rows P t rows)"
| removed: "token_step cc dw rows (filter P rows)"
| issued: "added cc dw rows r \<Longrightarrow> dwFamily dw = Some (rrFamilyID r) \<Longrightarrow> live_row r \<Longrightarrow> token_step cc dw rows (rows @ [r])"
| spent: "spends k P \<Longrightarrow> dwFamily dw = Some f \<Longrightarrow> token_step cc dw rows (spend P t f rows)"
| spent_revoked: "spends k P \<Longrightarrow> dwFamily dw = Some f \<Longrightarrow> token_step cc dw rows (revoke_rows J t' (spend P t f rows))"
| rotated: "spends k P \<Longrightarrow> dwFamily dw = Some f \<Longrightarrow> r \<in> set rows \<Longrightarrow> P r \<Longrightarrow> successor_row f r r' \<Longrightarrow>
    added cc dw rows r' \<Longrightarrow> token_step cc dw rows (spend P t f rows @ [r'])"

text \<open>A successful rotation of \<open>token\<close>.\<close>

definition rotates :: "CredentialCodec \<Rightarrow> Draw \<Rightarrow> string \<Rightarrow> refresh_row list \<Rightarrow> RefreshToken \<Rightarrow> refresh_row list \<Rightarrow> bool" where
  "rotates cc dw token rows rt rows' \<longleftrightarrow>
     (\<exists>P t f r. spends (refreshTokenHash cc token) P \<and> dwFamily dw = Some f \<and> r \<in> set rows \<and> P r \<and>
        successor_row f r (refresh_row_of cc rt) \<and> added cc dw rows (refresh_row_of cc rt) \<and>
        rows' = spend P t f rows @ [refresh_row_of cc rt])"

lemma rotates_step: "rotates cc dw token rows rt rows' \<Longrightarrow> token_step cc dw rows rows'"
  unfolding rotates_def using token_step.rotated by blast

abbreviation table_step :: "CredentialCodec \<Rightarrow> Draw \<Rightarrow> CredentialStore \<Rightarrow> CredentialStore \<Rightarrow> bool" where
  "table_step cc dw s s' \<equiv> token_step cc dw (csTokens s) (csTokens s')"

section \<open>The operations make one step\<close>

lemma wp_capture [wp_simps]:
  "wp (capture_tx P m) R E = wp m (\<lambda>x. R (Inr x)) (\<lambda>e s'. if P e then R (Inl e) s' else E e s')"
  by (simp add: fun_eq_iff wp_def capture_tx_def split: prod.splits sum.splits)

lemma wp_WithTenantTx:
  "wp fn R (\<lambda>_. J) s \<Longrightarrow> J s \<Longrightarrow> wp (WithTenantTx dr scope fn) R (\<lambda>_. J) s"
  by (cases "TenantScope_Validate scope") (auto simp: WithTenantTx_def set_config_def wp_simps intro: wp_mono)

lemma wp_tenant_call:
  "wp (again (nested dr)) R (\<lambda>_. J) s \<Longrightarrow> wp body R (\<lambda>_. J) s \<Longrightarrow> J s \<Longrightarrow> wp (tenant_call dr scope again body) R (\<lambda>_. J) s"
  by (simp add: tenant_call_def wp_WithTenantTx)

text \<open>Operations that leave the tokens alone.\<close>

definition same_tokens :: "CredentialStore \<Rightarrow> CredentialStore \<Rightarrow> bool" where
  "same_tokens s s' \<longleftrightarrow> csTokens s' = csTokens s"

interpretation frame: store_relation same_tokens
  by unfold_locales (auto simp: same_tokens_def)

lemma route_frame:
  "related same_tokens (insertCredentialRoute dr cc kind raw scope e c)"
  "related same_tokens (deleteCredentialRoute dr cc kind raw)"
  unfolding insertCredentialRoute_def deleteCredentialRoute_def
  by (intro frame.rules frame.update; simp add: same_tokens_def)+

lemma pure_credentialScope [intro!, simp]: "pure_tx (credentialScope dr cc kind raw)"
  unfolding credentialScope_def by (intro pure_bind pure_wrap pure_case_option) auto

lemma newRefreshToken_Inr:
  assumes "newRefreshToken dw l c rs sc '''' = Inr rt"
  shows "dwToken dw = Some (tkToken rt)" "dwFamily dw = Some (tkFamilyID rt)" "tkUsedAt rt = None" "tkRevokedAt rt = None"
    "tkClientID rt = c" "tkResource rt = rs"
  using assms by (auto simp: newRefreshToken_def split: option.splits)

definition inserts :: "CredentialCodec \<Rightarrow> RefreshToken \<Rightarrow> CredentialStore \<Rightarrow> CredentialStore \<Rightarrow> bool" where
  "inserts cc rt s s' \<longleftrightarrow> csTokens s' = csTokens s @ [refresh_row_of cc rt] \<and>
     refreshTokenHash cc (tkToken rt) \<notin> rrToken ` set (csTokens s) \<and> CanonicalOAuthScope (tkScope rt) = Inr (tkScope rt) \<and>
     \<not> blank (tkClientID rt)"

lemma wp_frame: "related same_tokens m \<Longrightarrow> wp m (\<lambda>_ s'. csTokens s' = csTokens s) (\<lambda>_ s'. csTokens s' = csTokens s) s"
  by (rule wp_mono[of _ "\<lambda>_. same_tokens s" "\<lambda>_. same_tokens s"]) (auto simp: related_wp same_tokens_def)

lemma wp_insertRefreshToken:
  "wp (insertRefreshToken dr cc rt) (\<lambda>_. inserts cc rt s) (\<lambda>_ s'. csTokens s' = csTokens s \<or> inserts cc rt s s') s"
proof -
  let ?s = "s\<lparr>csTokens := csTokens s @ [refresh_row_of cc rt]\<rparr>"
  note route = wp_frame[OF route_frame(1), of dr cc credentialKindRefreshToken "tkToken rt" "token_scope rt" "tkExpiresAt rt" "tkCreatedAt rt" ?s]
  show ?thesis
    unfolding insertRefreshToken_def
    by (auto simp: wp_simps inserts_def image_iff eq_commute intro!: wp_mono[OF route])
qed

lemma refresh_row_of_simps [simp]:
  "rrToken (refresh_row_of cc rt) = refreshTokenHash cc (tkToken rt)" "rrFamilyID (refresh_row_of cc rt) = tkFamilyID rt"
  "rrScope (refresh_row_of cc rt) = tkScope rt" "rrUsedAt (refresh_row_of cc rt) = tkUsedAt rt"
  "rrRevokedAt (refresh_row_of cc rt) = tkRevokedAt rt"
  by (simp_all add: refresh_row_of_def)

lemma coalesce_nullString [simp]: "coalesce (nullString x) '''' = x"
  by (simp add: coalesce_def nullString_def)

lemma inserts_issued:
  assumes "inserts cc rt s s'" and "dwToken dw = Some (tkToken rt)" and "dwFamily dw = Some (tkFamilyID rt)"
    and "tkUsedAt rt = None" and "tkRevokedAt rt = None"
  shows "table_step cc dw s s'"
  using assms token_step.issued[of cc dw "csTokens s" "refresh_row_of cc rt"]
  by (simp add: inserts_def added_def drawn_key_def live_row_def)

lemma wp_insert_issued:
  assumes "dwToken dw = Some (tkToken rt)" and "dwFamily dw = Some (tkFamilyID rt)" and "tkUsedAt rt = None" and "tkRevokedAt rt = None"
  shows "wp (insertRefreshToken dr cc rt) (\<lambda>_. table_step cc dw s) (\<lambda>_. table_step cc dw s) s"
  by (rule wp_mono[OF wp_insertRefreshToken]) (use assms inserts_issued token_step.same in metis)+

lemma create_token_body_step:
  "wp (create_token_body dr cc dw who c rs sc) (\<lambda>_. table_step cc dw s) (\<lambda>_. table_step cc dw s) s"
proof (cases "newRefreshToken dw (prLearnerID who) c rs sc ''''")
  case (Inl e)
  then show ?thesis by (simp add: create_token_body_def wp_simps token_step.same)
next
  case (Inr rt)
  note new = newRefreshToken_Inr[OF Inr]
  show ?thesis
    unfolding create_token_body_def by (simp add: wp_simps Inr Let_def wp_insert_issued new)
qed

lemma CreateRefreshTokenForPrincipal_step:
  "wp (CreateRefreshTokenForPrincipal dr cc dw who c rs sc) (\<lambda>_. table_step cc dw s) (\<lambda>_. table_step cc dw s) s"
proof (cases "token_checks who c rs sc")
  case (Inl e)
  then show ?thesis by (simp add: CreateRefreshTokenForPrincipal_def wp_simps token_step.same)
next
  case (Inr p)
  obtain w sc' where p: "p = (w, sc')" by (cases p)
  show ?thesis
    unfolding CreateRefreshTokenForPrincipal_def
    by (simp add: wp_simps Inr p)
      (rule wp_tenant_call, auto simp: wp_simps token_step.same create_token_body_step split: sum.splits)
qed

section \<open>Rotation\<close>

lemma spends_redeemable: "spends (refreshTokenHash cc token) (redeemable s cc token c rs now)"
  by (simp add: spends_def redeemable_def live_row_def)

lemma revoke_family_step:
  "wp (revoke_family dr cc token r w1 w2) (\<lambda>_. table_step cc dw s) (\<lambda>_. table_step cc dw s) s"
  by (simp add: revoke_family_def wp_simps token_step.same token_step.revoked)

lemma reject_token_step:
  "wp (reject_token dr cc token c rs) (\<lambda>_. table_step cc dw s) (\<lambda>_. table_step cc dw s) s"
  unfolding reject_token_def
  by (simp add: wp_simps token_step.same revoke_family_step split: option.split)

lemma successor_row_of:
  assumes "redeemable s cc token c rs now r" and "tkClientID rt = c" and "tkResource rt = rs" and "c \<noteq> ''''"
    and "tkUsedAt rt = None" and "tkRevokedAt rt = None" and "capabilities sc \<subseteq> capabilities (rrScope r)"
  shows "successor_row f r (refresh_row_of cc ((successor_of rt (consumed now f r))\<lparr>tkScope := sc\<rparr>))"
  using assms by (simp add: successor_row_def holder_def live_row_def redeemable_def refresh_row_of_def successor_of_def
      consumed_def nullString_def coalesce_def)

lemma narrow_capabilities:
  "OAuthScopeCanNarrow g r \<Longrightarrow> CanonicalOAuthScope g = Inr g \<Longrightarrow> CanonicalOAuthScope r = Inr r \<Longrightarrow> capabilities r \<subseteq> capabilities g"
  by (auto simp: CanNarrow_iff)

lemma spend_keys: "rrToken ` set (spend P now f rows) = rrToken ` set rows"
proof -
  have "map rrToken (spend P now f rows) = map rrToken rows" by (simp add: spend_def consumed_def)
  then show ?thesis by (metis set_map)
qed

lemma rotated_insert:
  assumes new: "dwToken dw = Some (tkToken rt)" "dwFamily dw = Some (tkFamilyID rt)" "tkUsedAt rt = None" "tkRevokedAt rt = None"
      "tkClientID rt = c" "tkResource rt = rs"
    and r: "r \<in> set (csTokens s)" "redeemable s cc token c rs now r"
    and sc: "CanonicalOAuthScope sc = Inr sc \<Longrightarrow> capabilities sc \<subseteq> capabilities (rrScope r)"
    and ins: "inserts cc ((successor_of rt (consumed now (tkFamilyID rt) r))\<lparr>tkScope := sc\<rparr>)
        (s\<lparr>csTokens := spend (redeemable s cc token c rs now) now (tkFamilyID rt) (csTokens s)\<rparr>) s'"
  shows "rotates cc dw token (csTokens s) ((successor_of rt (consumed now (tkFamilyID rt) r))\<lparr>tkScope := sc\<rparr>) (csTokens s')"
proof -
  let ?P = "redeemable s cc token c rs now" and ?f = "tkFamilyID rt"
  let ?rt = "(successor_of rt (consumed now ?f r))\<lparr>tkScope := sc\<rparr>"
  note keys = spend_keys
  have row: "CanonicalOAuthScope sc = Inr sc" "c \<noteq> ''''" "refreshTokenHash cc (tkToken ?rt) \<notin> rrToken ` set (csTokens s)"
    and rows: "csTokens s' = spend ?P now ?f (csTokens s) @ [refresh_row_of cc ?rt]"
    using ins new(5) by (auto simp: inserts_def keys blank_def successor_of_def)
  have "successor_row ?f r (refresh_row_of cc ?rt)"
    using successor_row_of[OF r(2) new(5,6) row(2) new(3,4) sc[OF row(1)]] .
  moreover have "added cc dw (csTokens s) (refresh_row_of cc ?rt)"
    using row(3) new(1) by (simp add: added_def drawn_key_def successor_of_def)
  ultimately show ?thesis
    unfolding rotates_def using spends_redeemable new(2) r rows by blast
qed

text \<open>What a detected replay does: the family of the presented row is revoked, or the row itself when it has none.\<close>

definition closes :: "Driver \<Rightarrow> CredentialCodec \<Rightarrow> string \<Rightarrow> refresh_row list \<Rightarrow> refresh_row list \<Rightarrow> bool" where
  "closes dr cc token rows rows' \<longleftrightarrow>
     (\<exists>r. List.find (refreshTokenInspectionPredicate dr cc token) rows = Some r \<and>
        rows' = revoke_rows (if rrFamilyID r \<noteq> '''' then (\<lambda>q. rrFamilyID q = rrFamilyID r)
                             else refreshTokenInspectionPredicate dr cc token) (drNow dr) rows)"

lemma closes_step: "closes dr cc token rows rows' \<Longrightarrow> token_step cc dw rows rows'"
  unfolding closes_def using token_step.revoked by blast

definition rotation_outcome ::
  "Driver \<Rightarrow> CredentialCodec \<Rightarrow> Draw \<Rightarrow> string \<Rightarrow> CredentialStore \<Rightarrow> rotation \<Rightarrow> CredentialStore \<Rightarrow> bool" where
  "rotation_outcome dr cc dw token s out s' =
     (case out of
        Rotated rt \<Rightarrow> rotates cc dw token (csTokens s) rt (csTokens s')
      | ReuseDetected \<Rightarrow> closes dr cc token (csTokens s) (csTokens s')
      | _ \<Rightarrow> table_step cc dw s s')"

lemma reject_outcome:
  "wp (reject_token dr cc token c rs) (rotation_outcome dr cc dw token s) (\<lambda>_. table_step cc dw s) s"
  unfolding reject_token_def revoke_family_def
  by (auto simp: wp_simps rotation_outcome_def token_step.same token_step.revoked closes_def split: option.split)

lemma rotate_tx_outcome:
  assumes new: "dwToken dw = Some (tkToken rt)" "dwFamily dw = Some (tkFamilyID rt)" "tkUsedAt rt = None" "tkRevokedAt rt = None"
      "tkClientID rt = c" "tkResource rt = rs"
    and req: "req = '''' \<or> CanonicalOAuthScope req = Inr req"
  shows "wp (rotate_tx dr cc rt token c rs req) (rotation_outcome dr cc dw token s) (\<lambda>_. table_step cc dw s) s"
proof (cases "List.find (redeemable s cc token c rs (drNow dr)) (csTokens s)")
  case None
  then show ?thesis
    unfolding rotate_tx_def by (simp add: wp_simps token_step.same reject_outcome)
next
  case (Some r)
  let ?P = "redeemable s cc token c rs (drNow dr)" and ?f = "tkFamilyID rt"
  have r: "r \<in> set (csTokens s)" "?P r" using Some by (auto simp: find_Some_iff)
  let ?s = "s\<lparr>csTokens := spend ?P (drNow dr) ?f (csTokens s)\<rparr>"
  have spent: "table_step cc dw s ?s" using token_step.spent[OF spends_redeemable new(2)] by simp
  define sc where "sc = (if req \<noteq> '''' then req else rrScope r)"
  let ?rt = "(successor_of rt (consumed (drNow dr) ?f r))\<lparr>tkScope := sc\<rparr>"
  have ins: "wp (insertRefreshToken dr cc ?rt) (\<lambda>_ s'. rotates cc dw token (csTokens s) ?rt (csTokens s')) (\<lambda>_. table_step cc dw s) ?s"
    if ok: "CanonicalOAuthScope (rrScope r) = Inr (rrScope r)" "req = '''' \<or> OAuthScopeCanNarrow (rrScope r) req"
  proof -
    have caps: "capabilities sc \<subseteq> capabilities (rrScope r)"
      using ok req narrow_capabilities by (auto simp: sc_def)
    have rot: "rotates cc dw token (csTokens s) ?rt (csTokens s')" if "inserts cc ?rt ?s s'" for s'
      using rotated_insert[OF new r caps that] .
    show ?thesis
    proof (rule wp_mono[OF wp_insertRefreshToken])
      fix s' assume "csTokens s' = csTokens ?s \<or> inserts cc ?rt ?s s'"
      then show "table_step cc dw s s'"
        using spent rot[THEN rotates_step] by (elim disjE) simp_all
    qed (rule rot)
  qed
  show ?thesis
    unfolding rotate_tx_def
    using spent token_step.spent_revoked[OF spends_redeemable new(2)] ins
    by (auto simp: wp_simps Some token_step.same Let_def rotation_outcome_def sc_def spend_def)
qed

lemma rotate_checks_step:
  "wp (rotate_checks dr cc token c rs req) (\<lambda>_ s'. s' = s \<and> (req = '''' \<or> CanonicalOAuthScope req = Inr req))
     (\<lambda>_. table_step cc dw s) s"
proof -
  obtain res where "credentialScope dr cc credentialKindRefreshToken token s = (res, s)"
    using pure_credentialScope[of dr cc credentialKindRefreshToken token] by (metis prod.collapse pure_tx_def)
  then show ?thesis
    unfolding rotate_checks_def
    by (cases res) (auto simp: wp_def fails_def token_step.same token_step.revoked)
qed

lemma rotate_body_step:
  assumes "req = '''' \<or> CanonicalOAuthScope req = Inr req" and "\<not> drOwned dr"
  shows "wp (rotate_body dr cc dw token c rs req) (\<lambda>rt s'. rotates cc dw token (csTokens s) rt (csTokens s')) (\<lambda>_. table_step cc dw s) s"
proof (cases "newRefreshToken dw '''' c rs OAuthScopeLearner ''''")
  case (Inl e)
  then show ?thesis by (simp add: rotate_body_def wp_simps token_step.same)
next
  case (Inr rt)
  note out = rotate_tx_outcome[OF newRefreshToken_Inr[OF Inr] assms(1), of dr cc token s]
  show ?thesis
    unfolding rotate_body_def
    by (simp add: wp_simps Inr inTx_def assms(2))
      (rule wp_mono[OF out], auto simp: rotation_outcome_def wp_simps closes_step split: rotation.splits)
qed

lemma not_owned_nested [simp]: "\<not> drOwned (nested dr)"
  by (simp add: nested_def)

lemma RotateRefreshTokenWithScope_step:
  "wp (RotateRefreshTokenWithScope dr cc dw token c rs req)
     (\<lambda>rt s'. rotates cc dw token (csTokens s) rt (csTokens s')) (\<lambda>_. table_step cc dw s) s"
proof -
  let ?R = "\<lambda>rt s'. rotates cc dw token (csTokens s) rt (csTokens s')" and ?E = "\<lambda>_::goerr. table_step cc dw s"
  have again: "wp (bind_tx (rotate_checks d cc token c rs req) (\<lambda>_. rotate_body d cc dw token c rs req)) ?R ?E s"
    if "\<not> drOwned d" for d
    unfolding wp_bind
    by (rule wp_mono[OF rotate_checks_step]) (use rotate_body_step that in blast)+
  have owned: "wp (bind_tx (WithTenantTx dr scope (capture_tx security_outcome
      (bind_tx (rotate_checks (nested dr) cc token c rs req) (\<lambda>_. rotate_body (nested dr) cc dw token c rs req)))) lift_tx) ?R ?E s" for scope
  proof -
    have "wp (capture_tx security_outcome (bind_tx (rotate_checks (nested dr) cc token c rs req) (\<lambda>_. rotate_body (nested dr) cc dw token c rs req)))
        (\<lambda>x. wp (lift_tx x) ?R ?E) ?E s"
      unfolding wp_capture by (rule wp_mono[OF again]) (auto simp: wp_lift)
    then show ?thesis unfolding wp_bind by (rule wp_WithTenantTx) (rule token_step.same)
  qed
  show ?thesis
    unfolding RotateRefreshTokenWithScope_def wp_bind
    by (rule wp_mono[OF rotate_checks_step]) (use owned rotate_body_step in \<open>auto\<close>)
qed

section \<open>The other operations\<close>

context store_relation
begin

lemma tenant_transaction: "related rel m \<Longrightarrow> related rel (WithTenantTx dr scope m)"
  unfolding WithTenantTx_def set_config_def by (intro rules atomically) auto

lemma tenant: "(\<And>dr. related rel (again dr)) \<Longrightarrow> related rel body \<Longrightarrow> related rel (tenant_call dr scope again body)"
  by (simp add: tenant_call_def tenant_transaction)

end

lemma pure_code_lookup [intro!, simp]: "pure_tx (code_lookup w dr cc code)"
  using pure_credentialScope[of dr cc credentialKindAuthorizationCode code]
  by (auto simp: code_lookup_def pure_tx_def split: prod.split sum.split) (metis snd_conv)+

lemma create_code_frame:
  "related same_tokens (create_code_body dr cc code who ch m c ru rs sc e)"
  "related same_tokens (CreateAuthCodeForPrincipal dr cc code who ch m c ru rs sc e)"
proof -
  show body: "related same_tokens (create_code_body dr cc code who ch m c ru rs sc e)" for dr who sc
    unfolding create_code_body_def by (intro frame.rules frame.update route_frame) (simp add: same_tokens_def)
  show "related same_tokens (CreateAuthCodeForPrincipal dr cc code who ch m c ru rs sc e)"
    unfolding CreateAuthCodeForPrincipal_def by (intro frame.rules frame.tenant body)
qed

lemma consume_code_frame:
  "related same_tokens (consume_code_body dr cc code c scope)"
  "related same_tokens (ConsumeAuthCode dr cc code c)"
proof -
  show body: "related same_tokens (consume_code_body dr cc code c scope)" for dr scope
    unfolding consume_code_body_def by (intro frame.rules frame.update route_frame) (simp add: same_tokens_def)
  show "related same_tokens (ConsumeAuthCode dr cc code c)"
    unfolding ConsumeAuthCode_def by (intro frame.bind frame.tenant body frame.pure pure_code_lookup)
qed

lemma exchange_tx_step:
  assumes "dwToken dw = Some (tkToken rt)" and "dwFamily dw = Some (tkFamilyID rt)" and "tkUsedAt rt = None" and "tkRevokedAt rt = None"
  shows "wp (exchange_tx dr cc rt code c) (\<lambda>_. table_step cc dw s) (\<lambda>_. table_step cc dw s) s"
  unfolding exchange_tx_def wp_bind
proof (rule wp_mono[OF wp_frame[OF consume_code_frame(2)]])
  fix ac :: AuthCode and s' :: CredentialStore assume s': "csTokens s' = csTokens s"
  let ?rt = "rt\<lparr>tkLearnerID := acLearnerID ac, tkUserID := acUserID ac, tkTenantID := acTenantID ac,
           tkMembershipID := acMembershipID ac, tkMembershipVersion := acMembershipVersion ac,
           tkResource := acResource ac, tkScope := acScope ac\<rparr>"
  have "wp (insertRefreshToken dr cc ?rt) (\<lambda>_. table_step cc dw s') (\<lambda>_. table_step cc dw s') s'"
    by (rule wp_insert_issued) (simp_all add: assms)
  then show "wp (exchange_rest dr cc rt c ac) (\<lambda>_. table_step cc dw s) (\<lambda>_. table_step cc dw s) s'"
    by (simp add: exchange_rest_def wp_simps Let_def s')
qed (simp add: token_step.same)

lemma exchange_body_step:
  "wp (exchange_body dr cc dw code c) (\<lambda>_. table_step cc dw s) (\<lambda>_. table_step cc dw s) s"
proof (cases "newRefreshToken dw '''' c '''' OAuthScopeLearner ''''")
  case (Inl e)
  then show ?thesis by (simp add: exchange_body_def wp_simps token_step.same)
next
  case (Inr rt)
  note new = newRefreshToken_Inr[OF Inr]
  show ?thesis
    unfolding exchange_body_def
    by (simp add: wp_bind wp_lift wp_wrap Inr)
      (rule wp_inTxI, auto simp: token_step.same intro: exchange_tx_step new)
qed

lemma ExchangeAuthCodeForRefreshToken_step:
  "wp (ExchangeAuthCodeForRefreshToken dr cc dw code c) (\<lambda>_. table_step cc dw s) (\<lambda>_. table_step cc dw s) s"
proof -
  have again: "wp (bind_tx (code_lookup w d cc code) (\<lambda>_. exchange_body d cc dw code c)) (\<lambda>_. table_step cc dw s) (\<lambda>_. table_step cc dw s) s"
    for d w
    unfolding wp_bind pure_wp[OF pure_code_lookup] by (auto simp: exchange_body_step token_step.same split: sum.split)
  show ?thesis
    unfolding ExchangeAuthCodeForRefreshToken_def
    by (auto simp: wp_simps pure_wp[OF pure_code_lookup] token_step.same exchange_body_step again
        intro!: wp_tenant_call split: sum.split)
qed

lemma pure_token_lookup [intro!, simp]: "pure_tx (token_lookup w dr cc token)"
  using pure_credentialScope[of dr cc credentialKindRefreshToken token]
  by (auto simp: token_lookup_def pure_tx_def split: prod.split sum.split) (metis snd_conv)+

lemma delete_body_step:
  "wp (delete_token_body dr cc token scope) (\<lambda>_. table_step cc dw s) (\<lambda>_. table_step cc dw s) s"
  unfolding delete_token_body_def deleteCredentialRoute_def by (simp add: wp_simps token_step.same token_step.removed)

lemma DeleteRefreshToken_step:
  "wp (DeleteRefreshToken dr cc token) (\<lambda>_. table_step cc dw s) (\<lambda>_. table_step cc dw s) s"
proof -
  have again: "wp (bind_tx (token_lookup w d cc token) (delete_token_body d cc token)) (\<lambda>_. table_step cc dw s) (\<lambda>_. table_step cc dw s) s"
    for d w
    unfolding wp_bind pure_wp[OF pure_token_lookup] by (auto simp: delete_body_step token_step.same split: sum.split)
  show ?thesis
    unfolding DeleteRefreshToken_def
    by (auto simp: wp_bind pure_wp[OF pure_token_lookup] delete_body_step again token_step.same intro!: wp_tenant_call split: sum.split)
qed

lemma cleanup_steps:
  "wp (CleanupExpiredRefreshTokens dr) (\<lambda>_. table_step cc dw s) (\<lambda>_. table_step cc dw s) s"
  "wp (CleanupExpiredCodes dr) (\<lambda>_. table_step cc dw s) (\<lambda>_. table_step cc dw s) s"
  unfolding CleanupExpiredRefreshTokens_def CleanupExpiredCodes_def wp_bind
  by (simp_all add: wp_simps token_step.same) (simp_all add: wp_def Let_def token_step.same token_step.removed)

lemma audit_frame: "related same_tokens (audit_expired dr cs)"
proof (induction cs)
  case Nil
  then show ?case by (simp add: frame.pure)
next
  case (Cons c cs)
  show ?case
    unfolding audit_expired.simps appendDCRAudit_def
    by (intro frame.rules frame.update Cons.IH) (simp add: same_tokens_def)
qed

lemma cleanup_clients_step:
  "wp (CleanupExpiredOAuthClients dr) (\<lambda>_. table_step cc dw s) (\<lambda>_. table_step cc dw s) s"
proof -
  have "wp (cleanup_clients_tx dr) (\<lambda>_. table_step cc dw s) (\<lambda>_. table_step cc dw s) s"
    unfolding cleanup_clients_tx_def
    apply (simp add: wp_bind wp_wrap wp_sql wp_reads token_step.same)
    apply (rule impI)
    apply (rule wp_mono[OF wp_frame[OF audit_frame]])
     apply (simp_all add: wp_simps token_step.same token_step.revoked)
    apply (simp add: wp_def token_step.revoked)
    done
  then show ?thesis
    unfolding CleanupExpiredOAuthClients_def wp_wrap by (rule wp_inTxI) (simp_all add: token_step.same)
qed

section \<open>Histories\<close>

text \<open>
  The calls of a running system on the credential tables, in the order in which their transactions take
  effect. \<open>CallIdentities\<close> stands for every operation that changes memberships, users, tenants or learners,
  \<open>CallRevokeLearner\<close> for the revocation of a learner's tokens by a password reset or an account change.
\<close>

datatype credential_call =
    CallCreateToken Principal string string string
  | CallRotate string string string string
  | CallDelete string
  | CallCreateCode string Principal string string string string string string time
  | CallConsumeCode string string
  | CallExchange string string
  | CallRegister string string string string int "time option"
  | CallApprove string string string string
  | CallCleanupTokens | CallCleanupCodes | CallCleanupClients
  | CallIdentities Identities
  | CallRevokeLearner string

definition done_tx :: "('s, 'a) tx \<Rightarrow> ('s, unit) tx" where
  "done_tx m = bind_tx m (\<lambda>_. returns ())"

fun credential_op :: "Driver \<Rightarrow> CredentialCodec \<Rightarrow> Draw \<Rightarrow> credential_call \<Rightarrow> unit cop" where
  "credential_op dr cc dw (CallCreateToken who c rs sc) = done_tx (CreateRefreshTokenForPrincipal dr cc dw who c rs sc)"
| "credential_op dr cc dw (CallRotate token c rs sc) = done_tx (RotateRefreshTokenWithScope dr cc dw token c rs sc)"
| "credential_op dr cc dw (CallDelete token) = DeleteRefreshToken dr cc token"
| "credential_op dr cc dw (CallCreateCode code who ch m c ru rs sc e) = CreateAuthCodeForPrincipal dr cc code who ch m c ru rs sc e"
| "credential_op dr cc dw (CallConsumeCode code c) = done_tx (ConsumeAuthCode dr cc code c)"
| "credential_op dr cc dw (CallExchange code c) = done_tx (ExchangeAuthCodeForRefreshToken dr cc dw code c)"
| "credential_op dr cc dw (CallRegister c n ru h mx e) = createOAuthClientWithSecretCapped dr c n ru h mx e"
| "credential_op dr cc dw (CallApprove l c ru sc) = ApproveClientForScope dr l c ru sc"
| "credential_op dr cc dw CallCleanupTokens = done_tx (CleanupExpiredRefreshTokens dr)"
| "credential_op dr cc dw CallCleanupCodes = done_tx (CleanupExpiredCodes dr)"
| "credential_op dr cc dw CallCleanupClients = done_tx (CleanupExpiredOAuthClients dr)"
| "credential_op dr cc dw (CallIdentities ids) = writes (\<lambda>s. s\<lparr>csIdentities := ids\<rparr>)"
| "credential_op dr cc dw (CallRevokeLearner l) = writes (revoke_tokens (\<lambda>r. rrLearnerID r = Some l) (drNow dr))"

type_synonym credential_calls = "(Driver \<times> Draw \<times> credential_call) list"

fun credential_history :: "CredentialCodec \<Rightarrow> credential_calls \<Rightarrow> CredentialStore \<Rightarrow> CredentialStore" where
  "credential_history cc [] s = s"
| "credential_history cc ((dr, dw, c) # calls) s = credential_history cc calls (snd (credential_op dr cc dw c s))"

lemma wp_snd: "wp m (\<lambda>_. J) (\<lambda>_. J) s \<longleftrightarrow> J (snd (m s))"
  by (simp add: wp_def split: prod.split sum.split)

lemma wp_done [wp_simps]: "wp (done_tx m) R E = wp m (\<lambda>_. R ()) E"
  by (simp add: done_tx_def wp_simps)

lemma client_frame:
  "related same_tokens (createOAuthClientWithSecretCapped dr c n ru h mx e)"
  "related same_tokens (ApproveClientForScope dr l c ru sc)"
  unfolding createOAuthClientWithSecretCapped_def capped_tx_def insert_client_def ApproveClientForScope_def
  by (intro frame.rules frame.update; simp add: same_tokens_def)+

lemma frame_step: "related same_tokens m \<Longrightarrow> wp m (\<lambda>_. table_step cc dw s) (\<lambda>_. table_step cc dw s) s"
  by (rule wp_mono[OF wp_frame]) (auto simp: token_step.same)

lemmas call_steps = CreateRefreshTokenForPrincipal_step DeleteRefreshToken_step ExchangeAuthCodeForRefreshToken_step
  cleanup_steps cleanup_clients_step client_frame[THEN frame_step] create_code_frame(2)[THEN frame_step]
  consume_code_frame(2)[THEN frame_step] wp_mono[OF RotateRefreshTokenWithScope_step] rotates_step

lemma credential_op_step: "table_step cc dw s (snd (credential_op dr cc dw c s))"
proof -
  have "wp (credential_op dr cc dw c) (\<lambda>_. table_step cc dw s) (\<lambda>_. table_step cc dw s) s"
    by (cases c) (auto simp: wp_simps token_step.same token_step.revoked intro: call_steps)
  then show ?thesis by (simp only: wp_snd)
qed

section \<open>A token is rotated once\<close>

definition live_key :: "string \<Rightarrow> refresh_row list \<Rightarrow> bool" where
  "live_key k rows \<longleftrightarrow> (\<exists>r \<in> set rows. rrToken r = k \<and> live_row r)"

definition unique_keys :: "refresh_row list \<Rightarrow> bool" where
  "unique_keys rows \<longleftrightarrow> distinct (map rrToken rows)"

lemma row_changes [simp]:
  "rrToken (consumed t f r) = rrToken r" "rrScope (consumed t f r) = rrScope r" "holder (consumed t f r) = holder r"
  "rrUsedAt (consumed t f r) = Some t" "rrRevokedAt (consumed t f r) = rrRevokedAt r"
  "rrFamilyID (consumed t f r) = (if rrFamilyID r = '''' then f else rrFamilyID r)"
  "holder (r\<lparr>rrRevokedAt := v\<rparr>) = holder r"
  by (simp_all add: consumed_def holder_def)

lemma live_key_revoke: "live_key k (revoke_rows P t rows) \<Longrightarrow> live_key k rows"
  by (auto simp: live_key_def revoke_rows_def live_row_def split: if_splits)

lemma live_key_spend: "live_key k (spend P t f rows) \<Longrightarrow> live_key k rows"
  by (auto simp: live_key_def spend_def live_row_def split: if_splits)

lemma live_key_append: "live_key k (rows @ [r]) \<longleftrightarrow> live_key k rows \<or> rrToken r = k \<and> live_row r"
  by (auto simp: live_key_def)

lemma step_live:
  assumes "token_step cc dw rows rows'" and "drawn_key cc dw \<noteq> Some k" and "live_key k rows'"
  shows "live_key k rows"
  using assms
proof cases
  case (rotated k' P f r r' t)
  then show ?thesis using assms(2,3) live_key_spend[of k P t f rows] by (auto simp: added_def live_key_append)
next
  case (spent_revoked k' P f J t' t)
  then show ?thesis using assms(3) live_key_revoke live_key_spend by metis
qed (auto simp: live_key_append added_def intro: live_key_revoke live_key_spend, auto simp: live_key_def)

lemma spend_map: "map rrToken (spend P t f rows) = map rrToken rows"
  by (simp add: spend_def)

lemma revoke_map: "map rrToken (revoke_rows P t rows) = map rrToken rows"
  by (simp add: revoke_rows_def)

lemma step_unique: "token_step cc dw rows rows' \<Longrightarrow> unique_keys rows \<Longrightarrow> unique_keys rows'"
  by (induction rule: token_step.cases)
    (auto simp: unique_keys_def revoke_map spend_map distinct_map_filter added_def)

lemma rotates_live:
  assumes "rotates cc dw token rows rt rows'" and "unique_keys rows" and "drawn_key cc dw \<noteq> Some (refreshTokenHash cc token)"
  shows "live_key (refreshTokenHash cc token) rows" "\<not> live_key (refreshTokenHash cc token) rows'"
proof -
  obtain P t f r where P: "spends (refreshTokenHash cc token) P" "r \<in> set rows" "P r"
    and rows': "rows' = spend P t f rows @ [refresh_row_of cc rt]" and new: "added cc dw rows (refresh_row_of cc rt)"
    using assms(1) unfolding rotates_def by blast
  have r: "live_row r" "rrToken r = refreshTokenHash cc token" using P by (auto simp: spends_def)
  show "live_key (refreshTokenHash cc token) rows" using P(2) r by (auto simp: live_key_def)
  have only: "q = r" if "q \<in> set rows" "rrToken q = refreshTokenHash cc token" for q
    using assms(2) that P(2) r(2) unfolding unique_keys_def by (metis distinct_map inj_onD)
  have "\<not> live_key (refreshTokenHash cc token) (spend P t f rows)"
    using only P(3) by (auto simp: live_key_def spend_def live_row_def split: if_splits)
  then show "\<not> live_key (refreshTokenHash cc token) rows'"
    using new assms(3) by (simp add: rows' live_key_append added_def)
qed

text \<open>The successful rotations of a token in a history.\<close>

fun rotations :: "CredentialCodec \<Rightarrow> string \<Rightarrow> credential_calls \<Rightarrow> CredentialStore \<Rightarrow> nat" where
  "rotations cc token [] s = 0"
| "rotations cc token ((dr, dw, c) # calls) s =
     (case c of
        CallRotate t client rs sc \<Rightarrow> if t = token \<and> \<not> isl (fst (RotateRefreshTokenWithScope dr cc dw t client rs sc s)) then 1 else 0
      | _ \<Rightarrow> 0) + rotations cc token calls (snd (credential_op dr cc dw c s))"

lemma rotation_once:
  assumes "unique_keys (csTokens s)" and "\<forall>(dr, dw, c) \<in> set calls. drawn_key cc dw \<noteq> Some (refreshTokenHash cc token)"
  shows "rotations cc token calls s \<le> (if live_key (refreshTokenHash cc token) (csTokens s) then 1 else 0)"
  using assms
proof (induction calls arbitrary: s)
  case Nil
  then show ?case by simp
next
  case (Cons call calls)
  obtain dr dw c where call: "call = (dr, dw, c)" by (cases call)
  let ?s = "snd (credential_op dr cc dw c s)" and ?k = "refreshTokenHash cc token"
  have step: "table_step cc dw s ?s" by (rule credential_op_step)
  have draw: "drawn_key cc dw \<noteq> Some ?k" using Cons.prems(2) call by simp
  have IH: "rotations cc token calls ?s \<le> (if live_key ?k (csTokens ?s) then 1 else 0)"
    using Cons.IH[OF step_unique[OF step Cons.prems(1)]] Cons.prems(2) by simp
  have stays: "live_key ?k (csTokens ?s) \<Longrightarrow> live_key ?k (csTokens s)" using step_live[OF step draw] .
  show ?case
  proof (cases "\<exists>client rs sc. c = CallRotate token client rs sc \<and> \<not> isl (fst (RotateRefreshTokenWithScope dr cc dw token client rs sc s))")
    case True
    then obtain client rs sc rt s' where c: "c = CallRotate token client rs sc"
      and run: "RotateRefreshTokenWithScope dr cc dw token client rs sc s = (Inr rt, s')"
      by (metis isl_def prod.collapse sum.collapse(2))
    have "rotates cc dw token (csTokens s) rt (csTokens s')"
      using wp_Inr[OF RotateRefreshTokenWithScope_step run] .
    moreover have "?s = s'" by (simp add: c run done_tx_def bind_tx_def returns_def)
    ultimately show ?thesis using rotates_live[OF _ Cons.prems(1) draw] IH by (simp add: call c run)
  next
    case False
    then have "rotations cc token (call # calls) s = rotations cc token calls ?s"
      by (auto simp: call split: credential_call.split)
    then show ?thesis using IH stays by (auto split: if_splits)
  qed
qed

section \<open>Families are chains\<close>

text \<open>Of two rows of a family the older one is used, and the newer one has the same holder and no wider scope.\<close>

definition precedes :: "refresh_row \<Rightarrow> refresh_row \<Rightarrow> bool" where
  "precedes a b \<longleftrightarrow> rrToken a \<noteq> rrToken b \<and>
     (rrFamilyID a = rrFamilyID b \<and> rrFamilyID a \<noteq> '''' \<longrightarrow>
        rrUsedAt a \<noteq> None \<and> holder b = holder a \<and> capabilities (rrScope b) \<subseteq> capabilities (rrScope a))"

definition families_ok :: "refresh_row list \<Rightarrow> bool" where
  "families_ok rows \<longleftrightarrow> sorted_wrt precedes rows"

definition fresh_family :: "Draw \<Rightarrow> refresh_row list \<Rightarrow> bool" where
  "fresh_family dw rows \<longleftrightarrow> (\<forall>r \<in> set rows. dwFamily dw \<noteq> Some (rrFamilyID r))"

lemma sorted_wrt_pair: "sorted_wrt R xs \<Longrightarrow> x \<in> set xs \<Longrightarrow> y \<in> set xs \<Longrightarrow> x \<noteq> y \<Longrightarrow> R x y \<or> R y x"
  by (induction xs) auto

lemma families_unique: "families_ok rows \<Longrightarrow> unique_keys rows"
  unfolding families_ok_def unique_keys_def
  by (induction rows) (auto simp: precedes_def)

lemma revoke_families: "families_ok rows \<Longrightarrow> families_ok (revoke_rows P t rows)"
  unfolding families_ok_def revoke_rows_def sorted_wrt_map
  by (erule sorted_wrt_mono_rel[rotated]) (auto simp: precedes_def)

lemma spend_families:
  assumes ok: "families_ok rows" and P: "spends k P" and f: "\<forall>r \<in> set rows. rrFamilyID r \<noteq> f"
  shows "families_ok (spend P t f rows)"
proof -
  have "precedes (if P x then consumed t f x else x) (if P y then consumed t f y else y)"
    if "x \<in> set rows" "y \<in> set rows" "precedes x y" for x y
  proof -
    have "\<not> (P x \<and> P y)" using P that(3) by (auto simp: spends_def precedes_def)
    moreover have "rrFamilyID x \<noteq> f" "rrFamilyID y \<noteq> f" using f that by auto
    ultimately show ?thesis using that(3) by (auto simp: precedes_def)
  qed
  then show ?thesis
    using ok unfolding families_ok_def spend_def sorted_wrt_map by (rule sorted_wrt_mono_rel)
qed

lemma rotated_last:
  assumes ok: "families_ok rows" and P: "spends k P" "r \<in> set rows" "P r" and f: "\<forall>r \<in> set rows. rrFamilyID r \<noteq> f"
    and r': "successor_row f r r'" and new: "rrToken r' \<notin> rrToken ` set rows" and x: "x \<in> set rows"
  shows "precedes (if P x then consumed t f x else x) r'"
proof (cases "x = r")
  case True
  moreover have "rrToken r \<noteq> rrToken r'" using new imageI[OF P(2), of rrToken] by metis
  ultimately show ?thesis using P r' by (auto simp: precedes_def successor_row_def)
next
  case False
  have r: "live_row r" "rrToken r = k" using P by (auto simp: spends_def)
  have or: "precedes x r \<or> precedes r x"
    using sorted_wrt_pair ok x P(2) False unfolding families_ok_def by metis
  then have "\<not> P x" using P(1) r(2) by (auto simp: spends_def precedes_def)
  moreover have "rrToken x \<noteq> rrToken r'" using new imageI[OF x, of rrToken] by metis
  moreover have "precedes x r" if "rrFamilyID x = rrFamilyID r" "rrFamilyID r \<noteq> ''''"
    using or r(1) that by (auto simp: precedes_def live_row_def)
  ultimately show ?thesis
    using r' f x by (auto simp: precedes_def successor_row_def split: if_splits)
qed

lemma step_families:
  assumes "token_step cc dw rows rows'" and ok: "families_ok rows" and fresh: "fresh_family dw rows"
  shows "families_ok rows'"
  using assms(1)
proof cases
  case same
  then show ?thesis using ok by simp
next
  case (revoked P t)
  then show ?thesis using ok by (simp add: revoke_families)
next
  case (removed P)
  then show ?thesis using ok by (simp add: families_ok_def sorted_wrt_filter)
next
  case (issued r)
  have "precedes a r" if "a \<in> set rows" for a
  proof -
    have "rrToken a \<noteq> rrToken r" using issued(2) imageI[OF that, of rrToken] unfolding added_def by metis
    then show ?thesis using issued fresh that by (auto simp: precedes_def fresh_family_def)
  qed
  then show ?thesis using ok issued(1) by (simp add: families_ok_def sorted_wrt_append)
next
  case (spent k P f t)
  then have "\<forall>r \<in> set rows. rrFamilyID r \<noteq> f" using fresh by (auto simp: fresh_family_def)
  then show ?thesis using spend_families[OF ok spent(2)] spent(1) by simp
next
  case (spent_revoked k P f J t' t)
  then have "\<forall>r \<in> set rows. rrFamilyID r \<noteq> f" using fresh by (auto simp: fresh_family_def)
  then show ?thesis using spend_families[OF ok spent_revoked(2)] spent_revoked(1) by (simp add: revoke_families)
next
  case (rotated k P f r r' t)
  have f: "\<forall>r \<in> set rows. rrFamilyID r \<noteq> f" using fresh rotated(3) by (auto simp: fresh_family_def)
  have "precedes a r'" if a: "a \<in> set (spend P t f rows)" for a
  proof -
    obtain x where x: "x \<in> set rows" "a = (if P x then consumed t f x else x)" using a by (auto simp: spend_def)
    have "rrToken r' \<notin> rrToken ` set rows" using rotated(7) by (simp add: added_def)
    then show ?thesis using rotated_last[OF ok rotated(2,4,5) f rotated(6) _ x(1)] x(2) by simp
  qed
  then show ?thesis
    using spend_families[OF ok rotated(2) f] rotated(1) by (simp add: families_ok_def sorted_wrt_append)
qed

text \<open>No call draws a family that is already in use.\<close>

fun fresh_families :: "CredentialCodec \<Rightarrow> credential_calls \<Rightarrow> CredentialStore \<Rightarrow> bool" where
  "fresh_families cc [] s \<longleftrightarrow> True"
| "fresh_families cc ((dr, dw, c) # calls) s \<longleftrightarrow>
     fresh_family dw (csTokens s) \<and> fresh_families cc calls (snd (credential_op dr cc dw c s))"

lemma history_families:
  "families_ok (csTokens s) \<Longrightarrow> fresh_families cc calls s \<Longrightarrow> families_ok (csTokens (credential_history cc calls s))"
proof (induction calls arbitrary: s)
  case Nil
  then show ?case by simp
next
  case (Cons call calls)
  obtain dr dw c where call: "call = (dr, dw, c)" by (cases call)
  show ?case
    using Cons.IH[OF step_families[OF credential_op_step Cons.prems(1)]] Cons.prems(2) by (simp add: call)
qed

section \<open>A replay closes the family\<close>

definition closed_family :: "string \<Rightarrow> refresh_row list \<Rightarrow> bool" where
  "closed_family f rows \<longleftrightarrow> (\<forall>r \<in> set rows. rrFamilyID r = f \<longrightarrow> rrRevokedAt r \<noteq> None)"

lemma closed_spend:
  assumes "closed_family f rows" and "spends k P" and "f' \<noteq> f"
  shows "closed_family f (spend P t f' rows)"
  using assms by (auto simp: closed_family_def spend_def spends_def live_row_def split: if_splits)

lemma closed_revoke: "closed_family f rows \<Longrightarrow> closed_family f (revoke_rows P t rows)"
  by (auto simp: closed_family_def revoke_rows_def)

lemma step_closed:
  assumes "token_step cc dw rows rows'" and "closed_family f rows" and "dwFamily dw \<noteq> Some f"
  shows "closed_family f rows'"
  using assms(1)
proof cases
  case (rotated k P f' r r' t)
  have "live_row r" using rotated by (auto simp: spends_def)
  then have "rrFamilyID r \<noteq> f" using assms(2) rotated(4) by (auto simp: closed_family_def live_row_def)
  then have "rrFamilyID r' \<noteq> f" using rotated(3,6) assms(3) by (auto simp: successor_row_def split: if_splits)
  then show ?thesis using closed_spend[OF assms(2) rotated(2)] rotated(1,3) assms(3) by (auto simp: closed_family_def)
next
  case (issued r)
  then show ?thesis using assms(2,3) by (auto simp: closed_family_def)
next
  case (removed P)
  then show ?thesis using assms(2) by (auto simp: closed_family_def)
qed (use assms(2,3) in \<open>auto intro: closed_spend closed_revoke\<close>)

lemma history_closed:
  "closed_family f (csTokens s) \<Longrightarrow> \<forall>(dr, dw, c) \<in> set calls. dwFamily dw \<noteq> Some f \<Longrightarrow>
     closed_family f (csTokens (credential_history cc calls s))"
proof (induction calls arbitrary: s)
  case Nil
  then show ?case by simp
next
  case (Cons call calls)
  obtain dr dw c where call: "call = (dr, dw, c)" by (cases call)
  show ?case
    using Cons.IH[OF step_closed[OF credential_op_step Cons.prems(1)]] Cons.prems(2) by (simp add: call)
qed

text \<open>A consumed or revoked token is presented again by its own client for its own resource.\<close>

definition replayed :: "CredentialCodec \<Rightarrow> string \<Rightarrow> string \<Rightarrow> string \<Rightarrow> CredentialStore \<Rightarrow> refresh_row \<Rightarrow> bool" where
  "replayed cc token clientID resource s r \<longleftrightarrow>
     r \<in> set (csTokens s) \<and> rrToken r = refreshTokenHash cc token \<and> \<not> live_row r \<and> rrClientID r = Some clientID \<and>
     rrResource r = resource \<and> CanonicalOAuthScope (rrScope r) = Inr (rrScope r) \<and>
     (\<forall>q \<in> set (csTokens s). rrToken q \<noteq> token)"

definition quiet :: "Driver \<Rightarrow> bool" where
  "quiet dr \<longleftrightarrow> drFails dr = (\<lambda>_. False)"

lemma quiet_simps [simp]: "quiet dr \<Longrightarrow> \<not> drFails dr l" "quiet (nested dr) = quiet dr" "drNow (nested dr) = drNow dr" "drPostgres (nested dr) = drPostgres dr"
  by (simp_all add: quiet_def nested_def)

lemma credentialScope_quiet: "quiet dr \<Longrightarrow> credentialScope (nested dr) = credentialScope dr"
  by (simp add: fun_eq_iff credentialScope_def sql_def guard_tx_def)

lemma credentialScope_valid: "credentialScope dr cc kind raw s = (Inr scope, s') \<Longrightarrow> TenantScope_Validate scope = None"
  by (auto simp: credentialScope_def bind_tx_def wrap_tx_def reads_def sql_def guard_tx_def returns_def fails_def
      split: prod.splits sum.splits option.splits if_splits)

lemma find_only: "x \<in> set xs \<Longrightarrow> \<forall>q \<in> set xs. P q \<longleftrightarrow> q = x \<Longrightarrow> List.find P xs = Some x"
  by (induction xs) auto

lemma replay_rows:
  assumes "unique_keys (csTokens s)" and r: "replayed cc token c rs s r"
  shows "List.find (redeemable s cc token c rs now) (csTokens s) = None"
    and "List.find (refreshTokenInspectionPredicate dr cc token) (csTokens s) = Some r"
proof -
  have only: "q = r" if "q \<in> set (csTokens s)" "rrToken q = refreshTokenHash cc token" for q
    using assms that unfolding unique_keys_def replayed_def by (metis distinct_map inj_onD)
  show "List.find (redeemable s cc token c rs now) (csTokens s) = None"
    using only r by (auto simp: find_None_iff redeemable_def replayed_def live_row_def)
  have "refreshTokenInspectionPredicate dr cc token q \<longleftrightarrow> q = r" if "q \<in> set (csTokens s)" for q
    using only[OF that] that r by (auto simp: refreshTokenInspectionPredicate_def replayed_def)
  moreover have "r \<in> set (csTokens s)" using r by (simp add: replayed_def)
  ultimately show "List.find (refreshTokenInspectionPredicate dr cc token) (csTokens s) = Some r"
    by (intro find_only) auto
qed

lemma replay_body:
  assumes "quiet dr" "\<not> drOwned dr" "dwToken dw = Some k" "dwFamily dw = Some f" "\<not> blank rs" "c \<noteq> ''''"
    and "unique_keys (csTokens s)" and r: "replayed cc token c rs s r" "rrFamilyID r \<noteq> ''''"
  shows "wp (rotate_body dr cc dw token c rs req) (\<lambda>_ _. False)
     (\<lambda>e s'. errors_is e ErrRefreshTokenReuse \<and> csTokens s' = revoke_rows (\<lambda>q. rrFamilyID q = rrFamilyID r) (drNow dr) (csTokens s)) s"
proof -
  have facts: "rrClientID r = Some c" "rrResource r = rs" "CanonicalOAuthScope (rrScope r) = Inr (rrScope r)"
    "\<not> (rrUsedAt r = None \<and> rrRevokedAt r = None)"
    using r by (auto simp: replayed_def live_row_def)
  show ?thesis
    unfolding rotate_body_def rotate_tx_def reject_token_def revoke_family_def newRefreshToken_def
    using assms facts by (simp add: wp_simps inTx_def replay_rows coalesce_def)
qed

lemma wp_WithTenantTx_quiet:
  "quiet dr \<Longrightarrow> TenantScope_Validate scope = None \<Longrightarrow> wp (WithTenantTx dr scope fn) R E s = wp fn R (\<lambda>e _. E e s) s"
  by (simp add: WithTenantTx_def set_config_def wp_simps)

lemma replay_run:
  assumes "quiet dr" "dwToken dw = Some k" "dwFamily dw = Some f" "\<not> blank c" "\<not> blank rs" "req = '''' \<or> CanonicalOAuthScope req = Inr req"
    and route: "credentialScope dr cc credentialKindRefreshToken token s = (Inr scope, s)"
    and keys: "unique_keys (csTokens s)" and r: "replayed cc token c rs s r" "rrFamilyID r \<noteq> ''''"
  shows "wp (RotateRefreshTokenWithScope dr cc dw token c rs req) (\<lambda>_ _. False)
     (\<lambda>e s'. errors_is e ErrRefreshTokenReuse \<and> csTokens s' = revoke_rows (\<lambda>q. rrFamilyID q = rrFamilyID r) (drNow dr) (csTokens s)) s"
    (is "wp _ _ ?E s")
proof -
  have c: "c \<noteq> ''''" using assms(4) by (auto simp: blank_def)
  have checks: "rotate_checks d cc token c rs req s = (Inr scope, s)" if "d = dr \<or> d = nested dr" for d
    using assms(1,4,5,6) route that by (auto simp: rotate_checks_def credentialScope_quiet)
  note body = replay_body[OF _ _ assms(2,3,5) c keys r]
  show ?thesis
  proof (cases "drOwned dr")
    case False
    then show ?thesis
      using body[of dr req] assms(1) by (simp add: RotateRefreshTokenWithScope_def wp_bind wp_def[of "rotate_checks _ _ _ _ _ _"] checks)
  next
    case True
    have inner: "wp (rotate_body (nested dr) cc dw token c rs req) (\<lambda>_ _. False) ?E s" using body[of "nested dr" req] assms(1) by simp
    have "wp (capture_tx security_outcome (bind_tx (rotate_checks (nested dr) cc token c rs req) (\<lambda>_. rotate_body (nested dr) cc dw token c rs req)))
        (\<lambda>x. wp (lift_tx x) (\<lambda>_ _. False) ?E) (\<lambda>e _. ?E e s) s"
      by (simp add: wp_simps wp_def[of "rotate_checks _ _ _ _ _ _"] checks)
        (rule wp_mono[OF inner], auto simp: security_outcome_def)
    then have "wp (WithTenantTx dr scope (capture_tx security_outcome
        (bind_tx (rotate_checks (nested dr) cc token c rs req) (\<lambda>_. rotate_body (nested dr) cc dw token c rs req))))
        (\<lambda>x. wp (lift_tx x) (\<lambda>_ _. False) ?E) ?E s"
      by (simp only: wp_WithTenantTx_quiet[OF assms(1) credentialScope_valid[OF route]])
    then show ?thesis
      using True by (simp add: RotateRefreshTokenWithScope_def wp_bind wp_def[of "rotate_checks _ _ _ _ _ _"] checks)
  qed
qed

section \<open>Guarantees\<close>

definition example_codec :: CredentialCodec where
  "example_codec = \<lparr>ccDigest = (\<lambda>x. x), ccRoles = (\<lambda>_. Inr [])\<rparr>"

definition example_row :: refresh_row where
  "example_row = \<lparr>rrToken = ''sha256:t1'', rrTenantID = ''T'', rrUserID = ''u'', rrMembershipID = ''m'', rrMembershipVersion = 1,
    rrLearnerID = Some ''l'', rrClientID = Some ''c'', rrResource = ''r'', rrScope = ''learner'', rrFamilyID = ''f'',
    rrExpiresAt = 100, rrCreatedAt = 1, rrUsedAt = None, rrRevokedAt = None\<rparr>"

definition example_identities :: Identities where
  "example_identities = \<lparr>idMemberships = [\<lparr>mbTenantID = ''T'', mbID = ''m'', mbUserID = ''u'', mbLearnerID = Some ''l'',
     mbStatus = ''active'', mbVersion = 1, mbRolesJSON = '''', mbMFARequired = False, mbMFAVerifiedAt = None\<rparr>],
    idUsers = [\<lparr>usID = ''u'', usStatus = ''active'', usEmailVerifiedAt = None\<rparr>],
    idTenants = [\<lparr>tnID = ''T'', tnStatus = ''active''\<rparr>], idLearners = []\<rparr>"

definition example_credentials :: CredentialStore where
  "example_credentials = \<lparr>csTokens = [example_row], csCodes = [], csRoutes = [\<lparr>roKind = ''refresh_token'', roKey = ''t1'',
     roTenantID = ''T'', roUserID = ''u'', roMembershipID = ''m'', roLearnerID = Some ''l'', roExpiresAt = 100, roCreatedAt = 1\<rparr>],
    csClients = [], csApprovals = [], csAudit = [], csIdentities = example_identities\<rparr>"

definition example_driver :: Driver where
  "example_driver = \<lparr>drPostgres = False, drOwned = True, drFails = (\<lambda>_. False), drNow = 5\<rparr>"

definition example_draw :: Draw where
  "example_draw = \<lparr>dwToken = Some ''t2'', dwFamily = Some ''g'', dwNow = 5\<rparr>"

definition example_rotations :: credential_calls where
  "example_rotations = [(example_driver, example_draw, CallRotate ''t1'' ''c'' ''r'' ''learner:read''),
    (example_driver, example_draw, CallRotate ''t1'' ''c'' ''r'' '''')]"

text \<open>C11. A refresh token is rotated at most once. In every history of credential calls (creations, rotations,
  deletions, code exchanges, clean-ups, revocations, changes of memberships, and any database failures) that
  does not draw the token's own key again, the number of successful rotations of a token is at most one, and
  zero if the token is not live at the start.
\<close>

theorem refresh_token_rotated_once:
  assumes "unique_keys (csTokens s)"
    and "\<forall>(dr, dw, c) \<in> set calls. drawn_key cc dw \<noteq> Some (refreshTokenHash cc token)"
  shows "rotations cc token calls s \<le> (if live_key (refreshTokenHash cc token) (csTokens s) then 1 else 0)"
  using assms by (rule rotation_once)

theorem refresh_token_rotated_once_witness:
  "unique_keys (csTokens example_credentials) \<and> rotations example_codec ''t1'' example_rotations example_credentials = 1 \<and>
   rotations example_codec ''t1'' example_rotations example_credentials \<le>
     (if live_key (refreshTokenHash example_codec ''t1'') (csTokens example_credentials) then 1 else 0)"
proof -
  have keys: "unique_keys (csTokens example_credentials)"
    and draws: "\<forall>(dr, dw, c) \<in> set example_rotations. drawn_key example_codec dw \<noteq> Some (refreshTokenHash example_codec ''t1'')"
    and one: "rotations example_codec ''t1'' example_rotations example_credentials = 1"
    by code_simp+
  show ?thesis using refresh_token_rotated_once[OF keys draws] keys one by simp
qed

text \<open>C12. The refresh tokens of a family form a chain. In every history whose calls draw unused family names, of two
  tokens of one family the older is used, the newer belongs to the same tenant, user, membership, learner,
  client and resource, and its scope has no capability that the older one lacks; keys stay unique. So a
  family has at most one unused token, and rotating never widens or transfers a grant.
\<close>

theorem refresh_families_are_chains:
  assumes "families_ok (csTokens s)" and "fresh_families cc calls s"
  shows "families_ok (csTokens (credential_history cc calls s))"
  using assms by (rule history_families)

theorem refresh_families_are_chains_witness:
  "length (csTokens (credential_history example_codec example_rotations example_credentials)) = 2 \<and>
   families_ok (csTokens (credential_history example_codec example_rotations example_credentials))"
proof -
  have ok: "families_ok (csTokens example_credentials)" by (simp add: families_ok_def example_credentials_def)
  have fresh: "fresh_families example_codec example_rotations example_credentials"
    and two: "length (csTokens (credential_history example_codec example_rotations example_credentials)) = 2"
    by code_simp+
  show ?thesis using refresh_families_are_chains[OF ok fresh] two by simp
qed

text \<open>
  A replayed refresh token is detected and closes its family for good. When a client presents a token that
  has been used or revoked, for the client and resource it was issued to, and the database answers, the call
  fails with \<open>ErrRefreshTokenReuse\<close>, also when it opened the transaction itself (the revocation is
  committed), and in every later history that does not draw the family's name again every token of the
  family is and stays revoked.
\<close>

lemma replay_closes_family:
  assumes "quiet dr" and "dwToken dw = Some k" and "dwFamily dw = Some f" and "\<not> blank clientID" and "\<not> blank resource"
    and "requested = '''' \<or> CanonicalOAuthScope requested = Inr requested"
    and "credentialScope dr cc credentialKindRefreshToken token s = (Inr scope, s)"
    and "unique_keys (csTokens s)" and "replayed cc token clientID resource s r" and "rrFamilyID r \<noteq> ''''"
    and "\<forall>(dr, dw, c) \<in> set calls. dwFamily dw \<noteq> Some (rrFamilyID r)"
  shows "\<exists>e s'. RotateRefreshTokenWithScope dr cc dw token clientID resource requested s = (Inl e, s') \<and>
    errors_is e ErrRefreshTokenReuse \<and> closed_family (rrFamilyID r) (csTokens (credential_history cc calls s'))"
proof -
  note run = replay_run[OF assms(1-10)]
  obtain res s' where res: "RotateRefreshTokenWithScope dr cc dw token clientID resource requested s = (res, s')" by fastforce
  then obtain e where e: "res = Inl e" using run by (cases res) (auto simp: wp_def)
  have "errors_is e ErrRefreshTokenReuse" "closed_family (rrFamilyID r) (csTokens s')"
    using wp_Inl[OF run, of e s'] res e by (auto simp: closed_family_def revoke_rows_def)
  then show ?thesis using res e history_closed assms(11) by blast
qed

end
