(* ===== verification/Code_Redemption.thy ===== *)
theory Code_Redemption
  imports Token_Families
begin

text \<open>
  Authorization codes are single-use: no operation but the one that creates a code adds a row for it, and
  every redemption removes one.
\<close>

definition code_rows :: "string \<Rightarrow> CredentialStore \<Rightarrow> nat" where
  "code_rows code s = length (filter (\<lambda>c. acCode (crCode c) = code) (csCodes s))"

definition no_more :: "string \<Rightarrow> CredentialStore \<Rightarrow> CredentialStore \<Rightarrow> bool" where
  "no_more code s s' \<longleftrightarrow> code_rows code s' \<le> code_rows code s"

interpretation codes: store_relation "no_more code" for code
  by unfold_locales (auto simp: no_more_def)

lemma no_more_same: "csCodes s' = csCodes s \<Longrightarrow> no_more code s s'"
  by (simp add: no_more_def code_rows_def)

lemma length_filter_filter: "length (filter P (filter J xs)) \<le> length (filter P xs)"
  by (induction xs) auto

lemma no_more_filter: "csCodes s' = filter P (csCodes s) \<Longrightarrow> no_more code s s'"
  unfolding no_more_def code_rows_def by (simp only: length_filter_filter)

lemma route_codes:
  "related (no_more code) (insertCredentialRoute dr cc kind raw scope e c)"
  "related (no_more code) (deleteCredentialRoute dr cc kind raw)"
  unfolding insertCredentialRoute_def deleteCredentialRoute_def
  by (intro codes.rules codes.update; simp add: no_more_same)+

lemma insert_token_codes: "related (no_more code) (insertRefreshToken dr cc rt)"
  unfolding insertRefreshToken_def by (intro codes.rules codes.update route_codes; simp add: no_more_same)

lemma create_token_codes: "related (no_more code) (CreateRefreshTokenForPrincipal dr cc dw who c rs sc)"
proof -
  have body: "related (no_more code) (create_token_body dr cc dw who c rs sc)" for dr who sc
    unfolding create_token_body_def by (intro codes.rules insert_token_codes)
  show ?thesis unfolding CreateRefreshTokenForPrincipal_def by (intro codes.rules codes.tenant body)
qed

lemma delete_token_codes: "related (no_more code) (DeleteRefreshToken dr cc token)"
proof -
  have body: "related (no_more code) (delete_token_body dr cc token scope)" for dr scope
    unfolding delete_token_body_def by (intro codes.rules codes.update route_codes; simp add: no_more_same)
  show ?thesis unfolding DeleteRefreshToken_def by (intro codes.bind codes.tenant body codes.pure pure_token_lookup)
qed

lemma rotate_codes: "related (no_more code) (RotateRefreshTokenWithScope dr cc dw token c rs req)"
proof -
  have revoke: "no_more code s (revoke_tokens P t s)" for P t s by (simp add: no_more_same revoke_tokens_def)
  have reject: "related (no_more code) (reject_token dr cc token c rs)" for dr
    unfolding reject_token_def revoke_family_def by (intro codes.rules codes.update; simp add: revoke)
  have tx: "related (no_more code) (rotate_tx dr cc rt token c rs req)" for dr rt
    unfolding rotate_tx_def
    by (intro codes.rules codes.update reject insert_token_codes) (simp_all add: revoke no_more_same)
  have body: "related (no_more code) (rotate_body dr cc dw token c rs req)" for dr
    unfolding rotate_body_def by (intro codes.rules tx) (auto intro: codes.pure split: rotation.split)
  have checks: "related (no_more code) (rotate_checks dr cc token c rs req)" for dr
  proof -
    have "no_more code s (snd (rotate_checks dr cc token c rs req s))" for s
    proof -
      obtain res where "credentialScope dr cc credentialKindRefreshToken token s = (res, s)"
        using pure_credentialScope[of dr cc credentialKindRefreshToken token] by (metis prod.collapse pure_tx_def)
      then show ?thesis by (cases res) (simp_all add: rotate_checks_def fails_def revoke no_more_same)
    qed
    then show ?thesis by (rule related_raw)
  qed
  have capture: "related (no_more code) (capture_tx P m)" if "related (no_more code) m" for P and m :: "RefreshToken cop"
    using that unfolding related_wp wp_capture by (auto elim!: wp_mono dest!: spec)
  show ?thesis
    unfolding RotateRefreshTokenWithScope_def
    by (intro codes.rules codes.tenant_transaction capture checks body)
qed

lemma consume_codes: "related (no_more code) (consume_code_body dr cc k c scope)" "related (no_more code) (ConsumeAuthCode dr cc k c)"
proof -
  show body: "related (no_more code) (consume_code_body dr cc k c scope)" for dr scope
    unfolding consume_code_body_def by (intro codes.rules codes.update route_codes no_more_filter) simp
  show "related (no_more code) (ConsumeAuthCode dr cc k c)"
    unfolding ConsumeAuthCode_def by (intro codes.bind codes.tenant body codes.pure pure_code_lookup)
qed

lemma exchange_rest_codes: "related (no_more code) (exchange_rest dr cc rt c ac)"
  unfolding exchange_rest_def by (intro codes.rules codes.update insert_token_codes) (simp add: no_more_same)

lemma exchange_codes: "related (no_more code) (ExchangeAuthCodeForRefreshToken dr cc dw k c)"
proof -
  have body: "related (no_more code) (exchange_body dr cc dw k c)" for dr
    unfolding exchange_body_def exchange_tx_def by (intro codes.rules consume_codes exchange_rest_codes)
  show ?thesis
    unfolding ExchangeAuthCodeForRefreshToken_def by (intro codes.rules codes.bind codes.tenant body codes.pure pure_code_lookup)
qed

lemma cleanup_codes:
  "related (no_more code) (CleanupExpiredRefreshTokens dr)" "related (no_more code) (CleanupExpiredCodes dr)"
  unfolding CleanupExpiredRefreshTokens_def CleanupExpiredCodes_def
  by (intro codes.rules related_raw; simp add: Let_def no_more_same no_more_filter)+

lemma audit_codes: "related (no_more code) (audit_expired dr cs)"
proof (induction cs)
  case Nil
  then show ?case by (simp add: codes.pure)
next
  case (Cons c cs)
  show ?case
    unfolding audit_expired.simps appendDCRAudit_def by (intro codes.rules codes.update Cons.IH) (simp add: no_more_same)
qed

lemma client_codes:
  "related (no_more code) (CleanupExpiredOAuthClients dr)"
  "related (no_more code) (createOAuthClientWithSecretCapped dr c n ru h mx e)"
  "related (no_more code) (ApproveClientForScope dr l c ru sc)"
proof -
  show "related (no_more code) (CleanupExpiredOAuthClients dr)"
    unfolding CleanupExpiredOAuthClients_def cleanup_clients_tx_def
    by (intro codes.rules codes.update audit_codes related_raw)
      (simp_all add: revoke_tokens_def no_more_same no_more_filter)
  show "related (no_more code) (createOAuthClientWithSecretCapped dr c n ru h mx e)"
    "related (no_more code) (ApproveClientForScope dr l c ru sc)"
    unfolding createOAuthClientWithSecretCapped_def capped_tx_def insert_client_def ApproveClientForScope_def
    by (intro codes.rules codes.update; simp add: no_more_same)+
qed

section \<open>A redemption uses up the code\<close>

lemma length_filter_smaller: "x \<in> set xs \<Longrightarrow> P x \<Longrightarrow> \<not> J x \<Longrightarrow> length (filter P (filter J xs)) < length (filter P xs)"
proof -
  assume x: "x \<in> set xs" "P x" "\<not> J x"
  have "filter P (filter J xs) = filter J (filter P xs)" by (simp add: conj_commute)
  then show ?thesis using length_filter_less[of x "filter P xs" J] x by simp
qed

lemma consume_body_less: "wp (consume_code_body dr cc k c scope) (\<lambda>_ s'. code_rows k s' < code_rows k s) (\<lambda>_ _. True) s"
proof (cases "List.find (code_valid s k scope c (drNow dr)) (csCodes s)")
  case None
  then show ?thesis unfolding consume_code_body_def by (simp add: wp_simps)
next
  case (Some x)
  then have x: "x \<in> set (csCodes s)" "code_valid s k scope c (drNow dr) x" by (auto simp: find_Some_iff)
  have "code_rows k (s\<lparr>csCodes := filter (\<lambda>y. \<not> code_valid s k scope c (drNow dr) y) (csCodes s)\<rparr>) < code_rows k s"
    unfolding code_rows_def using x length_filter_smaller[OF x(1), of "\<lambda>y. acCode (crCode y) = k"] by (simp add: code_valid_def)
  then show ?thesis
    unfolding consume_code_body_def deleteCredentialRoute_def by (simp add: wp_simps Some code_rows_def)
qed

lemma wp_tenant_success:
  "(\<And>d. wp (again d) R (\<lambda>_ _. True) s) \<Longrightarrow> wp body R (\<lambda>_ _. True) s \<Longrightarrow> wp (tenant_call dr scope again body) R (\<lambda>_ _. True) s"
  by (rule wp_tenant_call) auto

lemma consume_less: "wp (ConsumeAuthCode dr cc k c) (\<lambda>_ s'. code_rows k s' < code_rows k s) (\<lambda>_ _. True) s"
  unfolding ConsumeAuthCode_def
  by (auto simp: wp_bind pure_wp[OF pure_code_lookup] consume_body_less intro!: wp_tenant_success split: sum.split)

lemma exchange_less: "wp (ExchangeAuthCodeForRefreshToken dr cc dw k c) (\<lambda>_ s'. code_rows k s' < code_rows k s) (\<lambda>_ _. True) s"
proof -
  have tx: "wp (exchange_tx d cc rt k c) (\<lambda>_ s'. code_rows k s' < code_rows k s) (\<lambda>_ _. True) s" for d rt
    unfolding exchange_tx_def wp_bind
  proof (rule wp_mono[OF consume_less])
    fix ac s' assume less: "code_rows k s' < code_rows k s"
    have "wp (exchange_rest d cc rt c ac) (\<lambda>_. no_more k s') (\<lambda>_. no_more k s') s'"
      using exchange_rest_codes by (simp add: related_wp)
    then show "wp (exchange_rest d cc rt c ac) (\<lambda>_ s'. code_rows k s' < code_rows k s) (\<lambda>_ _. True) s'"
      by (rule wp_mono) (use less in \<open>auto simp: no_more_def\<close>)
  qed simp
  have body: "wp (exchange_body d cc dw k c) (\<lambda>_ s'. code_rows k s' < code_rows k s) (\<lambda>_ _. True) s" for d
    unfolding exchange_body_def
    by (auto simp: wp_bind wp_lift wp_wrap intro!: wp_inTxI tx split: sum.split)
  show ?thesis
    unfolding ExchangeAuthCodeForRefreshToken_def
    by (auto simp: wp_simps pure_wp[OF pure_code_lookup] body intro!: wp_tenant_success split: sum.split)
qed

text \<open>The successful redemptions of a code in a history, and the calls that create it.\<close>

fun redeems :: "Driver \<Rightarrow> CredentialCodec \<Rightarrow> Draw \<Rightarrow> string \<Rightarrow> credential_call \<Rightarrow> CredentialStore \<Rightarrow> bool" where
  "redeems dr cc dw k (CallConsumeCode code c) s \<longleftrightarrow> code = k \<and> \<not> isl (fst (ConsumeAuthCode dr cc code c s))"
| "redeems dr cc dw k (CallExchange code c) s \<longleftrightarrow> code = k \<and> \<not> isl (fst (ExchangeAuthCodeForRefreshToken dr cc dw code c s))"
| "redeems dr cc dw k _ s \<longleftrightarrow> False"

fun redemptions :: "CredentialCodec \<Rightarrow> string \<Rightarrow> credential_calls \<Rightarrow> CredentialStore \<Rightarrow> nat" where
  "redemptions cc k [] s = 0"
| "redemptions cc k ((dr, dw, c) # calls) s =
     (if redeems dr cc dw k c s then 1 else 0) + redemptions cc k calls (snd (credential_op dr cc dw c s))"

fun creates_code :: "string \<Rightarrow> credential_call \<Rightarrow> bool" where
  "creates_code k (CallCreateCode code who ch m c ru rs sc e) \<longleftrightarrow> code = k"
| "creates_code k _ \<longleftrightarrow> False"

lemma other_code_frame:
  assumes "code \<noteq> k"
  shows "related (no_more k) (CreateAuthCodeForPrincipal dr cc code who ch m c ru rs sc e)"
proof -
  have body: "related (no_more k) (create_code_body dr cc code who ch m c ru rs sc e)" for dr who sc
    unfolding create_code_body_def
    by (intro codes.rules codes.update route_codes) (use assms in \<open>simp add: no_more_def code_rows_def\<close>)
  show ?thesis unfolding CreateAuthCodeForPrincipal_def by (intro codes.rules codes.tenant body)
qed

lemma done_tx_related: "related (no_more k) m \<Longrightarrow> related (no_more k) (done_tx m)"
  unfolding done_tx_def by (intro codes.rules)

lemma credential_op_codes: "\<not> creates_code k c \<Longrightarrow> no_more k s (snd (credential_op dr cc dw c s))"
proof -
  assume c: "\<not> creates_code k c"
  have "related (no_more k) (credential_op dr cc dw c)"
    by (cases c)
      (use c in \<open>auto simp: no_more_same revoke_tokens_def intro!: done_tx_related create_token_codes rotate_codes delete_token_codes
        consume_codes exchange_codes cleanup_codes client_codes other_code_frame codes.update\<close>)
  then show ?thesis by (rule relatedD)
qed

lemma redeems_less: "redeems dr cc dw k c s \<Longrightarrow> code_rows k (snd (credential_op dr cc dw c s)) < code_rows k s"
proof (induction dr cc dw k c s rule: redeems.induct)
  case (1 dr cc dw k code c s)
  then obtain ac s' where run: "ConsumeAuthCode dr cc code c s = (Inr ac, s')" and k: "code = k"
    by (auto simp: isl_def split: sum.splits) (metis prod.collapse sum.collapse(2) sum.exhaust_sel)
  show ?case using wp_Inr[OF consume_less run] by (simp add: k[symmetric] run done_tx_def bind_tx_def returns_def)
next
  case (2 dr cc dw k code c s)
  then obtain p s' where run: "ExchangeAuthCodeForRefreshToken dr cc dw code c s = (Inr p, s')" and k: "code = k"
    by (auto simp: isl_def split: sum.splits) (metis prod.collapse sum.collapse(2) sum.exhaust_sel)
  show ?case using wp_Inr[OF exchange_less run] by (simp add: k[symmetric] run done_tx_def bind_tx_def returns_def)
qed simp_all

lemma redemption_bound:
  "\<forall>(dr, dw, c) \<in> set calls. \<not> creates_code k c \<Longrightarrow> redemptions cc k calls s \<le> code_rows k s"
proof (induction calls arbitrary: s)
  case Nil
  then show ?case by simp
next
  case (Cons call calls)
  obtain dr dw c where call: "call = (dr, dw, c)" by (cases call)
  let ?s = "snd (credential_op dr cc dw c s)"
  have IH: "redemptions cc k calls ?s \<le> code_rows k ?s" using Cons by simp
  have "no_more k s ?s" using Cons.prems call by (auto intro: credential_op_codes)
  then show ?case using IH redeems_less[of dr cc dw k c s] by (auto simp: call no_more_def)
qed

section \<open>Guarantee\<close>

definition example_code :: code_row where
  "example_code = \<lparr>crCode = \<lparr>acCode = ''k'', acUserID = ''u'', acTenantID = ''T'', acMembershipID = ''m'', acMembershipVersion = 1,
     acLearnerID = ''l'', acCodeChallenge = ''x'', acCodeChallengeMethod = ''S256'', acClientID = ''c'', acRedirectURI = ''y'',
     acResource = ''r'', acScope = ''learner'', acExpiresAt = 50\<rparr>, crLearnerID = Some ''l'', crCreatedAt = 1\<rparr>"

definition example_code_store :: CredentialStore where
  "example_code_store = example_credentials\<lparr>csCodes := [example_code],
     csRoutes := [\<lparr>roKind = ''authorization_code'', roKey = ''k'', roTenantID = ''T'', roUserID = ''u'', roMembershipID = ''m'',
       roLearnerID = Some ''l'', roExpiresAt = 50, roCreatedAt = 1\<rparr>],
     csIdentities := example_identities\<lparr>idLearners := [\<lparr>lnID = ''l'', lnTenantID = ''T'', lnUserID = ''u'', lnMembershipID = ''m'',
       lnIdentityMode = ''username'', lnEmailVerifiedAt = None\<rparr>]\<rparr>\<rparr>"

definition example_exchanges :: credential_calls where
  "example_exchanges = [(example_driver, example_draw, CallExchange ''k'' ''c''), (example_driver, example_draw, CallExchange ''k'' ''c'')]"

lemma distinct_once: "distinct xs \<Longrightarrow> length (filter (\<lambda>x. x = k) xs) \<le> 1"
proof (induction xs)
  case (Cons x xs)
  then show ?case by (cases "x = k") (auto simp: filter_empty_conv)
qed simp

text \<open>C13. An authorization code is redeemed at most once: in every history that does not create the code again,
  the successful exchanges and consumptions of a code together number at most the rows that hold it, which is
  one, codes being the primary key.
\<close>

theorem auth_code_redeemed_once:
  assumes "distinct (map (\<lambda>c. acCode (crCode c)) (csCodes s))"
    and "\<forall>(dr, dw, c) \<in> set calls. \<not> creates_code k c"
  shows "redemptions cc k calls s \<le> 1"
proof -
  have "code_rows k s = length (filter (\<lambda>x. x = k) (map (\<lambda>c. acCode (crCode c)) (csCodes s)))"
    unfolding code_rows_def by (simp add: filter_map o_def)
  also have "\<dots> \<le> 1" using assms(1) by (rule distinct_once)
  finally show ?thesis using redemption_bound[OF assms(2)] le_trans by blast
qed

theorem auth_code_redeemed_once_witness:
  "redemptions example_codec ''k'' example_exchanges example_code_store = 1 \<and>
   redemptions example_codec ''k'' example_exchanges example_code_store \<le> 1"
proof -
  have keys: "distinct (map (\<lambda>c. acCode (crCode c)) (csCodes example_code_store))"
    and calls: "\<forall>(dr, dw, c) \<in> set example_exchanges. \<not> creates_code ''k'' c"
    and one: "redemptions example_codec ''k'' example_exchanges example_code_store = 1"
    by code_simp+
  show ?thesis using auth_code_redeemed_once[OF keys calls] one by simp
qed

end
