(* ===== verification/Idempotency.thy ===== *)
theory Idempotency
  imports Transactions
begin

text \<open>
  Replay protection of the write tools: the middleware of \<open>tools/idempotency.go\<close> over the reservations of
  \<open>db/idempotency.go\<close>. Requests run concurrently; every SQL statement and the handler are atomic steps that
  interleave freely, each may fail before or after it took effect, and a process may stop at any point. A key
  admits one handler at a time, and none after one that succeeded or was cut short; a replayed answer is the
  answer of the one handler that succeeded.
\<close>

section \<open>Request keys (tools/idempotency.go)\<close>

definition idempotentWriteTools :: "string list" where
  "idempotentWriteTools = [''commit_memory_maintenance'', ''prepare_pedagogical_turn'', ''start_learning_session'',
     ''get_next_activity'', ''record_interaction'', ''prepare_assessment_attempt'', ''submit_assessment_attempt'',
     ''cancel_assessment_attempt'', ''init_domain'', ''add_concepts'', ''update_learner_profile'', ''record_affect'',
     ''calibration_check'', ''record_calibration_result'', ''learning_negotiation'', ''set_domain_priority'',
     ''update_learner_memory'', ''archive_domain'', ''unarchive_domain'', ''delete_domain'', ''record_session_close'',
     ''update_implementation_intention'', ''queue_webhook_message'', ''set_goal_relevance'', ''record_transfer_result'',
     ''update_availability_model'', ''mark_domain_high_stakes'', ''publish_curriculum_revision'']"

definition alphanumeric :: "char \<Rightarrow> bool" where
  "alphanumeric c \<longleftrightarrow> (let n = of_char c :: nat in 65 \<le> n \<and> n \<le> 90 \<or> 97 \<le> n \<and> n \<le> 122 \<or> 48 \<le> n \<and> n \<le> 57)"

definition validIdempotencyKey :: "string \<Rightarrow> bool" where
  "validIdempotencyKey key =
     (case key of
        [] \<Rightarrow> False
      | c # rest \<Rightarrow> alphanumeric c \<and> length rest \<le> 127 \<and> list_all (\<lambda>c. alphanumeric c \<or> c \<in> set ''._:-'') rest)"

text \<open>The metadata of a call and its decoded arguments (\<open>None\<close> when they are blank or not an object).\<close>

definition requestIdempotencyKey :: "(string \<times> json) list \<Rightarrow> (string \<times> json) list option \<Rightarrow> string \<times> bool \<times> goerr option" where
  "requestIdempotencyKey meta body =
     (let metaRaw = map_of meta ''idempotency_key'';
          bodyRaw = (case body of None \<Rightarrow> None | Some b \<Rightarrow> map_of b ''idempotency_key'') in
      case metaRaw of
        Some (JStr metaKey) \<Rightarrow>
          (case bodyRaw of
             None \<Rightarrow> (metaKey, True, None)
           | Some (JStr bodyKey) \<Rightarrow>
               if metaKey \<noteq> bodyKey then ('''', True, Some (err ''metadata and argument idempotency keys differ''))
               else (metaKey, True, None)
           | Some _ \<Rightarrow> ('''', True, Some (err ''argument idempotency key is not a string'')))
      | Some _ \<Rightarrow> ('''', True, Some (err ''metadata idempotency key is not a string''))
      | None \<Rightarrow>
          (case bodyRaw of
             None \<Rightarrow> ('''', False, None)
           | Some (JStr bodyKey) \<Rightarrow> (bodyKey, True, None)
           | Some _ \<Rightarrow> ('''', True, Some (err ''argument idempotency key is not a string''))))"

text \<open>\<open>tools/pedagogical_turn.go\<close>: the mode of a turn; \<open>None\<close> for arguments that do not decode, the empty
  string for no mode.\<close>

definition normalizePedagogicalTurnMode :: "string \<Rightarrow> goerr + string" where
  "normalizePedagogicalTurnMode mode =
     (if mode = '''' \<or> mode = ''context'' then Inr ''context''
      else if mode = ''activity'' then Inr mode
      else Inl (err ''mode must be context or activity''))"

definition pedagogicalTurnModeFromRequest :: "string option \<Rightarrow> goerr + string" where
  "pedagogicalTurnModeFromRequest decoded =
     (case decoded of None \<Rightarrow> Inl (err ''invalid tool arguments'') | Some mode \<Rightarrow> normalizePedagogicalTurnMode mode)"

definition getLearnerID :: "string \<Rightarrow> goerr + string" where
  "getLearnerID learnerID = (if learnerID = '''' then Inl (err ''authentication required'') else Inr learnerID)"

definition conversationMetaKey :: string where
  "conversationMetaKey = ''tutor/conversation_id''"

section \<open>Reservations (db/idempotency.go)\<close>

type_synonym call_key = "string \<times> string \<times> string"

record reservation =
  rvRequestHash :: string
  rvStatus :: string
  rvResponseText :: string
  rvResponseExpiredAt :: "time option"
  rvCreatedAt :: time
  rvUpdatedAt :: time
  rvCompletedAt :: "time option"

type_synonym reservations = "call_key \<Rightarrow> reservation option"

text \<open>\<open>INSERT ... ON CONFLICT DO NOTHING\<close>, and whether a row was inserted.\<close>

definition claim_insert :: "call_key \<Rightarrow> string \<Rightarrow> time \<Rightarrow> reservations \<Rightarrow> bool \<times> reservations" where
  "claim_insert k requestHash now t =
     (case t k of
        Some _ \<Rightarrow> (False, t)
      | None \<Rightarrow> (True, t(k \<mapsto> \<lparr>rvRequestHash = requestHash, rvStatus = ''processing'', rvResponseText = '''',
          rvResponseExpiredAt = None, rvCreatedAt = now, rvUpdatedAt = now, rvCompletedAt = None\<rparr>)))"

text \<open>What the conflicting row answers: a cached response, or an error.\<close>

definition claim_read :: "reservation \<Rightarrow> string \<Rightarrow> goerr + string" where
  "claim_read row requestHash =
     (if rvRequestHash row \<noteq> requestHash then Inl ErrIdempotencyKeyConflict
      else if rvStatus row = ''completed'' then
        (if rvResponseExpiredAt row \<noteq> None then Inl ErrIdempotencyResponseExpired else Inr (rvResponseText row))
      else if rvStatus row = ''processing'' then Inl ErrIdempotencyInProgress
      else Inl (ErrText [S ''unknown idempotency status '', Q (rvStatus row)]))"

definition held :: "call_key \<Rightarrow> string \<Rightarrow> reservations \<Rightarrow> bool" where
  "held k requestHash t = (case t k of None \<Rightarrow> False | Some row \<Rightarrow> rvRequestHash row = requestHash \<and> rvStatus row = ''processing'')"

definition CompleteIdempotencyKey :: "call_key \<Rightarrow> string \<Rightarrow> string \<Rightarrow> time \<Rightarrow> reservations \<Rightarrow> goerr option \<times> reservations" where
  "CompleteIdempotencyKey k requestHash responseText now t =
     (if held k requestHash t then
        (None, t(k := map_option (\<lambda>row. row\<lparr>rvStatus := ''completed'', rvResponseText := responseText,
           rvResponseExpiredAt := None, rvCompletedAt := Some now, rvUpdatedAt := now\<rparr>) (t k)))
      else (Some (err ''complete idempotency key: reservation not found''), t))"

definition AbortIdempotencyKey :: "call_key \<Rightarrow> string \<Rightarrow> reservations \<Rightarrow> reservations" where
  "AbortIdempotencyKey k requestHash t = (if held k requestHash t then t(k := None) else t)"

text \<open>The retention job of \<open>db/retention.go\<close> redacts an old response and keeps the row.\<close>

definition expire_response :: "call_key \<Rightarrow> time \<Rightarrow> time \<Rightarrow> reservations \<Rightarrow> reservations" where
  "expire_response k cutoff now t =
     (case t k of
        None \<Rightarrow> t
      | Some row \<Rightarrow>
          if rvStatus row = ''completed'' \<and> (case rvCompletedAt row of None \<Rightarrow> False | Some c \<Rightarrow> c < cutoff) \<and>
             rvResponseText row \<noteq> '''' \<and> rvResponseExpiredAt row = None
          then t(k \<mapsto> row\<lparr>rvResponseText := '''', rvResponseExpiredAt := Some now\<rparr>)
          else t)"

section \<open>The middleware\<close>

text \<open>
  Where a request stands: before the insertion or the read of an attempt of \<open>ClaimIdempotencyKey\<close>, inside the
  handler, before the abort or the completion, or at its end: refused, answered from the cache, answered by
  its own handler, or lost with its process, with or without the reservation in its hands.
\<close>

datatype stage = Claiming nat | Reading nat | Executing | Aborting | Completing string
  | Refused goerr | Replayed string | Answered | Lost bool

text \<open>\<open>tcApplied\<close> records the response text of a handler that succeeded; the program does not read it.\<close>

record tool_call =
  tcKey :: call_key
  tcRequestHash :: string
  tcStage :: stage
  tcApplied :: "string option"

definition arrive :: "string \<Rightarrow> string \<Rightarrow> string \<Rightarrow> string \<Rightarrow> tool_call" where
  "arrive learnerID toolName key requestHash =
     \<lparr>tcKey = (learnerID, toolName, key), tcRequestHash = requestHash,
      tcStage = (if learnerID = '''' \<or> toolName = '''' \<or> key = '''' \<or> requestHash = ''''
                 then Refused (err ''claim idempotency key: required field missing'') else Claiming 0),
      tcApplied = None\<rparr>"

text \<open>
  A received call: whether a store is configured, the method, whether it is a tool call with parameters, its
  tool, its decoded mode, metadata and arguments, the learner of its context (empty without one) and the
  hash of its tool and arguments.
\<close>

record tool_request =
  rqStore :: bool
  rqMethod :: string
  rqParams :: bool
  rqName :: string
  rqMode :: "string option"
  rqMeta :: "(string \<times> json) list"
  rqBody :: "(string \<times> json) list option"
  rqLearner :: string
  rqHash :: string

text \<open>The middleware hands the call on unprotected, answers with an error, or claims the key.\<close>

datatype admission = HandOn | Rejected goerr | Protect tool_call

definition bound_hash :: "(string \<Rightarrow> string) \<Rightarrow> tool_request \<Rightarrow> string" where
  "bound_hash digest rq =
     (case map_of (rqMeta rq) conversationMetaKey of
        Some (JStr binding) \<Rightarrow> digest (rqHash rq @ char_of (0::nat) # ''conversation'' @ char_of (0::nat) # binding)
      | _ \<Rightarrow> rqHash rq)"

definition keyed_call :: "(string \<Rightarrow> string) \<Rightarrow> tool_request \<Rightarrow> admission" where
  "keyed_call digest rq =
     (case requestIdempotencyKey (rqMeta rq) (rqBody rq) of (key, exists, keyErr) \<Rightarrow>
        if \<not> exists then HandOn
        else if keyErr \<noteq> None \<or> \<not> validIdempotencyKey key
        then Rejected (err (''idempotency_key must match in arguments and _meta and use 1..128 letters, digits, '.', '_', ':', or '-'' @ [CHR 0x27]))
        else case getLearnerID (rqLearner rq) of
               Inl _ \<Rightarrow> HandOn
             | Inr learnerID \<Rightarrow> Protect (arrive learnerID (rqName rq) key (bound_hash digest rq)))"

definition idempotencyMiddleware :: "(string \<Rightarrow> string) \<Rightarrow> tool_request \<Rightarrow> admission" where
  "idempotencyMiddleware digest rq =
     (if rqMethod rq \<noteq> ''tools/call'' \<or> \<not> rqStore rq then HandOn
      else if \<not> rqParams rq \<or> rqName rq \<notin> set idempotentWriteTools then HandOn
      else if rqName rq = ''prepare_pedagogical_turn'' then
        (case pedagogicalTurnModeFromRequest (rqMode rq) of
           Inl e \<Rightarrow> Rejected e
         | Inr mode \<Rightarrow> if mode = ''context'' then HandOn else keyed_call digest rq)
      else keyed_call digest rq)"

datatype action =
    Statement time        \<comment> \<open>the next statement runs\<close>
  | StatementFails string \<comment> \<open>the next statement returns an error\<close>
  | CountFails time string \<comment> \<open>the next statement runs, the count of its rows returns an error\<close>
  | HandlerReturns string \<comment> \<open>the handler succeeds; the first text of its result\<close>
  | HandlerFails
  | ProcessStops

definition cacheable :: "string \<Rightarrow> string" where
  "cacheable responseText =
     (if responseText = '''' then ''{\"completed\":true,\"response_not_cacheable\":true}'' else responseText)"

fun statement :: "time \<Rightarrow> tool_call \<Rightarrow> reservations \<Rightarrow> stage \<times> reservations" where
  "statement now c t =
     (case tcStage c of
        Claiming attempt \<Rightarrow>
          (case claim_insert (tcKey c) (tcRequestHash c) now t of
             (inserted, t') \<Rightarrow> (if inserted then Executing else Reading attempt, t'))
      | Reading attempt \<Rightarrow>
          (case t (tcKey c) of
             None \<Rightarrow> (if attempt + 1 < 2 then Claiming (attempt + 1) else Refused ErrIdempotencyInProgress, t)
           | Some row \<Rightarrow> (case claim_read row (tcRequestHash c) of Inl e \<Rightarrow> Refused e | Inr cached \<Rightarrow> Replayed cached, t))
      | Aborting \<Rightarrow> (Answered, AbortIdempotencyKey (tcKey c) (tcRequestHash c) t)
      | Completing responseText \<Rightarrow> (Answered, snd (CompleteIdempotencyKey (tcKey c) (tcRequestHash c) responseText now t))
      | st \<Rightarrow> (st, t))"

text \<open>Errors of the claim are answered; errors of the abort and of the completion are only logged.\<close>

fun statement_error :: "string \<Rightarrow> stage \<Rightarrow> stage" where
  "statement_error e (Claiming attempt) = Refused (ErrWrap ''claim idempotency key'' (ErrDriver e))"
| "statement_error e (Reading attempt) = Refused (ErrWrap ''read idempotency key'' (ErrDriver e))"
| "statement_error e Aborting = Answered"
| "statement_error e (Completing responseText) = Answered"
| "statement_error e st = st"

text \<open>After an insertion whose count of rows is unknown the claim is refused; the row stays if it was inserted.\<close>

fun count_error :: "time \<Rightarrow> string \<Rightarrow> tool_call \<Rightarrow> reservations \<Rightarrow> stage \<times> reservations" where
  "count_error now e c t =
     (case tcStage c of
        Claiming attempt \<Rightarrow> (Refused (ErrWrap ''claim idempotency key rows'' (ErrDriver e)), snd (claim_insert (tcKey c) (tcRequestHash c) now t))
      | _ \<Rightarrow> statement now c t)"

definition stopped :: "stage \<Rightarrow> stage" where
  "stopped st = (case st of
     Executing \<Rightarrow> Lost True | Aborting \<Rightarrow> Lost True | Completing _ \<Rightarrow> Lost True
   | Claiming _ \<Rightarrow> Lost False | Reading _ \<Rightarrow> Lost False | _ \<Rightarrow> st)"

fun act :: "action \<Rightarrow> tool_call \<Rightarrow> reservations \<Rightarrow> tool_call \<times> reservations" where
  "act (Statement now) c t = (case statement now c t of (st, t') \<Rightarrow> (c\<lparr>tcStage := st\<rparr>, t'))"
| "act (StatementFails e) c t = (c\<lparr>tcStage := statement_error e (tcStage c)\<rparr>, t)"
| "act (CountFails now e) c t = (case count_error now e c t of (st, t') \<Rightarrow> (c\<lparr>tcStage := st\<rparr>, t'))"
| "act (HandlerReturns responseText) c t =
     (if tcStage c = Executing
      then (c\<lparr>tcStage := Completing (cacheable responseText), tcApplied := Some (cacheable responseText)\<rparr>, t) else (c, t))"
| "act HandlerFails c t = (if tcStage c = Executing then (c\<lparr>tcStage := Aborting\<rparr>, t) else (c, t))"
| "act ProcessStops c t = (c\<lparr>tcStage := stopped (tcStage c)\<rparr>, t)"

record server =
  svCalls :: "tool_call list"
  svTable :: reservations

datatype event = Arrives tool_request | Acts nat action | Expires call_key time time

text \<open>Calls that are handed on or rejected touch no reservation.\<close>

fun happens :: "(string \<Rightarrow> string) \<Rightarrow> event \<Rightarrow> server \<Rightarrow> server" where
  "happens digest (Arrives rq) sv =
     (case idempotencyMiddleware digest rq of Protect c \<Rightarrow> sv\<lparr>svCalls := svCalls sv @ [c]\<rparr> | _ \<Rightarrow> sv)"
| "happens digest (Acts i a) sv =
     (if i < length (svCalls sv) then
        (case act a (svCalls sv ! i) (svTable sv) of (c, t) \<Rightarrow> sv\<lparr>svCalls := (svCalls sv)[i := c], svTable := t\<rparr>)
      else sv)"
| "happens digest (Expires k cutoff now) sv = sv\<lparr>svTable := expire_response k cutoff now (svTable sv)\<rparr>"

definition idle_server :: server where
  "idle_server = \<lparr>svCalls = [], svTable = Map.empty\<rparr>"

definition runs :: "(string \<Rightarrow> string) \<Rightarrow> event list \<Rightarrow> server" where
  "runs digest es = fold (happens digest) es idle_server"

section \<open>The invariant of the reservations\<close>

definition owner :: "tool_call \<Rightarrow> bool" where
  "owner c \<longleftrightarrow> tcStage c = Executing \<or> tcStage c = Aborting \<or> (\<exists>r. tcStage c = Completing r) \<or> tcStage c = Lost True"

text \<open>A call holds its key from its entry into the handler until a failed handler has been aborted: for ever
  once the handler succeeded, or once its process stopped in between.\<close>

definition holds :: "tool_call \<Rightarrow> bool" where
  "holds c \<longleftrightarrow> owner c \<or> tcApplied c \<noteq> None"

definition stage_ok :: "tool_call \<Rightarrow> bool" where
  "stage_ok c \<longleftrightarrow> (\<forall>r. tcStage c = Completing r \<longrightarrow> tcApplied c = Some r) \<and>
     (tcApplied c \<noteq> None \<longrightarrow> (\<exists>r. tcStage c = Completing r) \<or> tcStage c = Answered \<or> tcStage c = Lost True)"

definition backed :: "tool_call \<Rightarrow> reservations \<Rightarrow> bool" where
  "backed c t \<longleftrightarrow> (\<exists>row. t (tcKey c) = Some row \<and> rvRequestHash row = tcRequestHash c \<and>
     (owner c \<longrightarrow> rvStatus row = ''processing'') \<and>
     (\<forall>r. tcApplied c = Some r \<longrightarrow> rvStatus row = ''processing'' \<or>
        rvStatus row = ''completed'' \<and> (rvResponseExpiredAt row = None \<longrightarrow> rvResponseText row = r)))"

text \<open>The steps of a call, as the other calls see them; \<open>drops\<close> is a change of stage that acquires nothing.\<close>

definition drops :: "tool_call \<Rightarrow> stage \<Rightarrow> bool" where
  "drops c st \<longleftrightarrow> (owner (c\<lparr>tcStage := st\<rparr>) \<longrightarrow> owner c) \<and> stage_ok (c\<lparr>tcStage := st\<rparr>) \<and>
     (\<forall>x. st = Replayed x \<longrightarrow> tcStage c = Replayed x)"

inductive call_step :: "tool_call \<Rightarrow> reservations \<Rightarrow> tool_call \<Rightarrow> reservations \<Rightarrow> bool" where
  moves: "drops c st \<Longrightarrow> call_step c t (c\<lparr>tcStage := st\<rparr>) t"
| replays: "tcApplied c = None \<Longrightarrow> t (tcKey c) = Some row \<Longrightarrow> claim_read row (tcRequestHash c) = Inr x \<Longrightarrow>
    call_step c t (c\<lparr>tcStage := Replayed x\<rparr>) t"
| claims: "tcApplied c = None \<Longrightarrow> t (tcKey c) = None \<Longrightarrow> rvRequestHash row = tcRequestHash c \<Longrightarrow> rvStatus row = ''processing'' \<Longrightarrow>
    call_step c t (c\<lparr>tcStage := Executing\<rparr>) (t(tcKey c \<mapsto> row))"
| strands: "tcApplied c = None \<Longrightarrow> t (tcKey c) = None \<Longrightarrow> rvRequestHash row = tcRequestHash c \<Longrightarrow> rvStatus row = ''processing'' \<Longrightarrow>
    call_step c t (c\<lparr>tcStage := Refused e\<rparr>) (t(tcKey c \<mapsto> row))"
| applies: "tcStage c = Executing \<Longrightarrow> call_step c t (c\<lparr>tcStage := Completing r, tcApplied := Some r\<rparr>) t"
| aborts: "tcStage c = Aborting \<Longrightarrow> tcApplied c = None \<Longrightarrow> call_step c t (c\<lparr>tcStage := Answered\<rparr>) (t(tcKey c := None))"
| completes: "tcStage c = Completing r \<Longrightarrow> tcApplied c = Some r \<Longrightarrow> rvRequestHash row = tcRequestHash c \<Longrightarrow> rvStatus row = ''completed'' \<Longrightarrow>
    rvResponseExpiredAt row = None \<Longrightarrow> rvResponseText row = r \<Longrightarrow>
    call_step c t (c\<lparr>tcStage := Answered\<rparr>) (t(tcKey c \<mapsto> row))"

lemma drops_same: "stage_ok c \<Longrightarrow> drops c (tcStage c)"
  by (simp add: drops_def)

lemma stays: "stage_ok c \<Longrightarrow> call_step c t c t"
  using call_step.moves[OF drops_same, of c t] by simp

lemma stays_at: "stage_ok c \<Longrightarrow> tcStage c = st \<Longrightarrow> call_step c t (c\<lparr>tcStage := st\<rparr>) t"
  using call_step.moves[OF drops_same, of c t] by metis

lemma not_applied:
  "stage_ok c \<Longrightarrow> tcStage c = Claiming n \<or> tcStage c = Reading n \<or> tcStage c = Executing \<or> tcStage c = Aborting \<Longrightarrow> tcApplied c = None"
  by (auto simp: stage_ok_def)

lemma statement_step:
  assumes ok: "stage_ok c" and run: "statement now c t = (st, t')"
  shows "call_step c t (c\<lparr>tcStage := st\<rparr>) t'"
proof (cases "tcStage c")
  case (Claiming n)
  note none = not_applied[OF ok, of n, OF disjI1[OF Claiming]]
  show ?thesis
  proof (cases "t (tcKey c)")
    case None
    then obtain row where "st = Executing" "t' = t(tcKey c \<mapsto> row)" "rvRequestHash row = tcRequestHash c" "rvStatus row = ''processing''"
      using run Claiming by (auto simp: claim_insert_def)
    then show ?thesis using call_step.claims[of c t row] none None by simp
  next
    case (Some row)
    then have "st = Reading n" "t' = t" using run Claiming by (auto simp: claim_insert_def)
    then show ?thesis using none by (auto intro!: call_step.moves simp: drops_def owner_def stage_ok_def)
  qed
next
  case (Reading n)
  have none: "tcApplied c = None" using not_applied[OF ok, of n] Reading by simp
  show ?thesis
  proof (cases "\<exists>row x. t (tcKey c) = Some row \<and> claim_read row (tcRequestHash c) = Inr x")
    case True
    then obtain row x where x: "t (tcKey c) = Some row" "claim_read row (tcRequestHash c) = Inr x" by blast
    then have "st = Replayed x" "t' = t" using run Reading by auto
    then show ?thesis using call_step.replays[of c t row x] none x by simp
  next
    case False
    then have "t' = t" "(\<exists>n. st = Claiming n) \<or> (\<exists>e. st = Refused e)"
      using run Reading by (auto split: option.splits sum.splits if_splits)
    then show ?thesis using none by (auto intro!: call_step.moves simp: drops_def owner_def stage_ok_def)
  qed
next
  case Aborting
  have none: "tcApplied c = None" using not_applied[OF ok] Aborting by simp
  have "st = Answered" "t' = t(tcKey c := None) \<or> t' = t" using run Aborting by (auto simp: AbortIdempotencyKey_def)
  then show ?thesis
    using call_step.aborts[of c t] Aborting none by (auto intro!: call_step.moves simp: drops_def owner_def stage_ok_def)
next
  case (Completing r)
  then have some: "tcApplied c = Some r" using ok by (auto simp: stage_ok_def)
  show ?thesis
  proof (cases "held (tcKey c) (tcRequestHash c) t")
    case True
    then obtain row where "t (tcKey c) = Some row" "rvRequestHash row = tcRequestHash c"
      by (auto simp: held_def split: option.splits)
    then have "st = Answered" "t' = t(tcKey c \<mapsto> row\<lparr>rvStatus := ''completed'', rvResponseText := r, rvResponseExpiredAt := None,
        rvCompletedAt := Some now, rvUpdatedAt := now\<rparr>)"
      using run Completing True by (auto simp: CompleteIdempotencyKey_def)
    then show ?thesis using call_step.completes[OF Completing some] \<open>rvRequestHash row = _\<close> by simp
  next
    case False
    then have "st = Answered" "t' = t" using run Completing by (auto simp: CompleteIdempotencyKey_def)
    then show ?thesis by (auto intro!: call_step.moves simp: drops_def owner_def stage_ok_def)
  qed
qed (use run stays_at[OF ok, of _ t] in auto)

lemma count_error_step:
  assumes ok: "stage_ok c" and run: "count_error now e c t = (st, t')"
  shows "call_step c t (c\<lparr>tcStage := st\<rparr>) t'"
proof (cases "tcStage c")
  case (Claiming n)
  note none = not_applied[OF ok, of n, OF disjI1[OF Claiming]]
  obtain e' where st: "st = Refused e'" using run Claiming by auto
  show ?thesis
  proof (cases "t (tcKey c)")
    case None
    then obtain row where "t' = t(tcKey c \<mapsto> row)" "rvRequestHash row = tcRequestHash c" "rvStatus row = ''processing''"
      using run Claiming by (auto simp: claim_insert_def)
    then show ?thesis using call_step.strands[of c t row e'] none None st by simp
  next
    case (Some row)
    then have "t' = t" using run Claiming by (auto simp: claim_insert_def)
    then show ?thesis using none st by (auto intro!: call_step.moves simp: drops_def owner_def stage_ok_def)
  qed
qed (use run statement_step[OF ok, of now t st t'] in \<open>simp_all del: statement.simps\<close>)

lemma act_step:
  assumes ok: "stage_ok c" and run: "act a c t = (c', t')"
  shows "call_step c t c' t'"
proof (cases a)
  case (Statement now)
  then show ?thesis using run statement_step[OF ok] by (auto split: prod.splits)
next
  case (StatementFails e)
  have "drops c (statement_error e (tcStage c))"
    using ok by (cases "tcStage c") (auto simp: drops_def owner_def stage_ok_def)
  then show ?thesis using run StatementFails call_step.moves by auto
next
  case (CountFails now e)
  then show ?thesis using run count_error_step[OF ok] by (auto split: prod.splits)
next
  case (HandlerReturns x)
  then show ?thesis using run call_step.applies[of c t] stays[OF ok] by (auto split: if_splits)
next
  case HandlerFails
  have "drops c Aborting" if "tcStage c = Executing"
    using ok that by (auto simp: drops_def owner_def stage_ok_def)
  then show ?thesis using run HandlerFails call_step.moves[of c Aborting t] stays[OF ok] by (auto split: if_splits)
next
  case ProcessStops
  have "drops c (stopped (tcStage c))" using ok by (cases "tcStage c") (auto simp: drops_def owner_def stage_ok_def stopped_def)
  then show ?thesis using run ProcessStops call_step.moves by auto
qed

definition calls_ok :: "tool_call list \<Rightarrow> reservations \<Rightarrow> bool" where
  "calls_ok cs t \<longleftrightarrow>
     (\<forall>i < length cs. stage_ok (cs ! i) \<and> (holds (cs ! i) \<longrightarrow> backed (cs ! i) t)) \<and>
     (\<forall>i < length cs. \<forall>j < length cs. holds (cs ! i) \<and> holds (cs ! j) \<and> tcKey (cs ! i) = tcKey (cs ! j) \<longrightarrow> i = j) \<and>
     (\<forall>k row. t k = Some row \<and> rvStatus row = ''completed'' \<longrightarrow> (\<exists>i < length cs. tcKey (cs ! i) = k \<and> tcApplied (cs ! i) \<noteq> None)) \<and>
     (\<forall>i < length cs. \<forall>x. tcStage (cs ! i) = Replayed x \<longrightarrow>
        (\<exists>j < length cs. tcKey (cs ! j) = tcKey (cs ! i) \<and> tcRequestHash (cs ! j) = tcRequestHash (cs ! i) \<and> tcApplied (cs ! j) = Some x))"

lemma calls_okD:
  assumes "calls_ok cs t" and "i < length cs"
  shows "stage_ok (cs ! i)" "holds (cs ! i) \<Longrightarrow> backed (cs ! i) t"
    "j < length cs \<Longrightarrow> holds (cs ! i) \<Longrightarrow> holds (cs ! j) \<Longrightarrow> tcKey (cs ! j) = tcKey (cs ! i) \<Longrightarrow> j = i"
  using assms by (auto simp: calls_ok_def)

lemma calls_ok_completed:
  assumes "calls_ok cs t" and "t k = Some row" and "rvStatus row = ''completed''"
  shows "\<exists>j x. j < length cs \<and> tcKey (cs ! j) = k \<and> tcApplied (cs ! j) = Some x"
  using assms unfolding calls_ok_def by (elim conjE) (metis not_None_eq)

text \<open>What a step must provide for the invariant to be kept.\<close>

lemma calls_ok_update:
  assumes ok: "calls_ok cs t" and i: "i < length cs"
    and same: "tcKey c' = tcKey (cs ! i)" "tcRequestHash c' = tcRequestHash (cs ! i)"
    and applied: "tcApplied (cs ! i) \<noteq> None \<Longrightarrow> tcApplied c' = tcApplied (cs ! i)"
    and own: "stage_ok c'" "holds c' \<Longrightarrow> backed c' t'"
    and gain: "holds c' \<Longrightarrow> holds (cs ! i) \<or> (\<forall>j < length cs. holds (cs ! j) \<longrightarrow> tcKey (cs ! j) \<noteq> tcKey c')"
    and others: "\<And>j. j < length cs \<Longrightarrow> j \<noteq> i \<Longrightarrow> holds (cs ! j) \<Longrightarrow> backed (cs ! j) t'"
    and completed: "\<And>k row. t' k = Some row \<Longrightarrow> rvStatus row = ''completed'' \<Longrightarrow>
        (\<exists>row. t k = Some row \<and> rvStatus row = ''completed'') \<or> k = tcKey c' \<and> tcApplied c' \<noteq> None"
    and replay: "\<And>x. tcStage c' = Replayed x \<Longrightarrow> tcStage (cs ! i) = Replayed x \<or>
        (\<exists>j < length cs. tcKey (cs ! j) = tcKey c' \<and> tcRequestHash (cs ! j) = tcRequestHash c' \<and> tcApplied (cs ! j) = Some x)"
  shows "calls_ok (cs[i := c']) t'"
proof -
  have keep: "tcKey (cs[i := c'] ! j) = tcKey (cs ! j)" "tcRequestHash (cs[i := c'] ! j) = tcRequestHash (cs ! j)" for j
    using i same by (cases "j = i"; simp)+
  have app: "tcApplied (cs ! j) = Some x \<Longrightarrow> tcApplied (cs[i := c'] ! j) = Some x" for j x
    using i applied by (cases "j = i") auto
  have 1: "stage_ok (cs[i := c'] ! j) \<and> (holds (cs[i := c'] ! j) \<longrightarrow> backed (cs[i := c'] ! j) t')" if "j < length cs" for j
    using that own others calls_okD(1)[OF ok that] i by (cases "j = i") auto
  have 2: "j = l" if "j < length cs" "l < length cs" "holds (cs[i := c'] ! j)" "holds (cs[i := c'] ! l)" "tcKey (cs ! j) = tcKey (cs ! l)" for j l
  proof (rule ccontr)
    assume ne: "j \<noteq> l"
    then consider "j = i" "l \<noteq> i" | "l = i" "j \<noteq> i" | "j \<noteq> i" "l \<noteq> i" by auto
    then show False
    proof cases
      case 1
      then have h: "holds c'" "holds (cs ! l)" using that i by auto
      show ?thesis using gain[OF h(1)] h(2) that(2,5) same(1) 1 calls_okD(3)[OF ok i that(2)] by auto
    next
      case 2
      then have h: "holds c'" "holds (cs ! j)" using that i by auto
      show ?thesis using gain[OF h(1)] h(2) that(1,5) same(1) 2 calls_okD(3)[OF ok i that(1)] by auto
    next
      case 3
      then show ?thesis using calls_okD(3)[OF ok that(2) that(1)] that ne by auto
    qed
  qed
  have 3: "\<exists>j < length cs. tcKey (cs ! j) = k \<and> tcApplied (cs[i := c'] ! j) \<noteq> None"
    if "t' k = Some row" "rvStatus row = ''completed''" for k row
    using completed[OF that]
  proof
    assume "\<exists>row. t k = Some row \<and> rvStatus row = ''completed''"
    then obtain j x where "j < length cs" "tcKey (cs ! j) = k" "tcApplied (cs ! j) = Some x" using calls_ok_completed[OF ok] by blast
    then show ?thesis using app by blast
  next
    assume "k = tcKey c' \<and> tcApplied c' \<noteq> None"
    then show ?thesis using i same(1) by (intro exI[of _ i]) auto
  qed
  have 4: "\<exists>l < length cs. tcKey (cs ! l) = tcKey (cs ! j) \<and> tcRequestHash (cs ! l) = tcRequestHash (cs ! j) \<and> tcApplied (cs[i := c'] ! l) = Some x"
    if "j < length cs" "tcStage (cs[i := c'] ! j) = Replayed x" for j x
  proof -
    have "\<exists>l < length cs. tcKey (cs ! l) = tcKey (cs ! j) \<and> tcRequestHash (cs ! l) = tcRequestHash (cs ! j) \<and> tcApplied (cs ! l) = Some x"
    proof (cases "tcStage (cs ! j) = Replayed x")
      case True
      then show ?thesis using ok that(1) by (auto simp: calls_ok_def)
    next
      case False
      then have "j = i" "tcStage c' = Replayed x" using that i by (cases "j = i"; auto)+
      then show ?thesis using replay[of x] False same by auto
    qed
    then show ?thesis using app by blast
  qed
  show ?thesis unfolding calls_ok_def using 1 2 3 4 by (simp add: keep)
qed

lemma backed_same: "tcKey c' = tcKey c \<Longrightarrow> tcRequestHash c' = tcRequestHash c \<Longrightarrow> tcApplied c' = tcApplied c \<Longrightarrow>
    (owner c' \<longrightarrow> owner c) \<Longrightarrow> backed c t \<Longrightarrow> backed c' t"
  by (auto simp: backed_def)

lemma backed_upd: "k \<noteq> tcKey c \<Longrightarrow> backed c (t(k := v)) \<longleftrightarrow> backed c t"
  by (simp add: backed_def)

lemma step_keeps:
  assumes ok: "calls_ok cs t" and i: "i < length cs" and step: "call_step (cs ! i) t c' t'"
  shows "calls_ok (cs[i := c']) t'"
proof -
  note sok = calls_okD(1)[OF ok i] and bk = calls_okD(2)[OF ok i]
  have others: "backed (cs ! j) (t(tcKey (cs ! i) := v))" if "j < length cs" "j \<noteq> i" "holds (cs ! j)" "holds (cs ! i)" for j v
  proof -
    have "tcKey (cs ! i) \<noteq> tcKey (cs ! j)" using calls_okD(3)[OF ok i that(1,4,3)] that(2) by metis
    then show ?thesis using calls_okD(2)[OF ok that(1,3)] by (simp add: backed_upd)
  qed
  show ?thesis
    using step
  proof cases
    case (moves st)
    then show ?thesis
      using ok i calls_okD(2)[OF ok] bk
      by (intro calls_ok_update[OF ok i]) (auto simp: drops_def holds_def intro: backed_same[of _ "cs ! i"])
  next
    case (replays row x)
    have src: "\<exists>j < length cs. tcKey (cs ! j) = tcKey (cs ! i) \<and> tcRequestHash (cs ! j) = tcRequestHash (cs ! i) \<and> tcApplied (cs ! j) = Some x"
    proof -
      have row: "rvRequestHash row = tcRequestHash (cs ! i)" "rvStatus row = ''completed''" "rvResponseExpiredAt row = None" "rvResponseText row = x"
        using replays(5) by (auto simp: claim_read_def split: if_splits)
      obtain j r where j: "j < length cs" "tcKey (cs ! j) = tcKey (cs ! i)" "tcApplied (cs ! j) = Some r"
        using calls_ok_completed[OF ok replays(4) row(2)] by blast
      have "backed (cs ! j) t" using calls_okD(2)[OF ok j(1)] j(3) by (simp add: holds_def)
      then show ?thesis using j row replays(4) by (intro exI[of _ j]) (auto simp: backed_def)
    qed
    show ?thesis
      unfolding replays(1,2)
      by (rule calls_ok_update[OF ok i])
        (use replays(3) src calls_okD(2)[OF ok] in \<open>auto simp: holds_def owner_def stage_ok_def\<close>)
  next
    case (claims row)
    have free: "\<not> holds (cs ! j)" if "j < length cs" "tcKey (cs ! j) = tcKey (cs ! i)" for j
      using calls_okD(2)[OF ok that(1)] that(2) claims(4) by (auto simp: backed_def)
    show ?thesis
      unfolding claims(1,2)
    proof (rule calls_ok_update[OF ok i])
      fix j assume j: "j < length cs" "j \<noteq> i" "holds (cs ! j)"
      then have "tcKey (cs ! i) \<noteq> tcKey (cs ! j)" using free by metis
      then show "backed (cs ! j) (t(tcKey (cs ! i) \<mapsto> row))"
        using calls_okD(2)[OF ok j(1,3)] by (simp add: backed_upd)
    qed (use claims free in \<open>auto simp: backed_def stage_ok_def split: if_splits\<close>)
  next
    case (strands row e)
    have free: "\<not> holds (cs ! j)" if "j < length cs" "tcKey (cs ! j) = tcKey (cs ! i)" for j
      using calls_okD(2)[OF ok that(1)] that(2) strands(4) by (auto simp: backed_def)
    show ?thesis
      unfolding strands(1,2)
    proof (rule calls_ok_update[OF ok i])
      fix j assume j: "j < length cs" "j \<noteq> i" "holds (cs ! j)"
      then have "tcKey (cs ! i) \<noteq> tcKey (cs ! j)" using free by metis
      then show "backed (cs ! j) (t(tcKey (cs ! i) \<mapsto> row))"
        using calls_okD(2)[OF ok j(1,3)] by (simp add: backed_upd)
    qed (use strands free in \<open>auto simp: holds_def owner_def stage_ok_def split: if_splits\<close>)
  next
    case (applies r)
    have own: "owner (cs ! i)" "tcApplied (cs ! i) = None" using applies(3) sok by (auto simp: owner_def stage_ok_def)
    then have "backed (cs ! i) t" using bk by (simp add: holds_def)
    then show ?thesis
      unfolding applies(1,2)
      using own calls_okD(2)[OF ok]
      by (intro calls_ok_update[OF ok i]) (auto simp: backed_def holds_def owner_def stage_ok_def)
  next
    case aborts
    have own: "holds (cs ! i)" using aborts(3) by (simp add: holds_def owner_def)
    show ?thesis
      unfolding aborts(1,2)
      by (rule calls_ok_update[OF ok i])
        (use aborts(4) others[OF _ _ _ own] in \<open>auto simp: holds_def owner_def stage_ok_def split: if_splits\<close>)
  next
    case (completes r row)
    have own: "holds (cs ! i)" using completes(4) by (simp add: holds_def)
    show ?thesis
      unfolding completes(1,2)
      by (rule calls_ok_update[OF ok i])
        (use completes own others[OF _ _ _ own] in \<open>auto simp: backed_def owner_def stage_ok_def split: if_splits\<close>)
  qed
qed

lemma arrive_keeps: "calls_ok cs t \<Longrightarrow> calls_ok (cs @ [arrive l n k h]) t"
proof -
  assume ok: "calls_ok cs t"
  let ?cs = "cs @ [arrive l n k h]"
  have idle: "\<not> holds (arrive l n k h)" "stage_ok (arrive l n k h)" "tcStage (arrive l n k h) \<noteq> Replayed x" for x
    by (auto simp: arrive_def holds_def owner_def stage_ok_def)
  have old: "?cs ! i = cs ! i" if "i < length cs" for i using that by (simp add: nth_append)
  have inside: "i < length cs" if "i < length ?cs" "holds (?cs ! i) \<or> tcStage (?cs ! i) = Replayed x" for i x
    using that idle by (cases "i < length cs") (auto simp: nth_append less_Suc_eq)
  have 1: "stage_ok (?cs ! i) \<and> (holds (?cs ! i) \<longrightarrow> backed (?cs ! i) t)" if "i < length ?cs" for i
    using that calls_okD(1,2)[OF ok] idle by (cases "i < length cs") (auto simp: nth_append less_Suc_eq)
  have 2: "i = j" if "i < length ?cs" "j < length ?cs" "holds (?cs ! i)" "holds (?cs ! j)" "tcKey (?cs ! i) = tcKey (?cs ! j)" for i j
    using calls_okD(3)[OF ok, of j i] inside[of i] inside[of j] that old by simp
  have 3: "\<exists>i < length ?cs. tcKey (?cs ! i) = q \<and> tcApplied (?cs ! i) \<noteq> None" if row: "t q = Some row" "rvStatus row = ''completed''" for q row
  proof -
    obtain j x where "j < length cs" "tcKey (cs ! j) = q" "tcApplied (cs ! j) = Some x" using calls_ok_completed[OF ok row] by blast
    then show ?thesis using old by (intro exI[of _ j]) auto
  qed
  have 4: "\<exists>j < length ?cs. tcKey (?cs ! j) = tcKey (?cs ! i) \<and> tcRequestHash (?cs ! j) = tcRequestHash (?cs ! i) \<and> tcApplied (?cs ! j) = Some x"
    if r: "i < length ?cs" "tcStage (?cs ! i) = Replayed x" for i x
  proof -
    have i: "i < length cs" using inside r by blast
    then obtain j where "j < length cs" "tcKey (cs ! j) = tcKey (cs ! i)" "tcRequestHash (cs ! j) = tcRequestHash (cs ! i)" "tcApplied (cs ! j) = Some x"
      using ok r(2) i unfolding calls_ok_def old[OF i] by blast
    then show ?thesis using old i by (intro exI[of _ j]) auto
  qed
  show ?thesis unfolding calls_ok_def using 1 2 3 4 by blast
qed

lemma expire_keeps: "calls_ok cs t \<Longrightarrow> calls_ok cs (expire_response k cutoff now t)"
proof -
  assume ok: "calls_ok cs t"
  let ?t = "expire_response k cutoff now t"
  have row: "\<exists>row'. t q = Some row' \<and> rvStatus row' = rvStatus row" if "?t q = Some row" for q row
    using that by (auto simp: expire_response_def split: option.splits if_splits)
  have kept: "backed c ?t" if "backed c t" for c
    using that by (auto simp: expire_response_def backed_def split: option.splits if_splits)
  show ?thesis
    using ok row kept unfolding calls_ok_def by (elim conjE) (intro conjI; metis)
qed

lemma protected_call:
  assumes "idempotencyMiddleware digest rq = Protect c"
  obtains key where "c = arrive (rqLearner rq) (rqName rq) key (bound_hash digest rq)" "rqName rq \<in> set idempotentWriteTools"
    "validIdempotencyKey key"
  using assms
  by (auto simp: idempotencyMiddleware_def keyed_call_def getLearnerID_def split: if_splits sum.splits prod.splits)

lemma happens_keeps:
  assumes ok: "calls_ok (svCalls sv) (svTable sv)"
  shows "calls_ok (svCalls (happens digest e sv)) (svTable (happens digest e sv))"
proof (cases e)
  case (Arrives rq)
  then show ?thesis
    using ok by (auto split: admission.split elim!: protected_call intro: arrive_keeps)
next
  case (Acts i a)
  obtain c t where run: "act a (svCalls sv ! i) (svTable sv) = (c, t)" by fastforce
  then show ?thesis
    using ok Acts step_keeps[OF ok _ act_step[OF calls_okD(1)[OF ok] run]] by simp
qed (simp add: ok expire_keeps)

lemma runs_ok: "calls_ok (svCalls (runs digest es)) (svTable (runs digest es))"
proof -
  have "calls_ok (svCalls (fold (happens digest) es sv)) (svTable (fold (happens digest) es sv))" if "calls_ok (svCalls sv) (svTable sv)" for sv
    using that by (induction es arbitrary: sv) (simp_all add: happens_keeps)
  moreover have "calls_ok (svCalls idle_server) (svTable idle_server)" by (simp add: calls_ok_def idle_server_def)
  ultimately show ?thesis unfolding runs_def by blast
qed

section \<open>Guarantee\<close>


definition example_request :: tool_request where
  "example_request = \<lparr>rqStore = True, rqMethod = ''tools/call'', rqParams = True, rqName = ''record_interaction'', rqMode = Some '''',
     rqMeta = [(''idempotency_key'', JStr ''k'')], rqBody = None, rqLearner = ''l'', rqHash = ''h''\<rparr>"

definition example_events :: "event list" where
  "example_events = [Arrives example_request, Arrives example_request,
     Acts 0 (Statement 1), Acts 1 (Statement 2), Acts 0 (HandlerReturns ''ok''), Acts 0 (Statement 3), Acts 1 (Statement 4)]"


end
