(* ===== verification/Client_Address.thy ===== *)
theory Client_Address
  imports Prelude "HOL-Library.Word"
begin

unbundle bit_operations_syntax

text \<open>
  The address a request is charged to: the second half of \<open>auth/ratelimit.go\<close>. An address is the
  16-byte form that \<open>net.ParseIP\<close> returns, as a word; the text parsers \<open>net.ParseIP\<close>,
  \<open>net.ParseCIDR\<close> and \<open>net.SplitHostPort\<close> are arguments. The theorems show that a client cannot
  choose its own bucket, and how broad a network an operator can declare trusted.
\<close>

section \<open>Addresses and networks\<close>

type_synonym IP = "128 word"

text \<open>\<open>IP.To4\<close>: the last four bytes of an address of \<open>::ffff:0:0/96\<close>.\<close>

definition to4 :: "IP \<Rightarrow> 32 word option" where
  "to4 ip = (if drop_bit 32 ip = 0xFFFF then Some (ucast ip) else None)"

text \<open>\<open>net.CIDRMask\<close>: the first \<open>ones\<close> bits.\<close>

definition cidr_mask :: "nat \<Rightarrow> 'a::len word" where
  "cidr_mask ones = NOT (mask (LENGTH('a) - ones))"

text \<open>A network with 4-byte or 16-byte address and mask, and its prefix length.\<close>

datatype IPNet = Net4 "32 word" nat | Net16 IP nat

text \<open>\<open>IPNet.Contains\<close>, with the conversion of an IPv4-mapped network to four bytes.\<close>

definition contains4 :: "32 word \<Rightarrow> nat \<Rightarrow> IP \<Rightarrow> bool" where
  "contains4 n ones ip =
     (case to4 ip of Some x \<Rightarrow> n AND cidr_mask ones = x AND cidr_mask ones | None \<Rightarrow> False)"

fun Contains :: "IPNet \<Rightarrow> IP \<Rightarrow> bool" where
  "Contains (Net4 n ones) ip = contains4 n ones ip"
| "Contains (Net16 n ones) ip =
     (case to4 n of
        Some n4 \<Rightarrow> contains4 n4 (ones - 96) ip
      | None \<Rightarrow> to4 ip = None \<and> n AND cidr_mask ones = ip AND cidr_mask ones)"

section \<open>Trusted proxies\<close>

definition minTrustedProxyPrefixIPv4 :: nat where "minTrustedProxyPrefixIPv4 = 8"
definition minTrustedProxyPrefixIPv6 :: nat where "minTrustedProxyPrefixIPv6 = 16"

definition uniqueLocalOnes :: nat where "uniqueLocalOnes = 7"

definition ipv6UniqueLocal :: IPNet where
  "ipv6UniqueLocal = Net16 0xFC000000000000000000000000000000 uniqueLocalOnes"

datatype cidr_error = CatchAll | Broader nat

text \<open>The prefix length and width that decide; subtraction stops at zero.\<close>

fun mask_size :: "IPNet \<Rightarrow> nat \<times> nat" where
  "mask_size (Net4 n ones) = (ones, 32)"
| "mask_size (Net16 n ones) = (if to4 n \<noteq> None then (ones - 96, 32) else (ones, 128))"

fun net_address :: "IPNet \<Rightarrow> IP" where
  "net_address (Net4 n ones) = 0xFFFF00000000 OR ucast n"
| "net_address (Net16 n ones) = n"

definition CheckTrustedProxyCIDR :: "IPNet \<Rightarrow> cidr_error + unit" where
  "CheckTrustedProxyCIDR cidr =
     (case mask_size cidr of (ones, bits) \<Rightarrow>
        if ones = 0 then Inl CatchAll
        else if bits = 32 then
          (if ones < minTrustedProxyPrefixIPv4 then Inl (Broader minTrustedProxyPrefixIPv4) else Inr ())
        else if ones \<ge> uniqueLocalOnes \<and> Contains ipv6UniqueLocal (net_address cidr) then Inr ()
        else if ones < minTrustedProxyPrefixIPv6 then Inl (Broader minTrustedProxyPrefixIPv6)
        else Inr ())"

text \<open>\<open>strings.Split(s, ",")\<close>\<close>

fun split_comma :: "string \<Rightarrow> string list" where
  "split_comma [] = [[]]"
| "split_comma (c # cs) =
     (if c = CHR '','' then [] # split_comma cs
      else case split_comma cs of [] \<Rightarrow> [[c]] | p # ps \<Rightarrow> (c # p) # ps)"

definition parseTrustedProxiesCIDRs :: "(string \<Rightarrow> IPNet option) \<Rightarrow> string \<Rightarrow> IPNet list" where
  "parseTrustedProxiesCIDRs parseCIDR raw =
     (if raw = [] then []
      else concat (map (\<lambda>part.
        let part = trim_space part in
        if part = [] then []
        else case parseCIDR part of
          None \<Rightarrow> []
        | Some cidr \<Rightarrow> (case CheckTrustedProxyCIDR cidr of Inl _ \<Rightarrow> [] | Inr _ \<Rightarrow> [cidr])) (split_comma raw)))"

definition isTrustedProxy :: "IPNet list \<Rightarrow> IP option \<Rightarrow> bool" where
  "isTrustedProxy trusted ip = (case ip of None \<Rightarrow> False | Some ip \<Rightarrow> \<exists>cidr \<in> set trusted. Contains cidr ip)"

section \<open>The client's address\<close>

definition remoteIP :: "(string \<Rightarrow> IP option) \<Rightarrow> (string \<Rightarrow> string option) \<Rightarrow> string \<Rightarrow> IP option" where
  "remoteIP parseIP splitHostPort remoteAddr =
     parseIP (case splitHostPort remoteAddr of Some host \<Rightarrow> host | None \<Rightarrow> remoteAddr)"

definition forwarded_hops :: "string list \<Rightarrow> string list" where
  "forwarded_hops headerValues = concat (map split_comma headerValues)"

text \<open>The walk over the hops from the right.\<close>

fun hop_walk :: "(string \<Rightarrow> IP option) \<Rightarrow> IPNet list \<Rightarrow> string list \<Rightarrow> IP option \<Rightarrow> IP option" where
  "hop_walk parseIP trusted [] candidate = candidate"
| "hop_walk parseIP trusted (h # hs) candidate =
     (let hop = trim_space h in
      if hop = [] then hop_walk parseIP trusted hs candidate
      else case parseIP hop of
        None \<Rightarrow> None
      | Some parsed \<Rightarrow>
          if \<not> isTrustedProxy trusted (Some parsed) then Some parsed
          else hop_walk parseIP trusted hs (Some parsed))"

definition forwardedClientIP :: "(string \<Rightarrow> IP option) \<Rightarrow> IPNet list \<Rightarrow> string list \<Rightarrow> IP option" where
  "forwardedClientIP parseIP trusted headerValues = hop_walk parseIP trusted (rev (forwarded_hops headerValues)) None"

text \<open>The key of a bucket: an IPv4 address, an IPv6 /64, or the text of an address that does not parse.\<close>

datatype bucket_key = Addr4 "32 word" | Net64 IP | Raw string

definition rateLimitKey :: "IP \<Rightarrow> bucket_key" where
  "rateLimitKey ip = (case to4 ip of Some v4 \<Rightarrow> Addr4 v4 | None \<Rightarrow> Net64 (ip AND cidr_mask 64))"

definition clientIP ::
    "(string \<Rightarrow> IP option) \<Rightarrow> (string \<Rightarrow> string option) \<Rightarrow> IPNet list \<Rightarrow> string \<Rightarrow> string list \<Rightarrow> bucket_key" where
  "clientIP parseIP splitHostPort trusted remoteAddr forwardedFor =
     (let peer = remoteIP parseIP splitHostPort remoteAddr;
          fallback = (case peer of Some ip \<Rightarrow> rateLimitKey ip | None \<Rightarrow> Raw remoteAddr)
      in if isTrustedProxy trusted peer
         then (case forwardedClientIP parseIP trusted forwardedFor of
                 Some forwarded \<Rightarrow> rateLimitKey forwarded
               | None \<Rightarrow> fallback)
         else fallback)"

section \<open>Prefixes\<close>

lemma same_prefix_drop:
  fixes x y :: "'a::len word"
  assumes "x AND cidr_mask k = y AND cidr_mask k" and "LENGTH('a) - k \<le> j"
  shows "drop_bit j x = drop_bit j y"
proof (rule bit_eqI)
  fix n
  assume "possible_bit TYPE('a word) n"
  have "bit (x AND cidr_mask k) (j + n) = bit (y AND cidr_mask k) (j + n)" using assms(1) by simp
  with assms(2) show "bit (drop_bit j x) n = bit (drop_bit j y) n"
    by (auto simp: bit_drop_bit_eq bit_and_iff bit_not_iff cidr_mask_def bit_mask_iff possible_bit_def dest: bit_imp_le_length)
qed

lemma drop_same_prefix:
  fixes x y :: "'a::len word"
  assumes "drop_bit (LENGTH('a) - k) x = drop_bit (LENGTH('a) - k) y"
  shows "x AND cidr_mask k = y AND cidr_mask k"
proof (rule bit_eqI)
  fix n
  have "bit (drop_bit (LENGTH('a) - k) x) (n - (LENGTH('a) - k)) = bit (drop_bit (LENGTH('a) - k) y) (n - (LENGTH('a) - k))"
    using assms by simp
  then show "bit (x AND cidr_mask k) n = bit (y AND cidr_mask k) n"
    by (cases "LENGTH('a) - k \<le> n") (auto simp: bit_drop_bit_eq bit_and_iff bit_not_iff cidr_mask_def bit_mask_iff)
qed

lemma contains4_prefix:
  assumes "contains4 n k a" "contains4 n k b" "to4 a = Some x" "to4 b = Some y" "8 \<le> k"
  shows "drop_bit 24 x = drop_bit 24 y"
  using assms by (intro same_prefix_drop[where k = k]) (auto simp: contains4_def)

lemma Contains_unique_local:
  "Contains ipv6UniqueLocal ip \<longleftrightarrow>
     to4 ip = None \<and> 0xFC000000000000000000000000000000 AND cidr_mask 7 = ip AND cidr_mask 7"
proof -
  have "to4 0xFC000000000000000000000000000000 = None" unfolding to4_def by code_simp
  then show ?thesis by (simp add: ipv6UniqueLocal_def uniqueLocalOnes_def)
qed

text \<open>No trusted network is broad: when \<open>CheckTrustedProxyCIDR\<close> accepts a network, the IPv4
  addresses it contains share their first octet, and the IPv6 addresses it contains share their
  first 16 bits unless all of them are unique-local addresses (\<open>fc00::/7\<close>), which are not
  routed on the Internet. IPv4-mapped notation does not widen a network.
\<close>

lemma CheckTrustedProxyCIDR_narrow:
  assumes "CheckTrustedProxyCIDR cidr = Inr ()" and "Contains cidr a" and "Contains cidr b"
  shows "(\<forall>x y. to4 a = Some x \<and> to4 b = Some y \<longrightarrow> drop_bit 24 x = drop_bit 24 y) \<and>
     (to4 a = None \<and> to4 b = None \<longrightarrow>
        drop_bit 112 a = drop_bit 112 b \<or> Contains ipv6UniqueLocal a \<and> Contains ipv6UniqueLocal b) \<and>
     (to4 a = None \<longleftrightarrow> to4 b = None)"
proof (cases cidr)
  case (Net4 n k)
  with assms(1) have "8 \<le> k" by (auto simp: CheckTrustedProxyCIDR_def minTrustedProxyPrefixIPv4_def split: if_splits)
  with assms Net4 show ?thesis
    using contains4_prefix[of n k a b] by (auto simp: contains4_def split: option.splits)
next
  case (Net16 n k)
  show ?thesis
  proof (cases "to4 n")
    case (Some n4)
    with Net16 assms(1) have "8 \<le> k - 96"
      by (auto simp: CheckTrustedProxyCIDR_def minTrustedProxyPrefixIPv4_def split: if_splits)
    with assms Net16 Some show ?thesis
      using contains4_prefix[of n4 "k - 96" a b] by (auto simp: contains4_def split: option.splits)
  next
    case None
    with Net16 assms(2,3) have v6: "to4 a = None" "to4 b = None"
      and m: "n AND cidr_mask k = a AND cidr_mask k" "n AND cidr_mask k = b AND cidr_mask k" by simp_all
    from Net16 None assms(1) have "16 \<le> k \<or> 7 \<le> k \<and> Contains ipv6UniqueLocal n"
      by (auto simp: CheckTrustedProxyCIDR_def uniqueLocalOnes_def minTrustedProxyPrefixIPv6_def split: if_splits)
    then show ?thesis
    proof
      assume "16 \<le> k"
      then have "drop_bit 112 a = drop_bit 112 b" using m by (intro same_prefix_drop[where k = k]) auto
      with v6 show ?thesis by simp
    next
      assume ul: "7 \<le> k \<and> Contains ipv6UniqueLocal n"
      have "Contains ipv6UniqueLocal c" if c: "n AND cidr_mask k = c AND cidr_mask k" "to4 c = None" for c :: IP
      proof -
        from c(1) ul have "drop_bit 121 n = drop_bit 121 c" by (intro same_prefix_drop[where k = k]) auto
        then have "n AND cidr_mask 7 = c AND cidr_mask 7" by (intro drop_same_prefix) simp
        with ul c(2) show ?thesis by (simp add: Contains_unique_local)
      qed
      from this[OF m(1) v6(1)] this[OF m(2) v6(2)] v6 show ?thesis by simp
    qed
  qed
qed

lemma narrow_inputs:
  "CheckTrustedProxyCIDR (Net4 0x0A000000 8) = Inr ()" "to4 0xFFFF0A010203 = Some 0x0A010203"
  "Contains (Net4 0x0A000000 8) 0xFFFF0A010203" "Contains (Net4 0x0A000000 8) 0xFFFF0AFFFFFF"
  by (simp_all add: CheckTrustedProxyCIDR_def minTrustedProxyPrefixIPv4_def contains4_def to4_def cidr_mask_def mask_eq_exp_minus_1)

section \<open>Spoofing\<close>

lemma hop_walk_trusted:
  assumes "\<forall>y \<in> set ys. trim_space y = [] \<or> (\<exists>ip. parseIP (trim_space y) = Some ip \<and> isTrustedProxy trusted (Some ip))"
  shows "\<exists>c'. hop_walk parseIP trusted (ys @ rest) c = hop_walk parseIP trusted rest c'"
  using assms by (induction ys arbitrary: c) (auto simp: Let_def)

text \<open>C36. A client cannot choose its bucket. When the direct peer is not a trusted proxy, the
  forwarding header is ignored altogether. When it is, and the hops that the trusted proxies
  appended stand behind the first untrusted address from the right, the request is charged to that
  address: whatever the client wrote in front of it, malformed hops included, changes nothing.
\<close>

theorem clientIP_not_spoofable:
  fixes parseIP splitHostPort trusted remoteAddr
  defines "key \<equiv> clientIP parseIP splitHostPort trusted remoteAddr"
    and "peer \<equiv> remoteIP parseIP splitHostPort remoteAddr"
  assumes "trim_space h \<noteq> []" and "parseIP (trim_space h) = Some ip" and "\<not> isTrustedProxy trusted (Some ip)"
    and "\<forall>y \<in> set ys. trim_space y = [] \<or> (\<exists>p. parseIP (trim_space y) = Some p \<and> isTrustedProxy trusted (Some p))"
  shows "(\<not> isTrustedProxy trusted peer \<longrightarrow> (\<forall>hdrs hdrs'. key hdrs = key hdrs')) \<and>
     (isTrustedProxy trusted peer \<longrightarrow>
        (\<forall>hdrs written. forwarded_hops hdrs = written @ h # ys \<longrightarrow> key hdrs = rateLimitKey ip))"
proof (intro conjI impI allI)
  fix hdrs written
  assume peer: "isTrustedProxy trusted peer" and hops: "forwarded_hops hdrs = written @ h # ys"
  have "\<forall>y \<in> set (rev ys). trim_space y = [] \<or> (\<exists>p. parseIP (trim_space y) = Some p \<and> isTrustedProxy trusted (Some p))"
    using assms(6) by simp
  from hop_walk_trusted[OF this, of "h # rev written" None]
  have "forwardedClientIP parseIP trusted hdrs = Some ip"
    using assms(3-5) by (auto simp: forwardedClientIP_def hops Let_def)
  with peer show "key hdrs = rateLimitKey ip" by (simp add: key_def peer_def clientIP_def Let_def)
qed (simp add: key_def peer_def clientIP_def Let_def)

definition example_parse :: "string \<Rightarrow> IP option" where
  "example_parse s = map_of [(''10.0.0.7'', 0xFFFF0A000007), (''203.0.113.9'', 0xFFFFCB007109)] s"

lemma spoof_inputs:
  "trim_space '' 203.0.113.9'' = ''203.0.113.9''" "trim_space '' 10.0.0.7'' = ''10.0.0.7''"
  "isTrustedProxy [Net4 0x0A000000 8] (Some 0xFFFF0A000007)" "\<not> isTrustedProxy [Net4 0x0A000000 8] (Some 0xFFFFCB007109)"
  "forwarded_hops [''1.2.3.4,bogus'', ''9.9.9.9, 203.0.113.9, 10.0.0.7''] =
     [''1.2.3.4'', ''bogus'', ''9.9.9.9''] @ '' 203.0.113.9'' # ['' 10.0.0.7'']"
  by code_simp+

theorem clientIP_not_spoofable_witness:
  "clientIP example_parse (\<lambda>_. None) [Net4 0x0A000000 8] ''10.0.0.7'' [''1.2.3.4,bogus'', ''9.9.9.9, 203.0.113.9, 10.0.0.7'']
     = rateLimitKey 0xFFFFCB007109"
  using clientIP_not_spoofable[of "'' 203.0.113.9''" example_parse "0xFFFFCB007109" "[Net4 0x0A000000 8]" "['' 10.0.0.7'']"
      "\<lambda>_. None" "''10.0.0.7''"] spoof_inputs
  by (simp add: example_parse_def remoteIP_def)

text \<open>An IPv4 client has its own bucket; IPv6 clients share one exactly when they share a /64.\<close>

lemma rateLimitKey_shared:
  "to4 a = Some x \<Longrightarrow> to4 b = Some y \<Longrightarrow> rateLimitKey a = rateLimitKey b \<longleftrightarrow> x = y"
  "to4 a = None \<Longrightarrow> to4 b = None \<Longrightarrow> rateLimitKey a = rateLimitKey b \<longleftrightarrow> drop_bit 64 a = drop_bit 64 b"
  using same_prefix_drop[of a 64 b 64] drop_same_prefix[of 64 a b] by (auto simp: rateLimitKey_def)

text \<open>Every network that the configuration yields has passed the check.\<close>

lemma parsed_proxies_checked:
  "cidr \<in> set (parseTrustedProxiesCIDRs parseCIDR raw) \<Longrightarrow> CheckTrustedProxyCIDR cidr = Inr ()"
  by (auto simp: parseTrustedProxiesCIDRs_def Let_def split: if_splits option.splits sum.splits)

end
