(* ===== verification/Admission.thy ===== *)
theory Admission
  imports Prelude "HOL-Library.AList" "HOL-Library.Multiset"
begin

text \<open>
  Admission of requests: the token bucket of \<open>auth/ratelimit.go\<close>, the in-flight limiter of
  \<open>auth/concurrency.go\<close> and the slots of \<open>auth/bcrypt_budget.go\<close>. A Go map whose length is read is
  an association list with distinct keys; the list of \<open>container/list\<close> that orders it by use is the
  list of its keys, most recent first. Every method runs under its mutex, so a concurrent run is a
  sequence of method calls; the clock of each call is an argument.
\<close>

section \<open>A map with an order of use\<close>

definition lru_ok :: "(string \<times> 'v) list \<Rightarrow> string list \<Rightarrow> bool" where
  "lru_ok m lru \<longleftrightarrow> distinct (map fst m) \<and> distinct lru \<and> set lru = fst ` set m"

definition move_to_front :: "string \<Rightarrow> string list \<Rightarrow> string list" where
  "move_to_front k lru = k # remove1 k lru"

text \<open>Drop the least recently used key, when there is one.\<close>

definition drop_oldest :: "(string \<times> 'v) list \<times> string list \<Rightarrow> (string \<times> 'v) list \<times> string list" where
  "drop_oldest = (\<lambda>(m, lru). if lru = [] then (m, lru) else (AList.delete (last lru) m, butlast lru))"

lemma keys_delete: "fst ` set (AList.delete k m) = fst ` set m - {k}"
  by (force simp: AList.delete_eq)

lemma lru_ok_length: "lru_ok m lru \<Longrightarrow> length lru = length m"
  unfolding lru_ok_def by (metis distinct_card length_map list.set_map)

lemma lru_ok_move: "lru_ok m lru \<Longrightarrow> k \<in> fst ` set m \<Longrightarrow> lru_ok m (move_to_front k lru)"
  by (auto simp: lru_ok_def move_to_front_def)

lemma lru_ok_update: "lru_ok m lru \<Longrightarrow> k \<in> fst ` set m \<Longrightarrow> lru_ok (AList.update k v m) lru"
  by (auto simp: lru_ok_def distinct_update dom_update insert_absorb)

lemma lru_ok_insert: "lru_ok m lru \<Longrightarrow> k \<notin> fst ` set m \<Longrightarrow> lru_ok (AList.update k v m) (k # lru)"
  by (auto simp: lru_ok_def distinct_update dom_update)

lemma lru_ok_delete: "lru_ok m lru \<Longrightarrow> lru_ok (AList.delete k m) (remove1 k lru)"
  by (auto simp: lru_ok_def distinct_delete keys_delete set_remove1_eq)

lemma last_not_in_butlast: "distinct xs \<Longrightarrow> xs \<noteq> [] \<Longrightarrow> remove1 (last xs) xs = butlast xs"
  by (induction xs) auto

lemma drop_oldest_ok:
  assumes "lru_ok m lru"
  shows "lru_ok (fst (drop_oldest (m, lru))) (snd (drop_oldest (m, lru))) \<and>
    length (fst (drop_oldest (m, lru))) = length m - 1 \<and>
    fst ` set (fst (drop_oldest (m, lru))) \<subseteq> fst ` set m"
proof (cases "lru = []")
  case True
  with assms have "m = []" by (auto simp: lru_ok_def)
  with True show ?thesis by (simp add: drop_oldest_def lru_ok_def)
next
  case False
  have ok: "lru_ok (AList.delete (last lru) m) (butlast lru)"
    using lru_ok_delete[OF assms, of "last lru"] last_not_in_butlast[of lru] False assms by (simp add: lru_ok_def)
  from lru_ok_length[OF ok] lru_ok_length[OF assms] have "length (AList.delete (last lru) m) = length m - 1" by simp
  with ok False show ?thesis by (auto simp: drop_oldest_def keys_delete)
qed

lemma drop_oldest_sub: "k \<notin> fst ` set m \<Longrightarrow> k \<notin> fst ` set (fst (drop_oldest (m, lru)))"
  by (auto simp: drop_oldest_def keys_delete)

lemma length_update_fresh: "k \<notin> fst ` set m \<Longrightarrow> length (AList.update k v m) = Suc (length m)"
  by (induction m) auto

lemma length_update_present: "k \<in> fst ` set m \<Longrightarrow> length (AList.update k v m) = length m"
  by (induction m) auto

section \<open>The token bucket\<close>

record bucket =
  bkTokens :: f64
  bkLastTime :: time

definition maxLocalRateLimitBuckets :: nat where "maxLocalRateLimitBuckets = 10000"

record RateLimiter =
  rlBuckets :: "(string \<times> bucket) list"
  rlLru :: "string list"
  rlRate :: f64
  rlBurst :: int
  rlNamespace :: string

definition NewRateLimiterWithNamespace :: "string \<Rightarrow> f64 \<Rightarrow> int \<Rightarrow> RateLimiter" where
  "NewRateLimiterWithNamespace namespace rate burst =
     \<lparr>rlBuckets = [], rlLru = [], rlRate = rate, rlBurst = burst,
      rlNamespace = (if trim_space namespace = [] then ''default'' else namespace)\<rparr>"

definition NewRateLimiter :: "f64 \<Rightarrow> int \<Rightarrow> RateLimiter" where
  "NewRateLimiter rate burst = NewRateLimiterWithNamespace ''default'' rate burst"

text \<open>The tokens of a bucket at a later instant.\<close>

definition refill :: "RateLimiter \<Rightarrow> bucket \<Rightarrow> time \<Rightarrow> f64" where
  "refill rl b now =
     (let tokens = bkTokens b + seconds_of (t_sub now (bkLastTime b)) * rlRate rl
      in if tokens > f_of_int (rlBurst rl) then f_of_int (rlBurst rl) else tokens)"

definition allowLocal :: "string \<Rightarrow> time \<Rightarrow> RateLimiter \<Rightarrow> bool \<times> RateLimiter" where
  "allowLocal key now rl =
     (case map_of (rlBuckets rl) key of
        None \<Rightarrow>
          let (bs, lru) = (if length (rlBuckets rl) \<ge> maxLocalRateLimitBuckets
                           then drop_oldest (rlBuckets rl, rlLru rl) else (rlBuckets rl, rlLru rl))
          in (True, rl\<lparr>rlBuckets := AList.update key \<lparr>bkTokens = f_of_int (rlBurst rl) - 1, bkLastTime = now\<rparr> bs,
                       rlLru := key # lru\<rparr>)
      | Some b \<Rightarrow>
          let tokens = refill rl b now;
              rl = rl\<lparr>rlLru := move_to_front key (rlLru rl)\<rparr>
          in if tokens < 1
             then (False, rl\<lparr>rlBuckets := AList.update key \<lparr>bkTokens = tokens, bkLastTime = now\<rparr> (rlBuckets rl)\<rparr>)
             else (True, rl\<lparr>rlBuckets := AList.update key \<lparr>bkTokens = tokens - 1, bkLastTime = now\<rparr> (rlBuckets rl)\<rparr>))"

text \<open>
  \<open>Allow\<close>, with the outcome of the shared backend: \<open>None\<close> when none is installed. The fallback
  reads the clock again.
\<close>

definition Allow ::
    "(string \<Rightarrow> f64 \<Rightarrow> int \<Rightarrow> time \<Rightarrow> string + bool) option \<Rightarrow> string \<Rightarrow> time \<Rightarrow> time \<Rightarrow> RateLimiter \<Rightarrow> bool \<times> RateLimiter" where
  "Allow backend key now later rl =
     (case backend of
        None \<Rightarrow> allowLocal key now rl
      | Some call \<Rightarrow>
          (case call (rlNamespace rl @ '':'' @ key) (rlRate rl) (rlBurst rl) now of
             Inl _ \<Rightarrow> allowLocal key later rl
           | Inr allowed \<Rightarrow> (allowed, rl)))"

text \<open>One tick of the background goroutine.\<close>

definition cleanup :: "time \<Rightarrow> RateLimiter \<Rightarrow> RateLimiter" where
  "cleanup now rl =
     (let stale = (\<lambda>b. bkLastTime b < now - 10 * minute);
          gone = map fst (filter (\<lambda>(_, b). stale b) (rlBuckets rl))
      in rl\<lparr>rlBuckets := filter (\<lambda>(_, b). \<not> stale b) (rlBuckets rl),
            rlLru := filter (\<lambda>k. k \<notin> set gone) (rlLru rl)\<rparr>)"

text \<open>The calls of a run, in the order in which they hold the mutex.\<close>

datatype limiter_event = Request string time | Tick time

fun limiter_step :: "limiter_event \<Rightarrow> RateLimiter \<Rightarrow> bool \<times> RateLimiter" where
  "limiter_step (Request key now) rl = allowLocal key now rl"
| "limiter_step (Tick now) rl = (False, cleanup now rl)"

definition limiter_run :: "limiter_event list \<Rightarrow> RateLimiter \<Rightarrow> RateLimiter" where
  "limiter_run es rl = fold (\<lambda>e rl. snd (limiter_step e rl)) es rl"

section \<open>Bounded memory\<close>

definition limiter_ok :: "RateLimiter \<Rightarrow> bool" where
  "limiter_ok rl \<longleftrightarrow> lru_ok (rlBuckets rl) (rlLru rl) \<and> length (rlBuckets rl) \<le> maxLocalRateLimitBuckets"

lemma allowLocal_ok:
  assumes "limiter_ok rl"
  shows "limiter_ok (snd (allowLocal key now rl))"
proof (cases "map_of (rlBuckets rl) key")
  case None
  then have fresh: "key \<notin> fst ` set (rlBuckets rl)" by (simp add: map_of_eq_None_iff)
  define p where "p = (if length (rlBuckets rl) \<ge> maxLocalRateLimitBuckets
      then drop_oldest (rlBuckets rl, rlLru rl) else (rlBuckets rl, rlLru rl))"
  have ok: "lru_ok (rlBuckets rl) (rlLru rl)" using assms by (simp add: limiter_ok_def)
  have p: "lru_ok (fst p) (snd p)" "length (fst p) < maxLocalRateLimitBuckets" "key \<notin> fst ` set (fst p)"
    using drop_oldest_ok[OF ok] drop_oldest_sub[OF fresh, of "rlLru rl"] fresh assms
    by (auto simp: p_def limiter_ok_def maxLocalRateLimitBuckets_def)
  then show ?thesis
    using None lru_ok_insert[OF p(1,3)] length_update_fresh[OF p(3)]
    by (simp add: allowLocal_def limiter_ok_def p_def[symmetric] case_prod_beta)
next
  case (Some b)
  then have key: "key \<in> fst ` set (rlBuckets rl)" by (metis domI dom_map_of_conv_image_fst)
  with assms Some show ?thesis
    by (auto simp: allowLocal_def limiter_ok_def Let_def length_update_present dom_update intro!: lru_ok_update lru_ok_move)
qed

lemma cleanup_ok:
  assumes "limiter_ok rl"
  shows "limiter_ok (cleanup now rl)"
proof -
  let ?m = "rlBuckets rl" and ?P = "\<lambda>(_, b). \<not> bkLastTime b < now - 10 * minute"
  have d: "distinct (map fst ?m)" using assms by (simp add: limiter_ok_def lru_ok_def)
  have "fst ` set (filter ?P ?m) = {k \<in> fst ` set ?m. k \<notin> fst ` set (filter (Not \<circ> ?P) ?m)}"
    using d by (auto simp: distinct_map inj_on_def)
  moreover have "distinct (map fst (filter ?P ?m))" using d by (rule distinct_map_filter)
  ultimately show ?thesis using assms length_filter_le[of ?P ?m]
    by (auto simp: cleanup_def limiter_ok_def lru_ok_def Let_def comp_def case_prod_beta intro: order_trans[OF length_filter_le])
qed

text \<open>
  Whatever requests arrive and however they interleave with the cleanup, the limiter keeps at most
  \<open>maxLocalRateLimitBuckets\<close> buckets, one per key, and its order of use lists exactly their keys.
\<close>

lemma limiter_memory: "limiter_ok rl \<Longrightarrow> limiter_ok (limiter_run es rl)"
proof (induction es arbitrary: rl)
  case (Cons e es)
  then show ?case using allowLocal_ok cleanup_ok by (cases e) (simp_all add: limiter_run_def)
qed (simp add: limiter_run_def)

section \<open>Metered admission\<close>

text \<open>The number of admissions of a run, for any step function that says whether it admits.\<close>

fun admissions :: "('e \<Rightarrow> 's \<Rightarrow> bool \<times> 's) \<Rightarrow> 'e list \<Rightarrow> 's \<Rightarrow> nat" where
  "admissions step [] s = 0"
| "admissions step (e # es) s = of_bool (fst (step e s)) + admissions step es (snd (step e s))"

text \<open>
  The contract of a metered limiter: a credit that is never negative, pays one unit per admission
  and grows at most at a fixed rate per nanosecond. It bounds the admissions of every run whose
  clock does not go back.
\<close>

locale metered =
  fixes step :: "'e \<Rightarrow> 's \<Rightarrow> bool \<times> 's" and clock :: "'e \<Rightarrow> time" and ok :: "'e \<Rightarrow> bool"
    and inv :: "'s \<Rightarrow> time \<Rightarrow> bool" and credit :: "'s \<Rightarrow> time \<Rightarrow> real" and rate :: real
  assumes step_inv: "inv s t \<Longrightarrow> ok e \<Longrightarrow> t \<le> clock e \<Longrightarrow> inv (snd (step e s)) (clock e)"
    and credit_nonneg: "inv s t \<Longrightarrow> 0 \<le> credit s t"
    and step_credit: "inv s t \<Longrightarrow> ok e \<Longrightarrow> t \<le> clock e \<Longrightarrow>
      of_bool (fst (step e s)) + credit (snd (step e s)) (clock e) \<le> credit s t + rate * real_of_int (clock e - t)"
begin

lemma admissions_bound:
  assumes "inv s t" and "\<forall>e \<in> set es. ok e" and "sorted (t # map clock es)"
  shows "real (admissions step es s) \<le> credit s t + rate * real_of_int (last (t # map clock es) - t)"
  using assms
proof (induction es arbitrary: s t)
  case Nil
  then show ?case using credit_nonneg by simp
next
  case (Cons e es)
  let ?s = "snd (step e s)" and ?T = "last (clock e # map clock es)"
  from Cons.prems have t: "ok e" "t \<le> clock e" by simp_all
  have "real (admissions step es ?s) \<le> credit ?s (clock e) + rate * real_of_int (?T - clock e)"
    using Cons.prems step_inv[OF Cons.prems(1) t] by (intro Cons.IH) auto
  moreover have "rate * real_of_int (clock e - t) + rate * real_of_int (?T - clock e) = rate * real_of_int (?T - t)"
    by (simp add: algebra_simps)
  ultimately show ?case using step_credit[OF Cons.prems(1) t] by simp
qed

end

section \<open>The token bucket is metered\<close>

fun event_clock :: "limiter_event \<Rightarrow> time" where
  "event_clock (Request key now) = now"
| "event_clock (Tick now) = now"

fun requests_in :: "string set \<Rightarrow> limiter_event \<Rightarrow> bool" where
  "requests_in K (Request key now) = (key \<in> K)"
| "requests_in K (Tick now) = True"

fun is_request :: "string \<Rightarrow> limiter_event \<Rightarrow> bool" where
  "is_request k (Request key now) = (key = k)"
| "is_request k (Tick now) = False"

text \<open>The admissions that are charged to one key.\<close>

definition charged :: "string \<Rightarrow> limiter_event \<Rightarrow> RateLimiter \<Rightarrow> bool \<times> RateLimiter" where
  "charged k e rl = (case limiter_step e rl of (admitted, rl') \<Rightarrow> (admitted \<and> is_request k e, rl'))"

definition bucket_ok :: "real \<Rightarrow> time \<Rightarrow> bucket \<Rightarrow> bool" where
  "bucket_ok b t bk \<longleftrightarrow> is_fin (bkTokens bk) \<and> 0 \<le> real_of (bkTokens bk) \<and> real_of (bkTokens bk) \<le> b \<and> bkLastTime bk \<le> t"

definition limiter_inv :: "string set \<Rightarrow> real \<Rightarrow> int \<Rightarrow> RateLimiter \<Rightarrow> time \<Rightarrow> bool" where
  "limiter_inv K r b rl t \<longleftrightarrow>
     rlRate rl = Fin r \<and> rlBurst rl = b \<and> 0 \<le> r \<and> 1 \<le> b \<and> of_int b \<le> 600 * r \<and>
     finite K \<and> card K \<le> maxLocalRateLimitBuckets \<and> limiter_ok rl \<and> fst ` set (rlBuckets rl) \<subseteq> K \<and>
     (\<forall>x \<in> set (rlBuckets rl). bucket_ok (of_int b) t (snd x))"

definition bucket_credit :: "string \<Rightarrow> real \<Rightarrow> int \<Rightarrow> RateLimiter \<Rightarrow> time \<Rightarrow> real" where
  "bucket_credit k c b rl t =
     (case map_of (rlBuckets rl) k of
        None \<Rightarrow> of_int b
      | Some bk \<Rightarrow> min (of_int b) (real_of (bkTokens bk) + c * real_of_int (t - bkLastTime bk)))"

lemma refill_tokens:
  assumes "rlRate rl = Fin r" "rlBurst rl = b" "0 \<le> r" "0 \<le> b" "bucket_ok (of_int b) t bk" "t \<le> now"
  shows "\<exists>y. refill rl bk now = Fin y \<and> 0 \<le> y \<and> y \<le> of_int b \<and>
    y \<le> real_of (bkTokens bk) + r / 10 ^ 9 * real_of_int (now - bkLastTime bk)"
proof -
  obtain x where x: "bkTokens bk = Fin x" "0 \<le> x" "x \<le> of_int b" and last: "bkLastTime bk \<le> now"
    using assms(5,6) by (auto simp: bucket_ok_def is_fin_iff)
  define d where "d = t_sub now (bkLastTime bk)"
  have d: "0 \<le> d" "d \<le> now - bkLastTime bk"
    using last t_sub_nonneg[OF last] by (auto simp: d_def t_sub_def int64_min_def)
  define y where "y = x + real_of_int d / 10 ^ 9 * r"
  have y: "0 \<le> y" "y \<le> x + r / 10 ^ 9 * real_of_int (now - bkLastTime bk)"
    using x(2) d assms(3) mult_right_mono[of "real_of_int d" "real_of_int (now - bkLastTime bk)" r]
    by (simp_all add: y_def field_simps del: of_int_diff)
  have "refill rl bk now = (if y > of_int b then Fin (of_int b) else Fin y)"
    using assms(1,2) x(1) by (simp add: refill_def Let_def seconds_of_def d_def[symmetric] y_def)
  then show ?thesis using y x(1) assms(4) by auto
qed

lemma credit_grows:
  assumes "0 \<le> c" "t \<le> t'"
  shows "bucket_credit k c b rl t' \<le> bucket_credit k c b rl t + c * real_of_int (t' - t)"
proof -
  define g where "g = c * real_of_int (t' - t)"
  have g: "0 \<le> g" using assms by (simp add: g_def)
  show ?thesis
  proof (cases "map_of (rlBuckets rl) k")
    case (Some bk)
    have "c * real_of_int (t' - bkLastTime bk) = c * real_of_int (t - bkLastTime bk) + g"
      by (simp add: g_def algebra_simps)
    then show ?thesis using g by (simp add: bucket_credit_def Some g_def[symmetric] del: of_int_diff)
  qed (use g in \<open>simp add: bucket_credit_def g_def\<close>)
qed

lemma credit_capped: "bucket_credit k c b rl t \<le> of_int b"
  by (simp add: bucket_credit_def split: option.split)

lemma bucket_ok_later: "bucket_ok b t bk \<Longrightarrow> t \<le> t' \<Longrightarrow> bucket_ok b t' bk"
  by (auto simp: bucket_ok_def)

lemma set_update_sub: "x \<in> set (AList.update k v m) \<Longrightarrow> x = (k, v) \<or> x \<in> set m"
  by (induction m) (auto split: if_splits)

text \<open>A request within the capacity: nothing is evicted.\<close>

lemma allowLocal_within:
  assumes "limiter_inv K r b rl t" and "key \<in> K" and "map_of (rlBuckets rl) key = None"
  shows "allowLocal key now rl =
    (True, rl\<lparr>rlBuckets := AList.update key \<lparr>bkTokens = Fin (of_int b - 1), bkLastTime = now\<rparr> (rlBuckets rl),
               rlLru := key # rlLru rl\<rparr>)"
proof -
  from assms(3) have "key \<notin> fst ` set (rlBuckets rl)" by (simp add: map_of_eq_None_iff)
  with assms have "fst ` set (rlBuckets rl) \<subset> K" "finite K" "card K \<le> maxLocalRateLimitBuckets"
    by (auto simp: limiter_inv_def)
  then have "card (fst ` set (rlBuckets rl)) < maxLocalRateLimitBuckets" by (meson psubset_card_mono less_le_trans)
  moreover have "card (fst ` set (rlBuckets rl)) = length (rlBuckets rl)"
    using assms(1) by (metis distinct_card length_map limiter_inv_def limiter_ok_def list.set_map lru_ok_def)
  ultimately show ?thesis using assms(1,3) by (simp add: allowLocal_def limiter_inv_def)
qed

lemma allowLocal_known:
  assumes "limiter_inv K r b rl t" "t \<le> now" "map_of (rlBuckets rl) key = Some bk"
  shows "\<exists>y a. 0 \<le> y \<and> y \<le> of_int b \<and> y \<le> real_of (bkTokens bk) + r / 10 ^ 9 * real_of_int (now - bkLastTime bk) \<and>
    (a \<longrightarrow> 1 \<le> y) \<and> allowLocal key now rl = (a, rl\<lparr>rlLru := move_to_front key (rlLru rl),
      rlBuckets := AList.update key \<lparr>bkTokens = Fin (y - of_bool a), bkLastTime = now\<rparr> (rlBuckets rl)\<rparr>)"
proof -
  have "bucket_ok (of_int b) t bk" using assms(1,3) map_of_SomeD[OF assms(3)] by (fastforce simp: limiter_inv_def)
  then obtain y where y: "refill rl bk now = Fin y" "0 \<le> y" "y \<le> of_int b"
    "y \<le> real_of (bkTokens bk) + r / 10 ^ 9 * real_of_int (now - bkLastTime bk)"
    using refill_tokens[of rl r b t bk now] assms(1,2) by (auto simp: limiter_inv_def)
  have "allowLocal key now rl = (\<not> y < 1, rl\<lparr>rlLru := move_to_front key (rlLru rl),
      rlBuckets := AList.update key \<lparr>bkTokens = Fin (y - of_bool (\<not> y < 1)), bkLastTime = now\<rparr> (rlBuckets rl)\<rparr>)"
    by (simp add: allowLocal_def assms(3) y(1) Let_def)
  with y show ?thesis by (intro exI[of _ y] exI[of _ "\<not> y < 1"]) simp
qed

lemma allowLocal_effect:
  assumes "limiter_inv K r b rl t" "key \<in> K" "t \<le> now"
  shows "\<exists>a z rl'. allowLocal key now rl = (a, rl') \<and> rlRate rl' = rlRate rl \<and> rlBurst rl' = rlBurst rl \<and>
    rlBuckets rl' = AList.update key \<lparr>bkTokens = Fin z, bkLastTime = now\<rparr> (rlBuckets rl) \<and>
    0 \<le> z \<and> z \<le> of_int b \<and> of_bool a + z \<le> bucket_credit key (r / 10 ^ 9) b rl now"
proof (cases "map_of (rlBuckets rl) key")
  case None
  from allowLocal_within[OF assms(1,2) this, of now] assms(1) None show ?thesis
    by (intro exI[of _ True] exI[of _ "real_of_int b - 1"]) (simp add: bucket_credit_def limiter_inv_def)
next
  case (Some bk)
  from allowLocal_known[OF assms(1,3) Some] obtain y a where y: "0 \<le> y" "y \<le> of_int b"
    "y \<le> real_of (bkTokens bk) + r / 10 ^ 9 * real_of_int (now - bkLastTime bk)" "a \<longrightarrow> 1 \<le> y"
    "allowLocal key now rl = (a, rl\<lparr>rlLru := move_to_front key (rlLru rl),
      rlBuckets := AList.update key \<lparr>bkTokens = Fin (y - of_bool a), bkLastTime = now\<rparr> (rlBuckets rl)\<rparr>)"
    by (elim exE conjE) simp
  then show ?thesis
    by (intro exI[of _ a] exI[of _ "y - of_bool a"] exI[of _ "snd (allowLocal key now rl)"])
       (simp add: bucket_credit_def Some del: of_int_diff)
qed

lemma request_inv:
  assumes "limiter_inv K r b rl t" "key \<in> K" "t \<le> now"
  shows "limiter_inv K r b (snd (allowLocal key now rl)) now"
proof -
  from allowLocal_effect[OF assms] obtain a z rl' where e: "allowLocal key now rl = (a, rl')" "rlRate rl' = rlRate rl"
    "rlBurst rl' = rlBurst rl" "rlBuckets rl' = AList.update key \<lparr>bkTokens = Fin z, bkLastTime = now\<rparr> (rlBuckets rl)"
    "0 \<le> z" "z \<le> of_int b" by blast
  have "limiter_ok rl'" using allowLocal_ok[of rl key now] assms(1) e(1) by (simp add: limiter_inv_def)
  moreover have "bucket_ok (of_int b) now (snd x)" if "x \<in> set (rlBuckets rl')" for x
    using set_update_sub[OF that[unfolded e(4)]] e(5,6) assms bucket_ok_later[of _ t _ now]
    by (auto simp: limiter_inv_def bucket_ok_def)
  ultimately show ?thesis using assms e by (auto simp: limiter_inv_def dom_update)
qed

lemma tick_inv:
  assumes "limiter_inv K r b rl t" "t \<le> now"
  shows "limiter_inv K r b (cleanup now rl) now"
  using assms cleanup_ok[of rl now] bucket_ok_later[of _ t _ now]
  by (auto simp: limiter_inv_def cleanup_def Let_def)

text \<open>A bucket that the cleanup removes would have been full again.\<close>

lemma tick_credit:
  assumes "limiter_inv K r b rl t" "t \<le> now"
  shows "bucket_credit k (r / 10 ^ 9) b (cleanup now rl) now \<le> bucket_credit k (r / 10 ^ 9) b rl now"
proof -
  have d: "distinct (map fst (rlBuckets rl))" using assms(1) by (simp add: limiter_inv_def limiter_ok_def lru_ok_def)
  show ?thesis
  proof (cases "map_of (rlBuckets rl) k")
    case None
    then have "bucket_credit k (r / 10 ^ 9) b rl now = of_int b" by (simp add: bucket_credit_def)
    then show ?thesis using credit_capped[of k "r / 10 ^ 9" b "cleanup now rl" now] by simp
  next
    case (Some bk)
    then have mem: "(k, bk) \<in> set (rlBuckets rl)" by (rule map_of_SomeD)
    show ?thesis
    proof (cases "bkLastTime bk < now - 10 * minute")
      case True
      then have "600 * 10 ^ 9 \<le> now - bkLastTime bk" by (simp add: minute_def second_def)
      then have "real_of_int (600 * 10 ^ 9) \<le> real_of_int (now - bkLastTime bk)" by (simp only: of_int_le_iff)
      then have "600 * r \<le> r / 10 ^ 9 * real_of_int (now - bkLastTime bk)"
        using assms(1) mult_left_mono[of "600 * 10 ^ 9" "real_of_int (now - bkLastTime bk)" "r / 10 ^ 9"]
        by (simp add: limiter_inv_def del: of_int_diff)
      moreover have "0 \<le> real_of (bkTokens bk)" "of_int b \<le> 600 * r"
        using assms(1) mem by (auto simp: limiter_inv_def bucket_ok_def)
      ultimately have "bucket_credit k (r / 10 ^ 9) b rl now = of_int b" by (simp add: bucket_credit_def Some)
      then show ?thesis using credit_capped[of k "r / 10 ^ 9" b "cleanup now rl" now] by simp
    next
      case False
      then have "map_of (filter (\<lambda>(_, b). \<not> bkLastTime b < now - 10 * minute) (rlBuckets rl)) k = Some bk"
        using mem d by (intro map_of_is_SomeI distinct_map_filter) auto
      then show ?thesis by (simp add: bucket_credit_def cleanup_def Let_def Some)
    qed
  qed
qed

lemma charged_simps [simp]:
  "charged k (Request key now) rl = (fst (allowLocal key now rl) \<and> key = k, snd (allowLocal key now rl))"
  "charged k (Tick now) rl = (False, cleanup now rl)"
  by (auto simp: charged_def split: prod.split)

lemma request_credit:
  assumes "limiter_inv K r b rl t" "key \<in> K" "t \<le> now"
  shows "of_bool (fst (charged k (Request key now) rl)) + bucket_credit k (r / 10 ^ 9) b (snd (allowLocal key now rl)) now
    \<le> bucket_credit k (r / 10 ^ 9) b rl now"
proof -
  from allowLocal_effect[OF assms] obtain a z rl' where e: "allowLocal key now rl = (a, rl')"
    "rlBuckets rl' = AList.update key \<lparr>bkTokens = Fin z, bkLastTime = now\<rparr> (rlBuckets rl)"
    "of_bool a + z \<le> bucket_credit key (r / 10 ^ 9) b rl now" by blast
  then show ?thesis by (auto simp: bucket_credit_def update_conv')
qed

interpretation token_bucket: metered "charged k" event_clock "requests_in K" "limiter_inv K r b" "bucket_credit k (r / 10 ^ 9) b" "r / 10 ^ 9"
  for k K r b
proof unfold_locales
  fix rl t and e :: limiter_event
  assume a: "limiter_inv K r b rl t" "requests_in K e" "t \<le> event_clock e"
  then show "limiter_inv K r b (snd (charged k e rl)) (event_clock e)"
    using request_inv tick_inv by (cases e) simp_all
  have "of_bool (fst (charged k e rl)) + bucket_credit k (r / 10 ^ 9) b (snd (charged k e rl)) (event_clock e)
      \<le> bucket_credit k (r / 10 ^ 9) b rl (event_clock e)"
    using a request_credit tick_credit by (cases e) simp_all
  also have "\<dots> \<le> bucket_credit k (r / 10 ^ 9) b rl t + r / 10 ^ 9 * real_of_int (event_clock e - t)"
    using a by (intro credit_grows) (simp_all add: limiter_inv_def)
  finally show "of_bool (fst (charged k e rl)) + bucket_credit k (r / 10 ^ 9) b (snd (charged k e rl)) (event_clock e)
      \<le> bucket_credit k (r / 10 ^ 9) b rl t + r / 10 ^ 9 * real_of_int (event_clock e - t)" .
next
  fix rl t
  assume "limiter_inv K r b rl t"
  then have "0 \<le> r" "1 \<le> b" "map_of (rlBuckets rl) k = Some bk \<Longrightarrow> bucket_ok (of_int b) t bk" for bk
    by (auto simp: limiter_inv_def dest!: map_of_SomeD)
  then show "0 \<le> bucket_credit k (r / 10 ^ 9) b rl t"
    by (auto simp: bucket_credit_def bucket_ok_def split: option.split intro!: add_nonneg_nonneg)
qed

text \<open>C37. The rate limit holds: from a new limiter with a positive burst, in every run whose clock does
  not go back and whose requests use at most \<open>maxLocalRateLimitBuckets\<close> different keys, the requests
  admitted for one key are at most the burst plus the rate times the seconds elapsed. Cleanups at any
  moment do not weaken it, provided ten minutes refill a whole burst, as every limiter of \<open>main.go\<close>
  with a fixed rate has it.
\<close>

theorem rate_limit_bound:
  assumes "0 \<le> r" and "1 \<le> b" and "of_int b \<le> 600 * r"
    and "finite K" and "card K \<le> maxLocalRateLimitBuckets"
    and "\<forall>e \<in> set es. requests_in K e" and "sorted (t # map event_clock es)"
  shows "real (admissions (charged k) es (NewRateLimiterWithNamespace ns (Fin r) b))
    \<le> of_int b + r * (real_of_int (last (t # map event_clock es) - t) / 10 ^ 9)"
proof -
  let ?rl = "NewRateLimiterWithNamespace ns (Fin r) b"
  have "limiter_inv K r b ?rl t"
    using assms(1-5) by (simp add: limiter_inv_def NewRateLimiterWithNamespace_def limiter_ok_def lru_ok_def)
  from token_bucket.admissions_bound[OF this assms(6,7), of k]
  show ?thesis by (simp add: bucket_credit_def NewRateLimiterWithNamespace_def)
qed

theorem rate_limit_bound_witness:
  "real (admissions (charged ''ip'') [Request ''ip'' 5, Request ''other'' 6, Request ''ip'' 7, Tick 8, Request ''ip'' 9]
      (NewRateLimiterWithNamespace ''login'' (Fin (1/12)) 2)) \<le> 2 + 1/12 * (9 / 10 ^ 9)"
  using rate_limit_bound[of "1/12" 2 "{''ip'', ''other''}"
      "[Request ''ip'' 5, Request ''other'' 6, Request ''ip'' 7, Tick 8, Request ''ip'' 9]" 0 "''ip''" "''login''"]
  by (simp add: maxLocalRateLimitBuckets_def)

section \<open>Requests in flight\<close>

record PrincipalConcurrencyLimiter =
  clGlobalMax :: int
  clPrincipalMax :: int
  clInFlight :: int
  clByPrincipal :: "string \<rightharpoonup> int"

definition NewPrincipalConcurrencyLimiter :: "int \<Rightarrow> int \<Rightarrow> string + PrincipalConcurrencyLimiter" where
  "NewPrincipalConcurrencyLimiter globalMax principalMax =
     (if globalMax \<le> 0 \<or> principalMax \<le> 0 \<or> principalMax > globalMax then Inl ''invalid concurrency limits''
      else Inr \<lparr>clGlobalMax = globalMax, clPrincipalMax = principalMax, clInFlight = 0, clByPrincipal = Map.empty\<rparr>)"

text \<open>Reading a missing entry of a Go map gives zero.\<close>

definition in_flight_of :: "PrincipalConcurrencyLimiter \<Rightarrow> string \<Rightarrow> int" where
  "in_flight_of l p = (case clByPrincipal l p of Some n \<Rightarrow> n | None \<Rightarrow> 0)"

definition acquire :: "string \<Rightarrow> PrincipalConcurrencyLimiter \<Rightarrow> PrincipalConcurrencyLimiter option" where
  "acquire p l =
     (if clInFlight l \<ge> clGlobalMax l \<or> in_flight_of l p \<ge> clPrincipalMax l then None
      else Some (l\<lparr>clInFlight := clInFlight l + 1, clByPrincipal := (clByPrincipal l)(p \<mapsto> in_flight_of l p + 1)\<rparr>))"

definition release :: "string \<Rightarrow> PrincipalConcurrencyLimiter \<Rightarrow> PrincipalConcurrencyLimiter" where
  "release p l =
     l\<lparr>clInFlight := (if clInFlight l > 0 then clInFlight l - 1 else clInFlight l),
       clByPrincipal := (if in_flight_of l p \<le> 1 then (clByPrincipal l)(p := None)
                         else (clByPrincipal l)(p \<mapsto> in_flight_of l p - 1))\<rparr>"

section \<open>The bcrypt budget\<close>

definition maxBcryptMaxConcurrent :: int where "maxBcryptMaxConcurrent = 128"

text \<open>The buffered channel: its capacity and the slots in it.\<close>

record bcryptBudget =
  bbCapacity :: int
  bbSlots :: int

definition newBcryptBudget :: "int \<Rightarrow> string + bcryptBudget" where
  "newBcryptBudget maxConcurrent =
     (if maxConcurrent \<le> 0 \<or> maxConcurrent > maxBcryptMaxConcurrent
      then Inl ''bcrypt max concurrency out of range'' else Inr \<lparr>bbCapacity = maxConcurrent, bbSlots = 0\<rparr>)"

definition slot_enter :: "bcryptBudget \<Rightarrow> bcryptBudget option" where
  "slot_enter b = (if bbSlots b < bbCapacity b then Some (b\<lparr>bbSlots := bbSlots b + 1\<rparr>) else None)"

definition slot_leave :: "bcryptBudget \<Rightarrow> bcryptBudget" where
  "slot_leave b = b\<lparr>bbSlots := bbSlots b - 1\<rparr>"

datatype bcrypt_error = ErrBcryptBusy | ErrContext string | ErrCredential string

text \<open>\<open>run\<close>: the operation is only called when a slot was free, and the slot is given back.\<close>

definition budget_run :: "string option \<Rightarrow> (unit \<Rightarrow> bcrypt_error + 'a) \<Rightarrow> bcryptBudget \<Rightarrow> (bcrypt_error + 'a) \<times> bcryptBudget" where
  "budget_run ctxErr operation b =
     (case ctxErr of
        Some e \<Rightarrow> (Inl (ErrContext e), b)
      | None \<Rightarrow> (case slot_enter b of
          None \<Rightarrow> (Inl ErrBcryptBusy, b)
        | Some b' \<Rightarrow> (operation (), slot_leave b')))"

definition Generate :: "(string \<Rightarrow> int \<Rightarrow> string + string) \<Rightarrow> string option \<Rightarrow> string \<Rightarrow> int \<Rightarrow> bcryptBudget \<Rightarrow> (bcrypt_error + string) \<times> bcryptBudget" where
  "Generate generate ctxErr password cost =
     budget_run ctxErr (\<lambda>_. case generate password cost of Inl e \<Rightarrow> Inl (ErrCredential e) | Inr hash \<Rightarrow> Inr hash)"

definition Compare :: "(string \<Rightarrow> string \<Rightarrow> string + unit) \<Rightarrow> string option \<Rightarrow> string \<Rightarrow> string \<Rightarrow> bcryptBudget \<Rightarrow> (bcrypt_error + unit) \<times> bcryptBudget" where
  "Compare compare ctxErr hash password =
     budget_run ctxErr (\<lambda>_. case compare hash password of Inl e \<Rightarrow> Inl (ErrCredential e) | Inr u \<Rightarrow> Inr u)"

text \<open>
  \<open>CompareCredential\<close>: the real comparison and one padding comparison, here with the list of the
  digests that were compared. \<open>compare\<close> and \<open>cost\<close> are those of the bcrypt package.
\<close>

definition CompareCredential ::
    "(string \<Rightarrow> string \<Rightarrow> string + unit) \<Rightarrow> (string \<Rightarrow> string + int) \<Rightarrow> string option \<Rightarrow>
     string \<Rightarrow> string \<Rightarrow> string \<Rightarrow> string \<Rightarrow> int \<Rightarrow> bcryptBudget \<Rightarrow> (bcrypt_error + unit) \<times> string list \<times> bcryptBudget" where
  "CompareCredential compare cost ctxErr hash password currentCostDummy minimumCostDummy targetCost b =
     (let paddingHash = (case cost hash of Inl _ \<Rightarrow> currentCostDummy
                         | Inr storedCost \<Rightarrow> if storedCost < targetCost then currentCostDummy else minimumCostDummy);
          (r, b') = budget_run ctxErr (\<lambda>_. Inr (compare hash password, [hash, paddingHash])) b
      in case r of
           Inl e \<Rightarrow> (Inl e, [], b')
         | Inr (credential, compared) \<Rightarrow>
             ((case credential of Inl e \<Rightarrow> Inl (ErrCredential e) | Inr u \<Rightarrow> Inr u), compared, b'))"

section \<open>Holders of slots\<close>

lemma member_size: "p \<in># H \<Longrightarrow> 0 < size H \<and> int (size (H - {#p#})) = int (size H) - 1"
  by (auto dest!: multi_member_split)

text \<open>
  What both limiters promise: the state stands for the multiset of the holders, a holder enters
  exactly when the capacity admits it, and only a holder leaves. The client lemma is that in every
  interleaving the state follows the multiset, which stays within the capacity.
\<close>

datatype 'p slot_event = Start 'p | Finish 'p

text \<open>
  A run together with the requests in flight: a request that is admitted starts, and only a request
  that runs finishes, since the middleware releases exactly what it acquired.
\<close>

fun slot_step :: "('p \<Rightarrow> 's \<Rightarrow> 's option) \<Rightarrow> ('p \<Rightarrow> 's \<Rightarrow> 's) \<Rightarrow> 'p slot_event \<Rightarrow> 's \<times> 'p multiset \<Rightarrow> 's \<times> 'p multiset" where
  "slot_step enter leave (Start p) (s, H) = (case enter p s of None \<Rightarrow> (s, H) | Some s' \<Rightarrow> (s', add_mset p H))"
| "slot_step enter leave (Finish p) (s, H) = (if p \<in># H then (leave p s, H - {#p#}) else (s, H))"

definition slot_run :: "('p \<Rightarrow> 's \<Rightarrow> 's option) \<Rightarrow> ('p \<Rightarrow> 's \<Rightarrow> 's) \<Rightarrow> 'p slot_event list \<Rightarrow> 's \<Rightarrow> 's \<times> 'p multiset" where
  "slot_run enter leave es s = fold (slot_step enter leave) es (s, {#})"

locale slots =
  fixes enter :: "'p \<Rightarrow> 's \<Rightarrow> 's option" and leave :: "'p \<Rightarrow> 's \<Rightarrow> 's"
    and holds :: "'s \<Rightarrow> 'p multiset \<Rightarrow> bool" and fits :: "'p multiset \<Rightarrow> bool"
  assumes enter_ok: "holds s H \<Longrightarrow> fits (add_mset p H) \<Longrightarrow> \<exists>s'. enter p s = Some s' \<and> holds s' (add_mset p H)"
    and enter_full: "holds s H \<Longrightarrow> fits H \<Longrightarrow> \<not> fits (add_mset p H) \<Longrightarrow> enter p s = None"
    and leave_ok: "holds s H \<Longrightarrow> p \<in># H \<Longrightarrow> holds (leave p s) (H - {#p#})"
    and fits_mono: "fits H \<Longrightarrow> H' \<subseteq># H \<Longrightarrow> fits H'"
begin

lemma step_sound:
  assumes "holds s H" and "fits H"
  shows "case slot_step enter leave e (s, H) of (s', H') \<Rightarrow> holds s' H' \<and> fits H'"
proof (cases e)
  case (Start p)
  with assms enter_ok[of s H p] enter_full[of s H p] show ?thesis by (cases "fits (add_mset p H)") auto
next
  case (Finish p)
  with assms leave_ok fits_mono[of H "H - {#p#}"] show ?thesis by (simp add: diff_subset_eq_self)
qed

lemma fold_sound:
  assumes "holds s H" and "fits H" and "fold (slot_step enter leave) es (s, H) = (s', H')"
  shows "holds s' H' \<and> fits H'"
  using assms
proof (induction es arbitrary: s H)
  case (Cons e es)
  obtain s1 H1 where e: "slot_step enter leave e (s, H) = (s1, H1)" by fastforce
  with step_sound[OF Cons.prems(1,2), of e] have "holds s1 H1" "fits H1" by simp_all
  from Cons.IH[OF this] Cons.prems(3) e show ?case by simp
qed simp

lemma admits_iff: "holds s H \<Longrightarrow> fits H \<Longrightarrow> enter p s \<noteq> None \<longleftrightarrow> fits (add_mset p H)"
  using enter_ok[of s H p] enter_full[of s H p] by (cases "fits (add_mset p H)") auto

end

text \<open>The in-flight limiter stands for the multiset of the principals with a request in flight.\<close>

definition limiter_holds :: "int \<Rightarrow> int \<Rightarrow> PrincipalConcurrencyLimiter \<Rightarrow> string multiset \<Rightarrow> bool" where
  "limiter_holds g m l H \<longleftrightarrow>
     clGlobalMax l = g \<and> clPrincipalMax l = m \<and> clInFlight l = int (size H) \<and>
     clByPrincipal l = (\<lambda>p. if p \<in># H then Some (int (count H p)) else None)"

definition limiter_fits :: "int \<Rightarrow> int \<Rightarrow> string multiset \<Rightarrow> bool" where
  "limiter_fits g m H \<longleftrightarrow> int (size H) \<le> g \<and> (\<forall>p. int (count H p) \<le> m)"

lemma in_flight_count: "limiter_holds g m l H \<Longrightarrow> in_flight_of l p = int (count H p)"
  by (auto simp: in_flight_of_def limiter_holds_def count_eq_zero_iff)

interpretation in_flight: slots acquire release "limiter_holds g m" "limiter_fits g m" for g m
proof unfold_locales
  fix l H p
  assume l: "limiter_holds g m l H"
  note n = in_flight_count[OF l, of p]
  show "\<exists>l'. acquire p l = Some l' \<and> limiter_holds g m l' (add_mset p H)" if "limiter_fits g m (add_mset p H)"
  proof -
    from that have "int (size H) < g" "int (count H p) < m" by (auto simp: limiter_fits_def dest: spec[of _ p])
    with l n show ?thesis by (auto simp: acquire_def limiter_holds_def fun_eq_iff)
  qed
  show "acquire p l = None" if "limiter_fits g m H" "\<not> limiter_fits g m (add_mset p H)"
  proof -
    from that have "\<not> int (size H) < g \<or> \<not> int (count H p) < m" by (auto simp: limiter_fits_def split: if_splits)
    with l n show ?thesis by (auto simp: acquire_def limiter_holds_def)
  qed
  show "limiter_holds g m (release p l) (H - {#p#})" if "p \<in># H"
  proof -
    have c: "count H p > 0" using that by simp
    from l n c member_size[OF that] show ?thesis
      by (auto simp: release_def limiter_holds_def fun_eq_iff in_diff_count of_nat_diff not_in_iff simp del: size_Diff_singleton)
  qed
next
  fix H H' :: "string multiset"
  assume "limiter_fits g m H" and sub: "H' \<subseteq># H"
  then show "limiter_fits g m H'" using size_mset_mono[OF sub] mset_subset_eq_count[OF sub]
    by (auto simp: limiter_fits_def) (meson dual_order.trans of_nat_mono)+
qed

text \<open>The slots of the bcrypt budget are counted without their holders.\<close>

definition budget_holds :: "int \<Rightarrow> bcryptBudget \<Rightarrow> 'p multiset \<Rightarrow> bool" where
  "budget_holds n b H \<longleftrightarrow> bbCapacity b = n \<and> bbSlots b = int (size H)"

definition budget_fits :: "int \<Rightarrow> 'p multiset \<Rightarrow> bool" where
  "budget_fits n H \<longleftrightarrow> int (size H) \<le> n"

interpretation bcrypt_slots: slots "\<lambda>_. slot_enter" "\<lambda>_. slot_leave" "budget_holds n" "budget_fits n" for n
proof unfold_locales
  fix H H' :: "'p multiset"
  assume "budget_fits n H" and sub: "H' \<subseteq># H"
  then show "budget_fits n H'" using size_mset_mono[OF sub] by (simp add: budget_fits_def)
qed (auto simp: budget_holds_def budget_fits_def slot_enter_def slot_leave_def member_size simp del: size_Diff_singleton)

text \<open>C38. The in-flight limiter refines a multiset of running requests: in every interleaving of starting
  and finishing requests, its counters are the sizes of that multiset, at most \<open>globalMax\<close> requests run
  at all and at most \<open>principalMax\<close> for one principal, and a request is refused exactly when one of
  the two limits is reached, so no slot is ever lost.
\<close>

theorem concurrency_limits_refine:
  assumes "NewPrincipalConcurrencyLimiter g m = Inr l" and "slot_run acquire release es l = (l', H)"
  shows "clInFlight l' = int (size H) \<and> (\<forall>p. in_flight_of l' p = int (count H p)) \<and>
     int (size H) \<le> g \<and> (\<forall>p. int (count H p) \<le> m) \<and>
     (\<forall>p. acquire p l' \<noteq> None \<longleftrightarrow> int (size H) < g \<and> int (count H p) < m)"
proof -
  have "limiter_holds g m l {#}" "limiter_fits g m {#}"
    using assms(1) by (auto simp: NewPrincipalConcurrencyLimiter_def limiter_holds_def limiter_fits_def split: if_splits)
  from in_flight.fold_sound[OF this] assms(2) have h: "limiter_holds g m l' H" and f: "limiter_fits g m H"
    by (auto simp: slot_run_def)
  then have "acquire p l' \<noteq> None \<longleftrightarrow> int (size H) < g \<and> int (count H p) < m" for p
    using in_flight_count[OF h, of p] by (auto simp: acquire_def limiter_holds_def)
  with h f show ?thesis using in_flight_count[OF h] by (simp add: limiter_holds_def limiter_fits_def)
qed

theorem concurrency_limits_refine_witness:
  "\<exists>l l' H. NewPrincipalConcurrencyLimiter 2 1 = Inr l \<and>
     slot_run acquire release [Start ''a'', Start ''a'', Start ''b'', Start ''c'', Finish ''a''] l = (l', H) \<and>
     H = {#''b''#} \<and> clInFlight l' = 1 \<and> acquire ''a'' l' \<noteq> None \<and> acquire ''b'' l' = None"
proof -
  obtain l where l: "NewPrincipalConcurrencyLimiter 2 1 = Inr l" by (simp add: NewPrincipalConcurrencyLimiter_def)
  obtain l' H where run: "slot_run acquire release [Start ''a'', Start ''a'', Start ''b'', Start ''c'', Finish ''a''] l = (l', H)"
    by fastforce
  have H: "H = {#''b''#}"
    using run l by (auto simp: slot_run_def NewPrincipalConcurrencyLimiter_def acquire_def in_flight_of_def split: if_splits)
  note c = concurrency_limits_refine[OF l run, unfolded H]
  from c have "\<forall>p. acquire p l' \<noteq> None \<longleftrightarrow> int (size {#''b''#}) < 2 \<and> int (count {#''b''#} p) < 1" by (elim conjE)
  from spec[OF this, of "''a''"] spec[OF this, of "''b''"] have "acquire ''a'' l' \<noteq> None" "acquire ''b'' l' = None" by simp_all
  moreover from c have "clInFlight l' = 1" by simp
  ultimately show ?thesis using l run H by blast
qed

text \<open>
  The budget admits at most its capacity of bcrypt operations in flight, and refuses only when it is
  exhausted; a credential is accepted exactly when the comparison with the stored digest accepts it,
  and every admitted check compares two digests whatever the account.
\<close>

lemma bcrypt_budget_bound:
  assumes "newBcryptBudget n = Inr b" and "slot_run (\<lambda>_. slot_enter) (\<lambda>_. slot_leave) es b = (b', H)"
  shows "bbSlots b' = int (size H) \<and> int (size H) \<le> n \<and> (slot_enter b' \<noteq> None \<longleftrightarrow> int (size H) < n)"
proof -
  have "budget_holds n b {#}" "budget_fits n {#}"
    using assms(1) by (auto simp: newBcryptBudget_def budget_holds_def budget_fits_def split: if_splits)
  from bcrypt_slots.fold_sound[OF this] assms(2) have "budget_holds n b' H" "budget_fits n H" by (auto simp: slot_run_def)
  then show ?thesis by (auto simp: budget_holds_def budget_fits_def slot_enter_def)
qed

lemma budget_run_restores: "snd (budget_run ctxErr operation b) = b"
  by (simp add: budget_run_def slot_enter_def slot_leave_def split: option.split)

lemma CompareCredential_sound:
  assumes "CompareCredential compare cost ctxErr hash password cur mini target b = (r, compared, b')"
  shows "(r = Inr () \<longrightarrow> compare hash password = Inr ()) \<and> (compared = [] \<or> length compared = 2 \<and> hd compared = hash) \<and> b' = b"
  using assms by (auto simp: CompareCredential_def budget_run_def slot_enter_def slot_leave_def Let_def
      split: option.splits sum.splits if_splits)

end
