(* ===== verification/Login_Failures.thy ===== *)
theory Login_Failures
  imports Admission
begin

text \<open>
  Failed logins and second factors: \<open>auth/login_failures.go\<close> and
  \<open>auth/second_factor_attempts.go\<close>. The tracker counts failures per account in a rolling window and
  turns them into an advertised delay; the second factor spends a budget in fixed windows. The shared
  backends are arguments of the public methods.
\<close>

section \<open>The tracker\<close>

record secondFactorAttemptWindow =
  sfStarted :: time
  sfCount :: int

record LoginFailureTracker =
  ltFails :: "(string \<times> time list) list"
  ltLru :: "string list"
  ltLastPrune :: time
  ltThreshold :: int
  ltWindow :: duration
  ltSecondFactor :: "(string \<times> secondFactorAttemptWindow) list"

definition maxLoginFailureBuckets :: nat where "maxLoginFailureBuckets = 10000"

definition NewLoginFailureTracker :: "int \<Rightarrow> duration \<Rightarrow> LoginFailureTracker" where
  "NewLoginFailureTracker threshold window =
     \<lparr>ltFails = [], ltLru = [], ltLastPrune = 0, ltThreshold = threshold, ltWindow = window, ltSecondFactor = []\<rparr>"

definition removeBucketLocked :: "string \<Rightarrow> LoginFailureTracker \<Rightarrow> LoginFailureTracker" where
  "removeBucketLocked email t =
     (case map_of (ltFails t) email of
        None \<Rightarrow> t
      | Some _ \<Rightarrow> t\<lparr>ltFails := AList.delete email (ltFails t), ltLru := remove1 email (ltLru t)\<rparr>)"

definition removeOldestLocked :: "LoginFailureTracker \<Rightarrow> LoginFailureTracker" where
  "removeOldestLocked t = (if ltLru t = [] then t else removeBucketLocked (last (ltLru t)) t)"

definition fresh_stamps :: "duration \<Rightarrow> time \<Rightarrow> time list \<Rightarrow> time list" where
  "fresh_stamps window now = filter (\<lambda>ts. ts > now - window)"

definition pruneLocked :: "string \<Rightarrow> time \<Rightarrow> LoginFailureTracker \<Rightarrow> LoginFailureTracker" where
  "pruneLocked email now t =
     (case map_of (ltFails t) email of
        None \<Rightarrow> t
      | Some stamps \<Rightarrow>
          let fresh = fresh_stamps (ltWindow t) now stamps in
          if fresh = [] then removeBucketLocked email t
          else t\<lparr>ltFails := AList.update email fresh (ltFails t)\<rparr>)"

definition pruneAllLocked :: "time \<Rightarrow> LoginFailureTracker \<Rightarrow> LoginFailureTracker" where
  "pruneAllLocked now t =
     (if \<not> isZero (ltLastPrune t) \<and> t_sub now (ltLastPrune t) < minute then t
      else (fold (\<lambda>email. pruneLocked email now) (map fst (ltFails t)) t)\<lparr>ltLastPrune := now\<rparr>)"

definition allow_local :: "string \<Rightarrow> time \<Rightarrow> LoginFailureTracker \<Rightarrow> bool \<times> LoginFailureTracker" where
  "allow_local email now t =
     (let t = pruneLocked email now (pruneAllLocked now t)
      in case map_of (ltFails t) email of
           None \<Rightarrow> (True, t)
         | Some stamps \<Rightarrow> (int (length stamps) < ltThreshold t, t\<lparr>ltLru := move_to_front email (ltLru t)\<rparr>))"

text \<open>The stamps kept before a new one is appended.\<close>

definition stampCap :: "LoginFailureTracker \<Rightarrow> int" where
  "stampCap t = (if ltThreshold t + 6 < 1 then 1 else ltThreshold t + 6)"

definition capped :: "LoginFailureTracker \<Rightarrow> time list \<Rightarrow> time list" where
  "capped t stamps =
     (if int (length stamps) \<ge> stampCap t then drop (length stamps - nat (stampCap t) + 1) stamps else stamps)"

definition recordLocal :: "string \<Rightarrow> time \<Rightarrow> LoginFailureTracker \<Rightarrow> int \<times> LoginFailureTracker" where
  "recordLocal email now t =
     (let t = pruneLocked email now (pruneAllLocked now t);
          (stamps, t) =
            (case map_of (ltFails t) email of
               None \<Rightarrow>
                 let t = (if length (ltFails t) \<ge> maxLoginFailureBuckets then removeOldestLocked t else t)
                 in ([], t\<lparr>ltLru := email # ltLru t\<rparr>)
             | Some stamps \<Rightarrow> (stamps, t\<lparr>ltLru := move_to_front email (ltLru t)\<rparr>));
          stamps = capped t stamps @ [now]
      in (int (length stamps), t\<lparr>ltFails := AList.update email stamps (ltFails t)\<rparr>))"

text \<open>The public methods; \<open>None\<close> stands for no shared backend, \<open>later\<close> for the second reading of the clock.\<close>

definition AllowContext ::
    "(string \<Rightarrow> duration \<Rightarrow> time \<Rightarrow> string + int) option \<Rightarrow> string \<Rightarrow> time \<Rightarrow> time \<Rightarrow> LoginFailureTracker \<Rightarrow> bool \<times> LoginFailureTracker" where
  "AllowContext countInWindow email now later t =
     (if ltThreshold t \<le> 0 then (True, t)
      else case countInWindow of
        None \<Rightarrow> allow_local email now t
      | Some call \<Rightarrow> (case call email (ltWindow t) now of Inl _ \<Rightarrow> allow_local email later t | Inr n \<Rightarrow> (n < ltThreshold t, t)))"

definition RecordContext ::
    "(string \<Rightarrow> time \<Rightarrow> string + int) option \<Rightarrow> string \<Rightarrow> time \<Rightarrow> time \<Rightarrow> LoginFailureTracker \<Rightarrow> int \<times> LoginFailureTracker" where
  "RecordContext record email now later t =
     (if ltThreshold t \<le> 0 then (0, t)
      else case record of
        None \<Rightarrow> recordLocal email now t
      | Some call \<Rightarrow> (case call email now of Inl _ \<Rightarrow> recordLocal email later t | Inr n \<Rightarrow> (n, t)))"

definition ResetContext :: "string \<Rightarrow> LoginFailureTracker \<Rightarrow> LoginFailureTracker" where
  "ResetContext email t = removeBucketLocked email t"

definition RetryAfter :: "LoginFailureTracker \<Rightarrow> int \<Rightarrow> duration" where
  "RetryAfter t n =
     (if ltThreshold t \<le> 0 \<or> n < ltThreshold t then 0
      else let exponent = min 5 (n - ltThreshold t);
               seconds = (2::int) ^ nat exponent
           in min 30 seconds * second)"

section \<open>The second factor\<close>

datatype second_factor_error = ErrInvalidBudget | ErrNoStrictBackend | ErrCapacity | ErrRequest string

text \<open>A window that has ended at \<open>now\<close>.\<close>

definition window_over :: "duration \<Rightarrow> time \<Rightarrow> secondFactorAttemptWindow \<Rightarrow> bool" where
  "window_over window now w \<longleftrightarrow> \<not> now < sfStarted w + window"

definition valid_budget :: "LoginFailureTracker \<Rightarrow> string \<Rightarrow> bool" where
  "valid_budget t key \<longleftrightarrow> \<not> (key = [] \<or> ltThreshold t < 1 \<or> ltThreshold t > 100 \<or> ltWindow t \<le> 0 \<or> ltWindow t > 24 * hour)"

text \<open>The ended window of the key itself, and all ended windows when the table is full, are dropped.\<close>

definition drop_over :: "duration \<Rightarrow> time \<Rightarrow> string \<Rightarrow> (string \<times> secondFactorAttemptWindow) list \<Rightarrow> (string \<times> secondFactorAttemptWindow) list" where
  "drop_over window now key m =
     (case map_of m key of Some w \<Rightarrow> if window_over window now w then AList.delete key m else m | None \<Rightarrow> m)"

definition sweep :: "duration \<Rightarrow> time \<Rightarrow> (string \<times> secondFactorAttemptWindow) list \<Rightarrow> (string \<times> secondFactorAttemptWindow) list" where
  "sweep window now m =
     (if length m \<ge> maxLoginFailureBuckets then filter (\<lambda>(_, w). \<not> window_over window now w) m else m)"

text \<open>The local windows: the number of the attempt and the time to the end of its window.\<close>

definition reserve_local :: "string \<Rightarrow> time \<Rightarrow> LoginFailureTracker \<Rightarrow> (second_factor_error + int \<times> duration) \<times> LoginFailureTracker" where
  "reserve_local key now t =
     (let m = drop_over (ltWindow t) now key (ltSecondFactor t)
      in case map_of m key of
           None \<Rightarrow>
             let m = sweep (ltWindow t) now m
             in if length m \<ge> maxLoginFailureBuckets then (Inl ErrCapacity, t\<lparr>ltSecondFactor := m\<rparr>)
                else if 0 \<ge> ltThreshold t then (Inr (ltThreshold t + 1, t_sub (now + ltWindow t) now), t\<lparr>ltSecondFactor := m\<rparr>)
                else (Inr (1, t_sub (now + ltWindow t) now),
                      t\<lparr>ltSecondFactor := AList.update key \<lparr>sfStarted = now, sfCount = 1\<rparr> m\<rparr>)
         | Some w \<Rightarrow>
             if sfCount w \<ge> ltThreshold t
             then (Inr (ltThreshold t + 1, t_sub (sfStarted w + ltWindow t) now), t\<lparr>ltSecondFactor := m\<rparr>)
             else (Inr (sfCount w + 1, t_sub (sfStarted w + ltWindow t) now),
                   t\<lparr>ltSecondFactor := AList.update key (w\<lparr>sfCount := sfCount w + 1\<rparr>) m\<rparr>))"

text \<open>
  \<open>shared\<close> is the backend, if any, and its strict operation, if it has one; \<open>ctxErr\<close> is the error of
  the request context. An unavailable backend never falls back to the local windows.
\<close>

definition ReserveSecondFactorAttempt ::
    "(string \<Rightarrow> int \<Rightarrow> duration \<Rightarrow> time \<Rightarrow> second_factor_error + int \<times> duration) option option \<Rightarrow> string option \<Rightarrow>
     string \<Rightarrow> time \<Rightarrow> LoginFailureTracker \<Rightarrow> (second_factor_error + int \<times> duration) \<times> LoginFailureTracker" where
  "ReserveSecondFactorAttempt shared ctxErr key now t =
     (if \<not> valid_budget t key then (Inl ErrInvalidBudget, t)
      else case shared of
        Some None \<Rightarrow> (Inl ErrNoStrictBackend, t)
      | Some (Some strict) \<Rightarrow> (strict key (ltThreshold t) (ltWindow t) now, t)
      | None \<Rightarrow> (case ctxErr of Some e \<Rightarrow> (Inl (ErrRequest e), t) | None \<Rightarrow> reserve_local key now t))"

section \<open>The second-factor budget is metered\<close>

text \<open>A reservation that may be verified: its number is within the threshold.\<close>

definition reserve_step :: "string \<Rightarrow> string \<times> time \<Rightarrow> LoginFailureTracker \<Rightarrow> bool \<times> LoginFailureTracker" where
  "reserve_step k = (\<lambda>(key, now) t.
     case ReserveSecondFactorAttempt None None key now t of
       (Inr (n, _), t') \<Rightarrow> (key = k \<and> n \<le> ltThreshold t, t')
     | (Inl _, t') \<Rightarrow> (False, t'))"

definition live_windows :: "int \<Rightarrow> time \<Rightarrow> (string \<times> secondFactorAttemptWindow) list \<Rightarrow> bool" where
  "live_windows th now m \<longleftrightarrow> distinct (map fst m) \<and>
     (\<forall>x \<in> set m. sfStarted (snd x) \<le> now \<and> 0 \<le> sfCount (snd x) \<and> sfCount (snd x) \<le> th)"

definition windows_ok :: "int \<Rightarrow> duration \<Rightarrow> LoginFailureTracker \<Rightarrow> time \<Rightarrow> bool" where
  "windows_ok th w t now \<longleftrightarrow> ltThreshold t = th \<and> ltWindow t = w \<and> 1 \<le> th \<and> 0 < w \<and>
     live_windows th now (ltSecondFactor t)"

definition window_credit :: "string \<Rightarrow> int \<Rightarrow> real \<Rightarrow> (string \<times> secondFactorAttemptWindow) list \<Rightarrow> time \<Rightarrow> real" where
  "window_credit k th c m now =
     (case map_of m k of
        None \<Rightarrow> of_int th
      | Some w \<Rightarrow> of_int (th - sfCount w) + c * real_of_int (now - sfStarted w))"

lemma window_credit_grows:
  assumes "0 \<le> c" "t \<le> t'"
  shows "window_credit k th c m t' \<le> window_credit k th c m t + c * real_of_int (t' - t)"
  using assms by (auto simp: window_credit_def algebra_simps mult_left_mono split: option.split)

text \<open>A window that has ended is worth a whole budget.\<close>

lemma window_over_credit:
  assumes "0 < w" "window_over w now win" "sfCount win \<le> th" "0 \<le> th"
  shows "of_int th \<le> of_int (th - sfCount win) + of_int th / of_int w * real_of_int (now - sfStarted win)"
proof -
  have "w \<le> now - sfStarted win" using assms(2) by (simp add: window_over_def)
  then have "real_of_int w \<le> real_of_int (now - sfStarted win)" by (simp only: of_int_le_iff)
  then have "of_int th / of_int w * real_of_int w \<le> of_int th / of_int w * real_of_int (now - sfStarted win)"
    using assms(1,4) by (intro mult_left_mono) auto
  moreover have "of_int th / of_int w * real_of_int w = of_int th" using assms(1) by simp
  moreover have "0 \<le> real_of_int (th - sfCount win)" using assms(3) by simp
  ultimately show ?thesis by linarith
qed

lemma live_filter: "live_windows th now m \<Longrightarrow> live_windows th now (filter P m)"
  by (auto simp: live_windows_def distinct_map_filter)

lemma live_update: "live_windows th now m \<Longrightarrow> sfStarted v \<le> now \<Longrightarrow> 0 \<le> sfCount v \<Longrightarrow> sfCount v \<le> th \<Longrightarrow>
    live_windows th now (AList.update k v m)"
  by (auto simp: live_windows_def distinct_update dest!: set_update_sub)

lemma sweep_credit:
  assumes "live_windows th now m" "0 < w" "0 \<le> th" "\<forall>x \<in> set m. P x \<or> window_over w now (snd x)"
  shows "window_credit k th (of_int th / of_int w) (filter P m) now \<le> window_credit k th (of_int th / of_int w) m now"
proof (cases "map_of m k")
  case None
  then have "map_of (filter P m) k = None" by (auto simp: map_of_eq_None_iff)
  with None show ?thesis by (simp add: window_credit_def)
next
  case (Some win)
  then have mem: "(k, win) \<in> set m" by (rule map_of_SomeD)
  have d: "distinct (map fst (filter P m))" using assms(1) by (simp add: live_windows_def distinct_map_filter)
  show ?thesis
  proof (cases "P (k, win)")
    case True
    then have "map_of (filter P m) k = Some win" using mem d by (intro map_of_is_SomeI) auto
    then show ?thesis by (simp add: window_credit_def Some)
  next
    case False
    have "(k, win') \<notin> set (filter P m)" for win'
      using False mem assms(1) by (auto simp: live_windows_def eq_key_imp_eq_value[of m k win win'])
    then have "map_of (filter P m) k = None" by (auto simp: map_of_eq_None_iff)
    moreover have "window_over w now win" "sfCount win \<le> th" using False mem assms(1,4) by (auto simp: live_windows_def)
    ultimately show ?thesis using window_over_credit[of w now win th] assms(2,3) by (simp add: window_credit_def Some)
  qed
qed

lemma reserve_local_effect:
  assumes "live_windows th now (ltSecondFactor t)" "ltThreshold t = th" "ltWindow t = w" "0 < w" "1 \<le> th"
    and "reserve_local key now t = (r, t')"
  shows "\<exists>m g. live_windows th now m \<and> t' = t\<lparr>ltSecondFactor := m\<rparr> \<and>
    (g \<longleftrightarrow> (\<exists>n d. r = Inr (n, d) \<and> n \<le> th)) \<and>
    (\<forall>k. of_bool (key = k \<and> g) + window_credit k th (of_int th / of_int w) m now
       \<le> window_credit k th (of_int th / of_int w) (ltSecondFactor t) now)"
proof -
  let ?c = "of_int th / of_int w :: real" and ?m = "ltSecondFactor t"
  define m1 where "m1 = drop_over w now key ?m"
  have "\<exists>P. m1 = filter P ?m \<and> (\<forall>x \<in> set ?m. P x \<or> window_over w now (snd x))"
  proof (cases "map_of ?m key")
    case (Some win)
    have "(key, w') \<in> set ?m \<Longrightarrow> w' = win" for w'
      using assms(1) map_of_is_SomeI[of ?m key w'] Some by (simp add: live_windows_def)
    note only = this
    show ?thesis
    proof (cases "window_over w now win")
      case True
      then have "m1 = filter (\<lambda>(k', _). key \<noteq> k') ?m" by (simp add: m1_def drop_over_def Some AList.delete_eq)
      with True only show ?thesis by (intro exI[of _ "\<lambda>(k', _). key \<noteq> k'"]) auto
    qed (auto simp: m1_def drop_over_def Some intro!: exI[of _ "\<lambda>_. True"])
  qed (auto simp: m1_def drop_over_def intro!: exI[of _ "\<lambda>_. True"])
  then have live1: "live_windows th now m1" and c1: "window_credit k th ?c m1 now \<le> window_credit k th ?c ?m now" for k
    using live_filter[OF assms(1)] sweep_credit[OF assms(1,4)] assms(5) by auto
  show ?thesis
  proof (cases "map_of m1 key")
    case None
    define m2 where "m2 = sweep w now m1"
    have live2: "live_windows th now m2" using live1 live_filter by (simp add: m2_def sweep_def)
    have "window_credit k th ?c m2 now \<le> window_credit k th ?c m1 now" for k
    proof -
      have "\<forall>x \<in> set m1. (case x of (_, x) \<Rightarrow> \<not> window_over w now x) \<or> window_over w now (snd x)" by auto
      from sweep_credit[OF live1 assms(4) _ this, of k] assms(5) show ?thesis by (simp add: m2_def sweep_def)
    qed
    with c1 have c2: "window_credit k th ?c m2 now \<le> window_credit k th ?c ?m now" for k by (meson order_trans)
    have none: "map_of m2 key = None" using None by (auto simp: m2_def sweep_def map_of_eq_None_iff)
    show ?thesis
    proof (cases "length m2 \<ge> maxLoginFailureBuckets")
      case True
      then have "r = Inl ErrCapacity" "t' = t\<lparr>ltSecondFactor := m2\<rparr>"
        using assms(2,3,5,6) None by (simp_all add: reserve_local_def Let_def m1_def[symmetric] m2_def[symmetric])
      then show ?thesis using live2 c2 by (intro exI[of _ m2] exI[of _ False]) simp
    next
      case False
      let ?m3 = "AList.update key \<lparr>sfStarted = now, sfCount = 1\<rparr> m2"
      from False have "r = Inr (1, t_sub (now + w) now)" "t' = t\<lparr>ltSecondFactor := ?m3\<rparr>"
        using assms(2,3,5,6) None by (simp_all add: reserve_local_def Let_def m1_def[symmetric] m2_def[symmetric])
      moreover have "of_bool (key = k) + window_credit k th ?c ?m3 now \<le> window_credit k th ?c ?m now" for k
        using none by (intro order_trans[OF _ c2[of k]]) (auto simp: window_credit_def update_conv')
      moreover have "live_windows th now ?m3" using live2 assms(5) by (intro live_update) auto
      ultimately show ?thesis using assms(5) by (intro exI[of _ ?m3] exI[of _ True]) simp
    qed
  next
    case (Some win)
    then have mem: "(key, win) \<in> set m1" by (rule map_of_SomeD)
    then have win: "sfStarted win \<le> now" "0 \<le> sfCount win" using live1 by (auto simp: live_windows_def)
    show ?thesis
    proof (cases "sfCount win \<ge> th")
      case True
      then have "r = Inr (th + 1, t_sub (sfStarted win + w) now)" "t' = t\<lparr>ltSecondFactor := m1\<rparr>"
        using assms(2,3,6) Some by (simp_all add: reserve_local_def Let_def m1_def[symmetric])
      then show ?thesis using live1 c1 by (intro exI[of _ m1] exI[of _ False]) simp
    next
      case False
      let ?m3 = "AList.update key (win\<lparr>sfCount := sfCount win + 1\<rparr>) m1"
      from False have "r = Inr (sfCount win + 1, t_sub (sfStarted win + w) now)" "t' = t\<lparr>ltSecondFactor := ?m3\<rparr>"
        using assms(2,3,6) Some by (simp_all add: reserve_local_def Let_def m1_def[symmetric])
      moreover have "of_bool (key = k) + window_credit k th ?c ?m3 now \<le> window_credit k th ?c ?m now" for k
        using Some by (intro order_trans[OF _ c1[of k]]) (auto simp: window_credit_def update_conv')
      moreover have "live_windows th now ?m3" using live1 win False by (intro live_update) auto
      ultimately show ?thesis using False by (intro exI[of _ ?m3] exI[of _ True]) simp
    qed
  qed
qed

lemma reserve_step_effect:
  assumes "windows_ok th w t now" "now \<le> snd e"
  shows "windows_ok th w (snd (reserve_step k e t)) (snd e) \<and>
    of_bool (fst (reserve_step k e t)) + window_credit k th (of_int th / of_int w) (ltSecondFactor (snd (reserve_step k e t))) (snd e)
      \<le> window_credit k th (of_int th / of_int w) (ltSecondFactor t) (snd e)"
proof -
  obtain key now' where e: "e = (key, now')" by (cases e)
  have live: "live_windows th now' (ltSecondFactor t)" using assms by (force simp: windows_ok_def live_windows_def e)
  show ?thesis
  proof (cases "valid_budget t key")
    case False
    then have "reserve_step k e t = (False, t)" by (simp add: reserve_step_def e ReserveSecondFactorAttempt_def)
    then show ?thesis using assms(1) live by (simp add: windows_ok_def e)
  next
    case True
    obtain r t' where l: "reserve_local key now' t = (r, t')" by fastforce
    from reserve_local_effect[OF live _ _ _ _ l] assms(1) obtain m g where
      m: "live_windows th now' m" "t' = t\<lparr>ltSecondFactor := m\<rparr>" "g \<longleftrightarrow> (\<exists>n d. r = Inr (n, d) \<and> n \<le> th)"
        "\<forall>k. of_bool (key = k \<and> g) + window_credit k th (of_int th / of_int w) m now'
           \<le> window_credit k th (of_int th / of_int w) (ltSecondFactor t) now'"
      by (auto simp: windows_ok_def)
    have "reserve_step k e t = (key = k \<and> g, t')"
      using True l m(3) assms(1) by (auto simp: reserve_step_def e ReserveSecondFactorAttempt_def windows_ok_def split: sum.split)
    with m assms(1) show ?thesis by (simp add: windows_ok_def e)
  qed
qed

interpretation second_factor: metered "reserve_step k" snd "\<lambda>_. True" "windows_ok th w"
    "\<lambda>t. window_credit k th (of_int th / of_int w) (ltSecondFactor t)" "of_int th / of_int w" for k th w
proof unfold_locales
  fix t now and e :: "string \<times> time"
  assume a: "windows_ok th w t now" "now \<le> snd e"
  from reserve_step_effect[OF a, of k] show "windows_ok th w (snd (reserve_step k e t)) (snd e)" by simp
  have "window_credit k th (of_int th / of_int w) (ltSecondFactor t) (snd e)
      \<le> window_credit k th (of_int th / of_int w) (ltSecondFactor t) now + of_int th / of_int w * real_of_int (snd e - now)"
    using a by (intro window_credit_grows) (simp_all add: windows_ok_def)
  with reserve_step_effect[OF a, of k]
  show "of_bool (fst (reserve_step k e t)) + window_credit k th (of_int th / of_int w) (ltSecondFactor (snd (reserve_step k e t))) (snd e)
      \<le> window_credit k th (of_int th / of_int w) (ltSecondFactor t) now + of_int th / of_int w * real_of_int (snd e - now)"
    by linarith
next
  fix t now
  assume a: "windows_ok th w t now"
  then have "map_of (ltSecondFactor t) k = Some win \<Longrightarrow> sfStarted win \<le> now \<and> sfCount win \<le> th" for win
    by (auto simp: windows_ok_def live_windows_def dest!: map_of_SomeD)
  with a show "0 \<le> window_credit k th (of_int th / of_int w) (ltSecondFactor t) now"
    by (auto simp: window_credit_def windows_ok_def split: option.split intro!: add_nonneg_nonneg)
qed

text \<open>C40. The second-factor budget holds without any condition on other accounts: from a new tracker with
  a valid budget, in every run whose clock does not go back, the verification slots granted to one key
  are at most the threshold times one plus the elapsed number of windows. No flood of other keys
  resets a window, since a full table refuses new keys instead of evicting active ones.
\<close>

theorem second_factor_bound:
  assumes "1 \<le> threshold" and "0 < window" and "sorted (t0 # map snd es)"
  shows "real (admissions (reserve_step k) es (NewLoginFailureTracker threshold window))
    \<le> of_int threshold * (1 + real_of_int (last (t0 # map snd es) - t0) / of_int window)"
proof -
  let ?t = "NewLoginFailureTracker threshold window"
  have "windows_ok threshold window ?t t0"
    using assms(1,2) by (simp add: windows_ok_def live_windows_def NewLoginFailureTracker_def)
  from second_factor.admissions_bound[OF this _ assms(3), of k]
  have "real (admissions (reserve_step k) es ?t) \<le> window_credit k threshold (of_int threshold / of_int window) (ltSecondFactor ?t) t0
      + of_int threshold / of_int window * real_of_int (last (t0 # map snd es) - t0)" by blast
  also have "window_credit k threshold (of_int threshold / of_int window) (ltSecondFactor ?t) t0 = of_int threshold"
    by (simp add: window_credit_def NewLoginFailureTracker_def)
  finally show ?thesis by (simp add: distrib_left del: last.simps)
qed

theorem second_factor_bound_witness:
  "real (admissions (reserve_step ''mfa'') [(''mfa'', 1), (''mfa'', 2), (''x'', 3), (''mfa'', 4)] (NewLoginFailureTracker 2 (10 * minute)))
     \<le> 2 * (1 + 4 / of_int (10 * minute))"
  using second_factor_bound[of 2 "10 * minute" 0 "[(''mfa'', 1), (''mfa'', 2), (''x'', 3), (''mfa'', 4)]" "''mfa''"]
  by (simp add: minute_def second_def)

section \<open>Bounded memory of the tracker\<close>

definition tracker_ok :: "LoginFailureTracker \<Rightarrow> bool" where
  "tracker_ok t \<longleftrightarrow> lru_ok (ltFails t) (ltLru t) \<and> length (ltFails t) \<le> maxLoginFailureBuckets \<and>
     (\<forall>x \<in> set (ltFails t). int (length (snd x)) \<le> stampCap t)"

lemma stampCap_update [simp]:
  "stampCap (t\<lparr>ltLastPrune := p\<rparr>) = stampCap t" "stampCap (t\<lparr>ltFails := f\<rparr>) = stampCap t" "stampCap (t\<lparr>ltLru := l\<rparr>) = stampCap t"
  by (simp_all add: stampCap_def)

lemma capped_update [simp]: "capped (t\<lparr>ltFails := f\<rparr>) = capped t" "capped (t\<lparr>ltLru := l\<rparr>) = capped t"
  by (simp_all add: capped_def fun_eq_iff)

lemma map_of_key: "map_of m k = Some v \<Longrightarrow> k \<in> fst ` set m"
  by (metis domI dom_map_of_conv_image_fst)

lemma removeBucket_ok: "tracker_ok t \<Longrightarrow> tracker_ok (removeBucketLocked email t)"
  using lru_ok_delete[of "ltFails t" "ltLru t" email] length_delete_le[of email "ltFails t"]
  by (auto simp: tracker_ok_def removeBucketLocked_def AList.delete_eq split: option.split intro: order_trans[OF length_filter_le])

lemma prune_ok:
  assumes "tracker_ok t"
  shows "tracker_ok (pruneLocked email now t)"
proof (cases "map_of (ltFails t) email")
  case (Some stamps)
  note key = map_of_key[OF Some]
  have "int (length stamps) \<le> stampCap t" using assms map_of_SomeD[OF Some] by (auto simp: tracker_ok_def)
  moreover have "length (fresh_stamps (ltWindow t) now stamps) \<le> length stamps" by (simp add: fresh_stamps_def)
  ultimately have "int (length (fresh_stamps (ltWindow t) now stamps)) \<le> stampCap t" by linarith
  then show ?thesis using assms removeBucket_ok[OF assms, of email] key
    by (auto simp: pruneLocked_def Some Let_def tracker_ok_def length_update_present stampCap_def
        intro: lru_ok_update dest!: set_update_sub)
qed (simp add: pruneLocked_def assms)

lemma fold_prune_ok: "tracker_ok t \<Longrightarrow> tracker_ok (fold (\<lambda>email. pruneLocked email now) emails t)"
  by (induction emails arbitrary: t) (auto intro: prune_ok)

lemma pruneAll_ok: "tracker_ok t \<Longrightarrow> tracker_ok (pruneAllLocked now t)"
  using fold_prune_ok[of t now "map fst (ltFails t)"] by (simp add: pruneAllLocked_def tracker_ok_def)

lemma removeOldest_ok:
  assumes "tracker_ok t"
  shows "tracker_ok (removeOldestLocked t) \<and> length (ltFails (removeOldestLocked t)) = length (ltFails t) - 1 \<and>
    fst ` set (ltFails (removeOldestLocked t)) \<subseteq> fst ` set (ltFails t)"
proof (cases "ltLru t = []")
  case True
  with assms have "ltFails t = []" by (auto simp: tracker_ok_def lru_ok_def)
  with True assms show ?thesis by (simp add: removeOldestLocked_def)
next
  case False
  have ok: "lru_ok (ltFails t) (ltLru t)" using assms by (simp add: tracker_ok_def)
  then have "last (ltLru t) \<in> fst ` set (ltFails t)" using False by (auto simp: lru_ok_def)
  then obtain v where v: "map_of (ltFails t) (last (ltLru t)) = Some v" by (metis map_of_eq_None_iff not_None_eq)
  then show ?thesis using False drop_oldest_ok[OF ok] removeBucket_ok[OF assms, of "last (ltLru t)"]
    by (simp add: removeOldestLocked_def removeBucketLocked_def drop_oldest_def)
qed

lemma capped_length: "int (length (capped t stamps @ [now])) \<le> stampCap t"
  by (auto simp: capped_def stampCap_def Suc_le_eq split: if_splits)

lemma recordLocal_ok:
  assumes "tracker_ok t"
  shows "tracker_ok (snd (recordLocal email now t))"
proof -
  define t1 where "t1 = pruneLocked email now (pruneAllLocked now t)"
  have t1: "tracker_ok t1" using assms by (simp add: t1_def prune_ok pruneAll_ok)
  show ?thesis
  proof (cases "map_of (ltFails t1) email")
    case None
    then have fresh: "email \<notin> fst ` set (ltFails t1)" by (simp add: map_of_eq_None_iff)
    define t2 where "t2 = (if length (ltFails t1) \<ge> maxLoginFailureBuckets then removeOldestLocked t1 else t1)"
    have t2: "tracker_ok t2" "length (ltFails t2) < maxLoginFailureBuckets" "email \<notin> fst ` set (ltFails t2)"
      using t1 removeOldest_ok[OF t1] fresh by (auto simp: t2_def tracker_ok_def maxLoginFailureBuckets_def)
    have "snd (recordLocal email now t) =
        t2\<lparr>ltLru := email # ltLru t2, ltFails := AList.update email (capped t2 [] @ [now]) (ltFails t2)\<rparr>"
      using None by (simp add: recordLocal_def Let_def t1_def[symmetric] t2_def[symmetric])
    moreover have "int (length (capped t2 [] @ [now])) \<le> stampCap t2" by (rule capped_length)
    ultimately show ?thesis
      using t2 lru_ok_insert[of "ltFails t2" "ltLru t2" email] length_update_fresh[OF t2(3)]
      by (auto simp: tracker_ok_def stampCap_def dest!: set_update_sub)
  next
    case (Some stamps)
    note key = map_of_key[OF Some]
    have "snd (recordLocal email now t) =
        t1\<lparr>ltLru := move_to_front email (ltLru t1), ltFails := AList.update email (capped t1 stamps @ [now]) (ltFails t1)\<rparr>"
      using Some by (simp add: recordLocal_def Let_def t1_def[symmetric])
    moreover have "int (length (capped t1 stamps @ [now])) \<le> stampCap t1" by (rule capped_length)
    ultimately show ?thesis
      using t1 key by (auto simp: tracker_ok_def length_update_present dom_update stampCap_def
          intro!: lru_ok_update lru_ok_move dest!: set_update_sub)
  qed
qed

text \<open>The calls of a run.\<close>

datatype login_event = Fail string time | Check string time | Reset string

fun login_step :: "login_event \<Rightarrow> LoginFailureTracker \<Rightarrow> LoginFailureTracker" where
  "login_step (Fail email now) t = snd (recordLocal email now t)"
| "login_step (Check email now) t = snd (allow_local email now t)"
| "login_step (Reset email) t = ResetContext email t"

text \<open>
  Whatever the accounts named in a run, the tracker keeps at most \<open>maxLoginFailureBuckets\<close> accounts
  with at most \<open>threshold + 6\<close> times each.
\<close>

lemma login_step_ok:
  assumes "tracker_ok t"
  shows "tracker_ok (login_step e t)"
proof (cases e)
  case (Check email now)
  define t1 where "t1 = pruneLocked email now (pruneAllLocked now t)"
  have t1: "tracker_ok t1" using assms by (simp add: t1_def prune_ok pruneAll_ok)
  show ?thesis
  proof (cases "map_of (ltFails t1) email")
    case (Some stamps)
    with t1 map_of_key[OF Some] lru_ok_move[of "ltFails t1" "ltLru t1" email] show ?thesis
      by (simp add: Check allow_local_def Let_def t1_def[symmetric] tracker_ok_def)
  qed (simp add: Check allow_local_def Let_def t1_def[symmetric] t1)
qed (simp_all add: assms recordLocal_ok removeBucket_ok ResetContext_def)

lemma tracker_memory: "tracker_ok t \<Longrightarrow> tracker_ok (fold login_step es t)"
  by (induction es arbitrary: t) (auto intro: login_step_ok)

section \<open>The count refines the log of failures\<close>

text \<open>The failures of one account since its last successful login, oldest first.\<close>

fun log_step :: "string \<Rightarrow> login_event \<Rightarrow> time list \<Rightarrow> time list" where
  "log_step k (Fail email now) fs = (if email = k then fs @ [now] else fs)"
| "log_step k (Check email now) fs = fs"
| "log_step k (Reset email) fs = (if email = k then [] else fs)"

definition failure_log :: "string \<Rightarrow> login_event list \<Rightarrow> time list" where
  "failure_log k es = fold (log_step k) es []"

definition last_n :: "nat \<Rightarrow> 'a list \<Rightarrow> 'a list" where
  "last_n n xs = drop (length xs - n) xs"

lemma last_n_snoc: "last_n (Suc n) (xs @ [x]) = last_n n xs @ [x]"
  by (simp add: last_n_def)

lemma last_n_last_n: "n \<le> m \<Longrightarrow> last_n n (last_n m xs) = last_n n xs"
  by (cases "m \<le> length xs") (auto simp: last_n_def)

lemma length_last_n: "length (last_n n xs) = min n (length xs)"
  by (simp add: last_n_def)

lemma filter_last_n: "sorted xs \<Longrightarrow> filter (\<lambda>x. x > a) (last_n n xs) = last_n n (filter (\<lambda>x. x > a) xs)" for a :: int
proof (induction xs arbitrary: n rule: rev_induct)
  case (snoc x xs)
  show ?case
  proof (cases n)
    case (Suc m)
    show ?thesis
    proof (cases "x > a")
      case True
      with snoc show ?thesis by (simp add: Suc last_n_snoc sorted_append)
    next
      case False
      then have "filter (\<lambda>x. x > a) (xs @ [x]) = []" using snoc.prems by (auto simp: sorted_append filter_empty_conv)
      moreover have "filter (\<lambda>x. x > a) (last_n n (xs @ [x])) = []"
        using calculation by (auto simp: last_n_def filter_empty_conv dest!: in_set_dropD)
      ultimately show ?thesis by (simp add: last_n_def)
    qed
  qed (simp add: last_n_def)
qed (simp add: last_n_def)

lemma fresh_fresh: "c \<le> c' \<Longrightarrow> fresh_stamps w c' (fresh_stamps w c xs) = fresh_stamps w c' xs"
  by (induction xs) (auto simp: fresh_stamps_def)

lemma fresh_last_n: "sorted xs \<Longrightarrow> fresh_stamps w c (last_n n xs) = last_n n (fresh_stamps w c xs)"
  by (simp add: fresh_stamps_def filter_last_n)

definition stamps_of :: "LoginFailureTracker \<Rightarrow> string \<Rightarrow> time list" where
  "stamps_of t k = (case map_of (ltFails t) k of Some s \<Rightarrow> s | None \<Rightarrow> [])"

text \<open>What the pruning keeps: the configuration, a part of the accounts, and the fresh times.\<close>

definition pruned :: "time \<Rightarrow> LoginFailureTracker \<Rightarrow> LoginFailureTracker \<Rightarrow> bool" where
  "pruned now t t' \<longleftrightarrow> ltThreshold t' = ltThreshold t \<and> ltWindow t' = ltWindow t \<and>
     fst ` set (ltFails t') \<subseteq> fst ` set (ltFails t) \<and>
     (\<forall>k c. now \<le> c \<longrightarrow> fresh_stamps (ltWindow t) c (stamps_of t' k) = fresh_stamps (ltWindow t) c (stamps_of t k))"

lemma stamps_of_update [simp]:
  "stamps_of (t\<lparr>ltLastPrune := p\<rparr>) = stamps_of t" "stamps_of (t\<lparr>ltLru := l\<rparr>) = stamps_of t"
  "stamps_of (t\<lparr>ltFails := AList.update k s (ltFails t)\<rparr>) = (stamps_of t)(k := s)"
  by (auto simp: stamps_of_def update_conv' fun_eq_iff)

lemma stamps_upd: "stamps_of (t\<lparr>ltLru := l, ltFails := AList.update k s (ltFails t)\<rparr>) = (stamps_of t)(k := s)"
  by (auto simp: stamps_of_def update_conv' fun_eq_iff)

lemma stamps_of_remove: "stamps_of (removeBucketLocked k t) = (stamps_of t)(k := [])"
  by (auto simp: stamps_of_def removeBucketLocked_def delete_conv' fun_eq_iff split: option.split)

lemma prune_pruned: "pruned now t (pruneLocked k now t)"
proof (cases "map_of (ltFails t) k")
  case (Some s)
  then have s: "stamps_of t k = s" by (simp add: stamps_of_def)
  show ?thesis
  proof (cases "fresh_stamps (ltWindow t) now s = []")
    case True
    then have "fresh_stamps (ltWindow t) c s = []" if "now \<le> c" for c
      using fresh_fresh[OF that, of "ltWindow t" s] by (simp add: fresh_stamps_def)
    moreover have "pruneLocked k now t = removeBucketLocked k t" using True by (simp add: pruneLocked_def Some)
    moreover have "ltThreshold (removeBucketLocked k t) = ltThreshold t" "ltWindow (removeBucketLocked k t) = ltWindow t"
      "fst ` set (ltFails (removeBucketLocked k t)) \<subseteq> fst ` set (ltFails t)"
      by (simp_all add: removeBucketLocked_def Some keys_delete Diff_subset)
    ultimately show ?thesis by (simp add: pruned_def stamps_of_remove s fresh_stamps_def)
  next
    case False
    then show ?thesis using map_of_key[OF Some]
      by (auto simp: pruned_def pruneLocked_def Some Let_def s fresh_fresh dom_update)
  qed
qed (simp add: pruned_def pruneLocked_def)

lemma pruned_trans: "pruned now t t' \<Longrightarrow> pruned now t' t'' \<Longrightarrow> pruned now t t''"
  using subset_trans[of "fst ` set (ltFails t'')" "fst ` set (ltFails t')" "fst ` set (ltFails t)"] by (simp add: pruned_def)

lemma pruneAll_pruned: "pruned now t (pruneAllLocked now t)"
proof -
  have "pruned now t (fold (\<lambda>email. pruneLocked email now) emails t)" for emails
  proof (induction emails arbitrary: t)
    case (Cons e es)
    then show ?case using pruned_trans[OF prune_pruned[of now t e] Cons[of "pruneLocked e now t"]] by simp
  qed (simp add: pruned_def)
  then show ?thesis by (auto simp: pruneAllLocked_def pruned_def)
qed

definition log_inv :: "string set \<Rightarrow> int \<Rightarrow> duration \<Rightarrow> string \<Rightarrow> time list \<Rightarrow> LoginFailureTracker \<Rightarrow> time \<Rightarrow> bool" where
  "log_inv K th w k fs t now \<longleftrightarrow> ltThreshold t = th \<and> ltWindow t = w \<and> 1 \<le> th \<and> finite K \<and> card K \<le> maxLoginFailureBuckets \<and>
     tracker_ok t \<and> fst ` set (ltFails t) \<subseteq> K \<and> sorted fs \<and> (\<forall>x \<in> set fs. x \<le> now) \<and>
     (\<forall>c \<ge> now. fresh_stamps w c (stamps_of t k) = last_n (nat (th + 6)) (fresh_stamps w c fs))"

lemma log_inv_pruned:
  assumes "log_inv K th w k fs t now" "now \<le> now'" "pruned now' t t'" "tracker_ok t'"
  shows "log_inv K th w k fs t' now'"
  using assms subset_trans[of "fst ` set (ltFails t')" "fst ` set (ltFails t)" K] unfolding log_inv_def pruned_def by auto

lemma prune_stamps:
  assumes "log_inv K th w k fs t now"
  shows "stamps_of (pruneLocked k now t) k = last_n (nat (th + 6)) (fresh_stamps w now fs)"
proof -
  have "stamps_of (pruneLocked k now t) k = fresh_stamps (ltWindow t) now (stamps_of t k)"
  proof (cases "map_of (ltFails t) k")
    case (Some s)
    then have "stamps_of t k = s" by (simp add: stamps_of_def)
    then show ?thesis by (simp add: pruneLocked_def Some Let_def stamps_of_remove)
  qed (simp add: pruneLocked_def stamps_of_def fresh_stamps_def)
  with assms show ?thesis by (simp add: log_inv_def)
qed

lemma capped_last_n: "1 \<le> ltThreshold t \<Longrightarrow> capped t s = last_n (nat (ltThreshold t + 5)) s"
proof (cases "int (length s) \<ge> ltThreshold t + 6")
  case True
  assume "1 \<le> ltThreshold t"
  with True have "length s - nat (ltThreshold t + 6) + 1 = length s - nat (ltThreshold t + 5)" by linarith
  with True \<open>1 \<le> ltThreshold t\<close> show ?thesis by (simp add: capped_def stampCap_def last_n_def)
qed (simp add: capped_def stampCap_def last_n_def)

text \<open>One failure within the capacity.\<close>

lemma record_effect:
  assumes "log_inv K th w k fs t now" "now \<le> now'" "email \<in> K"
  shows "\<exists>t1. log_inv K th w k fs t1 now' \<and>
    fst (recordLocal email now' t) = int (length (last_n (nat (th + 5)) (stamps_of t1 email) @ [now'])) \<and>
    (email = k \<longrightarrow> stamps_of t1 k = last_n (nat (th + 6)) (fresh_stamps w now' fs)) \<and>
    stamps_of (snd (recordLocal email now' t)) = (stamps_of t1)(email := last_n (nat (th + 5)) (stamps_of t1 email) @ [now']) \<and>
    fst ` set (ltFails (snd (recordLocal email now' t))) = insert email (fst ` set (ltFails t1)) \<and>
    ltThreshold (snd (recordLocal email now' t)) = th \<and> ltWindow (snd (recordLocal email now' t)) = w"
proof -
  have ok: "tracker_ok t" using assms(1) by (simp add: log_inv_def)
  define t0 where "t0 = pruneAllLocked now' t"
  have i0: "log_inv K th w k fs t0 now'"
    unfolding t0_def using assms(1,2) pruneAll_pruned pruneAll_ok[OF ok] by (rule log_inv_pruned)
  define t1 where "t1 = pruneLocked email now' t0"
  have i1: "log_inv K th w k fs t1 now'"
    unfolding t1_def using i0 order_refl prune_pruned by (rule log_inv_pruned) (use i0 in \<open>simp add: prune_ok log_inv_def\<close>)
  then have th: "ltThreshold t1 = th" "1 \<le> th" "ltWindow t1 = w" by (auto simp: log_inv_def)
  have s1: "email = k \<longrightarrow> stamps_of t1 k = last_n (nat (th + 6)) (fresh_stamps w now' fs)"
    using prune_stamps[OF i0] by (auto simp: t1_def)
  show ?thesis
  proof (cases "map_of (ltFails t1) email")
    case None
    then have fresh: "email \<notin> fst ` set (ltFails t1)" by (simp add: map_of_eq_None_iff)
    have "fst ` set (ltFails t1) \<subset> K" using i1 fresh assms(3) by (auto simp: log_inv_def)
    then have "card (fst ` set (ltFails t1)) < maxLoginFailureBuckets"
      using i1 by (meson log_inv_def psubset_card_mono less_le_trans)
    moreover have "card (fst ` set (ltFails t1)) = length (ltFails t1)"
      using i1 by (metis distinct_card length_map log_inv_def list.set_map lru_ok_def tracker_ok_def)
    ultimately have "length (ltFails t1) < maxLoginFailureBuckets" by simp
    then have r: "recordLocal email now' t = (int (length (capped t1 [] @ [now'])),
        t1\<lparr>ltLru := email # ltLru t1, ltFails := AList.update email (capped t1 [] @ [now']) (ltFails t1)\<rparr>)"
      using None by (simp add: recordLocal_def Let_def t0_def[symmetric] t1_def[symmetric])
    have "stamps_of t1 email = []" using None by (simp add: stamps_of_def)
    then show ?thesis using i1 s1 th by (intro exI[of _ t1]) (simp add: r capped_last_n dom_update stamps_upd)
  next
    case (Some s)
    then have "stamps_of t1 email = s" by (simp add: stamps_of_def)
    moreover have r: "recordLocal email now' t = (int (length (capped t1 s @ [now'])),
        t1\<lparr>ltLru := move_to_front email (ltLru t1), ltFails := AList.update email (capped t1 s @ [now']) (ltFails t1)\<rparr>)"
      using Some by (simp add: recordLocal_def Let_def t0_def[symmetric] t1_def[symmetric])
    ultimately show ?thesis using i1 s1 th by (intro exI[of _ t1]) (simp add: r capped_last_n dom_update stamps_upd)
  qed
qed

fun event_key :: "login_event \<Rightarrow> string" where
  "event_key (Fail email now) = email"
| "event_key (Check email now) = email"
| "event_key (Reset email) = email"

fun event_times :: "login_event \<Rightarrow> time list" where
  "event_times (Fail email now) = [now]"
| "event_times (Check email now) = [now]"
| "event_times (Reset email) = []"

lemma record_stamps:
  assumes "sorted fs" "\<forall>x \<in> set fs. x \<le> now" "now \<le> c"
  shows "fresh_stamps w c (last_n n (last_n (Suc n) (fresh_stamps w now fs)) @ [now]) = last_n (Suc n) (fresh_stamps w c (fs @ [now]))"
proof -
  have "sorted (fresh_stamps w now fs @ [now])"
    using assms(1,2) by (auto simp: fresh_stamps_def sorted_append sorted_filter[where f = id, simplified])
  then have "fresh_stamps w c (last_n (Suc n) (fresh_stamps w now fs @ [now])) = last_n (Suc n) (fresh_stamps w c (fresh_stamps w now fs @ [now]))"
    by (rule fresh_last_n)
  also have "fresh_stamps w c (fresh_stamps w now fs @ [now]) = fresh_stamps w c (fs @ [now])"
    using fresh_fresh[OF assms(3), of w fs] by (simp add: fresh_stamps_def)
  finally show ?thesis by (simp add: last_n_snoc last_n_last_n)
qed

lemma fail_inv:
  assumes "log_inv K th w k fs t now" "now \<le> now'" "email \<in> K"
  shows "log_inv K th w k (log_step k (Fail email now') fs) (login_step (Fail email now') t) now'"
proof -
  from record_effect[OF assms] obtain t1 where i1: "log_inv K th w k fs t1 now'"
    and k: "email = k \<longrightarrow> stamps_of t1 k = last_n (nat (th + 6)) (fresh_stamps w now' fs)"
    and s: "stamps_of (snd (recordLocal email now' t)) = (stamps_of t1)(email := last_n (nat (th + 5)) (stamps_of t1 email) @ [now'])"
    and r: "fst ` set (ltFails (snd (recordLocal email now' t))) = insert email (fst ` set (ltFails t1))"
      "ltThreshold (snd (recordLocal email now' t)) = th" "ltWindow (snd (recordLocal email now' t)) = w"
    by (elim exE conjE) simp
  have ok: "tracker_ok (snd (recordLocal email now' t))" using assms(1) recordLocal_ok by (simp add: log_inv_def)
  have fs: "sorted fs" "\<forall>x \<in> set fs. x \<le> now'" "1 \<le> th" using i1 by (auto simp: log_inv_def)
  then have th: "nat (th + 6) = Suc (nat (th + 5))" by linarith
  have "fresh_stamps w c (stamps_of (snd (recordLocal email now' t)) k) = last_n (nat (th + 6)) (fresh_stamps w c (log_step k (Fail email now') fs))"
    if "now' \<le> c" for c
  proof (cases "email = k")
    case True
    from record_stamps[OF fs(1,2) that, of w "nat (th + 5)"] k True s[unfolded True] show ?thesis by (simp add: th)
  next
    case False
    with i1 that show ?thesis by (simp add: s log_inv_def)
  qed
  moreover have "sorted (log_step k (Fail email now') fs)" "\<forall>x \<in> set (log_step k (Fail email now') fs). x \<le> now'"
    using fs by (auto simp: sorted_append)
  ultimately show ?thesis using i1 ok r assms(3) by (simp add: log_inv_def)
qed

lemma login_step_inv:
  assumes "log_inv K th w k fs t now" "event_key e \<in> K" "sorted (now # event_times e)"
  shows "log_inv K th w k (log_step k e fs) (login_step e t) (last (now # event_times e))"
proof (cases e)
  case (Fail email now')
  with fail_inv[OF assms(1), of now' email] assms(2,3) show ?thesis by simp
next
  case (Check email now')
  let ?t = "pruneLocked email now' (pruneAllLocked now' t)"
  have ok: "tracker_ok t" using assms(1) by (simp add: log_inv_def)
  have "pruned now' t ?t" using pruned_trans[OF pruneAll_pruned prune_pruned] .
  moreover have "now \<le> now'" using assms(3) Check by simp
  ultimately have i: "log_inv K th w k fs ?t now'" using assms(1) prune_ok[OF pruneAll_ok[OF ok]] log_inv_pruned by blast
  have "login_step e t = ?t \<or> login_step e t = ?t\<lparr>ltLru := move_to_front email (ltLru ?t)\<rparr>"
    by (simp add: Check allow_local_def Let_def split: option.split)
  moreover have "tracker_ok (login_step e t)" using ok by (rule login_step_ok)
  ultimately show ?thesis using i by (elim disjE) (simp_all add: Check log_inv_def)
next
  case (Reset email)
  have "tracker_ok (removeBucketLocked email t)" using assms(1) removeBucket_ok by (simp add: log_inv_def)
  moreover have "ltThreshold (removeBucketLocked email t) = ltThreshold t" "ltWindow (removeBucketLocked email t) = ltWindow t"
    "fst ` set (ltFails (removeBucketLocked email t)) \<subseteq> fst ` set (ltFails t)"
    by (auto simp: removeBucketLocked_def keys_delete split: option.split)
  ultimately show ?thesis using assms(1) subset_trans[of _ "fst ` set (ltFails t)" K]
    by (auto simp: Reset log_inv_def ResetContext_def stamps_of_remove fresh_stamps_def last_n_def)
qed

lemma login_run_inv:
  assumes "log_inv K th w k fs t now" "\<forall>e \<in> set es. event_key e \<in> K" "sorted (now # concat (map event_times es))"
  shows "log_inv K th w k (fold (log_step k) es fs) (fold login_step es t) (last (now # concat (map event_times es)))"
  using assms
proof (induction es arbitrary: fs t now)
  case (Cons e es)
  let ?now = "last (now # event_times e)"
  have "sorted (now # event_times e)" "sorted (?now # concat (map event_times es))" using Cons.prems(3) by (cases e; simp)+
  from Cons.IH[OF login_step_inv[OF Cons.prems(1) _ this(1)] _ this(2)] Cons.prems(2)
  have "log_inv K th w k (fold (log_step k) es (log_step k e fs)) (fold login_step es (login_step e t)) (last (?now # concat (map event_times es)))"
    by simp
  then show ?case by (cases e) simp_all
qed simp

text \<open>C39. The failure counter refines the log of failures: in every run of failed logins, checks and
  successful logins whose clock does not go back and which names at most
  \<open>maxLoginFailureBuckets\<close> accounts, recording a failure of an account returns one plus the number of
  its failures inside the window since its last successful login, capped at the threshold plus six,
  above which the advertised delay no longer grows. The periodic pruning, the checks and the other
  accounts never change it.
\<close>

theorem login_failure_count:
  assumes "1 \<le> threshold" and "finite K" and "card K \<le> maxLoginFailureBuckets" and "k \<in> K"
    and "\<forall>e \<in> set es. event_key e \<in> K" and "sorted (t0 # concat (map event_times es) @ [now])"
  shows "fst (recordLocal k now (fold login_step es (NewLoginFailureTracker threshold window))) =
    min (threshold + 6) (1 + int (length (fresh_stamps window now (failure_log k es))))"
proof -
  let ?t = "NewLoginFailureTracker threshold window" and ?now = "last (t0 # concat (map event_times es))"
  have "log_inv K threshold window k [] ?t t0"
    using assms(1-3) by (simp add: log_inv_def NewLoginFailureTracker_def tracker_ok_def lru_ok_def stamps_of_def fresh_stamps_def last_n_def)
  moreover have "sorted (t0 # concat (map event_times es))" using assms(6) by (simp add: sorted_append)
  moreover have le: "?now \<le> now"
  proof -
    have "sorted ((t0 # concat (map event_times es)) @ [now])" using assms(6) by simp
    then have "\<forall>x \<in> set (t0 # concat (map event_times es)). x \<le> now" unfolding sorted_append by simp
    then show ?thesis by (meson last_in_set list.discI)
  qed
  ultimately have i: "log_inv K threshold window k (failure_log k es) (fold login_step es ?t) ?now"
    using login_run_inv[OF _ assms(5)] by (simp add: failure_log_def)
  from record_effect[OF i le assms(4)] obtain t1 where
    "fst (recordLocal k now (fold login_step es ?t)) = int (length (last_n (nat (threshold + 5)) (stamps_of t1 k) @ [now]))"
    "stamps_of t1 k = last_n (nat (threshold + 6)) (fresh_stamps window now (failure_log k es))"
    by auto
  moreover have "int (min (nat (threshold + 5)) (min (nat (threshold + 6)) n) + 1) = min (threshold + 6) (1 + int n)" for n
    using assms(1) by linarith
  ultimately show ?thesis by (simp only: length_append length_last_n list.size) simp
qed

definition example_logins :: "login_event list" where
  "example_logins = [Fail ''a'' 10, Fail ''b'' 11, Reset ''a'', Fail ''a'' 12, Check ''a'' 13, Fail ''a'' 14]"

theorem login_failure_count_witness:
  "fst (recordLocal ''a'' 15 (fold login_step example_logins (NewLoginFailureTracker 5 (10 * minute)))) = 3"
  using login_failure_count[of 5 "{''a'', ''b''}" "''a''" example_logins 0 15 "10 * minute"]
  by (simp add: example_logins_def failure_log_def fresh_stamps_def maxLoginFailureBuckets_def minute_def second_def)

text \<open>
  The advertised delay: zero below the threshold, at most 30 seconds, and never shorter for more
  failures.
\<close>

lemma RetryAfter_bounds: "0 \<le> RetryAfter t n" "RetryAfter t n \<le> 30 * second" "n < ltThreshold t \<Longrightarrow> RetryAfter t n = 0"
  by (auto simp: RetryAfter_def second_def Let_def)

lemma RetryAfter_mono: "m \<le> n \<Longrightarrow> RetryAfter t m \<le> RetryAfter t n"
proof (cases "ltThreshold t \<le> 0 \<or> m < ltThreshold t")
  case True
  then have "RetryAfter t m = 0" by (auto simp: RetryAfter_def)
  then show ?thesis using RetryAfter_bounds(1) by simp
next
  case False
  assume "m \<le> n"
  then have "nat (min 5 (m - ltThreshold t)) \<le> nat (min 5 (n - ltThreshold t))" by (simp add: nat_mono)
  then have "(2::int) ^ nat (min 5 (m - ltThreshold t)) \<le> 2 ^ nat (min 5 (n - ltThreshold t))" by (rule power_increasing) simp
  then show ?thesis using False \<open>m \<le> n\<close> by (auto simp: RetryAfter_def Let_def second_def min_le_iff_disj)
qed

text \<open>The count at which the delay stops growing is within the stamps that are kept.\<close>

lemma RetryAfter_saturates: "ltThreshold t + 5 \<le> n \<Longrightarrow> RetryAfter t n = RetryAfter t (ltThreshold t + 5)"
  by (auto simp: RetryAfter_def Let_def)

end
