(* ===== verification/Spec2Isabelle.thy ===== *)
theory Spec2Isabelle
  imports Prelude Bkt Fsrs Kst Models Phase Gate Concept_Selector Action_Selector Evidence Transfer_Model Json_Reader Rubric Mastery Alerts Orchestrator Transactions Collective Attempts Learning_Sessions Recording Answers Principals Credentials Token_Families Code_Redemption Idempotency Client_Address Admission Login_Failures
begin

text \<open>
  A verification library for tutor-mcp, the tutoring runtime under \<^verbatim>\<open>src/\<close>. The program keeps, for each
  learner and concept, an estimate of knowledge and of memory; it decides what to serve next from
  these estimates, records graded answers as evidence, and only claims mastery that stored evidence
  backs. The library models the code that takes and records these decisions, and the part of the
  authentication layer that protects it, function by function.

  \<^bold>\<open>How the parts interact.\<close> A client obtains its credentials from the store (\<open>db/store.go\<close>,
  \<open>db/credential_routes.go\<close>): an authorization code is exchanged for a refresh token, which each use
  rotates; \<open>models/\<close> and \<open>auth/scopes.go\<close> say what a grant and a role allow. A request passes the limits
  of \<open>auth/\<close> and, when it writes, the replay protection of \<open>tools/idempotency.go\<close>, and reaches a tool. A
  request for an activity runs \<open>engine/orchestrator.go\<close>: it reads the state, computes the alerts
  (\<open>engine/alert.go\<close>), evaluates the phase machine (\<open>engine/phase_fsm.go\<close>), filters the concepts through
  the gate (\<open>engine/gate.go\<close>), selects a concept and an action (\<open>engine/concept_selector.go\<close>,
  \<open>engine/action_selector.go\<close>) and writes the phase by compare-and-swap (\<open>db/phase.go\<close>). An answer is
  recorded by \<open>tools/interaction_apply.go\<close> in one transaction: it consumes the submitted attempt
  (\<open>db/assessments.go\<close>), touches the learning session (\<open>db/learning_sessions.go\<close>), applies the current
  collective weight (\<open>db/collective_weights.go\<close>), moves the knowledge estimate (\<open>algorithms/bkt.go\<close>) and the
  memory card (\<open>algorithms/fsrs.go\<close>) and appends the interaction and its audit snapshot. What the learner
  may claim is assessed from that evidence (\<open>engine/evidence.go\<close>, \<open>uncertainty.go\<close>,
  \<open>transfer_model.go\<close>, \<open>mastery_status.go\<close>), whose graded documents pass the strict reader and the rubric of
  \<open>assessment/\<close>.

  \<^bold>\<open>Theories, in the order of their imports.\<close>
  \<^item> \<open>Prelude\<close>: float64 as \<open>f64\<close> (exact reals with NaN and the infinities), time as nanoseconds since
    Go's zero time, byte strings, error values (\<open>sbind\<close>), the strict-maximum loop.
  \<^item> \<open>Bkt\<close>, \<open>Fsrs\<close>, \<open>Kst\<close>: \<open>algorithms/\<close>, every file. Estimates stay probabilities and move the right
    way, the information gain is the mutual information, every history of reviews keeps a well-formed
    card, retrievability is a falling probability, intervals and abilities stay in their ranges.
  \<^item> \<open>Models\<close>: the records and enumerations of \<open>models/\<close> that the engine reads.
  \<^item> \<open>Phase\<close>: \<open>phase_fsm.go\<close>, \<open>phase_config.go\<close>. The machine as a step relation with exactly three
    edges, never back to DIAGNOSTIC. The entropy reduction of the configuration is reported and, against
    the comment of \<open>phase_config.go\<close>, not required to leave DIAGNOSTIC.
  \<^item> \<open>Gate\<close>, \<open>Concept_Selector\<close>, \<open>Action_Selector\<close>: \<open>gate.go\<close>, \<open>concept_selector.go\<close>,
    \<open>recall_eligibility.go\<close>, \<open>action_selector.go\<close>, \<open>fade_controller.go\<close>, and the action history of
    \<open>db/phase.go\<close>. What the gate lets through, that each selector returns an optimal eligible concept with
    its score, and the rotation of high-mastery activities: it holds while a concept has at most 50 rows, the
    window of the history query, and \<open>rotation_slips_beyond_window\<close> is an example where it fails after.
  \<^item> \<open>Evidence\<close>, \<open>Transfer_Model\<close>: \<open>evidence.go\<close>, \<open>uncertainty.go\<close>, \<open>transfer_model.go\<close>. Bounds of the
    uncertainty, and labels that are always backed by rows.
  \<^item> \<open>Json_Reader\<close>, \<open>Rubric\<close>: \<open>assessment/json.go\<close>, \<open>rubric.go\<close>, \<open>score.go\<close>. Behind its guard (at most
    16 KiB of valid UTF-8, whose decoder is modelled) the reader accepts exactly the printed forms of
    unambiguous values; rubrics round-trip; the verdict compares the exact decimal sum of the scores with
    the passing score while the reported total is the nearest float64; the panic of \<open>decimal\<close> is
    unreachable.
  \<^item> \<open>Mastery\<close>: \<open>mastery_status.go\<close>, \<open>evidence_controller.go\<close>. Delayed retrieval equals its reference
    definition, and each mastery claim is backed by a stored assessment, dated to its submission.
  \<^item> \<open>Alerts\<close>: \<open>alert.go\<close>, \<open>calibration_policy.go\<close>, \<open>alert_evidence.go\<close>. The arbitration of alerts.
  \<^item> \<open>Orchestrator\<close>: \<open>orchestrator.go\<close> and the phase writes of \<open>db/phase.go\<close>. The locale
    \<open>cas_register\<close> states what a compare-and-swap promises; concurrent calls refine the phase machine,
    failing calls write nothing, the served concept is one of the domain, critical forgetting comes
    first and the diagnosis cannot be skipped.
  \<^item> \<open>Transactions\<close>: \<open>WithTx\<close> and \<open>inTx\<close> of \<open>db/store.go\<close>; errors, failing statements, savepoints, the
    weakest preconditions \<open>wp\<close> of store operations and the locale \<open>store_relation\<close> for relations that every
    operation of a group keeps.
  \<^item> \<open>Collective\<close>, \<open>Attempts\<close>, \<open>Learning_Sessions\<close>: \<open>db/collective_weights.go\<close>, \<open>db/assessments.go\<close>,
    \<open>db/learning_sessions.go\<close>. Published weights move gradually and are applied once per version; an attempt
    only moves forward through its life and keeps its frozen task; a learner has one open session.
  \<^item> \<open>Recording\<close>, \<open>Answers\<close>: \<open>applyInteraction\<close> with the store operations it calls, and what it
    guarantees: an answer is recorded as the specification \<open>recorded\<close> says or not at all, an attempt is
    counted once, states stay well formed, and the memory card follows the response times (under the
    grading-time protocol, the grading times in the order of the calls).
  \<^item> \<open>Principals\<close>: \<open>models/oauth.go\<close>, \<open>principal.go\<close>, \<open>rbac.go\<close>, \<open>auth/scopes.go\<close>. Narrowing a scope is the
    inclusion of capabilities, authorization the union over the roles.
  \<^item> \<open>Credentials\<close>, \<open>Token_Families\<close>, \<open>Code_Redemption\<close>: the OAuth tables of \<open>db/store.go\<close> and
    \<open>db/credential_routes.go\<close>, with the principal lookup of \<open>db/identity.go\<close>. Every operation is one step
    of an abstract token machine; a refresh token is rotated once, the tokens of a family form a chain of
    ever narrower grants, a replay closes the family, an authorization code is redeemed once.
  \<^item> \<open>Idempotency\<close>: \<open>tools/idempotency.go\<close> over \<open>db/idempotency.go\<close>, statement by statement, under any
    interleaving, failure or stop: a key admits one handler, and replays repeat its answer.
  \<^item> \<open>Client_Address\<close>, \<open>Admission\<close>, \<open>Login_Failures\<close>: \<open>auth/ratelimit.go\<close>, \<open>concurrency.go\<close>,
    \<open>bcrypt_budget.go\<close>, \<open>login_failures.go\<close>, \<open>second_factor_attempts.go\<close>. Addresses are words; the
    locale \<open>metered\<close> bounds the admissions of a limiter by its credit and is interpreted on the token
    bucket and on the second factor; the locale \<open>slots\<close> relates a counter to the multiset of its
    holders; the failure counter refines the log of failures.

  \<^bold>\<open>Conventions.\<close> A struct is a record whose fields carry a short prefix; a pointer is an option, a
  slice of pointers that may be nil an option list; a Go map is a partial function, or an association
  list where its length or order matters; an error is the left value of a sum; formatted texts are
  lists of their parts, so that \<open>Sprintf\<close> is not modelled. A table is the list of its rows, or a partial
  function from its primary key; a statement may fail, as its \<open>Driver\<close> says, and a failing operation
  keeps what it wrote unless it opened the transaction. \<open>sort.Slice\<close> is a stable sort: the theorems on
  sorted data do not depend on the order of ties, or name it. What the sources take from libraries is an
  argument: the tokens of a JSON text, the shortest decimal and the nearest float64 of a number and the
  classes of Unicode runes (\<open>RubricLib\<close>), JSON encoding, digests and random values. So are the environment
  variable of the thresholds, the clock, and the rows of queries that are not modelled.

  \<^bold>\<open>Bounds and fuel.\<close> The JSON reader recurses on fuel \<open>2 * length (tokens raw) + 1\<close>, which
  \<open>json_reader_terminates\<close> proves to be enough; every other loop ends by its own measure.
  Durations saturate at 64 bits as in Go; counters are unbounded integers, since each is bounded by
  the number of rows or calls.

  \<^bold>\<open>Not modelled.\<close> float64 rounding: arithmetic is exact, with the special values, so that for instance
  the running sums of \<open>transfer_model.go\<close> do not depend on the order of the rows here. Of the SQL layer
  \<open>db/\<close>, everything but the operations named above; row-level security; the writes of
  \<open>awardInstitutionBadges\<close>, which are one statement that may fail, and of the recovery enrollment of
  \<open>resolveLearningScope\<close>; driver errors of the phase writes. Of \<open>tools/\<close>, everything but the recording of
  answers and the replay protection. The HTTP and HTML handlers (\<open>clientapi/\<close>, \<open>adminapi/\<close>, \<open>main.go\<close>), the
  OAuth endpoints, JWT and mail, the scheduler and its webhooks, the file-based memory, logging and metrics.
\<close>

end
